(* ===== verification/Prelude.thy ===== *)
theory Prelude
  imports Main
begin

text \<open>
  What every component shares: the state-and-exception type of a request handler with a
  weakest-precondition calculus for it, the rows of a table kept as a list in insertion order,
  the JSON values the programs exchange, and the theorem collections the component proofs use.
\<close>

section \<open>Collections\<close>

named_theorems wp_simps "weakest preconditions of the primitive steps"
named_theorems row_simps "reads of a table after a write"
named_theorems frame_simps "parts of the state an operation leaves alone"

section \<open>Handlers: state passing with exceptions\<close>

text \<open>
  A handler takes the state to a result and the next state. The failures are the ways a Python
  handler of these programs ends early: an \<open>HTTPException\<close> with its status code and detail, an
  \<open>IntegrityError\<close> of the database, or an exception nobody handles (a crash, answered 500).
\<close>

datatype failure =
    Http nat string
  | Integrity
  | Crash string

text \<open>A program over state \<open>'s\<close> with exceptions \<open>'e\<close>; a handler is one whose exceptions are failures.\<close>

type_synonym ('s, 'e, 'a) prog = "'s \<Rightarrow> ('e + 'a) \<times> 's"

type_synonym ('s, 'a) handler = "('s, failure, 'a) prog"

definition ret :: "'a \<Rightarrow> ('s, 'e, 'a) prog" where
  "ret a = (\<lambda>s. (Inr a, s))"

definition raise :: "'e \<Rightarrow> ('s, 'e, 'a) prog" where
  "raise e = (\<lambda>s. (Inl e, s))"

definition andThen :: "('s, 'e, 'a) prog \<Rightarrow> ('a \<Rightarrow> ('s, 'e, 'b) prog) \<Rightarrow> ('s, 'e, 'b) prog" where
  "andThen m f = (\<lambda>s. case m s of (Inl e, t) \<Rightarrow> (Inl e, t) | (Inr a, t) \<Rightarrow> f a t)"

text \<open>\<open>if not b: raise e\<close>, and reading an attribute of a value that may be \<open>None\<close>.\<close>

definition require :: "bool \<Rightarrow> 'e \<Rightarrow> ('s, 'e, unit) prog" where
  "require b e = (if b then ret () else raise e)"

definition need :: "'a option \<Rightarrow> 'e \<Rightarrow> ('s, 'e, 'a) prog" where
  "need x e = (case x of None \<Rightarrow> raise e | Some a \<Rightarrow> ret a)"

text \<open>A list comprehension whose body reads the state: the elements in order.\<close>

fun mapM :: "('a \<Rightarrow> ('s, 'e, 'b) prog) \<Rightarrow> 'a list \<Rightarrow> ('s, 'e, 'b list) prog" where
  "mapM f [] = ret []"
| "mapM f (x # xs) = andThen (f x) (\<lambda>y. andThen (mapM f xs) (\<lambda>ys. ret (y # ys)))"

subsection \<open>Weakest preconditions\<close>

definition wp :: "('s, 'e, 'a) prog \<Rightarrow> ('a \<Rightarrow> 's \<Rightarrow> bool) \<Rightarrow> ('e \<Rightarrow> 's \<Rightarrow> bool) \<Rightarrow> 's \<Rightarrow> bool" where
  "wp m Q R s = (case m s of (Inl e, t) \<Rightarrow> R e t | (Inr a, t) \<Rightarrow> Q a t)"

lemma wp_ret [wp_simps]: "wp (ret a) Q R s = Q a s"
  by (simp add: wp_def ret_def)

lemma wp_raise [wp_simps]: "wp (raise e) Q R s = R e s"
  by (simp add: wp_def raise_def)

lemma wp_andThen [wp_simps]: "wp (andThen m f) Q R s = wp m (\<lambda>a. wp (f a) Q R) R s"
  by (simp add: wp_def andThen_def split: prod.split sum.split)

lemma wp_require [wp_simps]: "wp (require b e) Q R s = (if b then Q () s else R e s)"
  by (simp add: require_def wp_simps)

lemma wp_need [wp_simps]:
  "wp (need x e) Q R s = (case x of None \<Rightarrow> R e s | Some a \<Rightarrow> Q a s)"
  by (simp add: need_def wp_simps split: option.split)

lemma wp_if [wp_simps]:
  "wp (if b then m else n) Q R s = (if b then wp m Q R s else wp n Q R s)"
  by simp

lemma wp_case_option [wp_simps]:
  "wp (case x of None \<Rightarrow> m | Some a \<Rightarrow> f a) Q R s
     = (case x of None \<Rightarrow> wp m Q R s | Some a \<Rightarrow> wp (f a) Q R s)"
  by (simp split: option.split)

lemma wp_case_prod [wp_simps]:
  "wp (case x of (a, b) \<Rightarrow> f a b) Q R s = (case x of (a, b) \<Rightarrow> wp (f a b) Q R s)"
  by (simp split: prod.split)

lemma wp_mono:
  assumes "wp m Q R s"
    and "\<And>a t. Q a t \<Longrightarrow> Q' a t"
    and "\<And>e t. R e t \<Longrightarrow> R' e t"
  shows "wp m Q' R' s"
  using assms by (auto simp: wp_def split: prod.splits sum.splits)

lemma wp_then:
  assumes "wp m A B s" and "\<And>a t. A a t \<Longrightarrow> wp (f a) Q R t" and "\<And>e t. B e t \<Longrightarrow> R e t"
  shows "wp (andThen m f) Q R s"
  unfolding wp_andThen using assms by (rule wp_mono)

lemma wp_fun:
  "wp (andThen m f) Q R = (\<lambda>s. wp m (\<lambda>a. wp (f a) Q R) R s)" "wp (ret a) Q R = Q a"
  by (simp_all add: fun_eq_iff wp_simps)

lemma wp_conj:
  "wp m (\<lambda>a t. Q a t \<and> Q' a t) (\<lambda>e t. R e t \<and> R' e t) s = (wp m Q R s \<and> wp m Q' R' s)"
  by (auto simp: wp_def split: prod.splits sum.splits)

lemma wp_Inr: "wp m Q R s \<Longrightarrow> m s = (Inr a, t) \<Longrightarrow> Q a t"
  by (simp add: wp_def)

lemma wp_Inl: "wp m Q R s \<Longrightarrow> m s = (Inl e, t) \<Longrightarrow> R e t"
  by (simp add: wp_def)

subsection \<open>Normal forms\<close>

lemma andThen_ret [simp]: "andThen (ret a) f = f a"
  by (simp add: andThen_def ret_def)

lemma andThen_raise [simp]: "andThen (raise x) f = raise x"
  by (simp add: andThen_def raise_def)

lemma andThen_right [simp]: "andThen m ret = m"
  by (rule ext) (simp add: andThen_def ret_def split: prod.split sum.split)

lemma andThen_assoc [simp]: "andThen (andThen m f) g = andThen m (\<lambda>a. andThen (f a) g)"
  by (rule ext) (simp add: andThen_def split: prod.split sum.split)

lemma andThen_if [simp]:
  "andThen (if b then m else n) f = (if b then andThen m f else andThen n f)"
  by simp

lemma andThen_option [simp]:
  "andThen (case x of None \<Rightarrow> m | Some a \<Rightarrow> h a) f
     = (case x of None \<Rightarrow> andThen m f | Some a \<Rightarrow> andThen (h a) f)"
  by (simp split: option.split)

subsection \<open>Handling an exception\<close>

definition handling :: "('s, 'e, 'a) prog \<Rightarrow> ('e \<Rightarrow> ('s, 'e, 'a) prog) \<Rightarrow> ('s, 'e, 'a) prog" where
  "handling m h = (\<lambda>s. case m s of (Inl e, t) \<Rightarrow> h e t | (Inr a, t) \<Rightarrow> (Inr a, t))"

lemma wp_handling [wp_simps]: "wp (handling m h) Q R s = wp m Q (\<lambda>e. wp (h e) Q R) s"
  by (simp add: wp_def handling_def split: prod.split sum.split)

subsection \<open>Invariants and faults of a program\<close>

text \<open>\<open>safe I m\<close>: from a state with \<open>I\<close> the program only ends, in a value or a fault, with \<open>I\<close>.\<close>

definition safe :: "('s \<Rightarrow> bool) \<Rightarrow> ('s, 'e, 'a) prog \<Rightarrow> bool" where
  "safe I m \<longleftrightarrow> (\<forall>s. I s \<longrightarrow> wp m (\<lambda>_. I) (\<lambda>_. I) s)"

named_theorems safe_rules "introduction rules of the judgement safe"

lemma safe_ret [safe_rules]: "safe I (ret a)"
  by (simp add: safe_def wp_simps)

lemma safe_raise [safe_rules]: "safe I (raise f)"
  by (simp add: safe_def wp_simps)

lemma safe_andThen [safe_rules]: "safe I m \<Longrightarrow> (\<And>a. safe I (f a)) \<Longrightarrow> safe I (andThen m f)"
  by (auto simp: safe_def wp_andThen elim!: wp_mono)

lemma safe_handling [safe_rules]: "safe I m \<Longrightarrow> (\<And>f. safe I (h f)) \<Longrightarrow> safe I (handling m h)"
  by (auto simp: safe_def wp_handling elim!: wp_mono)

lemma safe_require [safe_rules]: "safe I (require b f)"
  by (simp add: require_def safe_rules)

lemma safe_need [safe_rules]: "safe I (need x f)"
  by (simp add: need_def safe_rules split: option.split)

lemma safe_if [safe_rules]: "safe I m \<Longrightarrow> safe I n \<Longrightarrow> safe I (if b then m else n)"
  by simp

lemma safe_option [safe_rules]:
  "safe I m \<Longrightarrow> (\<And>a. safe I (f a)) \<Longrightarrow> safe I (case x of None \<Rightarrow> m | Some a \<Rightarrow> f a)"
  by (simp split: option.split)

lemma wp_skip: "(\<And>a t. wp (f a) Q (\<lambda>_ _. True) t) \<Longrightarrow> wp (andThen m f) Q (\<lambda>_ _. True) s"
  by (simp add: wp_andThen) (simp add: wp_def split: prod.split sum.split)

lemma wp_part:
  assumes "safe I m" and "I s" and "\<And>a t. I t \<Longrightarrow> wp (f a) Q (\<lambda>_. I) t"
  shows "wp (andThen m f) Q (\<lambda>_. I) s"
  using assms by (auto simp: safe_def wp_andThen elim!: wp_mono)

lemma wp_prefix:
  assumes "safe I m" and "I s" and "\<And>a t. I t \<Longrightarrow> wp (f a) Q R t" and "\<And>x t. I t \<Longrightarrow> R x t"
  shows "wp (andThen m f) Q R s"
  using assms by (auto simp: safe_def wp_andThen elim!: wp_mono)

text \<open>The faults a program can end with.\<close>

definition fails_in :: "('e \<Rightarrow> bool) \<Rightarrow> ('s, 'e, 'a) prog \<Rightarrow> bool" where
  "fails_in F m \<longleftrightarrow> (\<forall>s. wp m (\<lambda>_ _. True) (\<lambda>f _. F f) s)"

named_theorems fail_rules "introduction rules of the judgement fails_in"

lemma fails_basic [fail_rules]:
  "fails_in F (ret a)" "F f \<Longrightarrow> fails_in F (raise f)"
  "F f \<Longrightarrow> fails_in F (require b f)" "F f \<Longrightarrow> fails_in F (need x f)"
  by (simp_all add: fails_in_def wp_simps split: option.split)

lemma fails_andThen [fail_rules]:
  "fails_in F m \<Longrightarrow> (\<And>a. fails_in F (f a)) \<Longrightarrow> fails_in F (andThen m f)"
  unfolding fails_in_def wp_andThen by (blast intro: wp_mono)

lemma fails_handling:
  "fails_in G m \<Longrightarrow> (\<And>f. G f \<Longrightarrow> fails_in F (h f)) \<Longrightarrow> fails_in F (handling m h)"
  unfolding fails_in_def wp_handling by (blast intro: wp_mono)

lemma fails_if [fail_rules]: "fails_in F m \<Longrightarrow> fails_in F n \<Longrightarrow> fails_in F (if b then m else n)"
  by simp

lemma fails_any: "fails_in (\<lambda>_. True) m"
  by (simp add: fails_in_def wp_def split: prod.split sum.split)

lemma fails_inD: "fails_in (\<lambda>f. f \<noteq> x) m \<Longrightarrow> wp m (\<lambda>_ _. True) (\<lambda>f t. f = x \<longrightarrow> R f t) s"
  by (auto simp: fails_in_def elim!: wp_mono [of m])

section \<open>Tables\<close>

text \<open>
  A table is the list of its rows in insertion order. \<open>session.get(Model, k)\<close> is the row with
  primary key \<open>k\<close>; writing attributes of a mapped object replaces the row with its key.
\<close>

definition row_get :: "('r \<Rightarrow> 'k) \<Rightarrow> 'k \<Rightarrow> 'r list \<Rightarrow> 'r option" where
  "row_get key k rows = find (\<lambda>r. key r = k) rows"

definition row_put :: "('r \<Rightarrow> 'k) \<Rightarrow> 'r \<Rightarrow> 'r list \<Rightarrow> 'r list" where
  "row_put key r rows = map (\<lambda>x. if key x = key r then r else x) rows"

lemma row_get_key: "row_get key k rows = Some r \<Longrightarrow> key r = k"
  by (auto simp: row_get_def find_Some_iff)

lemma row_get_mem: "row_get key k rows = Some r \<Longrightarrow> r \<in> set rows"
  by (auto simp: row_get_def find_Some_iff)

lemma row_get_None: "row_get key k rows = None \<longleftrightarrow> k \<notin> key ` set rows"
  by (auto simp: row_get_def find_None_iff)

lemma row_get_distinct:
  "distinct (map key rows) \<Longrightarrow> r \<in> set rows \<Longrightarrow> row_get key (key r) rows = Some r"
  by (induction rows) (auto simp: row_get_def)

lemma row_get_append [row_simps]:
  "row_get key k (rows @ [r]) =
     (case row_get key k rows of None \<Rightarrow> (if key r = k then Some r else None) | Some x \<Rightarrow> Some x)"
  by (induction rows) (auto simp: row_get_def)

lemma row_get_put [row_simps]:
  "row_get key k (row_put key r rows) =
     (if key r = k then map_option (\<lambda>_. r) (row_get key k rows) else row_get key k rows)"
  by (induction rows) (auto simp: row_get_def row_put_def)

lemma map_key_row_put [row_simps]: "map key (row_put key r rows) = map key rows"
  by (auto simp: row_put_def)

lemma row_put_mem: "x \<in> set (row_put key r rows) \<Longrightarrow> x = r \<or> (x \<in> set rows \<and> key x \<noteq> key r)"
  by (auto simp: row_put_def split: if_splits)

lemma set_row_put:
  "key r \<in> key ` set rows \<Longrightarrow> set (row_put key r rows) = insert r {x \<in> set rows. key x \<noteq> key r}"
  by (auto simp: row_put_def image_iff)

section \<open>JSON values\<close>

datatype json =
    JNull
  | JBool bool
  | JInt int
  | JStr string
  | JArr "json list"
  | JObj "(string \<times> json) list"

text \<open>Reading a key of a dictionary; \<open>None\<close> is Python's \<open>KeyError\<close> (or a value with no keys).\<close>

fun jget :: "json \<Rightarrow> string \<Rightarrow> json option" where
  "jget (JObj kvs) k = map_of kvs k"
| "jget _ _ = None"

fun jstr_opt :: "string option \<Rightarrow> json" where
  "jstr_opt None = JNull"
| "jstr_opt (Some x) = JStr x"

section \<open>Text\<close>

text \<open>\<open>str.upper\<close> on ASCII letters.\<close>

definition upper_char :: "char \<Rightarrow> char" where
  "upper_char c = (if 97 \<le> (of_char c :: nat) \<and> of_char c \<le> (122 :: nat)
     then char_of (of_char c - 32 :: nat) else c)"

definition upper :: "string \<Rightarrow> string" where
  "upper s = map upper_char s"

end
