(* ===== verification/Registry_Model.thy ===== *)
theory Registry_Model
  imports Prelude
begin

text \<open>
  The registration server's database (registration-server/app/models.py and the two migrations):
  one record type per table, the tables of the database, the constraints the schema declares,
  and the session interface (\<open>get\<close>, \<open>add\<close>, attribute writes) as a locale that every table
  interprets. Times are microseconds since the epoch.
\<close>

section \<open>Rows\<close>

datatype status =
    PENDING | ACTIVATION_REQUIRED | ACTIVE | SUSPENDED | REVOKED | EXPIRED | HARDWARE_MISMATCH

datatype kind = PERPETUAL | SUBSCRIPTION | RENTAL | DEMO

fun status_name :: "status \<Rightarrow> string" where
  "status_name PENDING = ''PENDING''"
| "status_name ACTIVATION_REQUIRED = ''ACTIVATION_REQUIRED''"
| "status_name ACTIVE = ''ACTIVE''"
| "status_name SUSPENDED = ''SUSPENDED''"
| "status_name REVOKED = ''REVOKED''"
| "status_name EXPIRED = ''EXPIRED''"
| "status_name HARDWARE_MISMATCH = ''HARDWARE_MISMATCH''"

fun kind_name :: "kind \<Rightarrow> string" where
  "kind_name PERPETUAL = ''PERPETUAL''"
| "kind_name SUBSCRIPTION = ''SUBSCRIPTION''"
| "kind_name RENTAL = ''RENTAL''"
| "kind_name DEMO = ''DEMO''"

record customer =
  cu_id :: string
  cu_name :: string
  cu_contact_name :: "string option"
  cu_email :: "string option"
  cu_phone :: "string option"
  cu_email_verified :: bool
  cu_archived_at :: "int option"

record device =
  dv_id :: string
  dv_serial :: string
  dv_model :: string
  dv_firmware :: string
  dv_display_name :: "string option"
  dv_notes :: "string option"
  dv_archived_at :: "int option"
  dv_status :: status
  dv_customer_id :: "string option"
  dv_last_seen :: "int option"
  dv_created_at :: int

record installation =
  in_id :: string
  in_device_id :: string
  in_current :: bool
  in_created_at :: int

record device_key =
  ke_id :: string
  ke_installation_id :: string
  ke_public_key :: string
  ke_current :: bool

record license =
  li_id :: string
  li_customer_id :: string
  li_kind :: kind
  li_status :: status
  li_max_devices :: int
  li_issued_at :: int
  li_expires_at :: "int option"
  li_last_validated_at :: "int option"

record license_binding =
  lb_device_id :: string
  lb_license_id :: string

record activation_token =
  at_id :: string
  at_token_hash :: string
  at_device_id :: string
  at_installation_id :: string
  at_key_id :: string
  at_license_id :: string
  at_expires_at :: int
  at_used_at :: "int option"

record challenge_row =
  ch_id :: string
  ch_device_id :: string
  ch_installation_id :: string
  ch_key_id :: string
  ch_serial :: string
  ch_purpose :: string
  ch_message :: string
  ch_expires_at :: int
  ch_used_at :: "int option"

record device_session_row =
  ds_token_hash :: string
  ds_device_id :: string
  ds_installation_id :: string
  ds_key_id :: string
  ds_expires_at :: int

record registration_event =
  re_id :: string
  re_device_id :: "string option"
  re_kind :: string
  re_detail :: json
  re_created_at :: int

record audit_log =
  au_id :: string
  au_actor :: string
  au_action :: string
  au_target :: string
  au_detail :: json
  au_created_at :: int

record administrator =
  ad_id :: string
  ad_name :: string
  ad_token_hash :: string
  ad_role :: string
  ad_active :: bool
  ad_expires_at :: int

section \<open>The database\<close>

record db =
  customers :: "customer list"
  devices :: "device list"
  installations :: "installation list"
  device_keys :: "device_key list"
  licenses :: "license list"
  license_bindings :: "license_binding list"
  activation_tokens :: "activation_token list"
  challenges :: "challenge_row list"
  device_sessions :: "device_session_row list"
  registration_events :: "registration_event list"
  audit_logs :: "audit_log list"
  administrators :: "administrator list"

definition empty_db :: db where
  "empty_db = \<lparr>customers = [], devices = [], installations = [], device_keys = [], licenses = [],
     license_bindings = [], activation_tokens = [], challenges = [], device_sessions = [],
     registration_events = [], audit_logs = [], administrators = []\<rparr>"

subsection \<open>Reads and writes of mapped objects\<close>

definition get_customer :: "db \<Rightarrow> string \<Rightarrow> customer option" where
  "get_customer d k = row_get cu_id k (customers d)"

definition get_device_row :: "db \<Rightarrow> string \<Rightarrow> device option" where
  "get_device_row d k = row_get dv_id k (devices d)"

definition get_installation :: "db \<Rightarrow> string \<Rightarrow> installation option" where
  "get_installation d k = row_get in_id k (installations d)"

definition get_key :: "db \<Rightarrow> string \<Rightarrow> device_key option" where
  "get_key d k = row_get ke_id k (device_keys d)"

definition get_license :: "db \<Rightarrow> string \<Rightarrow> license option" where
  "get_license d k = row_get li_id k (licenses d)"

definition get_binding :: "db \<Rightarrow> string \<Rightarrow> license_binding option" where
  "get_binding d k = row_get lb_device_id k (license_bindings d)"

definition get_token :: "db \<Rightarrow> string \<Rightarrow> activation_token option" where
  "get_token d k = row_get at_id k (activation_tokens d)"

definition get_challenge :: "db \<Rightarrow> string \<Rightarrow> challenge_row option" where
  "get_challenge d k = row_get ch_id k (challenges d)"

definition get_session :: "db \<Rightarrow> string \<Rightarrow> device_session_row option" where
  "get_session d k = row_get ds_token_hash k (device_sessions d)"

definition put_customer :: "customer \<Rightarrow> db \<Rightarrow> db" where
  "put_customer r d = d\<lparr>customers := row_put cu_id r (customers d)\<rparr>"

definition put_device :: "device \<Rightarrow> db \<Rightarrow> db" where
  "put_device r d = d\<lparr>devices := row_put dv_id r (devices d)\<rparr>"

definition put_installation :: "installation \<Rightarrow> db \<Rightarrow> db" where
  "put_installation r d = d\<lparr>installations := row_put in_id r (installations d)\<rparr>"

definition put_key :: "device_key \<Rightarrow> db \<Rightarrow> db" where
  "put_key r d = d\<lparr>device_keys := row_put ke_id r (device_keys d)\<rparr>"

definition put_license :: "license \<Rightarrow> db \<Rightarrow> db" where
  "put_license r d = d\<lparr>licenses := row_put li_id r (licenses d)\<rparr>"

definition put_token :: "activation_token \<Rightarrow> db \<Rightarrow> db" where
  "put_token r d = d\<lparr>activation_tokens := row_put at_id r (activation_tokens d)\<rparr>"

definition put_challenge :: "challenge_row \<Rightarrow> db \<Rightarrow> db" where
  "put_challenge r d = d\<lparr>challenges := row_put ch_id r (challenges d)\<rparr>"

definition add_customer :: "customer \<Rightarrow> db \<Rightarrow> db" where
  "add_customer r d = d\<lparr>customers := customers d @ [r]\<rparr>"

definition add_device :: "device \<Rightarrow> db \<Rightarrow> db" where
  "add_device r d = d\<lparr>devices := devices d @ [r]\<rparr>"

definition add_installation :: "installation \<Rightarrow> db \<Rightarrow> db" where
  "add_installation r d = d\<lparr>installations := installations d @ [r]\<rparr>"

definition add_key :: "device_key \<Rightarrow> db \<Rightarrow> db" where
  "add_key r d = d\<lparr>device_keys := device_keys d @ [r]\<rparr>"

definition add_license :: "license \<Rightarrow> db \<Rightarrow> db" where
  "add_license r d = d\<lparr>licenses := licenses d @ [r]\<rparr>"

definition add_binding :: "license_binding \<Rightarrow> db \<Rightarrow> db" where
  "add_binding r d = d\<lparr>license_bindings := license_bindings d @ [r]\<rparr>"

definition add_token :: "activation_token \<Rightarrow> db \<Rightarrow> db" where
  "add_token r d = d\<lparr>activation_tokens := activation_tokens d @ [r]\<rparr>"

definition add_challenge :: "challenge_row \<Rightarrow> db \<Rightarrow> db" where
  "add_challenge r d = d\<lparr>challenges := challenges d @ [r]\<rparr>"

definition add_session :: "device_session_row \<Rightarrow> db \<Rightarrow> db" where
  "add_session r d = d\<lparr>device_sessions := device_sessions d @ [r]\<rparr>"

definition add_event :: "registration_event \<Rightarrow> db \<Rightarrow> db" where
  "add_event r d = d\<lparr>registration_events := registration_events d @ [r]\<rparr>"

definition add_audit :: "audit_log \<Rightarrow> db \<Rightarrow> db" where
  "add_audit r d = d\<lparr>audit_logs := audit_logs d @ [r]\<rparr>"

definition delete_binding :: "license_binding \<Rightarrow> db \<Rightarrow> db" where
  "delete_binding r d = d\<lparr>license_bindings :=
     filter (\<lambda>b. lb_device_id b \<noteq> lb_device_id r) (license_bindings d)\<rparr>"

lemmas write_defs =
  put_customer_def put_device_def put_installation_def put_key_def put_license_def put_token_def
  put_challenge_def add_customer_def add_device_def add_installation_def add_key_def
  add_license_def add_binding_def add_token_def add_challenge_def add_session_def add_event_def
  add_audit_def delete_binding_def

lemmas get_defs =
  get_customer_def get_device_row_def get_installation_def get_key_def get_license_def
  get_binding_def get_token_def get_challenge_def get_session_def

section \<open>The constraints of the schema\<close>

definition unique_columns :: "db \<Rightarrow> bool" where
  "unique_columns d \<longleftrightarrow>
     distinct (map cu_id (customers d)) \<and>
     distinct (map dv_id (devices d)) \<and> distinct (map dv_serial (devices d)) \<and>
     distinct (map in_id (installations d)) \<and>
     distinct (map ke_id (device_keys d)) \<and> distinct (map ke_public_key (device_keys d)) \<and>
     distinct (map li_id (licenses d)) \<and>
     distinct (map lb_device_id (license_bindings d)) \<and>
     distinct (map at_id (activation_tokens d)) \<and>
     distinct (map at_token_hash (activation_tokens d)) \<and>
     distinct (map ch_id (challenges d)) \<and>
     distinct (map ds_token_hash (device_sessions d)) \<and>
     distinct (map re_id (registration_events d)) \<and>
     distinct (map au_id (audit_logs d)) \<and>
     distinct (map ad_id (administrators d)) \<and> distinct (map ad_name (administrators d)) \<and>
     distinct (map ad_token_hash (administrators d))"

definition one_current_installation :: "db \<Rightarrow> bool" where
  "one_current_installation d \<longleftrightarrow> distinct (map in_device_id (filter in_current (installations d)))"

definition one_current_key :: "db \<Rightarrow> bool" where
  "one_current_key d \<longleftrightarrow> distinct (map ke_installation_id (filter ke_current (device_keys d)))"

definition license_checks :: "license \<Rightarrow> bool" where
  "license_checks l \<longleftrightarrow>
     li_status l \<in> {ACTIVE, SUSPENDED, REVOKED} \<and> 1 \<le> li_max_devices l \<and>
     (li_kind l = PERPETUAL \<or> li_expires_at l \<noteq> None)"

definition foreign_keys :: "db \<Rightarrow> bool" where
  "foreign_keys d \<longleftrightarrow>
     (\<forall>x \<in> set (devices d).
        case dv_customer_id x of None \<Rightarrow> True | Some c \<Rightarrow> c \<in> cu_id ` set (customers d)) \<and>
     (\<forall>x \<in> set (installations d). in_device_id x \<in> dv_id ` set (devices d)) \<and>
     (\<forall>x \<in> set (device_keys d). ke_installation_id x \<in> in_id ` set (installations d)) \<and>
     (\<forall>x \<in> set (licenses d). li_customer_id x \<in> cu_id ` set (customers d)) \<and>
     (\<forall>x \<in> set (license_bindings d). lb_device_id x \<in> dv_id ` set (devices d) \<and>
        lb_license_id x \<in> li_id ` set (licenses d)) \<and>
     (\<forall>x \<in> set (activation_tokens d). at_device_id x \<in> dv_id ` set (devices d) \<and>
        at_installation_id x \<in> in_id ` set (installations d) \<and>
        at_key_id x \<in> ke_id ` set (device_keys d) \<and> at_license_id x \<in> li_id ` set (licenses d)) \<and>
     (\<forall>x \<in> set (challenges d). ch_device_id x \<in> dv_id ` set (devices d) \<and>
        ch_installation_id x \<in> in_id ` set (installations d) \<and>
        ch_key_id x \<in> ke_id ` set (device_keys d)) \<and>
     (\<forall>x \<in> set (device_sessions d). ds_device_id x \<in> dv_id ` set (devices d) \<and>
        ds_installation_id x \<in> in_id ` set (installations d) \<and>
        ds_key_id x \<in> ke_id ` set (device_keys d)) \<and>
     (\<forall>x \<in> set (registration_events d).
        case re_device_id x of None \<Rightarrow> True | Some v \<Rightarrow> v \<in> dv_id ` set (devices d))"

definition integrity :: "db \<Rightarrow> bool" where
  "integrity d \<longleftrightarrow> unique_columns d \<and> one_current_installation d \<and> one_current_key d \<and>
     list_all license_checks (licenses d) \<and> foreign_keys d"

lemma integrity_empty: "integrity empty_db"
  by (simp add: integrity_def unique_columns_def one_current_installation_def one_current_key_def
      foreign_keys_def empty_db_def)

section \<open>The session interface\<close>

text \<open>
  What a handler relies on when it reads, adds and changes the objects of one table: the identity
  of a row is its key, an added row is found unless its key is taken, and a written row is what a
  later read of its key returns.
\<close>

locale table =
  fixes key :: "'r \<Rightarrow> 'k"
    and get :: "'d \<Rightarrow> 'k \<Rightarrow> 'r option"
    and put :: "'r \<Rightarrow> 'd \<Rightarrow> 'd"
    and add :: "'r \<Rightarrow> 'd \<Rightarrow> 'd"
  assumes get_key: "get d k = Some r \<Longrightarrow> key r = k"
    and get_put: "get (put r d) k = (if key r = k then map_option (\<lambda>_. r) (get d k) else get d k)"
    and get_add: "get (add r d) k =
          (case get d k of None \<Rightarrow> (if key r = k then Some r else None) | Some x \<Rightarrow> Some x)"
begin

lemma put_same: "get d k = Some r0 \<Longrightarrow> key r = k \<Longrightarrow> get (put r d) k = Some r"
  by (simp add: get_put)

lemma put_other: "key r \<noteq> k \<Longrightarrow> get (put r d) k = get d k"
  by (simp add: get_put)

lemma add_same: "get d (key r) = None \<Longrightarrow> get (add r d) (key r) = Some r"
  by (simp add: get_add)

lemma add_keeps: "get d k = Some x \<Longrightarrow> get (add r d) k = Some x"
  by (simp add: get_add)

lemma put_present: "get (put r d) k = None \<longleftrightarrow> get d k = None"
  by (simp add: get_put)

lemma put_idem: "get (put r (put r' d)) k = get (put r d) k" if "key r = key r'"
  using that by (cases "get d k") (simp_all add: get_put)

end

interpretation cust: table cu_id get_customer put_customer add_customer
  by unfold_locales (auto simp: get_defs write_defs row_simps dest: row_get_key)

interpretation dev: table dv_id get_device_row put_device add_device
  by unfold_locales (auto simp: get_defs write_defs row_simps dest: row_get_key)

interpretation inst: table in_id get_installation put_installation add_installation
  by unfold_locales (auto simp: get_defs write_defs row_simps dest: row_get_key)

interpretation dkey: table ke_id get_key put_key add_key
  by unfold_locales (auto simp: get_defs write_defs row_simps dest: row_get_key)

interpretation lic: table li_id get_license put_license add_license
  by unfold_locales (auto simp: get_defs write_defs row_simps dest: row_get_key)

interpretation tok: table at_id get_token put_token add_token
  by unfold_locales (auto simp: get_defs write_defs row_simps dest: row_get_key)

interpretation chal: table ch_id get_challenge put_challenge add_challenge
  by unfold_locales (auto simp: get_defs write_defs row_simps dest: row_get_key)

end
