(* ===== verification/Encoding.thy ===== *)
theory Encoding
  imports Prelude "HOL-Library.Char_ord" "HOL-Library.List_Lexorder"
begin

text \<open>
  The text encodings both programs sign and exchange: base64 (\<open>base64.b64encode\<close> and
  \<open>b64decode(validate=True)\<close>), and the canonical JSON of registration-server/app/crypto.py and
  device-registration/client.py (\<open>json.dumps\<close> with sorted keys, compact separators and ASCII
  escapes). A byte is a character, a text a list of characters with code points below 256.
\<close>

section \<open>Base64\<close>

definition b64_alphabet :: string where
  "b64_alphabet = ''ABCDEFGHIJKLMNOPQRSTUVWXYZabcdefghijklmnopqrstuvwxyz0123456789+/''"

definition b64_chr :: "nat \<Rightarrow> char" where
  "b64_chr n = b64_alphabet ! n"

definition b64_val :: "char \<Rightarrow> nat option" where
  "b64_val c = map_of (zip b64_alphabet [0..<64]) c"

definition pad :: char where
  "pad = CHR ''=''"

fun b64encode :: "string \<Rightarrow> string" where
  "b64encode [] = []"
| "b64encode [a] =
     (let x = (of_char a :: nat) in [b64_chr (x div 4), b64_chr (x mod 4 * 16), pad, pad])"
| "b64encode [a, b] =
     (let x = (of_char a :: nat); y = (of_char b :: nat)
      in [b64_chr (x div 4), b64_chr (x mod 4 * 16 + y div 16), b64_chr (y mod 16 * 4), pad])"
| "b64encode (a # b # c # rest) =
     (let x = (of_char a :: nat); y = (of_char b :: nat); z = (of_char c :: nat)
      in [b64_chr (x div 4), b64_chr (x mod 4 * 16 + y div 16),
          b64_chr (y mod 16 * 4 + z div 64), b64_chr (z mod 64)] @ b64encode rest)"

text \<open>
  Decoding reads quads; only the last one may be padded, and the unused low bits of its last
  data character are ignored, as \<open>binascii.a2b_base64\<close> ignores them.
\<close>

fun b64_quad :: "char \<Rightarrow> char \<Rightarrow> char \<Rightarrow> char \<Rightarrow> string option" where
  "b64_quad a b c d =
     (case (b64_val a, b64_val b, b64_val c, b64_val d) of
        (Some i, Some j, Some k, Some l) \<Rightarrow>
          Some [char_of (i * 4 + j div 16), char_of (j mod 16 * 16 + k div 4),
                char_of (k mod 4 * 64 + l)]
      | _ \<Rightarrow> None)"

fun b64_last :: "char \<Rightarrow> char \<Rightarrow> char \<Rightarrow> string option" where
  "b64_last a b c =
     (if c = pad then
        (case (b64_val a, b64_val b) of
           (Some i, Some j) \<Rightarrow> Some [char_of (i * 4 + j div 16)] | _ \<Rightarrow> None)
      else
        (case (b64_val a, b64_val b, b64_val c) of
           (Some i, Some j, Some k) \<Rightarrow>
             Some [char_of (i * 4 + j div 16), char_of (j mod 16 * 16 + k div 4)]
         | _ \<Rightarrow> None))"

fun b64decode :: "string \<Rightarrow> string option" where
  "b64decode [] = Some []"
| "b64decode (a # b # c # d # rest) =
     (if d = pad \<and> rest = [] then b64_last a b c
      else case b64_quad a b c d of None \<Rightarrow> None
        | Some xs \<Rightarrow> map_option (\<lambda>ys. xs @ ys) (b64decode rest))"
| "b64decode _ = None"

lemma b64_alphabet_length: "length b64_alphabet = 64"
  by (simp add: b64_alphabet_def)

lemma b64_alphabet_distinct: "distinct b64_alphabet"
  by (simp add: b64_alphabet_def)

lemma b64_val_chr [simp]: "n < 64 \<Longrightarrow> b64_val (b64_chr n) = Some n"
  unfolding b64_val_def b64_chr_def
  by (rule map_of_zip_nth [where ys = "[0..<64]" and i = n, simplified])
     (simp_all add: b64_alphabet_length b64_alphabet_distinct)

lemma b64_chr_pad: "n < 64 \<Longrightarrow> b64_chr n \<noteq> pad"
proof
  assume "n < 64" and "b64_chr n = pad"
  then have "pad \<in> set b64_alphabet"
    using nth_mem [of n b64_alphabet] by (simp add: b64_chr_def b64_alphabet_length)
  then show False by (simp add: pad_def b64_alphabet_def)
qed

lemma of_char_256 [simp]: "(of_char c :: nat) < 256"
  using nat_of_char_less_256 [of c] by simp

lemma b64_parts:
  fixes x y z :: nat
  assumes "x < 256" "y < 256" "z < 256"
  shows "x div 4 < 64" "x mod 4 * 16 < 64" "x mod 4 * 16 + y div 16 < 64"
    "y mod 16 * 4 < 64" "y mod 16 * 4 + z div 64 < 64" "z mod 64 < 64"
  using assms by simp_all

lemma b64_small:
  fixes c :: char
  shows "(of_char c :: nat) div 16 div 16 = 0"
    "(of_char c :: nat) div 16 mod 16 = of_char c div 16"
    "(of_char c :: nat) div 16 * 16 + of_char c mod 16 = of_char c"
    "(of_char c :: nat) div 64 div 4 = 0"
    "(of_char c :: nat) div 64 mod 4 = of_char c div 64"
    "(of_char c :: nat) div 64 * 64 + of_char c mod 64 = of_char c"
    "(of_char c :: nat) div 4 * 4 + of_char c mod 4 = of_char c"
proof -
  have "(of_char c :: nat) div 16 < 16" and "(of_char c :: nat) div 64 < 4"
    using nat_of_char_less_256 [of c] by (simp_all add: less_mult_imp_div_less)
  then show "(of_char c :: nat) div 16 div 16 = 0"
    "(of_char c :: nat) div 16 mod 16 = of_char c div 16"
    "(of_char c :: nat) div 64 div 4 = 0"
    "(of_char c :: nat) div 64 mod 4 = of_char c div 64"
    by simp_all
qed simp_all

lemma b64_roundtrip: "b64decode (b64encode s) = Some s"
proof (induction s rule: b64encode.induct)
  case 1
  show ?case by simp
next
  case (2 a)
  show ?case
    using b64_parts [of "of_char a" 0 0] by (simp add: Let_def b64_small)
next
  case (3 a b)
  show ?case
    using b64_parts [of "of_char a" "of_char b" 0] by (simp add: Let_def b64_chr_pad b64_small)
next
  case (4 a b c rest)
  then show ?case
    using b64_parts [of "of_char a" "of_char b" "of_char c"]
    by (simp add: Let_def b64_chr_pad b64_small)
qed

lemma b64encode_inj: "b64encode s = b64encode t \<Longrightarrow> s = t"
  by (metis b64_roundtrip option.inject)

lemma length_b64encode: "length (b64encode s) = 4 * ((length s + 2) div 3)"
proof (induction s rule: b64encode.induct)
  case (4 a b c rest)
  have "(length rest + 5) div 3 = Suc ((length rest + 2) div 3)" by arith
  with 4 show ?case by (simp add: Let_def add.commute)
qed (simp_all add: Let_def)

lemma b64_quad_chars: "b64_quad a b c d = Some xs \<Longrightarrow> \<forall>x \<in> {a, b, c, d}. b64_val x \<noteq> None"
  by (cases "b64_val a"; cases "b64_val b"; cases "b64_val c"; cases "b64_val d") simp_all

lemma b64_last_chars: "b64_last a b c = Some xs \<Longrightarrow> \<forall>x \<in> {a, b, c}. b64_val x \<noteq> None \<or> x = pad"
  by (cases "c = pad"; cases "b64_val a"; cases "b64_val b"; cases "b64_val c") simp_all

lemma b64_chars:
  "b64decode s = Some r \<Longrightarrow> \<forall>x \<in> set s. b64_val x \<noteq> None \<or> x = pad"
proof (induction s arbitrary: r rule: b64decode.induct)
  case (2 a b c d rest)
  show ?case
  proof (cases "d = pad \<and> rest = []")
    case True
    with 2 b64_last_chars [of a b c] show ?thesis by (simp del: b64_last.simps)
  next
    case False
    with "2.prems" obtain xs ys where "b64_quad a b c d = Some xs" "b64decode rest = Some ys"
      by (auto simp del: b64_quad.simps split: option.splits)
    with "2.IH" [OF False] b64_quad_chars [of a b c d] show ?thesis by (simp del: b64_quad.simps)
  qed
qed simp_all

lemma b64_alphabet_chars:
  assumes "b64decode s = Some r"
  shows "set s \<subseteq> insert pad (set b64_alphabet)"
  using b64_chars [OF assms] by (auto simp: b64_val_def dest: map_of_SomeD set_zip_leftD)

section \<open>Canonical JSON\<close>

definition digit :: "nat \<Rightarrow> char" where
  "digit n = char_of (48 + n)"

fun nat_dec :: "nat \<Rightarrow> string" where
  "nat_dec n = (if n < 10 then [digit n] else nat_dec (n div 10) @ [digit (n mod 10)])"

declare nat_dec.simps [simp del]

definition int_dec :: "int \<Rightarrow> string" where
  "int_dec i = (if i < 0 then CHR ''-'' # nat_dec (nat (- i)) else nat_dec (nat i))"

definition hex_digit :: "nat \<Rightarrow> char" where
  "hex_digit n = (if n < 10 then char_of (48 + n) else char_of (87 + n))"

definition quote_mark :: char where
  "quote_mark = CHR 0x22"

definition backslash :: char where
  "backslash = CHR 0x5C"

text \<open>The escapes of \<open>json.dumps(..., ensure_ascii=True)\<close>.\<close>

definition escape :: "char \<Rightarrow> string" where
  "escape c =
     (if c = quote_mark then [backslash, quote_mark]
      else if c = backslash then [backslash, backslash]
      else if c = CHR 0x0A then [backslash, CHR ''n'']
      else if c = CHR 0x0D then [backslash, CHR ''r'']
      else if c = CHR 0x09 then [backslash, CHR ''t'']
      else if c = CHR 0x0C then [backslash, CHR ''f'']
      else if c = CHR 0x08 then [backslash, CHR ''b'']
      else if of_char c < (32 :: nat) \<or> 126 < (of_char c :: nat)
      then [backslash, CHR ''u'', CHR ''0'', CHR ''0'',
            hex_digit (of_char c div 16), hex_digit (of_char c mod 16)]
      else [c])"

definition quote :: "string \<Rightarrow> string" where
  "quote s = quote_mark # concat (map escape s) @ [quote_mark]"

fun items :: "char \<Rightarrow> string list \<Rightarrow> string" where
  "items close [] = [close]"
| "items close [x] = x @ [close]"
| "items close (x # y # ys) = x @ CHR '','' # items close (y # ys)"

fun render :: "json \<Rightarrow> string" where
  "render JNull = ''null''"
| "render (JBool b) = (if b then ''true'' else ''false'')"
| "render (JInt i) = int_dec i"
| "render (JStr s) = quote s"
| "render (JArr xs) = CHR ''['' # items (CHR '']'') (map render xs)"
| "render (JObj kvs) =
     CHR ''{'' # items (CHR ''}'') (map (\<lambda>(k, v). quote k @ CHR '':'' # render v) kvs)"

text \<open>\<open>sort_keys=True\<close>: every dictionary in the order of its keys.\<close>

fun jsort :: "json \<Rightarrow> json" where
  "jsort (JArr xs) = JArr (map jsort xs)"
| "jsort (JObj kvs) = JObj (sort_key fst (map (\<lambda>(k, v). (k, jsort v)) kvs))"
| "jsort v = v"

definition canonical :: "json \<Rightarrow> string" where
  "canonical v = render (jsort v)"

subsection \<open>Numbers and strings are uniquely readable\<close>

definition is_digit :: "char \<Rightarrow> bool" where
  "is_digit c \<longleftrightarrow> 48 \<le> (of_char c :: nat) \<and> of_char c < (58 :: nat)"

lemma of_char_digit [simp]: "n < 10 \<Longrightarrow> of_char (digit n) = (48 + n :: nat)"
  by (simp add: digit_def)

lemma digits_nat_dec: "c \<in> set (nat_dec n) \<Longrightarrow> is_digit c"
proof (induction n rule: nat_dec.induct)
  case (1 n)
  then show ?case
    by (cases "n < 10") (auto simp: nat_dec.simps [of n] is_digit_def)
qed

lemma nat_dec_nonempty: "nat_dec n \<noteq> []"
  by (subst nat_dec.simps) simp

definition dec_val :: "string \<Rightarrow> nat" where
  "dec_val s = foldl (\<lambda>a c. a * 10 + (of_char c - 48)) 0 s"

lemma dec_val_nat_dec: "dec_val (nat_dec n) = n"
proof (induction n rule: nat_dec.induct)
  case (1 n)
  then show ?case
    by (cases "n < 10") (simp_all add: nat_dec.simps [of n] dec_val_def)
qed

lemma nat_dec_inj: "nat_dec m = nat_dec n \<Longrightarrow> m = n"
  by (metis dec_val_nat_dec)

definition stops :: "string \<Rightarrow> bool" where
  "stops r \<longleftrightarrow> (case r of [] \<Rightarrow> True | c # _ \<Rightarrow> \<not> is_digit c)"

lemma takeWhile_nat_dec: "stops r \<Longrightarrow> takeWhile is_digit (nat_dec n @ r) = nat_dec n"
  by (cases r) (auto simp: stops_def takeWhile_append digits_nat_dec)

lemma nat_dec_prefix:
  assumes "nat_dec m @ r = nat_dec n @ r'" and "stops r" and "stops r'"
  shows "m = n \<and> r = r'"
  using assms takeWhile_nat_dec nat_dec_inj by (metis append_same_eq same_append_eq)

lemma nat_dec_head: "\<exists>c cs. nat_dec n = c # cs \<and> is_digit c"
  using digits_nat_dec nat_dec_nonempty by (metis list.exhaust list.set_intros(1))

lemma minus_not_digit [simp]: "\<not> is_digit (CHR ''-'')"
  by (simp add: is_digit_def)

lemma int_dec_prefix:
  assumes "int_dec i @ r = int_dec j @ r'" and "stops r" and "stops r'"
  shows "i = j \<and> r = r'"
proof (cases "i < 0 \<longleftrightarrow> j < 0")
  case True
  with assms have "nat_dec (nat \<bar>i\<bar>) @ r = nat_dec (nat \<bar>j\<bar>) @ r'"
    by (auto simp: int_dec_def split: if_splits)
  with assms(2,3) have "nat \<bar>i\<bar> = nat \<bar>j\<bar>" and "r = r'"
    by (blast dest: nat_dec_prefix)+
  with True show ?thesis by auto
next
  case False
  with assms(1) nat_dec_head [of "nat i"] nat_dec_head [of "nat j"] show ?thesis
    by (auto simp: int_dec_def split: if_splits)
qed

text \<open>Reading one escaped character back.\<close>

definition hex_val :: "char \<Rightarrow> nat" where
  "hex_val c = (if of_char c < (58 :: nat) then of_char c - 48 else of_char c - 87)"

definition unescape :: "string \<Rightarrow> (char \<times> string) option" where
  "unescape s = (case s of [] \<Rightarrow> None | h # t \<Rightarrow>
     (if h \<noteq> backslash then Some (h, t)
      else case t of [] \<Rightarrow> None | k # u \<Rightarrow>
        (if k = CHR ''n'' then Some (CHR 0x0A, u)
         else if k = CHR ''r'' then Some (CHR 0x0D, u)
         else if k = CHR ''t'' then Some (CHR 0x09, u)
         else if k = CHR ''f'' then Some (CHR 0x0C, u)
         else if k = CHR ''b'' then Some (CHR 0x08, u)
         else if k = CHR ''u''
         then Some (char_of (16 * hex_val (u ! 2) + hex_val (u ! 3)), drop 4 u)
         else Some (k, u))))"

lemma hex_val_digit: "n < 16 \<Longrightarrow> hex_val (hex_digit n) = n"
  by (simp add: hex_val_def hex_digit_def)

lemma hex_val_halves:
  "16 * hex_val (hex_digit (of_char c div 16)) + hex_val (hex_digit (of_char c mod 16))
     = (of_char c :: nat)"
proof -
  have "(of_char c :: nat) div 16 < 16"
    using nat_of_char_less_256 [of c] by (simp add: less_mult_imp_div_less)
  then show ?thesis by (simp add: hex_val_digit)
qed

lemma escape_control:
  "escape (CHR 0x0A) = [backslash, CHR ''n'']" "escape (CHR 0x0D) = [backslash, CHR ''r'']"
  "escape (CHR 0x09) = [backslash, CHR ''t'']" "escape (CHR 0x0C) = [backslash, CHR ''f'']"
  "escape (CHR 0x08) = [backslash, CHR ''b'']"
  by (simp_all add: escape_def quote_mark_def backslash_def)

lemma unescape_backslash:
  "unescape (backslash # k # u) =
     (if k = CHR ''n'' then Some (CHR 0x0A, u) else if k = CHR ''r'' then Some (CHR 0x0D, u)
      else if k = CHR ''t'' then Some (CHR 0x09, u) else if k = CHR ''f'' then Some (CHR 0x0C, u)
      else if k = CHR ''b'' then Some (CHR 0x08, u)
      else if k = CHR ''u''
      then Some (char_of (16 * hex_val (u ! 2) + hex_val (u ! 3)), drop 4 u)
      else Some (k, u))"
  by (simp add: unescape_def)

lemma unescape_escape: "unescape (escape c @ x) = Some (c, x)"
proof (cases "c \<in> {quote_mark, backslash, CHR 0x0A, CHR 0x0D, CHR 0x09, CHR 0x0C, CHR 0x08}")
  case True
  have "unescape (escape quote_mark @ x) = Some (quote_mark, x)"
    and "unescape (escape backslash @ x) = Some (backslash, x)"
    by (simp_all add: escape_def unescape_backslash, simp_all add: quote_mark_def backslash_def)
  with True show ?thesis
    by (auto simp: escape_control unescape_backslash)
next
  case False
  show ?thesis
  proof (cases "of_char c < (32 :: nat) \<or> 126 < (of_char c :: nat)")
    case True
    with False have "escape c = [backslash, CHR ''u'', CHR ''0'', CHR ''0'',
        hex_digit (of_char c div 16), hex_digit (of_char c mod 16)]"
      by (simp add: escape_def)
    then show ?thesis
      by (simp add: unescape_backslash numeral_2_eq_2 numeral_3_eq_3 hex_val_halves)
  next
    case printable: False
    with False have "escape c = [c]"
      by (auto simp: escape_def)
    with False show ?thesis
      by (simp add: unescape_def)
  qed
qed

lemma escape_prefix: "escape c @ x = escape d @ y \<Longrightarrow> c = d \<and> x = y"
  by (metis unescape_escape option.inject prod.inject)

lemma escape_head: "\<exists>h t. escape c = h # t \<and> h \<noteq> quote_mark"
  by (auto simp: escape_def backslash_def quote_mark_def)

lemma body_prefix:
  "concat (map escape s) @ quote_mark # x = concat (map escape t) @ quote_mark # y
     \<Longrightarrow> s = t \<and> x = y"
proof (induction s arbitrary: t)
  case Nil
  then show ?case
  proof (cases t)
    case (Cons d t')
    with Nil escape_head [of d] show ?thesis by auto
  qed simp
next
  case (Cons c s)
  show ?case
  proof (cases t)
    case Nil
    with Cons.prems escape_head [of c] show ?thesis by auto
  next
    case (Cons d t')
    with Cons.prems have "escape c @ concat (map escape s) @ quote_mark # x
        = escape d @ concat (map escape t') @ quote_mark # y"
      by simp
    then have "c = d" and "concat (map escape s) @ quote_mark # x
        = concat (map escape t') @ quote_mark # y"
      by (blast dest: escape_prefix)+
    with Cons.IH Cons show ?thesis by blast
  qed
qed

lemma quote_prefix: "quote s @ x = quote t @ y \<Longrightarrow> s = t \<and> x = y"
  unfolding quote_def using body_prefix [of s x t y] by simp

subsection \<open>Values are uniquely readable\<close>

definition tail_items :: "char \<Rightarrow> string list \<Rightarrow> string" where
  "tail_items close xs = (if xs = [] then [close] else CHR '','' # items close xs)"

lemma items_Cons: "items close (x # xs) = x @ tail_items close xs"
  by (cases xs) (simp_all add: tail_items_def)

lemma comma_not_digit [simp]: "\<not> is_digit (CHR '','')"
  by (simp add: is_digit_def)

lemma stops_tail_items: "\<not> is_digit close \<Longrightarrow> stops (tail_items close xs @ r)"
  by (simp add: tail_items_def stops_def)

lemma items_prefix:
  fixes f :: "'a \<Rightarrow> string"
  assumes one: "\<And>p q x y. p \<in> set ps \<Longrightarrow> f p @ x = f q @ y \<Longrightarrow> stops x \<Longrightarrow> stops y
        \<Longrightarrow> p = q \<and> x = y"
    and head: "\<And>p. \<exists>h t. f p = h # t \<and> h \<noteq> close"
    and close: "close \<noteq> CHR '',''" "\<not> is_digit close"
    and eq: "items close (map f ps) @ x = items close (map f qs) @ y"
  shows "ps = qs \<and> x = y"
  using one eq
proof (induction ps arbitrary: qs)
  case Nil
  then show ?case
  proof (cases qs)
    case (Cons q qs')
    with Nil head [of q] show ?thesis by (auto simp: items_Cons)
  qed simp
next
  case (Cons p ps)
  show ?case
  proof (cases qs)
    case Nil
    with Cons.prems(2) head [of p] show ?thesis by (auto simp: items_Cons)
  next
    case qs: (Cons q qs')
    with Cons.prems(2) have "f p @ (tail_items close (map f ps) @ x)
        = f q @ (tail_items close (map f qs') @ y)"
      by (simp add: items_Cons)
    then have "p = q \<and> tail_items close (map f ps) @ x = tail_items close (map f qs') @ y"
      by (rule Cons.prems(1) [rotated]) (simp_all add: stops_tail_items close)
    then have pq: "p = q"
      and rest: "tail_items close (map f ps) @ x = tail_items close (map f qs') @ y"
      by simp_all
    from rest close have "items close (map f ps) @ x = items close (map f qs') @ y \<or>
        (ps = [] \<and> qs' = [] \<and> x = y)"
      by (auto simp: tail_items_def split: if_splits)
    with Cons.IH [of qs'] Cons.prems(1) pq qs show ?thesis by auto
  qed
qed

text \<open>The first character of a rendered value tells its constructor.\<close>

fun json_class :: "json \<Rightarrow> nat" where
  "json_class JNull = 0"
| "json_class (JBool _) = 1"
| "json_class (JInt _) = 2"
| "json_class (JStr _) = 3"
| "json_class (JArr _) = 4"
| "json_class (JObj _) = 5"

definition char_class :: "char \<Rightarrow> nat" where
  "char_class c = (if c = CHR ''n'' then 0 else if c = CHR ''t'' \<or> c = CHR ''f'' then 1
     else if is_digit c \<or> c = CHR ''-'' then 2 else if c = quote_mark then 3
     else if c = CHR ''['' then 4 else if c = CHR ''{'' then 5 else 6)"

lemma digit_class: "is_digit c \<Longrightarrow> char_class c = 2"
  by (auto simp: char_class_def is_digit_def)

lemma int_dec_head: "\<exists>h t. int_dec i = h # t \<and> char_class h = 2"
  using nat_dec_head [of "nat i"]
  by (auto simp: int_dec_def digit_class) (simp add: char_class_def)

lemma render_head: "\<exists>h t. render v = h # t \<and> char_class h = json_class v"
  using int_dec_head
  by (cases v) (auto simp: quote_def char_class_def quote_mark_def is_digit_def)

lemma json_class_less: "json_class v < 6"
  by (cases v) simp_all

lemma render_head_not_close: "\<exists>h t. render v = h # t \<and> h \<noteq> CHR '']''"
proof -
  obtain h t where "render v = h # t" "char_class h = json_class v"
    using render_head by blast
  then show ?thesis
    using json_class_less [of v] by (auto simp: char_class_def is_digit_def quote_mark_def)
qed

definition render_pair :: "string \<times> json \<Rightarrow> string" where
  "render_pair p = quote (fst p) @ CHR '':'' # render (snd p)"

lemma render_obj: "render (JObj kvs) = CHR ''{'' # items (CHR ''}'') (map render_pair kvs)"
proof -
  have "(\<lambda>(k, v). quote k @ CHR '':'' # render v) = render_pair"
    by (auto simp: fun_eq_iff render_pair_def)
  then show ?thesis by simp
qed

lemma render_same_class: "render v @ x = render w @ y \<Longrightarrow> json_class v = json_class w"
  using render_head [of v] render_head [of w] by auto

theorem render_prefix:
  "render v @ x = render w @ y \<Longrightarrow> stops x \<Longrightarrow> stops y \<Longrightarrow> v = w \<and> x = y"
proof (induction v arbitrary: w x y)
  case JNull
  then show ?case using render_same_class [OF JNull(1)] by (cases w) auto
next
  case (JBool b)
  then show ?case using render_same_class [OF JBool(1)] by (cases w) (auto split: if_splits)
next
  case (JInt i)
  then show ?case
    using render_same_class [OF JInt(1)] by (cases w) (auto dest: int_dec_prefix)
next
  case (JStr s)
  then show ?case
    using render_same_class [OF JStr(1)] by (cases w) (auto dest: quote_prefix)
next
  case (JArr vs)
  obtain ws where w: "w = JArr ws"
    using render_same_class [OF JArr.prems(1)] by (cases w) auto
  have "vs = ws \<and> x = y"
  proof (rule items_prefix [where f = render and close = "CHR '']''"])
    show "items (CHR '']'') (map render vs) @ x = items (CHR '']'') (map render ws) @ y"
      using JArr.prems(1) w by simp
  next
    show "\<And>p. \<exists>h t. render p = h # t \<and> h \<noteq> CHR '']''" by (rule render_head_not_close)
  next
    show "\<And>p q x y. p \<in> set vs \<Longrightarrow> render p @ x = render q @ y \<Longrightarrow> stops x \<Longrightarrow> stops y
        \<Longrightarrow> p = q \<and> x = y" by (rule JArr.IH)
  qed (simp_all add: is_digit_def)
  with w show ?case by simp
next
  case (JObj kvs)
  obtain kws where w: "w = JObj kws"
    using render_same_class [OF JObj.prems(1)] by (cases w) auto
  have "kvs = kws \<and> x = y"
  proof (rule items_prefix [where f = render_pair and close = "CHR ''}''"])
    show "items (CHR ''}'') (map render_pair kvs) @ x = items (CHR ''}'') (map render_pair kws) @ y"
      using JObj.prems(1) w by (simp add: render_obj del: render.simps)
  next
    fix p q x y
    assume p: "p \<in> set kvs" and eq: "render_pair p @ x = render_pair q @ y"
      and stops: "stops x" "stops y"
    from eq have "quote (fst p) @ CHR '':'' # render (snd p) @ x
        = quote (fst q) @ CHR '':'' # render (snd q) @ y"
      by (simp add: render_pair_def)
    then have "fst p = fst q" and "render (snd p) @ x = render (snd q) @ y"
      by (auto dest!: quote_prefix)
    moreover from this(2) stops p have "snd p = snd q \<and> x = y"
      using JObj.IH [of p "snd p"] by (cases p) auto
    ultimately show "p = q \<and> x = y"
      by (simp add: prod_eq_iff)
  qed (auto simp: render_pair_def quote_def quote_mark_def is_digit_def)
  with w show ?case by simp
qed

lemma canonical_inj: "canonical v = canonical w \<Longrightarrow> jsort v = jsort w"
  using render_prefix [of "jsort v" "[]" "jsort w" "[]"]
  by (simp add: canonical_def stops_def)

end
