(* ===== verification/Registry_Core.thy ===== *)
theory Registry_Core
  imports Registry_Model Encoding
begin

text \<open>
  The machinery of registration-server/app/main.py below its routes: the request transaction
  (function \<open>db\<close>), the audit trail (\<open>audit\<close>, \<open>event\<close>, \<open>reject\<close>), administrator and device
  authentication (\<open>admin\<close>, \<open>writer\<close>, \<open>device_session\<close>), the identity checks (\<open>identity\<close>,
  \<open>consume\<close>), the status of a device (\<open>state\<close>, \<open>identity_status\<close>) and the signed
  authorization (\<open>authorize\<close>).
\<close>

section \<open>The environment of the server\<close>

text \<open>
  \<open>Settings\<close> of app/config.py that the handlers read, the clock and the random sources as
  streams (reading \<open>n\<close> of the clock is \<open>clk n\<close>, so two calls of \<open>now()\<close> in one request may
  differ), SHA-256 and Ed25519 as functions, and \<open>datetime.isoformat\<close>.
\<close>

record settings =
  audience :: string
  offline_grace_seconds :: int
  challenge_seconds :: int
  device_session_seconds :: int
  rate_per_minute :: int
  allow_lab_http :: bool

definition settings_ok :: "settings \<Rightarrow> bool" where
  "settings_ok c \<longleftrightarrow>
     60 \<le> offline_grace_seconds c \<and> offline_grace_seconds c \<le> 604800 \<and>
     15 \<le> challenge_seconds c \<and> challenge_seconds c \<le> 300 \<and>
     30 \<le> device_session_seconds c \<and> device_session_seconds c \<le> 900 \<and>
     1 \<le> rate_per_minute c \<and> rate_per_minute c \<le> 10000"

record env =
  cfg :: settings
  clk :: "nat \<Rightarrow> int"
  new_uid :: "nat \<Rightarrow> string"
  new_token :: "nat \<Rightarrow> string"
  digest :: "string \<Rightarrow> string"
  ed25519_verify :: "string \<Rightarrow> string \<Rightarrow> string \<Rightarrow> bool"
  ed25519_sign :: "string \<Rightarrow> string"
  isoformat :: "int \<Rightarrow> string"

text \<open>\<open>timedelta(seconds=n)\<close> and \<open>int(t.timestamp())\<close> (truncated towards zero).\<close>

definition seconds :: "int \<Rightarrow> int" where
  "seconds n = n * 1000000"

definition timestamp :: "int \<Rightarrow> int" where
  "timestamp t = (if 0 \<le> t then t div 1000000 else - ((- t) div 1000000))"

section \<open>The request transaction\<close>

text \<open>
  \<open>store\<close> is the committed database, \<open>work\<close> the session's view of it while a request runs;
  \<open>ticks\<close>, \<open>uids\<close> and \<open>draws\<close> count the readings of the clock and of the random sources.
\<close>

record world =
  store :: db
  work :: db
  ticks :: nat
  uids :: nat
  draws :: nat

type_synonym 'a tx = "(world, 'a) handler"

definition now :: "env \<Rightarrow> int tx" where
  "now e = (\<lambda>s. (Inr (clk e (ticks s)), s\<lparr>ticks := Suc (ticks s)\<rparr>))"

definition uid :: "env \<Rightarrow> string tx" where
  "uid e = (\<lambda>s. (Inr (new_uid e (uids s)), s\<lparr>uids := Suc (uids s)\<rparr>))"

definition token_urlsafe :: "env \<Rightarrow> string tx" where
  "token_urlsafe e = (\<lambda>s. (Inr (new_token e (draws s)), s\<lparr>draws := Suc (draws s)\<rparr>))"

definition query :: "(db \<Rightarrow> 'a) \<Rightarrow> 'a tx" where
  "query f = (\<lambda>s. (Inr (f (work s)), s))"

definition change :: "(db \<Rightarrow> db) \<Rightarrow> unit tx" where
  "change f = (\<lambda>s. (Inr (), s\<lparr>work := f (work s)\<rparr>))"

definition flush :: "unit tx" where
  "flush = (\<lambda>s. if integrity (work s) then (Inr (), s) else (Inl Integrity, s))"

definition commit :: "unit tx" where
  "commit = (\<lambda>s. if integrity (work s) then (Inr (), s\<lparr>store := work s\<rparr>) else (Inl Integrity, s))"

text \<open>
  \<open>serve\<close> is the dependency \<open>db\<close> around a handler: the session starts from the committed
  database, a result commits, an \<open>IntegrityError\<close> rolls back and answers 409, and any other
  exception leaves what was committed before it. The advisory lock makes transactions run one
  after another.
\<close>

definition conflict_detail :: string where
  "conflict_detail = ''Concurrent identity conflict; retry enrollment''"

definition answer :: "failure + json \<Rightarrow> nat \<times> json" where
  "answer r = (case r of
     Inr v \<Rightarrow> (200, v)
   | Inl (Http code detail) \<Rightarrow> (code, JObj [(''detail'', JStr detail)])
   | Inl Integrity \<Rightarrow> (409, JObj [(''detail'', JStr conflict_detail)])
   | Inl (Crash _) \<Rightarrow> (500, JStr ''Internal Server Error''))"

definition serve :: "json tx \<Rightarrow> world \<Rightarrow> (nat \<times> json) \<times> world" where
  "serve m w = (case andThen m (\<lambda>v. andThen commit (\<lambda>_. ret v)) (w\<lparr>work := store w\<rparr>) of
     (r, t) \<Rightarrow> (answer r, t\<lparr>work := store t\<rparr>))"

section \<open>Audit trail\<close>

definition audit :: "env \<Rightarrow> string \<Rightarrow> string \<Rightarrow> string \<Rightarrow> json \<Rightarrow> unit tx" where
  "audit e actor action target detail =
     andThen (uid e) (\<lambda>i. andThen (now e) (\<lambda>t.
       change (add_audit \<lparr>au_id = i, au_actor = actor, au_action = action, au_target = target,
                          au_detail = detail, au_created_at = t\<rparr>)))"

definition event :: "env \<Rightarrow> device option \<Rightarrow> string \<Rightarrow> json \<Rightarrow> unit tx" where
  "event e device kind detail =
     andThen (uid e) (\<lambda>i. andThen (now e) (\<lambda>t. andThen
       (change (add_event \<lparr>re_id = i, re_device_id = map_option dv_id device, re_kind = kind,
                           re_detail = detail, re_created_at = t\<rparr>)) (\<lambda>_.
       audit e ''device'' kind
         (case device of None \<Rightarrow> ''unknown'' | Some d \<Rightarrow> dv_id d) detail)))"

text \<open>Security events and consumed challenges are committed before the error is raised.\<close>

definition reject :: "env \<Rightarrow> device option \<Rightarrow> string \<Rightarrow> json \<Rightarrow> nat \<Rightarrow> 'a tx" where
  "reject e device kind detail code =
     andThen (event e device kind detail) (\<lambda>_. andThen commit (\<lambda>_. raise (Http code kind)))"

section \<open>Administrators\<close>

definition token_of :: "string option \<Rightarrow> string" where
  "token_of credentials = (case credentials of None \<Rightarrow> '''' | Some c \<Rightarrow> c)"

definition admin :: "env \<Rightarrow> string option \<Rightarrow> administrator tx" where
  "admin e credentials =
     andThen (query (\<lambda>d. row_get ad_token_hash (digest e (token_of credentials))
                           (administrators d))) (\<lambda>value.
       case value of
         None \<Rightarrow> reject e None ''ADMIN_AUTH_DENIED'' (JObj []) 401
       | Some a \<Rightarrow>
           (if \<not> ad_active a then reject e None ''ADMIN_AUTH_DENIED'' (JObj []) 401
            else andThen (now e) (\<lambda>t.
              if ad_expires_at a \<le> t then reject e None ''ADMIN_AUTH_DENIED'' (JObj []) 401
              else ret a)))"

definition writer :: "env \<Rightarrow> string option \<Rightarrow> administrator tx" where
  "writer e credentials =
     andThen (admin e credentials) (\<lambda>actor.
       if ad_role actor \<noteq> ''admin'' then raise (Http 403 ''Administrator role required'')
       else ret actor)"

section \<open>Status of a device\<close>

definition attribute_error :: failure where
  "attribute_error = Crash ''AttributeError''"

definition get_device :: "string \<Rightarrow> device tx" where
  "get_device i =
     andThen (query (\<lambda>d. get_device_row d i)) (\<lambda>v. need v (Http 404 ''Device not found''))"

definition license_for :: "db \<Rightarrow> device \<Rightarrow> license option" where
  "license_for d device =
     (case get_binding d (dv_id device) of None \<Rightarrow> None
      | Some b \<Rightarrow> get_license d (lb_license_id b))"

definition state :: "env \<Rightarrow> device \<Rightarrow> status tx" where
  "state e device =
     (if dv_archived_at device \<noteq> None then ret REVOKED
      else if dv_status device \<in> {REVOKED, SUSPENDED, PENDING, ACTIVATION_REQUIRED}
      then ret (dv_status device)
      else andThen (query (\<lambda>d. license_for d device)) (\<lambda>lic.
        case lic of None \<Rightarrow> ret ACTIVATION_REQUIRED
        | Some l \<Rightarrow>
            (if li_status l \<noteq> ACTIVE then ret (li_status l)
             else case li_expires_at l of None \<Rightarrow> ret ACTIVE
               | Some x \<Rightarrow> andThen (now e) (\<lambda>t. ret (if x \<le> t then EXPIRED else ACTIVE)))))"

definition pending_token :: "db \<Rightarrow> installation \<Rightarrow> device_key \<Rightarrow> int \<Rightarrow> bool" where
  "pending_token d inst key t = list_ex (\<lambda>a. at_installation_id a = in_id inst \<and>
     at_key_id a = ke_id key \<and> at_used_at a = None \<and> t < at_expires_at a) (activation_tokens d)"

definition identity_status ::
    "env \<Rightarrow> device \<Rightarrow> installation \<Rightarrow> device_key \<Rightarrow> status tx" where
  "identity_status e device inst key =
     (if dv_archived_at device \<noteq> None then ret REVOKED
      else andThen (state e device) (\<lambda>status.
        if \<not> in_current inst \<or> \<not> ke_current key
        then andThen (now e) (\<lambda>t. andThen (query (\<lambda>d. pending_token d inst key t)) (\<lambda>pending.
          ret (if pending then ACTIVATION_REQUIRED else PENDING)))
        else ret status))"

section \<open>Identities and challenges\<close>

record identity_input =
  iv_serial :: string
  iv_installation_id :: string
  iv_public_key :: string

record enroll_input = identity_input +
  iv_firmware :: string
  iv_model :: string

record challenge_input = identity_input +
  iv_purpose :: string

record proof_input =
  pv_challenge_id :: string
  pv_signature :: string

record activate_input = proof_input +
  pv_activation_token :: string

definition identity ::
    "env \<Rightarrow> 'a identity_input_scheme \<Rightarrow> (device \<times> installation \<times> device_key) option tx" where
  "identity e value =
     andThen (query (\<lambda>d. get_installation d (iv_installation_id value))) (\<lambda>inst.
     andThen (query (\<lambda>d. row_get ke_public_key (iv_public_key value) (device_keys d))) (\<lambda>key.
       case inst of
         Some i \<Rightarrow> andThen (get_device (in_device_id i)) (\<lambda>device.
           if dv_serial device \<noteq> iv_serial value
           then reject e (Some device) ''HARDWARE_MISMATCH''
                  (JObj [(''observed_serial'', JStr (iv_serial value))]) 403
           else case key of
             None \<Rightarrow> reject e (Some device) ''IDENTITY_MISMATCH'' (JObj []) 403
           | Some k \<Rightarrow>
               (if ke_installation_id k \<noteq> in_id i
                then reject e (Some device) ''IDENTITY_MISMATCH'' (JObj []) 403
                else ret (Some (device, i, k))))
       | None \<Rightarrow>
           (case key of None \<Rightarrow> ret None
            | Some k \<Rightarrow>
                andThen (query (\<lambda>d. get_installation d (ke_installation_id k))) (\<lambda>other.
                andThen (need other attribute_error) (\<lambda>o'.
                andThen (get_device (in_device_id o')) (\<lambda>device.
                  reject e (Some device) ''KEY_REUSE'' (JObj []) 403))))))"

text \<open>\<open>public_key\<close> of app/crypto.py: \<open>None\<close> is its \<open>ValueError\<close>.\<close>

definition public_key :: "string \<Rightarrow> string option" where
  "public_key value =
     (case b64decode value of None \<Rightarrow> None
      | Some raw \<Rightarrow> if length raw \<noteq> 32 then None else Some raw)"

definition signature_valid :: "env \<Rightarrow> device_key \<Rightarrow> string \<Rightarrow> string \<Rightarrow> bool" where
  "signature_valid e key signature message =
     (case public_key (ke_public_key key) of None \<Rightarrow> False
      | Some raw \<Rightarrow> (case b64decode signature of None \<Rightarrow> False
          | Some sig \<Rightarrow> ed25519_verify e raw sig message))"

definition usable_challenge :: "int \<Rightarrow> challenge_row \<Rightarrow> bool" where
  "usable_challenge t c \<longleftrightarrow> ch_used_at c = None \<and> t < ch_expires_at c"

text \<open>
  The clock is read for the expiry test only when the challenge exists and is unused, as the
  short-circuit \<open>or\<close> of the code does.
\<close>

definition consume_valid ::
    "env \<Rightarrow> 'a proof_input_scheme \<Rightarrow> string \<Rightarrow> challenge_row
      \<Rightarrow> (device \<times> installation \<times> device_key) tx" where
  "consume_valid e value purpose c =
     andThen (now e) (\<lambda>used.
     andThen (change (put_challenge (c\<lparr>ch_used_at := Some used\<rparr>))) (\<lambda>_.
     andThen (get_device (ch_device_id c)) (\<lambda>device.
       if ch_purpose c \<noteq> purpose
       then reject e (Some device) ''WRONG_CHALLENGE_PURPOSE'' (JObj []) 401
       else
         andThen (query (\<lambda>d. get_key d (ch_key_id c))) (\<lambda>k.
         andThen (need k attribute_error) (\<lambda>key.
           if \<not> signature_valid e key (pv_signature value) (ch_message c)
           then reject e (Some device) ''INVALID_SIGNATURE'' (JObj []) 401
           else if ch_serial c \<noteq> dv_serial device
           then reject e (Some device) ''HARDWARE_MISMATCH'' (JObj []) 403
           else
             andThen (query (\<lambda>d. get_installation d (ch_installation_id c))) (\<lambda>i.
             andThen (need i attribute_error) (\<lambda>inst. ret (device, inst, key))))))))"

definition consume ::
    "env \<Rightarrow> 'a proof_input_scheme \<Rightarrow> string \<Rightarrow> (device \<times> installation \<times> device_key) tx" where
  "consume e value purpose =
     andThen (query (\<lambda>d. get_challenge d (pv_challenge_id value))) (\<lambda>challenge.
       case challenge of
         None \<Rightarrow> reject e None ''INVALID_OR_REPLAYED_CHALLENGE'' (JObj []) 401
       | Some c \<Rightarrow>
           (if ch_used_at c \<noteq> None
            then reject e None ''INVALID_OR_REPLAYED_CHALLENGE'' (JObj []) 401
            else andThen (now e) (\<lambda>t.
              if ch_expires_at c \<le> t
              then reject e None ''INVALID_OR_REPLAYED_CHALLENGE'' (JObj []) 401
              else consume_valid e value purpose c)))"

section \<open>Authorization\<close>

definition ssid_of :: "string \<Rightarrow> json" where
  "ssid_of serial = JStr (''infrabox-'' @ drop (length serial - 8) serial)"

definition signed_document :: "env \<Rightarrow> json \<Rightarrow> json" where
  "signed_document e payload =
     JObj [(''payload'', payload),
           (''signature'', JStr (b64encode (ed25519_sign e (canonical payload))))]"

definition payload_of ::
    "env \<Rightarrow> device \<Rightarrow> installation \<Rightarrow> device_key \<Rightarrow> license \<Rightarrow> int \<Rightarrow> int \<Rightarrow> json" where
  "payload_of e device inst key lic issued expires =
     JObj [(''v'', JInt 1), (''aud'', JStr (audience (cfg e))),
           (''device_id'', JStr (dv_id device)), (''serial'', JStr (dv_serial device)),
           (''installation_id'', JStr (in_id inst)),
           (''key_hash'', JStr (digest e (ke_public_key key))),
           (''license_id'', JStr (li_id lic)), (''status'', JStr ''ACTIVE''),
           (''issued_at'', JInt (timestamp issued)),
           (''expires_at'', JInt (timestamp expires))]"

definition grace_end :: "env \<Rightarrow> license \<Rightarrow> int \<Rightarrow> int" where
  "grace_end e lic issued =
     (case li_expires_at lic of
        None \<Rightarrow> issued + seconds (offline_grace_seconds (cfg e))
      | Some x \<Rightarrow> min (issued + seconds (offline_grace_seconds (cfg e))) x)"

definition authorize_active ::
    "env \<Rightarrow> device \<Rightarrow> installation \<Rightarrow> device_key \<Rightarrow> license \<Rightarrow> (string \<times> json) list tx" where
  "authorize_active e device inst key lic =
     andThen (now e) (\<lambda>issued.
     andThen (change (put_license (lic\<lparr>li_last_validated_at := Some issued\<rparr>)
                      \<circ> put_device (device\<lparr>dv_last_seen := Some issued\<rparr>))) (\<lambda>_.
     andThen (token_urlsafe e) (\<lambda>token.
     andThen (change (add_session \<lparr>ds_token_hash = digest e token, ds_device_id = dv_id device,
                        ds_installation_id = in_id inst, ds_key_id = ke_id key,
                        ds_expires_at = issued + seconds (device_session_seconds (cfg e))\<rparr>)) (\<lambda>_.
     ret [(''authorization'', signed_document e
             (payload_of e device inst key lic issued (grace_end e lic issued))),
          (''session_token'', JStr token)]))))"

definition authorize :: "env \<Rightarrow> device \<Rightarrow> installation \<Rightarrow> device_key \<Rightarrow> json tx" where
  "authorize e device inst key =
     andThen (identity_status e device inst key) (\<lambda>status.
     let result = [(''device_id'', JStr (dv_id device)), (''status'', JStr (status_name status)),
                   (''ssid'', ssid_of (dv_serial device))]
     in if status = ACTIVE
        then andThen (query (\<lambda>d. license_for d device)) (\<lambda>l.
             andThen (need l attribute_error) (\<lambda>lic.
             andThen (authorize_active e device inst key lic) (\<lambda>more.
               ret (JObj (result @ more)))))
        else ret (JObj result))"

definition device_session ::
    "env \<Rightarrow> string option \<Rightarrow> (device \<times> installation \<times> device_key) tx" where
  "device_session e credentials =
     andThen (query (\<lambda>d. get_session d (digest e (token_of credentials)))) (\<lambda>value.
     andThen (need value (Http 401 ''Valid device session required'')) (\<lambda>v.
     andThen (now e) (\<lambda>t.
     andThen (require (t < ds_expires_at v) (Http 401 ''Valid device session required'')) (\<lambda>_.
     andThen (get_device (ds_device_id v)) (\<lambda>device.
     andThen (query (\<lambda>d. get_installation d (ds_installation_id v))) (\<lambda>i.
     andThen (need i attribute_error) (\<lambda>inst.
     andThen (require (in_current inst) (Http 403 ''Identity no longer bound'')) (\<lambda>_.
     andThen (query (\<lambda>d. get_key d (ds_key_id v))) (\<lambda>k.
     andThen (need k attribute_error) (\<lambda>key.
     andThen (require (ke_current key) (Http 403 ''Identity no longer bound'')) (\<lambda>_.
       ret (device, inst, key))))))))))))"

end
