(* ===== verification/Registry_Device.thy ===== *)
theory Registry_Device
  imports Registry_Core
begin

text \<open>
  The device routes of registration-server/app/main.py: \<open>enroll\<close>, \<open>challenge\<close>, \<open>verify\<close>,
  \<open>activate\<close>, \<open>status\<close> and \<open>heartbeat\<close>, in the order the code has them.
\<close>

definition now_expired :: "env \<Rightarrow> license \<Rightarrow> bool tx" where
  "now_expired e lic =
     (case li_expires_at lic of None \<Rightarrow> ret False
      | Some x \<Rightarrow> andThen (now e) (\<lambda>t. ret (x \<le> t)))"

definition license_unavailable :: "env \<Rightarrow> license \<Rightarrow> bool tx" where
  "license_unavailable e lic = (if li_status lic \<noteq> ACTIVE then ret True else now_expired e lic)"

definition active_customer :: "string \<Rightarrow> customer tx" where
  "active_customer i =
     andThen (query (\<lambda>d. get_customer d i)) (\<lambda>c.
       case c of None \<Rightarrow> raise (Http 409 ''Active customer required'')
       | Some item \<Rightarrow>
           (if cu_archived_at item \<noteq> None then raise (Http 409 ''Active customer required'')
            else ret item))"

section \<open>Enrollment\<close>

definition new_device :: "enroll_input \<Rightarrow> string \<Rightarrow> int \<Rightarrow> device" where
  "new_device value i t =
     \<lparr>dv_id = i, dv_serial = iv_serial value, dv_model = iv_model value,
      dv_firmware = iv_firmware value, dv_display_name = None, dv_notes = None,
      dv_archived_at = None, dv_status = PENDING, dv_customer_id = None, dv_last_seen = None,
      dv_created_at = t\<rparr>"

definition device_for_serial :: "env \<Rightarrow> enroll_input \<Rightarrow> device tx" where
  "device_for_serial e value =
     andThen (query (\<lambda>d. row_get dv_serial (iv_serial value) (devices d))) (\<lambda>found.
       case found of Some device \<Rightarrow> ret device
       | None \<Rightarrow>
           andThen (uid e) (\<lambda>i. andThen (now e) (\<lambda>t.
           andThen (change (add_device (new_device value i t))) (\<lambda>_.
           andThen flush (\<lambda>_. ret (new_device value i t))))))"

definition enroll_new :: "env \<Rightarrow> enroll_input \<Rightarrow> (device \<times> installation \<times> device_key) tx" where
  "enroll_new e value =
     andThen (device_for_serial e value) (\<lambda>device.
     andThen (now e) (\<lambda>t.
     let inst = \<lparr>in_id = iv_installation_id value, in_device_id = dv_id device,
                 in_current = False, in_created_at = t\<rparr>
     in andThen (change (add_installation inst)) (\<lambda>_.
        andThen flush (\<lambda>_.
        andThen (uid e) (\<lambda>i.
        let key = \<lparr>ke_id = i, ke_installation_id = in_id inst,
                   ke_public_key = iv_public_key value, ke_current = False\<rparr>
        in andThen (change (add_key key)) (\<lambda>_.
           andThen (event e (Some device) ''ENROLLMENT_REQUESTED''
                      (JObj [(''installation_id'', JStr (in_id inst))])) (\<lambda>_.
             ret (device, inst, key))))))))"

definition enroll :: "env \<Rightarrow> enroll_input \<Rightarrow> json tx" where
  "enroll e value =
     andThen (identity e value) (\<lambda>found.
     andThen (case found of Some x \<Rightarrow> ret x | None \<Rightarrow> enroll_new e value) (\<lambda>(device, inst, key).
     andThen (identity_status e device inst key) (\<lambda>st.
       ret (JObj [(''device_id'', JStr (dv_id device)), (''installation_id'', JStr (in_id inst)),
                  (''status'', JStr (status_name st)), (''ssid'', ssid_of (iv_serial value))]))))"

section \<open>Challenges\<close>

definition challenge_message ::
    "env \<Rightarrow> challenge_input \<Rightarrow> installation \<Rightarrow> device_key \<Rightarrow> string \<Rightarrow> string \<Rightarrow> int \<Rightarrow> string" where
  "challenge_message e value inst key ident nonce expires =
     canonical (JObj [(''v'', JInt 1), (''aud'', JStr (audience (cfg e))),
       (''challenge_id'', JStr ident), (''nonce'', JStr nonce),
       (''serial'', JStr (iv_serial value)), (''installation_id'', JStr (in_id inst)),
       (''key_hash'', JStr (digest e (ke_public_key key))),
       (''purpose'', JStr (iv_purpose value)), (''expires_at'', JInt (timestamp expires))])"

definition challenge :: "env \<Rightarrow> challenge_input \<Rightarrow> json tx" where
  "challenge e value =
     andThen (identity e value) (\<lambda>found.
     andThen (need found (Http 404 ''Enroll first'')) (\<lambda>(device, inst, key).
     andThen (uid e) (\<lambda>ident.
     andThen (now e) (\<lambda>t.
     andThen (token_urlsafe e) (\<lambda>nonce.
     let expires = t + seconds (challenge_seconds (cfg e));
         message = challenge_message e value inst key ident nonce expires
     in andThen (change (add_challenge
          \<lparr>ch_id = ident, ch_device_id = dv_id device, ch_installation_id = in_id inst,
           ch_key_id = ke_id key, ch_serial = iv_serial value, ch_purpose = iv_purpose value,
           ch_message = message, ch_expires_at = expires, ch_used_at = None\<rparr>)) (\<lambda>_.
        ret (JObj [(''challenge_id'', JStr ident), (''message'', JStr message),
                   (''expires_at'', JStr (isoformat e expires))])))))))"

section \<open>Authentication and activation\<close>

definition verify :: "env \<Rightarrow> proof_input \<Rightarrow> json tx" where
  "verify e value =
     andThen (consume e value ''authenticate'') (\<lambda>(device, inst, key).
     andThen (event e (Some device) ''AUTHENTICATED''
                (JObj [(''installation_id'', JStr (in_id inst))])) (\<lambda>_.
       authorize e device inst key))"

definition activate_retry ::
    "env \<Rightarrow> device \<Rightarrow> installation \<Rightarrow> device_key \<Rightarrow> activation_token \<Rightarrow> json tx" where
  "activate_retry e device inst key token =
     (if in_current inst \<and> ke_current key \<and> dv_status device = ACTIVE
      then andThen (query (\<lambda>d. license_for d device)) (\<lambda>l.
           andThen (need l attribute_error) (\<lambda>lic.
             if li_id lic = at_license_id token then authorize e device inst key
             else reject e (Some device) ''TOKEN_ALREADY_USED'' (JObj []) 409))
      else reject e (Some device) ''TOKEN_ALREADY_USED'' (JObj []) 409)"

definition binding_count :: "db \<Rightarrow> string \<Rightarrow> int" where
  "binding_count d i = int (length (filter (\<lambda>b. lb_license_id b = i) (license_bindings d)))"

definition current_installation :: "db \<Rightarrow> string \<Rightarrow> installation option" where
  "current_installation d i =
     find (\<lambda>x. in_device_id x = i \<and> in_current x) (installations d)"

text \<open>
  The writes of a successful activation, made one after the other on the mapped objects before
  the \<open>flush\<close>: the binding when there is none, both \<open>current\<close> flags, the device's status and
  customer, and the token's \<open>used_at\<close>.
\<close>

definition bind_device ::
    "bool \<Rightarrow> device \<Rightarrow> installation \<Rightarrow> device_key \<Rightarrow> license \<Rightarrow> activation_token \<Rightarrow> int \<Rightarrow> db \<Rightarrow> db" where
  "bind_device unbound device inst key lic token t =
     put_token (token\<lparr>at_used_at := Some t\<rparr>) \<circ>
     put_device (device\<lparr>dv_status := ACTIVE, dv_customer_id := Some (li_customer_id lic)\<rparr>) \<circ>
     put_key (key\<lparr>ke_current := True\<rparr>) \<circ>
     put_installation (inst\<lparr>in_current := True\<rparr>) \<circ>
     (if unbound then add_binding \<lparr>lb_device_id = dv_id device, lb_license_id = li_id lic\<rparr> else id)"

definition activate_bind ::
    "env \<Rightarrow> bool \<Rightarrow> device \<Rightarrow> installation \<Rightarrow> device_key \<Rightarrow> license \<Rightarrow> activation_token \<Rightarrow> json tx" where
  "activate_bind e unbound device inst key lic token =
     andThen (now e) (\<lambda>t.
     andThen (change (bind_device unbound device inst key lic token t)) (\<lambda>_.
     andThen flush (\<lambda>_.
     let device' = device\<lparr>dv_status := ACTIVE, dv_customer_id := Some (li_customer_id lic)\<rparr>
     in andThen (event e (Some device') ''ACTIVATED''
          (JObj [(''license_id'', JStr (li_id lic)), (''installation_id'', JStr (in_id inst))])) (\<lambda>_.
        authorize e device' (inst\<lparr>in_current := True\<rparr>) (key\<lparr>ke_current := True\<rparr>)))))"

definition activate_new ::
    "env \<Rightarrow> device \<Rightarrow> installation \<Rightarrow> device_key \<Rightarrow> activation_token \<Rightarrow> json tx" where
  "activate_new e device inst key token =
     (if dv_status device \<in> {REVOKED, SUSPENDED}
      then reject e (Some device) (status_name (dv_status device)) (JObj []) 403
      else
        andThen (query (\<lambda>d. get_license d (at_license_id token))) (\<lambda>l.
        andThen (need l attribute_error) (\<lambda>lic.
        andThen (active_customer (li_customer_id lic)) (\<lambda>_.
        andThen (license_unavailable e lic) (\<lambda>gone.
          if gone then reject e (Some device) ''LICENSE_UNAVAILABLE'' (JObj []) 403
          else
            andThen (query (\<lambda>d. get_binding d (dv_id device))) (\<lambda>binding.
              if (case binding of None \<Rightarrow> False | Some b \<Rightarrow> lb_license_id b \<noteq> li_id lic)
              then reject e (Some device) ''ADMIN_REASSIGNMENT_REQUIRED'' (JObj []) 409
              else
                andThen (query (\<lambda>d. binding_count d (li_id lic))) (\<lambda>count.
                  if binding = None \<and> li_max_devices lic \<le> count
                  then reject e (Some device) ''LICENSE_CAPACITY_REACHED'' (JObj []) 409
                  else
                    andThen (query (\<lambda>d. current_installation d (dv_id device))) (\<lambda>other.
                      if (case other of None \<Rightarrow> False | Some o' \<Rightarrow> in_id o' \<noteq> in_id inst)
                      then reject e (Some device) ''ADMIN_RECOVERY_REQUIRED'' (JObj []) 409
                      else activate_bind e (binding = None) device inst key lic token))))))))"

definition token_mismatch ::
    "int \<Rightarrow> activation_token \<Rightarrow> device \<Rightarrow> installation \<Rightarrow> device_key \<Rightarrow> bool" where
  "token_mismatch t token device inst key \<longleftrightarrow>
     at_expires_at token \<le> t \<or> at_device_id token \<noteq> dv_id device \<or>
     at_installation_id token \<noteq> in_id inst \<or> at_key_id token \<noteq> ke_id key"

definition activate :: "env \<Rightarrow> activate_input \<Rightarrow> json tx" where
  "activate e value =
     andThen (consume e value ''activate'') (\<lambda>(device, inst, key).
     andThen (query (\<lambda>d. row_get at_token_hash (digest e (pv_activation_token value))
                           (activation_tokens d))) (\<lambda>found.
       case found of
         None \<Rightarrow> reject e (Some device) ''INVALID_ACTIVATION_TOKEN'' (JObj []) 401
       | Some token \<Rightarrow>
           andThen (now e) (\<lambda>t.
             if token_mismatch t token device inst key
             then reject e (Some device) ''INVALID_ACTIVATION_TOKEN'' (JObj []) 401
             else if at_used_at token \<noteq> None then activate_retry e device inst key token
             else activate_new e device inst key token)))"

section \<open>Device sessions\<close>

definition status_route :: "env \<Rightarrow> string option \<Rightarrow> json tx" where
  "status_route e credentials =
     andThen (device_session e credentials) (\<lambda>(device, inst, key).
     andThen (state e device) (\<lambda>st.
       ret (JObj [(''device_id'', JStr (dv_id device)), (''status'', JStr (status_name st)),
                  (''installation_id'', JStr (in_id inst))])))"

definition heartbeat :: "env \<Rightarrow> string option \<Rightarrow> json tx" where
  "heartbeat e credentials =
     andThen (device_session e credentials) (\<lambda>(device, inst, key). authorize e device inst key)"

end
