(* ===== verification/Registry_Admin.thy ===== *)
theory Registry_Admin
  imports Registry_Device
begin

text \<open>
  The administrator routes of registration-server/app/main.py, in the order the code has them:
  customers, licenses, devices, approval, suspension, revocation, reassignment, renewal and the
  read-only listings. Every route that changes state goes through \<open>writer\<close>, every other one
  through \<open>admin\<close>.
\<close>

section \<open>Inputs\<close>

record customer_input =
  cv_name :: string
  cv_contact_name :: "string option"
  cv_email :: "string option"
  cv_phone :: "string option"

record license_input =
  lv_customer_id :: string
  lv_kind :: kind
  lv_expires_at :: "int option"
  lv_max_devices :: int

record device_input =
  dvv_serial :: string
  dvv_model :: string
  dvv_display_name :: "string option"
  dvv_notes :: "string option"
  dvv_customer_id :: "string option"

record device_update_input =
  du_display_name :: "string option"
  du_notes :: "string option"
  du_customer_id :: "string option"
  du_reason :: string

record approval_input =
  ap_installation_id :: string
  ap_public_key :: string
  ap_license_id :: string
  ap_reason :: string
  ap_token_ttl_seconds :: int

definition reason_detail :: "string \<Rightarrow> json" where
  "reason_detail r = JObj [(''reason'', JStr r)]"

definition jtime :: "env \<Rightarrow> int option \<Rightarrow> json" where
  "jtime e t = (case t of None \<Rightarrow> JNull | Some x \<Rightarrow> JStr (isoformat e x))"

section \<open>Summaries\<close>

definition customer_summary :: "env \<Rightarrow> customer \<Rightarrow> json" where
  "customer_summary e c =
     JObj [(''id'', JStr (cu_id c)), (''name'', JStr (cu_name c)),
           (''contact_name'', jstr_opt (cu_contact_name c)), (''email'', jstr_opt (cu_email c)),
           (''phone'', jstr_opt (cu_phone c)), (''email_verified'', JBool (cu_email_verified c)),
           (''archived_at'', jtime e (cu_archived_at c))]"

definition license_bindings_of :: "db \<Rightarrow> string \<Rightarrow> license_binding list" where
  "license_bindings_of d i = filter (\<lambda>b. lb_license_id b = i) (license_bindings d)"

definition license_summary :: "env \<Rightarrow> license \<Rightarrow> json tx" where
  "license_summary e lic =
     andThen (query (\<lambda>d. get_customer d (li_customer_id lic))) (\<lambda>c.
     andThen (query (\<lambda>d. license_bindings_of d (li_id lic))) (\<lambda>bs.
     andThen (if li_status lic = ACTIVE then now_expired e lic else ret False) (\<lambda>expired.
       ret (JObj [(''id'', JStr (li_id lic)), (''customer_id'', JStr (li_customer_id lic)),
         (''customer_name'', jstr_opt (map_option cu_name c)),
         (''kind'', JStr (kind_name (li_kind lic))),
         (''status'', JStr (status_name (if expired then EXPIRED else li_status lic))),
         (''issued_at'', JStr (isoformat e (li_issued_at lic))),
         (''expires_at'', jtime e (li_expires_at lic)),
         (''max_devices'', JInt (li_max_devices lic)),
         (''last_validated_at'', jtime e (li_last_validated_at lic)),
         (''device_ids'', JArr (map (\<lambda>b. JStr (lb_device_id b)) bs)),
         (''used_devices'', JInt (int (length bs)))]))))"

definition pending_ids :: "db \<Rightarrow> device \<Rightarrow> string list" where
  "pending_ids d device =
     map in_id (filter (\<lambda>i. in_device_id i = dv_id device \<and> \<not> in_current i \<and>
       \<not> list_ex (\<lambda>a. at_installation_id a = in_id i \<and> at_used_at a \<noteq> None) (activation_tokens d))
       (installations d))"

definition summary_rows :: "env \<Rightarrow> device \<Rightarrow> (string \<times> json) list tx" where
  "summary_rows e device =
     andThen (query (\<lambda>d. license_for d device)) (\<lambda>lic.
     andThen (query (\<lambda>d. case dv_customer_id device of None \<Rightarrow> None
                         | Some c \<Rightarrow> get_customer d c)) (\<lambda>customer.
     andThen (query (\<lambda>d. pending_ids d device)) (\<lambda>pending.
     andThen (state e device) (\<lambda>st.
     andThen (case lic of None \<Rightarrow> ret JNull | Some l \<Rightarrow> license_summary e l) (\<lambda>license.
       ret [(''id'', JStr (dv_id device)), (''serial'', JStr (dv_serial device)),
         (''model'', JStr (dv_model device)), (''firmware'', JStr (dv_firmware device)),
         (''display_name'', jstr_opt (dv_display_name device)),
         (''notes'', jstr_opt (dv_notes device)),
         (''archived_at'', jtime e (dv_archived_at device)),
         (''status'', JStr (status_name st)),
         (''customer_id'', jstr_opt (dv_customer_id device)),
         (''license_id'', jstr_opt (map_option li_id lic)),
         (''last_seen'', jtime e (dv_last_seen device)),
         (''ssid'', ssid_of (dv_serial device)),
         (''pending_installations'', JArr (map JStr pending)),
         (''customer'', case customer of None \<Rightarrow> JNull
            | Some c \<Rightarrow> JObj [(''id'', JStr (cu_id c)), (''name'', JStr (cu_name c))]),
         (''license'', license)])))))"

definition summary :: "env \<Rightarrow> device \<Rightarrow> json tx" where
  "summary e device = andThen (summary_rows e device) (\<lambda>rows. ret (JObj rows))"

section \<open>Customers and licenses\<close>

definition customer :: "env \<Rightarrow> string option \<Rightarrow> customer_input \<Rightarrow> json tx" where
  "customer e credentials value =
     andThen (writer e credentials) (\<lambda>actor.
     andThen (uid e) (\<lambda>i.
     andThen (change (add_customer
        \<lparr>cu_id = i, cu_name = cv_name value, cu_contact_name = cv_contact_name value,
         cu_email = cv_email value, cu_phone = cv_phone value, cu_email_verified = False,
         cu_archived_at = None\<rparr>)) (\<lambda>_.
     andThen flush (\<lambda>_.
     andThen (audit e (ad_name actor) ''CUSTOMER_CREATED'' i (JObj [])) (\<lambda>_.
       ret (JObj [(''id'', JStr i), (''name'', JStr (cv_name value))]))))))"

definition license_create :: "env \<Rightarrow> string option \<Rightarrow> license_input \<Rightarrow> json tx" where
  "license_create e credentials value =
     andThen (writer e credentials) (\<lambda>actor.
     andThen (query (\<lambda>d. get_customer d (lv_customer_id value))) (\<lambda>c.
     andThen (require (case c of None \<Rightarrow> False | Some x \<Rightarrow> cu_archived_at x = None)
                (Http 404 ''Active customer not found'')) (\<lambda>_.
     andThen (require (lv_kind value = PERPETUAL \<or> lv_expires_at value \<noteq> None)
                (Http 422 ''Expiration required'')) (\<lambda>_.
     andThen (case lv_expires_at value of None \<Rightarrow> ret False
              | Some x \<Rightarrow> andThen (now e) (\<lambda>t. ret (x \<le> t))) (\<lambda>past.
     andThen (require (\<not> past) (Http 422 ''Expiration must be in the future'')) (\<lambda>_.
     andThen (uid e) (\<lambda>i.
     andThen (now e) (\<lambda>t.
     andThen (change (add_license
        \<lparr>li_id = i, li_customer_id = lv_customer_id value, li_kind = lv_kind value,
         li_status = ACTIVE, li_max_devices = lv_max_devices value, li_issued_at = t,
         li_expires_at = lv_expires_at value, li_last_validated_at = None\<rparr>)) (\<lambda>_.
     andThen flush (\<lambda>_.
     andThen (audit e (ad_name actor) ''LICENSE_CREATED'' i (JObj [])) (\<lambda>_.
       ret (JObj [(''id'', JStr i), (''status'', JStr ''ACTIVE'')]))))))))))))"

definition customer_update ::
    "env \<Rightarrow> string option \<Rightarrow> string \<Rightarrow> customer_input \<Rightarrow> string \<Rightarrow> json tx" where
  "customer_update e credentials i value reason =
     andThen (writer e credentials) (\<lambda>actor.
     andThen (active_customer i) (\<lambda>item.
     let item' = item\<lparr>cu_email_verified :=
                        (if cu_email item \<noteq> cv_email value then False else cu_email_verified item),
                      cu_name := cv_name value, cu_contact_name := cv_contact_name value,
                      cu_email := cv_email value, cu_phone := cv_phone value\<rparr>
     in andThen (change (put_customer item')) (\<lambda>_.
        andThen (audit e (ad_name actor) ''CUSTOMER_UPDATED'' (cu_id item) (reason_detail reason))
          (\<lambda>_. ret (customer_summary e item')))))"

fun any_active_license :: "env \<Rightarrow> license list \<Rightarrow> bool tx" where
  "any_active_license e [] = ret False"
| "any_active_license e (l # ls) =
     (if li_status l \<noteq> ACTIVE then any_active_license e ls
      else case li_expires_at l of None \<Rightarrow> ret True
        | Some x \<Rightarrow> andThen (now e) (\<lambda>t. if t < x then ret True else any_active_license e ls))"

definition holds_active_device :: "db \<Rightarrow> string \<Rightarrow> bool" where
  "holds_active_device d c = list_ex (\<lambda>x. dv_customer_id x = Some c \<and> dv_archived_at x = None \<and>
     dv_status x \<in> {ACTIVE, SUSPENDED}) (devices d)"

definition customer_archive :: "env \<Rightarrow> customer \<Rightarrow> customer tx" where
  "customer_archive e item =
     andThen (query (\<lambda>d. filter (\<lambda>l. li_customer_id l = cu_id item) (licenses d))) (\<lambda>ls.
     andThen (any_active_license e ls) (\<lambda>blocked.
     andThen (require (\<not> blocked)
       (Http 409 ''Suspend or revoke active customer licenses before archival'')) (\<lambda>_.
     andThen (query (\<lambda>d. holds_active_device d (cu_id item))) (\<lambda>held.
     andThen (require (\<not> held)
       (Http 409 ''Release active device association before customer archival'')) (\<lambda>_.
       case cu_archived_at item of Some _ \<Rightarrow> ret item
       | None \<Rightarrow> andThen (now e) (\<lambda>t. ret (item\<lparr>cu_archived_at := Some t\<rparr>)))))))"

definition customer_lifecycle ::
    "env \<Rightarrow> string option \<Rightarrow> string \<Rightarrow> string \<Rightarrow> string \<Rightarrow> json tx" where
  "customer_lifecycle e credentials i action reason =
     andThen (writer e credentials) (\<lambda>actor.
     andThen (query (\<lambda>d. get_customer d i)) (\<lambda>found.
       case found of None \<Rightarrow> raise (Http 404 ''Customer not found'')
       | Some item \<Rightarrow>
           (if action \<notin> {''archive'', ''restore''} then raise (Http 404 ''Customer not found'')
            else
              andThen (if action = ''archive'' then customer_archive e item
                       else ret (item\<lparr>cu_archived_at := None\<rparr>)) (\<lambda>item'.
              andThen (change (put_customer item')) (\<lambda>_.
              andThen (audit e (ad_name actor) (''CUSTOMER_'' @ upper action) (cu_id item)
                         (reason_detail reason)) (\<lambda>_.
                ret (customer_summary e item')))))))"

section \<open>Devices\<close>

definition editable_device :: "string \<Rightarrow> device tx" where
  "editable_device i =
     andThen (get_device i) (\<lambda>item.
       if dv_archived_at item \<noteq> None
       then raise (Http 409 ''Restore archived device before management'')
       else ret item)"

definition check_customer :: "string option \<Rightarrow> unit tx" where
  "check_customer c = (case c of None \<Rightarrow> ret ()
     | Some i \<Rightarrow> andThen (active_customer i) (\<lambda>_. ret ()))"

definition device_create :: "env \<Rightarrow> string option \<Rightarrow> device_input \<Rightarrow> json tx" where
  "device_create e credentials value =
     andThen (writer e credentials) (\<lambda>actor.
     andThen (query (\<lambda>d. row_get dv_serial (dvv_serial value) (devices d))) (\<lambda>found.
     andThen (require (found = None)
       (Http 409 ''Hardware serial already registered; inspect existing record'')) (\<lambda>_.
     andThen (check_customer (dvv_customer_id value)) (\<lambda>_.
     andThen (uid e) (\<lambda>i.
     andThen (now e) (\<lambda>t.
     let item = \<lparr>dv_id = i, dv_serial = dvv_serial value, dv_model = dvv_model value,
                 dv_firmware = ''not-enrolled'', dv_display_name = dvv_display_name value,
                 dv_notes = dvv_notes value, dv_archived_at = None, dv_status = PENDING,
                 dv_customer_id = dvv_customer_id value, dv_last_seen = None, dv_created_at = t\<rparr>
     in andThen (change (add_device item)) (\<lambda>_.
        andThen flush (\<lambda>_.
        andThen (audit e (ad_name actor) ''DEVICE_CREATED'' i
                   (JObj [(''serial'', JStr (dvv_serial value))])) (\<lambda>_.
          summary e item)))))))))"

definition device_update :: "env \<Rightarrow> string option \<Rightarrow> string \<Rightarrow> device_update_input \<Rightarrow> json tx" where
  "device_update e credentials i value =
     andThen (writer e credentials) (\<lambda>actor.
     andThen (editable_device i) (\<lambda>item.
     andThen (query (\<lambda>d. license_for d item)) (\<lambda>lic.
     andThen (require (case lic of None \<Rightarrow> True
                | Some l \<Rightarrow> du_customer_id value = Some (li_customer_id l))
       (Http 409 ''Use controlled reassignment to change licensed device ownership'')) (\<lambda>_.
     andThen (check_customer (du_customer_id value)) (\<lambda>_.
     let item' = item\<lparr>dv_display_name := du_display_name value, dv_notes := du_notes value,
                      dv_customer_id := du_customer_id value\<rparr>
     in andThen (change (put_device item')) (\<lambda>_.
        andThen (audit e (ad_name actor) ''DEVICE_UPDATED'' (dv_id item)
                   (reason_detail (du_reason value))) (\<lambda>_.
          summary e item')))))))"

text \<open>\<open>token.expires_at = now()\<close> for every unused token of the device.\<close>

fun expire_all :: "env \<Rightarrow> activation_token list \<Rightarrow> unit tx" where
  "expire_all e [] = ret ()"
| "expire_all e (a # as) =
     andThen (now e) (\<lambda>t. andThen (change (put_token (a\<lparr>at_expires_at := t\<rparr>))) (\<lambda>_.
       expire_all e as))"

definition unused_tokens :: "db \<Rightarrow> string \<Rightarrow> activation_token list" where
  "unused_tokens d i =
     filter (\<lambda>a. at_device_id a = i \<and> at_used_at a = None) (activation_tokens d)"

definition device_archive :: "env \<Rightarrow> string option \<Rightarrow> string \<Rightarrow> string \<Rightarrow> json tx" where
  "device_archive e credentials i reason =
     andThen (writer e credentials) (\<lambda>actor.
     andThen (get_device i) (\<lambda>item.
     andThen (state e item) (\<lambda>st.
     andThen (require (st \<noteq> ACTIVE) (Http 409 ''Revoke or suspend active device before archival''))
       (\<lambda>_.
     andThen (case dv_archived_at item of Some a \<Rightarrow> ret a | None \<Rightarrow> now e) (\<lambda>t.
     let item' = item\<lparr>dv_archived_at := Some t, dv_status := REVOKED\<rparr>
     in andThen (change (put_device item')) (\<lambda>_.
        andThen (query (\<lambda>d. unused_tokens d (dv_id item))) (\<lambda>tokens.
        andThen (expire_all e tokens) (\<lambda>_.
        andThen (audit e (ad_name actor) ''DEVICE_ARCHIVE'' (dv_id item) (reason_detail reason))
          (\<lambda>_. summary e item')))))))))"

definition device_restore :: "env \<Rightarrow> string option \<Rightarrow> string \<Rightarrow> string \<Rightarrow> json tx" where
  "device_restore e credentials i reason =
     andThen (writer e credentials) (\<lambda>actor.
     andThen (get_device i) (\<lambda>item.
     let item' = item\<lparr>dv_archived_at := None\<rparr>
     in andThen (change (put_device item')) (\<lambda>_.
        andThen (audit e (ad_name actor) ''DEVICE_RESTORE'' (dv_id item) (reason_detail reason))
          (\<lambda>_. summary e item'))))"

section \<open>Approval, suspension, revocation, reassignment\<close>

definition other_current_key :: "db \<Rightarrow> installation \<Rightarrow> device_key \<Rightarrow> bool" where
  "other_current_key d inst key = list_ex (\<lambda>k. ke_installation_id k = in_id inst \<and>
     ke_current k \<and> ke_id k \<noteq> ke_id key) (device_keys d)"

text \<open>
  The binding an approval names: an installation of this device, a key of that installation and
  an existing license.
\<close>

definition approval_binding ::
    "db \<Rightarrow> device \<Rightarrow> approval_input \<Rightarrow> (installation \<times> device_key \<times> license) option" where
  "approval_binding d device value =
     (case (get_installation d (ap_installation_id value),
            row_get ke_public_key (ap_public_key value) (device_keys d),
            get_license d (ap_license_id value)) of
        (Some inst, Some key, Some lic) \<Rightarrow>
          (if in_device_id inst = dv_id device \<and> ke_installation_id key = in_id inst
           then Some (inst, key, lic) else None)
      | _ \<Rightarrow> None)"

definition issue_token ::
    "env \<Rightarrow> administrator \<Rightarrow> device \<Rightarrow> installation \<Rightarrow> device_key \<Rightarrow> license \<Rightarrow> approval_input
      \<Rightarrow> json tx" where
  "issue_token e actor device inst key lic value =
     andThen (token_urlsafe e) (\<lambda>token.
     andThen (uid e) (\<lambda>i.
     andThen (now e) (\<lambda>t.
     andThen (change (add_token
        \<lparr>at_id = i, at_token_hash = digest e token, at_device_id = dv_id device,
         at_installation_id = in_id inst, at_key_id = ke_id key, at_license_id = li_id lic,
         at_expires_at = t + seconds (ap_token_ttl_seconds value), at_used_at = None\<rparr>)) (\<lambda>_.
     andThen (if dv_status device \<noteq> ACTIVE
              then change (put_device (device\<lparr>dv_status := ACTIVATION_REQUIRED\<rparr>))
              else ret ()) (\<lambda>_.
     andThen (audit e (ad_name actor) ''APPROVED'' (dv_id device)
       (JObj [(''reason'', JStr (ap_reason value)), (''installation_id'', JStr (in_id inst)),
              (''license_id'', JStr (li_id lic))])) (\<lambda>_.
       ret (JObj [(''activation_token'', JStr token),
                  (''expires_in'', JInt (ap_token_ttl_seconds value))])))))))"

definition approve :: "env \<Rightarrow> string option \<Rightarrow> string \<Rightarrow> approval_input \<Rightarrow> json tx" where
  "approve e credentials i value =
     andThen (writer e credentials) (\<lambda>actor.
     andThen (editable_device i) (\<lambda>device.
     andThen (require (dv_status device \<notin> {REVOKED, SUSPENDED})
       (Http 409 ''Explicit reassignment required'')) (\<lambda>_.
     andThen (query (\<lambda>d. approval_binding d device value)) (\<lambda>found.
     andThen (need found (Http 422 ''Invalid approval binding'')) (\<lambda>(inst, key, lic).
     andThen (query (\<lambda>d. current_installation d (dv_id device))) (\<lambda>current.
     andThen (require (case current of None \<Rightarrow> True | Some c \<Rightarrow> in_id c = in_id inst)
       (Http 409 ''Explicit recovery/reassignment required'')) (\<lambda>_.
     andThen (query (\<lambda>d. other_current_key d inst key)) (\<lambda>other.
     andThen (require (\<not> other) (Http 409 ''Explicit key reassignment required'')) (\<lambda>_.
     andThen (active_customer (li_customer_id lic)) (\<lambda>_.
     andThen (license_unavailable e lic) (\<lambda>gone.
     andThen (require (\<not> gone) (Http 409 ''License unavailable'')) (\<lambda>_.
       issue_token e actor device inst key lic value))))))))))))"

definition set_status ::
    "env \<Rightarrow> string option \<Rightarrow> string \<Rightarrow> string \<Rightarrow> status \<Rightarrow> json tx" where
  "set_status e credentials i reason st =
     andThen (writer e credentials) (\<lambda>actor.
     andThen (editable_device i) (\<lambda>device.
     andThen (change (put_device (device\<lparr>dv_status := st\<rparr>))) (\<lambda>_.
     andThen (audit e (ad_name actor) (status_name st) (dv_id device) (reason_detail reason)) (\<lambda>_.
       ret (JObj [(''status'', JStr (status_name st))])))))"

definition suspend :: "env \<Rightarrow> string option \<Rightarrow> string \<Rightarrow> string \<Rightarrow> json tx" where
  "suspend e credentials i reason = set_status e credentials i reason SUSPENDED"

definition revoke :: "env \<Rightarrow> string option \<Rightarrow> string \<Rightarrow> string \<Rightarrow> json tx" where
  "revoke e credentials i reason = set_status e credentials i reason REVOKED"

text \<open>
  \<open>reassign\<close> clears the \<open>current\<close> flag of every installation of the device and of every key of
  those installations, expires its unused tokens and deletes its license binding.
\<close>

definition clear_installation :: "string \<Rightarrow> installation \<Rightarrow> installation" where
  "clear_installation i x = (if in_device_id x = i then x\<lparr>in_current := False\<rparr> else x)"

definition key_of_device :: "db \<Rightarrow> string \<Rightarrow> device_key \<Rightarrow> bool" where
  "key_of_device d i k = list_ex (\<lambda>x. in_device_id x = i \<and> in_id x = ke_installation_id k)
     (installations d)"

definition clear_key :: "db \<Rightarrow> string \<Rightarrow> device_key \<Rightarrow> device_key" where
  "clear_key d i k = (if key_of_device d i k then k\<lparr>ke_current := False\<rparr> else k)"

definition release_identities :: "string \<Rightarrow> db \<Rightarrow> db" where
  "release_identities i d =
     d\<lparr>installations := map (clear_installation i) (installations d),
       device_keys := map (clear_key d i) (device_keys d)\<rparr>"

definition release_binding :: "string \<Rightarrow> db \<Rightarrow> db" where
  "release_binding i d =
     (case get_binding d i of None \<Rightarrow> d | Some b \<Rightarrow> delete_binding b d)"

definition reassign :: "env \<Rightarrow> string option \<Rightarrow> string \<Rightarrow> string \<Rightarrow> json tx" where
  "reassign e credentials i reason =
     andThen (writer e credentials) (\<lambda>actor.
     andThen (editable_device i) (\<lambda>device.
     andThen (change (release_identities (dv_id device))) (\<lambda>_.
     andThen (query (\<lambda>d. unused_tokens d (dv_id device))) (\<lambda>tokens.
     andThen (expire_all e tokens) (\<lambda>_.
     andThen (change (put_device (device\<lparr>dv_status := PENDING, dv_customer_id := None\<rparr>)
                      \<circ> release_binding (dv_id device))) (\<lambda>_.
     andThen (audit e (ad_name actor) ''REASSIGNED_RELEASED'' (dv_id device)
                (reason_detail reason)) (\<lambda>_.
       ret (JObj [(''status'', JStr ''PENDING''),
         (''next'', JStr ''Approve replacement installation explicitly'')]))))))))"

section \<open>License control\<close>

definition renew :: "env \<Rightarrow> string option \<Rightarrow> string \<Rightarrow> string \<Rightarrow> int \<Rightarrow> json tx" where
  "renew e credentials i reason expires =
     andThen (writer e credentials) (\<lambda>actor.
     andThen (query (\<lambda>d. get_license d i)) (\<lambda>found.
     andThen (need found (Http 404 ''License not found'')) (\<lambda>lic.
     andThen (active_customer (li_customer_id lic)) (\<lambda>_.
     andThen (if li_status lic = REVOKED then ret True
              else andThen (now e) (\<lambda>t. ret (expires \<le> t))) (\<lambda>refused.
     andThen (require (\<not> refused)
       (Http 409 ''Cannot renew revoked license or use a past expiration'')) (\<lambda>_.
     andThen (change (put_license (lic\<lparr>li_expires_at := Some expires\<rparr>))) (\<lambda>_.
     andThen (audit e (ad_name actor) ''LICENSE_RENEWED'' (li_id lic)
       (JObj [(''reason'', JStr reason), (''expires_at'', JStr (isoformat e expires))])) (\<lambda>_.
       ret (JObj [(''id'', JStr (li_id lic)),
                  (''expires_at'', JStr (isoformat e expires))])))))))))"

definition control_status :: "string \<Rightarrow> status option" where
  "control_status action =
     (if action = ''suspend'' then Some SUSPENDED else if action = ''revoke'' then Some REVOKED
      else if action = ''resume'' then Some ACTIVE else None)"

definition license_control ::
    "env \<Rightarrow> string option \<Rightarrow> string \<Rightarrow> string \<Rightarrow> string \<Rightarrow> json tx" where
  "license_control e credentials i action reason =
     andThen (writer e credentials) (\<lambda>actor.
     andThen (query (\<lambda>d. get_license d i)) (\<lambda>found.
       case (found, control_status action) of
         (Some lic, Some st) \<Rightarrow>
           andThen (require (li_status lic \<noteq> REVOKED)
             (Http 409 ''Issue a new license after revocation'')) (\<lambda>_.
           andThen (if action = ''resume''
                    then andThen (active_customer (li_customer_id lic)) (\<lambda>_. ret ())
                    else ret ()) (\<lambda>_.
           andThen (change (put_license (lic\<lparr>li_status := st\<rparr>))) (\<lambda>_.
           andThen (audit e (ad_name actor) (''LICENSE_'' @ upper action) (li_id lic)
                      (reason_detail reason)) (\<lambda>_.
             ret (JObj [(''id'', JStr (li_id lic)), (''status'', JStr (status_name st))])))))
       | _ \<Rightarrow> raise (Http 404 ''Not found'')))"

section \<open>Listings\<close>

definition page :: "int \<Rightarrow> int \<Rightarrow> 'a list \<Rightarrow> 'a list" where
  "page offset limit xs = take (nat limit) (drop (nat offset) xs)"

definition check_page :: "int \<Rightarrow> int \<Rightarrow> unit tx" where
  "check_page offset limit =
     require (\<not> (offset < 0 \<or> \<not> (1 \<le> limit \<and> limit \<le> 200))) (Http 422 ''Invalid pagination'')"

definition administrator_session :: "env \<Rightarrow> string option \<Rightarrow> json tx" where
  "administrator_session e credentials =
     andThen (admin e credentials) (\<lambda>actor.
       ret (JObj [(''name'', JStr (ad_name actor)), (''role'', JStr (ad_role actor)),
                  (''expires_at'', JStr (isoformat e (ad_expires_at actor)))]))"

definition customer_list :: "env \<Rightarrow> string option \<Rightarrow> int \<Rightarrow> int \<Rightarrow> bool \<Rightarrow> json tx" where
  "customer_list e credentials offset limit include_archived =
     andThen (admin e credentials) (\<lambda>_.
     andThen (check_page offset limit) (\<lambda>_.
     andThen (query (\<lambda>d. page offset limit (sort_key cu_name (sort_key cu_id
        (filter (\<lambda>c. include_archived \<or> cu_archived_at c = None) (customers d)))))) (\<lambda>cs.
       ret (JArr (map (customer_summary e) cs)))))"

definition license_list :: "env \<Rightarrow> string option \<Rightarrow> int \<Rightarrow> int \<Rightarrow> json tx" where
  "license_list e credentials offset limit =
     andThen (admin e credentials) (\<lambda>_.
     andThen (check_page offset limit) (\<lambda>_.
     andThen (query (\<lambda>d. page offset limit (sort_key (\<lambda>l. - li_issued_at l)
        (sort_key li_id (licenses d))))) (\<lambda>ls.
     andThen (mapM (license_summary e) ls) (\<lambda>rows. ret (JArr rows)))))"

definition event_list :: "env \<Rightarrow> string option \<Rightarrow> int \<Rightarrow> int \<Rightarrow> json tx" where
  "event_list e credentials offset limit =
     andThen (admin e credentials) (\<lambda>_.
     andThen (check_page offset limit) (\<lambda>_.
     andThen (query (\<lambda>d. page offset limit (sort_key (\<lambda>a. - au_created_at a)
        (sort_key au_id (audit_logs d))))) (\<lambda>rows.
       ret (JArr (map (\<lambda>a. JObj [(''id'', JStr (au_id a)), (''actor'', JStr (au_actor a)),
         (''action'', JStr (au_action a)), (''target'', JStr (au_target a)),
         (''detail'', au_detail a), (''created_at'', JStr (isoformat e (au_created_at a)))])
         rows)))))"

definition device_list :: "env \<Rightarrow> string option \<Rightarrow> int \<Rightarrow> int \<Rightarrow> bool \<Rightarrow> json tx" where
  "device_list e credentials offset limit include_archived =
     andThen (admin e credentials) (\<lambda>_.
     andThen (check_page offset limit) (\<lambda>_.
     andThen (query (\<lambda>d. page offset limit (sort_key dv_created_at (sort_key dv_id
        (filter (\<lambda>x. include_archived \<or> dv_archived_at x = None) (devices d)))))) (\<lambda>ds.
     andThen (mapM (summary e) ds) (\<lambda>rows. ret (JArr rows)))))"

definition installation_rows :: "db \<Rightarrow> device \<Rightarrow> json" where
  "installation_rows d device =
     JArr (map (\<lambda>i. JObj [(''id'', JStr (in_id i)), (''current'', JBool (in_current i)),
        (''keys'', JArr (map (\<lambda>k. JObj [(''public_key'', JStr (ke_public_key k)),
                                        (''current'', JBool (ke_current k))])
           (filter (\<lambda>k. ke_installation_id k = in_id i) (device_keys d))))])
        (filter (\<lambda>i. in_device_id i = dv_id device) (installations d)))"

definition event_rows :: "env \<Rightarrow> db \<Rightarrow> device \<Rightarrow> json" where
  "event_rows e d device =
     JArr (map (\<lambda>x. JObj [(''kind'', JStr (re_kind x)), (''detail'', re_detail x),
                          (''created_at'', JStr (isoformat e (re_created_at x)))])
        (take 100 (sort_key (\<lambda>x. - re_created_at x)
           (filter (\<lambda>x. re_device_id x = Some (dv_id device)) (registration_events d)))))"

definition device_detail :: "env \<Rightarrow> string option \<Rightarrow> string \<Rightarrow> json tx" where
  "device_detail e credentials i =
     andThen (admin e credentials) (\<lambda>_.
     andThen (get_device i) (\<lambda>device.
     andThen (summary_rows e device) (\<lambda>rows.
     andThen (query (\<lambda>d. (installation_rows d device, event_rows e d device)))
       (\<lambda>(insts, events).
         ret (JObj (rows @ [(''installations'', insts), (''events'', events)]))))))"

end
