(* ===== verification/Registry_Spec.thy ===== *)
theory Registry_Spec
  imports Registry_Admin
begin

text \<open>
  What the registration server promises, as a transition system over its durable tables: customers,
  devices, installations, keys, licenses, bindings and activation tokens. One rule per kind of
  change, with the guard under which the server may make it, and the policy invariant that every
  rule keeps. Registry_Simulation shows that every request of the code is a sequence of these steps.
\<close>

section \<open>Durable tables\<close>

text \<open>
  Challenges, sessions, events, the audit log and the administrators do not take part in the
  policy.
\<close>

definition core :: "db \<Rightarrow> db" where
  "core d = d\<lparr>challenges := [], device_sessions := [], registration_events := [], audit_logs := [],
    administrators := []\<rparr>"

lemma core_sel [simp]:
  "customers (core d) = customers d" "devices (core d) = devices d"
  "installations (core d) = installations d" "device_keys (core d) = device_keys d"
  "licenses (core d) = licenses d" "license_bindings (core d) = license_bindings d"
  "activation_tokens (core d) = activation_tokens d"
  by (simp_all add: core_def)

lemma core_get [simp]:
  "get_customer (core d) = get_customer d" "get_device_row (core d) = get_device_row d"
  "get_installation (core d) = get_installation d" "get_key (core d) = get_key d"
  "get_license (core d) = get_license d" "get_binding (core d) = get_binding d"
  "get_token (core d) = get_token d"
  by (auto simp: get_defs fun_eq_iff)

lemma core_eq_get:
  assumes "core d = core d'"
  shows "get_customer d = get_customer d'" "get_device_row d = get_device_row d'"
    "get_installation d = get_installation d'" "get_key d = get_key d'"
    "get_license d = get_license d'" "get_binding d = get_binding d'"
  using assms core_get by metis+

lemma core_eq_sel:
  assumes "core d = core d'"
  shows "customers d = customers d'" "devices d = devices d'"
    "installations d = installations d'" "device_keys d = device_keys d'"
    "licenses d = licenses d'" "license_bindings d = license_bindings d'"
    "activation_tokens d = activation_tokens d'"
  using assms core_sel by metis+

lemma core_idem [simp]: "core (core d) = core d"
  by (simp add: core_def)

lemma core_writes:
  "core (put_customer c d) = put_customer c (core d)"
  "core (put_device v d) = put_device v (core d)"
  "core (put_license l d) = put_license l (core d)"
  "core (put_token a d) = put_token a (core d)"
  "core (put_installation i d) = put_installation i (core d)"
  "core (put_key k d) = put_key k (core d)"
  "core (add_customer c d) = add_customer c (core d)"
  "core (add_device v d) = add_device v (core d)"
  "core (add_installation i d) = add_installation i (core d)"
  "core (add_key k d) = add_key k (core d)"
  "core (add_license l d) = add_license l (core d)"
  "core (add_binding b d) = add_binding b (core d)"
  "core (add_token a d) = add_token a (core d)"
  "core (put_challenge h d) = core d"
  "core (add_challenge h d) = core d"
  "core (add_session x d) = core d"
  "core (add_event y d) = core d"
  "core (add_audit z d) = core d"
  by (simp_all add: core_def write_defs)

lemma key_of_device_core [simp]: "key_of_device (core d) = key_of_device d"
  by (simp add: key_of_device_def fun_eq_iff)

lemma clear_key_core [simp]: "clear_key (core d) = clear_key d"
  by (simp add: clear_key_def fun_eq_iff)

lemma core_releases:
  "core (release_identities i d) = release_identities i (core d)"
  "core (release_binding i d) = release_binding i (core d)"
  "core (bind_device u v i' k l a t d) = bind_device u v i' k l a t (core d)"
  by (simp_all add: release_identities_def release_binding_def bind_device_def core_writes
      split: option.split)
    (simp_all add: core_def delete_binding_def)

section \<open>Steps\<close>

definition active_in :: "customer list \<Rightarrow> string \<Rightarrow> bool" where
  "active_in cs i \<longleftrightarrow> (\<exists>c \<in> set cs. cu_id c = i \<and> cu_archived_at c = None)"

abbreviation active_customer_in :: "db \<Rightarrow> string \<Rightarrow> bool" where
  "active_customer_in d i \<equiv> active_in (customers d) i"

text \<open>A license that was not usable at an earlier reading of the clock.\<close>

definition lapsed :: "env \<Rightarrow> nat \<Rightarrow> license \<Rightarrow> bool" where
  "lapsed e n l \<longleftrightarrow> li_status l \<noteq> ACTIVE \<or>
     (\<exists>x. li_expires_at l = Some x \<and> (\<exists>k < n. x \<le> clk e k))"

definition bindable :: "db \<Rightarrow> device \<Rightarrow> installation \<Rightarrow> device_key \<Rightarrow> license \<Rightarrow> activation_token \<Rightarrow> bool"
where
  "bindable d v i k l a \<longleftrightarrow>
     v \<in> set (devices d) \<and> i \<in> set (installations d) \<and> k \<in> set (device_keys d) \<and>
     l \<in> set (licenses d) \<and> a \<in> set (activation_tokens d) \<and>
     at_device_id a = dv_id v \<and> at_installation_id a = in_id i \<and> at_key_id a = ke_id k \<and>
     at_license_id a = li_id l \<and> at_used_at a = None \<and>
     dv_status v \<notin> {REVOKED, SUSPENDED} \<and> li_status l = ACTIVE \<and>
     active_customer_in d (li_customer_id l) \<and>
     (\<forall>b \<in> set (license_bindings d). lb_device_id b = dv_id v \<longrightarrow> lb_license_id b = li_id l) \<and>
     (\<forall>x \<in> set (installations d). in_device_id x = dv_id v \<and> in_current x \<longrightarrow> in_id x = in_id i)"

definition unbound :: "db \<Rightarrow> device \<Rightarrow> bool" where
  "unbound d v \<longleftrightarrow> dv_id v \<notin> lb_device_id ` set (license_bindings d)"

inductive cstep :: "env \<Rightarrow> nat \<times> db \<Rightarrow> nat \<times> db \<Rightarrow> bool" for e where
  pass: "n \<le> m \<Longrightarrow> cstep e (n, d) (m, d)"
| new_customer:
    "cu_id c \<notin> cu_id ` set (customers d) \<Longrightarrow> cu_archived_at c = None \<Longrightarrow>
     cstep e (n, d) (n, add_customer c d)"
| edit_customer:
    "c \<in> set (customers d) \<Longrightarrow> cu_id c' = cu_id c \<Longrightarrow> cu_archived_at c' = cu_archived_at c \<Longrightarrow>
     cstep e (n, d) (n, put_customer c' d)"
| archive_customer:
    "c \<in> set (customers d) \<Longrightarrow> cu_id c' = cu_id c \<Longrightarrow>
     \<forall>l \<in> set (licenses d). li_customer_id l = cu_id c \<longrightarrow> lapsed e n l \<Longrightarrow>
     \<not> holds_active_device d (cu_id c) \<Longrightarrow>
     cstep e (n, d) (n, put_customer c' d)"
| restore_customer:
    "c \<in> set (customers d) \<Longrightarrow> cstep e (n, d) (n, put_customer (c\<lparr>cu_archived_at := None\<rparr>) d)"
| new_license:
    "li_id l \<notin> li_id ` set (licenses d) \<Longrightarrow> active_customer_in d (li_customer_id l) \<Longrightarrow>
     li_status l = ACTIVE \<Longrightarrow> 1 \<le> li_max_devices l \<Longrightarrow>
     cstep e (n, d) (n, add_license l d)"
| renew_license:
    "l \<in> set (licenses d) \<Longrightarrow> active_customer_in d (li_customer_id l) \<Longrightarrow>
     cstep e (n, d) (n, put_license (l\<lparr>li_expires_at := Some x\<rparr>) d)"
| control_license:
    "l \<in> set (licenses d) \<Longrightarrow> li_status l \<noteq> REVOKED \<Longrightarrow> st \<in> {SUSPENDED, REVOKED, ACTIVE} \<Longrightarrow>
     (st = ACTIVE \<longrightarrow> active_customer_in d (li_customer_id l)) \<Longrightarrow>
     cstep e (n, d) (n, put_license (l\<lparr>li_status := st\<rparr>) d)"
| new_device:
    "dv_id v \<notin> dv_id ` set (devices d) \<Longrightarrow>
     dv_status v = PENDING \<Longrightarrow> dv_archived_at v = None \<Longrightarrow>
     (\<forall>c. dv_customer_id v = Some c \<longrightarrow> active_customer_in d c) \<Longrightarrow>
     cstep e (n, d) (n, add_device v d)"
| edit_device:
    "v \<in> set (devices d) \<Longrightarrow> dv_archived_at v = None \<Longrightarrow>
     (\<forall>b \<in> set (license_bindings d). \<forall>l \<in> set (licenses d). lb_device_id b = dv_id v \<and>
        lb_license_id b = li_id l \<longrightarrow> c = Some (li_customer_id l)) \<Longrightarrow>
     (\<forall>i. c = Some i \<longrightarrow> active_customer_in d i) \<Longrightarrow>
     cstep e (n, d) (n, put_device (v\<lparr>dv_display_name := nm, dv_notes := nt, dv_customer_id := c\<rparr>) d)"
| archive_device:
    "v \<in> set (devices d) \<Longrightarrow>
     cstep e (n, d) (n, put_device (v\<lparr>dv_archived_at := Some t, dv_status := REVOKED\<rparr>) d)"
| restore_device:
    "v \<in> set (devices d) \<Longrightarrow> cstep e (n, d) (n, put_device (v\<lparr>dv_archived_at := None\<rparr>) d)"
| withdraw_device:
    "v \<in> set (devices d) \<Longrightarrow> dv_archived_at v = None \<Longrightarrow> st \<in> {SUSPENDED, REVOKED} \<Longrightarrow>
     cstep e (n, d) (n, put_device (v\<lparr>dv_status := st\<rparr>) d)"
| release_device:
    "v \<in> set (devices d) \<Longrightarrow> dv_archived_at v = None \<Longrightarrow>
     cstep e (n, d) (n, put_device (v\<lparr>dv_status := PENDING, dv_customer_id := None\<rparr>)
                         (release_binding (dv_id v) (release_identities (dv_id v) d)))"
| new_installation:
    "in_id i \<notin> in_id ` set (installations d) \<Longrightarrow> in_device_id i \<in> dv_id ` set (devices d) \<Longrightarrow>
     \<not> in_current i \<Longrightarrow> cstep e (n, d) (n, add_installation i d)"
| new_key:
    "ke_id k \<notin> ke_id ` set (device_keys d) \<Longrightarrow>
     ke_installation_id k \<in> in_id ` set (installations d) \<Longrightarrow>
     \<not> ke_current k \<Longrightarrow> cstep e (n, d) (n, add_key k d)"
| new_token:
    "at_id a \<notin> at_id ` set (activation_tokens d) \<Longrightarrow>
     v \<in> set (devices d) \<Longrightarrow> i \<in> set (installations d) \<Longrightarrow> k \<in> set (device_keys d) \<Longrightarrow>
     at_device_id a = dv_id v \<Longrightarrow> at_installation_id a = in_id i \<Longrightarrow> at_key_id a = ke_id k \<Longrightarrow>
     in_device_id i = dv_id v \<Longrightarrow> ke_installation_id k = in_id i \<Longrightarrow> at_used_at a = None \<Longrightarrow>
     dv_archived_at v = None \<Longrightarrow> dv_status v \<notin> {REVOKED, SUSPENDED} \<Longrightarrow>
     cstep e (n, d) (n, (if dv_status v \<noteq> ACTIVE
                         then put_device (v\<lparr>dv_status := ACTIVATION_REQUIRED\<rparr>) else id)
                        (add_token a d))"
| expire_token:
    "a \<in> set (activation_tokens d) \<Longrightarrow> at_used_at a = None \<Longrightarrow>
     cstep e (n, d) (n, put_token (a\<lparr>at_expires_at := t\<rparr>) d)"
| bind:
    "bindable d v i k l a \<Longrightarrow> (u \<longleftrightarrow> unbound d v) \<Longrightarrow>
     (u \<longrightarrow> binding_count d (li_id l) < li_max_devices l) \<Longrightarrow>
     (\<forall>x \<in> set (device_keys d). ke_installation_id x = in_id i \<and> ke_current x \<longrightarrow> ke_id x = ke_id k) \<Longrightarrow>
     cstep e (n, d) (n, bind_device u v i k l a t d)"
| touch:
    "v \<in> set (devices d) \<Longrightarrow> l \<in> set (licenses d) \<Longrightarrow>
     cstep e (n, d) (n, put_license (l\<lparr>li_last_validated_at := Some t\<rparr>)
                         (put_device (v\<lparr>dv_last_seen := Some t\<rparr>) d))"

section \<open>The policy\<close>

definition unique_ids :: "db \<Rightarrow> bool" where
  "unique_ids d \<longleftrightarrow>
     inj_on cu_id (set (customers d)) \<and> inj_on dv_id (set (devices d)) \<and>
     inj_on in_id (set (installations d)) \<and> inj_on ke_id (set (device_keys d)) \<and>
     inj_on li_id (set (licenses d)) \<and> inj_on lb_device_id (set (license_bindings d)) \<and>
     inj_on at_id (set (activation_tokens d))"

text \<open>Every row refers to rows that exist.\<close>

definition links :: "db \<Rightarrow> bool" where
  "links d \<longleftrightarrow>
     (\<forall>i \<in> set (installations d). in_device_id i \<in> dv_id ` set (devices d)) \<and>
     (\<forall>k \<in> set (device_keys d). ke_installation_id k \<in> in_id ` set (installations d)) \<and>
     (\<forall>b \<in> set (license_bindings d). lb_device_id b \<in> dv_id ` set (devices d) \<and>
        lb_license_id b \<in> li_id ` set (licenses d))"

text \<open>An activation token names an installation of its device and a key of that installation.\<close>

definition token_links :: "db \<Rightarrow> bool" where
  "token_links d \<longleftrightarrow> (\<forall>a \<in> set (activation_tokens d).
     (at_installation_id a, at_device_id a)
       \<in> (\<lambda>i. (in_id i, in_device_id i)) ` set (installations d) \<and>
     (at_key_id a, at_installation_id a)
       \<in> (\<lambda>k. (ke_id k, ke_installation_id k)) ` set (device_keys d))"

text \<open>A device has at most one current installation, and that one exactly one current key.\<close>

definition one_per :: "('a \<Rightarrow> bool) \<Rightarrow> ('a \<Rightarrow> 'g) \<Rightarrow> ('a \<Rightarrow> 'i) \<Rightarrow> 'a set \<Rightarrow> bool" where
  "one_per cur grp idn A \<longleftrightarrow>
     (\<forall>x \<in> A. \<forall>y \<in> A. cur x \<and> cur y \<and> grp x = grp y \<longrightarrow> idn x = idn y)"

definition one_identity :: "db \<Rightarrow> bool" where
  "one_identity d \<longleftrightarrow>
     one_per in_current in_device_id in_id (set (installations d)) \<and>
     one_per ke_current ke_installation_id ke_id (set (device_keys d))"

definition current_pairs :: "db \<Rightarrow> bool" where
  "current_pairs d \<longleftrightarrow>
     (\<forall>k \<in> set (device_keys d). ke_current k \<longrightarrow>
        (\<exists>i \<in> set (installations d). in_id i = ke_installation_id k \<and> in_current i)) \<and>
     (\<forall>i \<in> set (installations d). in_current i \<longrightarrow>
        (\<exists>k \<in> set (device_keys d). ke_installation_id k = in_id i \<and> ke_current k))"

text \<open>A device holds a license exactly while it has a current installation.\<close>

definition bound_iff_current :: "db \<Rightarrow> bool" where
  "bound_iff_current d \<longleftrightarrow>
     (\<forall>b \<in> set (license_bindings d).
        \<exists>i \<in> set (installations d). in_current i \<and> in_device_id i = lb_device_id b) \<and>
     (\<forall>i \<in> set (installations d). in_current i \<longrightarrow>
        in_device_id i \<in> lb_device_id ` set (license_bindings d))"

text \<open>An active device holds a license and an active owner; an archived one is revoked.\<close>

definition active_entitled :: "db \<Rightarrow> bool" where
  "active_entitled d \<longleftrightarrow> (\<forall>v \<in> set (devices d).
     (dv_status v = ACTIVE \<longrightarrow> dv_id v \<in> lb_device_id ` set (license_bindings d) \<and>
        (\<exists>c. dv_customer_id v = Some c \<and> active_customer_in d c)) \<and>
     (dv_archived_at v \<noteq> None \<longrightarrow> dv_status v = REVOKED))"

text \<open>A bound device belongs to the customer who owns its license.\<close>

definition owner_agrees :: "db \<Rightarrow> bool" where
  "owner_agrees d \<longleftrightarrow> (\<forall>b \<in> set (license_bindings d). \<forall>v \<in> set (devices d). \<forall>l \<in> set (licenses d).
     lb_device_id b = dv_id v \<and> lb_license_id b = li_id l \<longrightarrow>
     dv_customer_id v = Some (li_customer_id l))"

definition within_capacity :: "db \<Rightarrow> bool" where
  "within_capacity d \<longleftrightarrow> (\<forall>l \<in> set (licenses d). binding_count d (li_id l) \<le> li_max_devices l)"

definition policy :: "db \<Rightarrow> bool" where
  "policy d \<longleftrightarrow> unique_ids d \<and> links d \<and> token_links d \<and> one_identity d \<and> current_pairs d \<and>
     bound_iff_current d \<and> active_entitled d \<and> owner_agrees d \<and> within_capacity d"

text \<open>No license of an archived customer can be used.\<close>

definition closed_customers :: "env \<Rightarrow> nat \<Rightarrow> db \<Rightarrow> bool" where
  "closed_customers e n d \<longleftrightarrow> (\<forall>c \<in> set (customers d). cu_archived_at c \<noteq> None \<longrightarrow>
     (\<forall>l \<in> set (licenses d). li_customer_id l = cu_id c \<longrightarrow> lapsed e n l))"

section \<open>Every step keeps the policy\<close>

lemma key_set_row_put [row_simps]: "key ` set (row_put key r rows) = key ` set rows"
  by (metis map_key_row_put list.set_map)

lemma mem_row_put:
  "x \<in> set (row_put key r rows) \<longleftrightarrow>
     (x = r \<and> key r \<in> key ` set rows) \<or> (x \<in> set rows \<and> key x \<noteq> key r)"
  by (auto simp: row_put_def image_iff split: if_splits) (metis, metis+)

lemma ball_row_put [row_simps]:
  "(\<forall>x \<in> set (row_put key r rows). P x) \<longleftrightarrow>
     (key r \<in> key ` set rows \<longrightarrow> P r) \<and> (\<forall>x \<in> set rows. key x \<noteq> key r \<longrightarrow> P x)"
  by (auto simp: mem_row_put)

lemma bex_row_put [row_simps]:
  "(\<exists>x \<in> set (row_put key r rows). P x) \<longleftrightarrow>
     (key r \<in> key ` set rows \<and> P r) \<or> (\<exists>x \<in> set rows. key x \<noteq> key r \<and> P x)"
  by (auto simp: mem_row_put)

lemma inj_on_row_put : "inj_on key (set rows) \<Longrightarrow> inj_on key (set (row_put key r rows))"
  by (auto simp: inj_on_def mem_row_put)

lemma inj_on_same: "inj_on f A \<Longrightarrow> (\<And>x. x \<in> A \<Longrightarrow> f (g x) = f x) \<Longrightarrow> inj_on f (g ` A)"
  by (auto simp: inj_on_def)

lemma inj_on_eq: "inj_on key A \<Longrightarrow> x \<in> A \<Longrightarrow> y \<in> A \<Longrightarrow> key x = key y \<Longrightarrow> x = y"
  by (auto dest: inj_onD)

lemma inj_on_Collect: "inj_on f A \<Longrightarrow> inj_on f {x \<in> A. P x}"
  by (auto simp: inj_on_def)

lemma release_binding_eq:
  "release_binding i d =
     d\<lparr>license_bindings := filter (\<lambda>b. lb_device_id b \<noteq> i) (license_bindings d)\<rparr>"
proof (cases "get_binding d i")
  case None
  then have "filter (\<lambda>b. lb_device_id b \<noteq> i) (license_bindings d) = license_bindings d"
    by (auto simp: get_binding_def row_get_None intro!: filter_True)
  with None show ?thesis by (simp add: release_binding_def)
next
  case (Some b)
  then have "lb_device_id b = i" by (auto simp: get_binding_def dest: row_get_key)
  with Some show ?thesis by (simp add: release_binding_def delete_binding_def)
qed

lemma clear_sel [simp]:
  "in_id (clear_installation i x) = in_id x"
  "in_device_id (clear_installation i x) = in_device_id x"
  "in_current (clear_installation i x) \<longleftrightarrow> in_current x \<and> in_device_id x \<noteq> i"
  "ke_id (clear_key d i k) = ke_id k"
  "ke_installation_id (clear_key d i k) = ke_installation_id k"
  "ke_current (clear_key d i k) \<longleftrightarrow> ke_current k \<and> \<not> key_of_device d i k"
  by (simp_all add: clear_installation_def clear_key_def)

lemmas step_defs = write_defs bind_device_def release_identities_def release_binding_eq

lemma unique_ids_step:
  "cstep e x y \<Longrightarrow> unique_ids (snd x) \<Longrightarrow> unique_ids (snd y)"
  by (induction rule: cstep.induct)
    (auto simp: unique_ids_def step_defs row_simps inj_on_row_put inj_on_same inj_on_Collect
      unbound_def)

lemma links_step:
  "cstep e x y \<Longrightarrow> links (snd x) \<Longrightarrow> links (snd y)"
  by (induction rule: cstep.induct)
    (auto simp: links_def step_defs row_simps image_image bindable_def)

lemma policyD:
  assumes "policy d"
  shows "unique_ids d" "links d" "token_links d" "one_identity d" "current_pairs d"
    "bound_iff_current d" "active_entitled d" "owner_agrees d" "within_capacity d"
  using assms by (simp_all add: policy_def)

lemma unique_row:
  assumes "unique_ids d"
  shows "v \<in> set (devices d) \<Longrightarrow> \<forall>x \<in> set (devices d). dv_id x = dv_id v \<longrightarrow> x = v"
    "i \<in> set (installations d) \<Longrightarrow> \<forall>x \<in> set (installations d). in_id x = in_id i \<longrightarrow> x = i"
    "k \<in> set (device_keys d) \<Longrightarrow> \<forall>x \<in> set (device_keys d). ke_id x = ke_id k \<longrightarrow> x = k"
    "l \<in> set (licenses d) \<Longrightarrow> \<forall>x \<in> set (licenses d). li_id x = li_id l \<longrightarrow> x = l"
    "c \<in> set (customers d) \<Longrightarrow> \<forall>x \<in> set (customers d). cu_id x = cu_id c \<longrightarrow> x = c"
    "a \<in> set (activation_tokens d) \<Longrightarrow> \<forall>x \<in> set (activation_tokens d). at_id x = at_id a \<longrightarrow> x = a"
  using assms by (auto simp: unique_ids_def dest: inj_on_eq)

text \<open>The installation and key of a token that may bind are those of its device.\<close>

lemma bindable_links:
  assumes "policy d" and "bindable d v i k l a"
  shows "in_device_id i = dv_id v" "ke_installation_id k = in_id i"
proof -
  have u: "unique_ids d" and t: "token_links d" using assms(1) by (simp_all add: policyD)
  from t assms(2) obtain i' k' where "i' \<in> set (installations d)" "in_id i' = in_id i"
    "in_device_id i' = dv_id v" "k' \<in> set (device_keys d)" "ke_id k' = ke_id k"
    "ke_installation_id k' = in_id i"
    by (auto simp: token_links_def bindable_def)
  with unique_row(2) [OF u, of i] unique_row(3) [OF u, of k] assms(2) show "in_device_id i = dv_id v"
    "ke_installation_id k = in_id i"
    by (auto simp: bindable_def)
qed

text \<open>Binding sets the \<open>current\<close> flag of one installation and of one key.\<close>

definition mark_installation :: "string \<Rightarrow> installation \<Rightarrow> installation" where
  "mark_installation j x = (if in_id x = j then x\<lparr>in_current := True\<rparr> else x)"

definition mark_key :: "string \<Rightarrow> device_key \<Rightarrow> device_key" where
  "mark_key j x = (if ke_id x = j then x\<lparr>ke_current := True\<rparr> else x)"

lemma mark_sel [simp]:
  "in_id (mark_installation j x) = in_id x"
  "in_device_id (mark_installation j x) = in_device_id x"
  "in_current (mark_installation j x) \<longleftrightarrow> in_current x \<or> in_id x = j"
  "ke_id (mark_key j y) = ke_id y"
  "ke_installation_id (mark_key j y) = ke_installation_id y"
  "ke_current (mark_key j y) \<longleftrightarrow> ke_current y \<or> ke_id y = j"
  by (simp_all add: mark_installation_def mark_key_def)

lemma row_put_mark:
  assumes "inj_on key (set rows)" and "r \<in> set rows" and "key (f r) = key r"
  shows "row_put key (f r) rows = map (\<lambda>x. if key x = key r then f x else x) rows"
  using assms by (auto simp: row_put_def dest: inj_on_eq)

lemma bind_installations:
  assumes "unique_ids d" and "bindable d v i k l a"
  shows "installations (bind_device u v i k l a t d)
      = map (mark_installation (in_id i)) (installations d)"
    "device_keys (bind_device u v i k l a t d) = map (mark_key (ke_id k)) (device_keys d)"
  using assms row_put_mark [of in_id "installations d" i "\<lambda>x. x\<lparr>in_current := True\<rparr>"]
    row_put_mark [of ke_id "device_keys d" k "\<lambda>x. x\<lparr>ke_current := True\<rparr>"]
  by (simp_all add: bind_device_def write_defs unique_ids_def bindable_def
      mark_installation_def [abs_def] mark_key_def [abs_def])

lemma bind_rows:
  "devices (bind_device u v i k l a t d)
     = row_put dv_id (v\<lparr>dv_status := ACTIVE, dv_customer_id := Some (li_customer_id l)\<rparr>) (devices d)"
  "customers (bind_device u v i k l a t d) = customers d"
  "licenses (bind_device u v i k l a t d) = licenses d"
  "activation_tokens (bind_device u v i k l a t d)
     = row_put at_id (a\<lparr>at_used_at := Some t\<rparr>) (activation_tokens d)"
  "license_bindings (bind_device u v i k l a t d)
     = license_bindings d @ (if u then [\<lparr>lb_device_id = dv_id v, lb_license_id = li_id l\<rparr>] else [])"
  by (simp_all add: bind_device_def write_defs)

lemma token_links_step:
  "cstep e x y \<Longrightarrow> policy (snd x) \<Longrightarrow> token_links (snd y)"
proof (induction rule: cstep.induct)
  case (bind d v i k l a u n t)
  then have "unique_ids d" "token_links d" by (simp_all add: policyD)
  moreover have "a \<in> set (activation_tokens d)" using bind.hyps(1) by (simp add: bindable_def)
  ultimately show ?case
    using bind.hyps(1)
    by (simp add: token_links_def bind_rows bind_installations row_simps image_image)
qed (auto simp: policy_def token_links_def step_defs row_simps image_image)

lemma length_filter_conj: "length (filter (\<lambda>x. P x \<and> Q x) xs) \<le> length (filter Q xs)"
  by (induction xs) auto

lemma binding_count_release: "binding_count (release_binding i d) j \<le> binding_count d j"
  by (simp add: binding_count_def release_binding_eq length_filter_conj)

lemma binding_count_fresh:
  "links d \<Longrightarrow> j \<notin> li_id ` set (licenses d) \<Longrightarrow> binding_count d j = 0"
  by (auto simp: binding_count_def links_def filter_empty_conv)

lemma binding_count_bind:
  "binding_count (bind_device u v i k l a t d) j =
     binding_count d j + (if u \<and> j = li_id l then 1 else 0)"
  by (simp add: binding_count_def bind_device_def write_defs)

lemma binding_count_writes:
  "binding_count (put_customer c d) j = binding_count d j"
  "binding_count (put_device v d) j = binding_count d j"
  "binding_count (put_license l d) j = binding_count d j"
  "binding_count (put_token a d) j = binding_count d j"
  "binding_count (add_customer c d) j = binding_count d j"
  "binding_count (add_device v d) j = binding_count d j"
  "binding_count (add_installation i d) j = binding_count d j"
  "binding_count (add_key k d) j = binding_count d j"
  "binding_count (add_license l d) j = binding_count d j"
  "binding_count (add_token a d) j = binding_count d j"
  "binding_count (release_identities x d) j = binding_count d j"
  by (simp_all add: binding_count_def write_defs release_identities_def)

lemma licenses_writes:
  "licenses (bind_device u v i k l a t d) = licenses d"
  "licenses (release_binding x d) = licenses d"
  "licenses (release_identities x d) = licenses d"
  "licenses (put_device v d) = licenses d"
  "licenses (add_token a d) = licenses d"
  by (simp_all add: bind_device_def write_defs release_binding_eq release_identities_def)

lemma within_capacity_step:
  "cstep e x y \<Longrightarrow> policy (snd x) \<Longrightarrow> within_capacity (snd y)"
proof (induction rule: cstep.induct)
  case (new_license l d n)
  then have "binding_count d (li_id l) = 0" and "within_capacity d"
    by (simp_all add: binding_count_fresh policyD)
  with new_license show ?case
    by (simp add: within_capacity_def binding_count_writes) (simp add: add_license_def)
next
  case (release_device v d n)
  then show ?case
    using binding_count_release [of "dv_id v" "release_identities (dv_id v) d"]
    by (fastforce simp: within_capacity_def binding_count_writes licenses_writes
        dest: policyD(9) intro: order_trans)
next
  case (bind d v i k l a u n t)
  then have "inj_on li_id (set (licenses d))" and "l \<in> set (licenses d)" and "within_capacity d"
    by (simp_all add: policy_def unique_ids_def bindable_def)
  with bind.hyps(3) show ?case
    by (auto simp: within_capacity_def binding_count_bind licenses_writes dest: inj_on_eq)
qed (auto simp: policy_def within_capacity_def binding_count_def step_defs row_simps)

lemma active_in_put [row_simps]:
  "active_in (row_put cu_id c cs) i \<longleftrightarrow>
     (if cu_id c = i then i \<in> cu_id ` set cs \<and> cu_archived_at c = None else active_in cs i)"
  by (auto simp: active_in_def mem_row_put)

lemma active_in_append [row_simps]:
  "active_in (cs @ [c]) i \<longleftrightarrow> active_in cs i \<or> (cu_id c = i \<and> cu_archived_at c = None)"
  by (auto simp: active_in_def)

lemma active_in_row:
  "unique_ids d \<Longrightarrow> c \<in> set (customers d) \<Longrightarrow>
     active_customer_in d (cu_id c) \<longleftrightarrow> cu_archived_at c = None"
  using unique_row(5) [of d c] by (auto simp: active_in_def)

lemma active_entitled_mono:
  assumes "active_entitled d"
    and "devices d' = devices d" and "license_bindings d' = license_bindings d"
    and "\<And>v i. v \<in> set (devices d) \<Longrightarrow> dv_status v = ACTIVE \<Longrightarrow> dv_archived_at v = None \<Longrightarrow>
        dv_customer_id v = Some i \<Longrightarrow> active_customer_in d i \<Longrightarrow> active_customer_in d' i"
  shows "active_entitled d'"
  using assms unfolding active_entitled_def by (metis status.distinct(25) not_None_eq)

lemma active_entitled_step:
  "cstep e x y \<Longrightarrow> policy (snd x) \<Longrightarrow> active_entitled (snd y)"
proof (induction rule: cstep.induct)
  case (new_customer c d n)
  then have "active_entitled d" by (simp add: policyD)
  then show ?case
    by (auto elim!: active_entitled_mono simp: add_customer_def row_simps)
next
  case (edit_customer c d c' n)
  then have "active_customer_in d (cu_id c) \<longleftrightarrow> cu_archived_at c = None" and "active_entitled d"
    by (simp_all add: active_in_row policyD)
  with edit_customer.hyps show ?case
    by (auto elim!: active_entitled_mono simp: put_customer_def row_simps)
next
  case (archive_customer c d n c')
  then have "active_entitled d" by (simp add: policyD)
  with archive_customer.hyps show ?case
    by (auto elim!: active_entitled_mono
        simp: put_customer_def row_simps holds_active_device_def list_ex_iff)
next
  case (restore_customer c d n)
  then have "active_entitled d" by (simp add: policyD)
  with restore_customer.hyps show ?case
    by (auto elim!: active_entitled_mono simp: put_customer_def row_simps)
next
  case (edit_device v d c n nm nt)
  then have old: "active_entitled d" "links d" by (simp_all add: policyD)
  have "\<exists>j. c = Some j \<and> active_customer_in d j" if "dv_status v = ACTIVE"
  proof -
    from that old(1) edit_device.hyps(1) obtain b where
      b: "b \<in> set (license_bindings d)" "lb_device_id b = dv_id v"
      by (auto simp: active_entitled_def)
    with old(2) obtain l where "l \<in> set (licenses d)" "lb_license_id b = li_id l"
      by (auto simp: links_def)
    with b edit_device.hyps(3,4) show ?thesis by auto
  qed
  with old(1) edit_device.hyps(1,2) show ?case
    by (simp add: active_entitled_def put_device_def row_simps)
next
  case (bind d v i k l a u n t)
  then have "active_entitled d" by (simp add: policyD)
  with bind.hyps show ?case
    by (auto simp: active_entitled_def bind_rows row_simps bindable_def unbound_def)
qed (auto simp: policy_def active_entitled_def step_defs row_simps image_image)

text \<open>
  Marking one more row as current keeps one per group when its group had no other; a row that is
  not current does not count, and clearing flags never hurts.
\<close>

lemma one_per_mark:
  assumes "one_per cur grp idn A"
    and "\<forall>x \<in> A. grp x = grp z \<and> cur x \<longrightarrow> idn x = idn z"
    and "\<forall>x \<in> A. idn x = idn z \<longrightarrow> x = z"
    and "\<And>x. grp (f x) = grp x" "\<And>x. idn (f x) = idn x" "\<And>x. cur (f x) \<longleftrightarrow> cur x \<or> idn x = idn z"
  shows "one_per cur grp idn (f ` A)"
proof -
  have "idn x = idn y" if "x \<in> A" "y \<in> A" "cur x \<or> idn x = idn z" "cur y \<or> idn y = idn z"
    "grp x = grp y" for x y
  proof (cases "idn x = idn z \<or> idn y = idn z")
    case True
    with assms(2,3) that show ?thesis by metis
  next
    case False
    with assms(1) that show ?thesis unfolding one_per_def by blast
  qed
  then show ?thesis unfolding one_per_def using assms(4-6) by auto
qed

lemma one_per_insert: "\<not> cur z \<Longrightarrow> one_per cur grp idn (insert z A) = one_per cur grp idn A"
  by (auto simp: one_per_def)

lemma one_per_clear:
  assumes "one_per cur grp idn A"
    and "\<And>x. grp (f x) = grp x" "\<And>x. idn (f x) = idn x" "\<And>x. cur (f x) \<Longrightarrow> cur x"
  shows "one_per cur grp idn (f ` A)"
  using assms(1) unfolding one_per_def by (auto simp: assms(2,3) dest!: assms(4))

lemma one_identity_step:
  "cstep e x y \<Longrightarrow> policy (snd x) \<Longrightarrow> one_identity (snd y)"
proof (induction rule: cstep.induct)
  case (bind d v i k l a u n t)
  then have u: "unique_ids d" and one: "one_identity d"
    and links: "in_device_id i = dv_id v" "ke_installation_id k = in_id i"
    by (simp_all add: policyD bindable_links)
  have "i \<in> set (installations d)" and "k \<in> set (device_keys d)"
    and "\<forall>x \<in> set (installations d). in_device_id x = in_device_id i \<and> in_current x
        \<longrightarrow> in_id x = in_id i"
    and "\<forall>x \<in> set (device_keys d). ke_installation_id x = ke_installation_id k \<and> ke_current x
        \<longrightarrow> ke_id x = ke_id k"
    using bind.hyps(1,4) links by (simp_all add: bindable_def)
  with one show ?case
    unfolding one_identity_def snd_conv bind_installations [OF u bind.hyps(1)] set_map
    by (auto intro!: one_per_mark unique_row(2) [OF u] unique_row(3) [OF u])
next
  case (release_device v d n)
  then have "one_identity d" by (simp add: policyD)
  then show ?case
    unfolding one_identity_def snd_conv step_defs by (simp, intro conjI one_per_clear) auto
qed (simp_all add: policy_def one_identity_def step_defs one_per_insert)

lemma current_pairs_step:
  "cstep e x y \<Longrightarrow> policy (snd x) \<Longrightarrow> current_pairs (snd y)"
proof (induction rule: cstep.induct)
  case (bind d v i k l a u n t)
  then have u: "unique_ids d" and cp: "current_pairs d" and links: "ke_installation_id k = in_id i"
    by (simp_all add: policyD bindable_links)
  have i: "i \<in> set (installations d)" and k: "k \<in> set (device_keys d)"
    using bind.hyps(1) by (simp_all add: bindable_def)
  have "ke_installation_id x = in_id i" if "x \<in> set (device_keys d)" "ke_id x = ke_id k" for x
    using that unique_row(3) [OF u k] links by metis
  with cp i k links have "\<forall>x \<in> set (device_keys d). ke_current x \<or> ke_id x = ke_id k \<longrightarrow>
      (\<exists>y \<in> set (installations d). in_id y = ke_installation_id x \<and>
        (in_current y \<or> in_id y = in_id i))"
    and "\<forall>y \<in> set (installations d). in_current y \<or> in_id y = in_id i \<longrightarrow>
      (\<exists>x \<in> set (device_keys d). ke_installation_id x = in_id y \<and>
        (ke_current x \<or> ke_id x = ke_id k))"
    unfolding current_pairs_def by metis+
  then show ?case
    unfolding current_pairs_def snd_conv bind_installations [OF u bind.hyps(1)] by simp
next
  case (release_device v d n)
  then have u: "unique_ids d" and cp: "current_pairs d" by (simp_all add: policyD)
  have "\<exists>i \<in> set (installations d). in_id i = ke_installation_id k \<and> in_current i \<and>
      in_device_id i \<noteq> dv_id v"
    if "k \<in> set (device_keys d)" "ke_current k" "\<not> key_of_device d (dv_id v) k" for k
  proof -
    from cp that(1,2) obtain i where "i \<in> set (installations d)" "in_id i = ke_installation_id k"
      "in_current i"
      unfolding current_pairs_def by blast
    with that(3) show ?thesis by (auto simp: key_of_device_def list_ex_iff)
  qed
  moreover have "\<exists>k \<in> set (device_keys d). ke_installation_id k = in_id i \<and> ke_current k \<and>
      \<not> key_of_device d (dv_id v) k"
    if "i \<in> set (installations d)" "in_current i" "in_device_id i \<noteq> dv_id v" for i
  proof -
    from cp that(1,2) obtain k where "k \<in> set (device_keys d)" "ke_installation_id k = in_id i"
      "ke_current k"
      unfolding current_pairs_def by blast
    with that(1,3) unique_row(2) [OF u that(1)] show ?thesis
      unfolding key_of_device_def list_ex_iff by metis
  qed
  ultimately show ?case
    by (simp add: current_pairs_def step_defs)
qed (auto simp: policy_def current_pairs_def step_defs row_simps image_image)

lemma bound_iff_current_step:
  "cstep e x y \<Longrightarrow> policy (snd x) \<Longrightarrow> bound_iff_current (snd y)"
proof (induction rule: cstep.induct)
  case (bind d v i k l a u n t)
  then have u: "unique_ids d" and b: "bound_iff_current d" and links: "in_device_id i = dv_id v"
    by (simp_all add: policyD bindable_links)
  have i: "i \<in> set (installations d)"
    using bind.hyps(1) by (simp add: bindable_def)
  have "in_device_id x = dv_id v" if "x \<in> set (installations d)" "in_id x = in_id i" for x
    using that unique_row(2) [OF u i] links by metis
  with b i links bind.hyps(2) show ?case
    unfolding bound_iff_current_def snd_conv bind_installations [OF u bind.hyps(1)] bind_rows
    by (auto simp: unbound_def)
next
  case (release_device v d n)
  then have "bound_iff_current d" by (simp add: policyD)
  then show ?case
    by (fastforce simp: bound_iff_current_def step_defs)
qed (auto simp: policy_def bound_iff_current_def step_defs row_simps image_image)

lemma owner_agrees_step:
  "cstep e x y \<Longrightarrow> policy (snd x) \<Longrightarrow> owner_agrees (snd y)"
proof (induction rule: cstep.induct)
  case (bind d v i k l a u n t)
  then have u: "unique_ids d" and own: "owner_agrees d" by (simp_all add: policyD)
  have "\<forall>x \<in> set (licenses d). li_id x = li_id l \<longrightarrow> x = l"
    and "\<forall>b \<in> set (license_bindings d). lb_device_id b = dv_id v \<longrightarrow> lb_license_id b = li_id l"
    using bind.hyps(1) unique_row(4) [OF u] by (simp_all add: bindable_def)
  note one_license = this
  show ?case
    unfolding owner_agrees_def snd_conv bind_rows
  proof (intro ballI impI)
    fix b w m
    assume b: "b \<in> set (license_bindings d @
          (if u then [\<lparr>lb_device_id = dv_id v, lb_license_id = li_id l\<rparr>] else []))"
      and w: "w \<in> set (row_put dv_id (v\<lparr>dv_status := ACTIVE,
            dv_customer_id := Some (li_customer_id l)\<rparr>) (devices d))"
      and m: "m \<in> set (licenses d)" and bw: "lb_device_id b = dv_id w \<and> lb_license_id b = li_id m"
    show "dv_customer_id w = Some (li_customer_id m)"
    proof (cases "dv_id w = dv_id v")
      case True
      with b bw one_license(2) have "li_id m = li_id l" by (auto split: if_splits)
      with m one_license(1) have "m = l" by blast
      with w True show ?thesis by (auto simp: mem_row_put)
    next
      case False
      with b w bw have "b \<in> set (license_bindings d)" "w \<in> set (devices d)"
        by (auto simp: mem_row_put split: if_splits)
      with own m bw show ?thesis by (auto simp: owner_agrees_def)
    qed
  qed
next
  case (new_device v d n)
  then have "owner_agrees d" and "\<forall>b \<in> set (license_bindings d). lb_device_id b \<noteq> dv_id v"
    by (simp_all add: policy_def links_def) metis
  then show ?case
    by (auto simp: owner_agrees_def add_device_def)
next
  case (new_license l d n)
  then have "owner_agrees d" and "\<forall>b \<in> set (license_bindings d). lb_license_id b \<noteq> li_id l"
    by (simp_all add: policy_def links_def) metis
  then show ?case
    by (auto simp: owner_agrees_def add_license_def)
qed (auto simp: policy_def owner_agrees_def step_defs row_simps image_image)

lemma lapsed_update [simp]:
  "lapsed e n (l\<lparr>li_last_validated_at := t\<rparr>) = lapsed e n l"
  by (simp add: lapsed_def)

lemma lapsed_status: "st \<noteq> ACTIVE \<Longrightarrow> lapsed e n (l\<lparr>li_status := st\<rparr>)"
  by (simp add: lapsed_def)

lemma lapsed_later: "lapsed e n l \<Longrightarrow> n \<le> m \<Longrightarrow> lapsed e m l"
  by (auto simp: lapsed_def intro: less_le_trans)

lemma closed_customers_step:
  "cstep e x y \<Longrightarrow> policy (snd x) \<Longrightarrow> closed_customers e (fst x) (snd x) \<Longrightarrow>
     closed_customers e (fst y) (snd y)"
proof (induction rule: cstep.induct)
  case (pass n m d)
  then show ?case by (auto simp: closed_customers_def intro: lapsed_later)
next
  case (new_license l d n)
  then have "unique_ids d" by (simp add: policyD)
  with new_license show ?case
    by (auto simp: closed_customers_def add_license_def active_in_row)
next
  case (renew_license l d x n)
  then have "unique_ids d" by (simp add: policyD)
  with renew_license show ?case
    by (auto simp: closed_customers_def put_license_def row_simps active_in_row)
next
  case (control_license l d st n)
  then have "unique_ids d" by (simp add: policyD)
  with control_license show ?case
    by (auto simp: closed_customers_def put_license_def row_simps active_in_row lapsed_status)
qed (auto simp: closed_customers_def step_defs row_simps image_image)

section \<open>Reachable tables\<close>

theorem policy_step:
  assumes "cstep e x y" and "policy (snd x)"
  shows "policy (snd y)"
proof -
  note old = policyD [OF assms(2)]
  show ?thesis
    unfolding policy_def [of "snd y"]
    by (intro conjI unique_ids_step [OF assms(1) old(1)] links_step [OF assms(1) old(2)]
        token_links_step [OF assms] one_identity_step [OF assms] current_pairs_step [OF assms]
        bound_iff_current_step [OF assms] active_entitled_step [OF assms]
        owner_agrees_step [OF assms] within_capacity_step [OF assms])
qed

abbreviation csteps :: "env \<Rightarrow> nat \<times> db \<Rightarrow> nat \<times> db \<Rightarrow> bool" where
  "csteps e \<equiv> (cstep e)\<^sup>*\<^sup>*"

lemma policy_steps: "csteps e x y \<Longrightarrow> policy (snd x) \<Longrightarrow> policy (snd y)"
  by (induction rule: rtranclp_induct) (auto intro: policy_step)

lemma closed_customers_steps:
  "csteps e x y \<Longrightarrow> policy (snd x) \<Longrightarrow> closed_customers e (fst x) (snd x) \<Longrightarrow>
     closed_customers e (fst y) (snd y)"
  by (induction rule: rtranclp_induct) (auto intro: closed_customers_step dest: policy_steps)

lemma policy_empty: "policy empty_db"
  by (simp add: policy_def unique_ids_def links_def token_links_def one_identity_def one_per_def
      current_pairs_def bound_iff_current_def active_entitled_def owner_agrees_def
      within_capacity_def empty_db_def)

lemma closed_customers_empty: "closed_customers e n empty_db"
  by (simp add: closed_customers_def empty_db_def)

end
