(* ===== verification/Registry_Simulation.thy ===== *)
theory Registry_Simulation
  imports Registry_Spec
begin

text \<open>
  Every request of the registration server is a sequence of the steps of Registry_Spec. The
  judgement \<open>follows\<close> is a small program logic over the handlers: it tracks the durable tables as
  the session sees them and requires every change of them to be a step; a commit may only happen
  while they are still those of the store. Each route is derived with its rules.
\<close>

section \<open>The logic\<close>

text \<open>
  What the database checks of the durable tables before they are committed, as far as the steps
  need it: fresh keys, and one current key per installation.
\<close>

definition checked :: "db \<Rightarrow> bool" where
  "checked d \<longleftrightarrow> one_current_key d \<and>
     distinct (map cu_id (customers d)) \<and> distinct (map dv_id (devices d)) \<and>
     distinct (map in_id (installations d)) \<and> distinct (map ke_id (device_keys d)) \<and>
     distinct (map li_id (licenses d)) \<and> distinct (map at_id (activation_tokens d))"

lemma checked_core [simp]: "checked (core d) = checked d"
  by (simp add: checked_def one_current_key_def)

lemma integrity_checked: "integrity d \<Longrightarrow> checked d"
  by (simp add: integrity_def unique_columns_def checked_def)

lemma checked_put [simp]:
  "checked (put_customer c d) = checked d" "checked (put_device v d) = checked d"
  "checked (put_license l d) = checked d" "checked (put_token a d) = checked d"
  by (simp_all add: checked_def one_current_key_def write_defs row_simps)

lemma checked_add [simp]:
  "checked (add_customer c d) \<longleftrightarrow> checked d \<and> cu_id c \<notin> cu_id ` set (customers d)"
  "checked (add_device v d) \<longleftrightarrow> checked d \<and> dv_id v \<notin> dv_id ` set (devices d)"
  "checked (add_installation i d) \<longleftrightarrow> checked d \<and> in_id i \<notin> in_id ` set (installations d)"
  "\<not> ke_current k \<Longrightarrow> checked (add_key k d) \<longleftrightarrow> checked d \<and> ke_id k \<notin> ke_id ` set (device_keys d)"
  "checked (add_license l d) \<longleftrightarrow> checked d \<and> li_id l \<notin> li_id ` set (licenses d)"
  "checked (add_token a d) \<longleftrightarrow> checked d \<and> at_id a \<notin> at_id ` set (activation_tokens d)"
  by (auto simp: checked_def one_current_key_def write_defs)

lemma checked_tokens [simp]:
  "map at_id ats = map at_id (activation_tokens d) \<Longrightarrow>
     checked (d\<lparr>activation_tokens := ats\<rparr>) = checked d"
  by (simp add: checked_def one_current_key_def)

definition at_db :: "env \<Rightarrow> world \<Rightarrow> nat \<times> db \<Rightarrow> world \<Rightarrow> bool" where
  "at_db e s0 x s \<longleftrightarrow>
     core (work s) = snd x \<and> core (store s) = core (store s0) \<and> fst x \<le> ticks s \<and>
     ticks s0 \<le> ticks s \<and> (integrity (store s0) \<longrightarrow> integrity (store s)) \<and>
     (checked (snd x) \<longrightarrow> csteps e (ticks s0, core (store s0)) (ticks s, snd x))"

definition held :: "world \<Rightarrow> world \<Rightarrow> bool" where
  "held s0 s \<longleftrightarrow> core (store s) = core (store s0) \<and> ticks s0 \<le> ticks s \<and>
     (integrity (store s0) \<longrightarrow> integrity (store s))"

definition stepped :: "env \<Rightarrow> world \<Rightarrow> world \<Rightarrow> bool" where
  "stepped e s0 s \<longleftrightarrow> at_db e s0 (ticks s, core (work s)) s"

definition follows :: "env \<Rightarrow> world \<Rightarrow> nat \<times> db \<Rightarrow> 'a tx \<Rightarrow> bool" where
  "follows e s0 x m \<longleftrightarrow>
     (\<forall>s. at_db e s0 x s \<longrightarrow> wp m (\<lambda>_. stepped e s0) (\<lambda>_. held s0) s)"

text \<open>The durable tables of the session are still those of the store.\<close>

definition clean :: "world \<Rightarrow> nat \<times> db \<Rightarrow> bool" where
  "clean s0 x \<longleftrightarrow> snd x = core (store s0) \<and> checked (snd x) \<and> policy (snd x)"

lemma clean_later: "clean s0 (n, d) \<Longrightarrow> clean s0 (k, d)"
  by (auto simp: clean_def)

lemma csteps_pass: "csteps e x (n, d) \<Longrightarrow> n \<le> m \<Longrightarrow> csteps e x (m, d)"
  by (erule rtranclp.rtrancl_into_rtrancl) (rule cstep.pass)

lemma at_db_held: "at_db e s0 x s \<Longrightarrow> held s0 s"
  by (simp add: at_db_def held_def)

lemma at_db_stepped: "at_db e s0 x s \<Longrightarrow> stepped e s0 s"
  by (simp add: at_db_def stepped_def)

lemma at_db_pass:
  "at_db e s0 (n, d) s \<Longrightarrow> core (work t) = core (work s) \<Longrightarrow> store t = store s \<Longrightarrow>
     ticks s \<le> ticks t \<Longrightarrow> k \<le> ticks t \<Longrightarrow> at_db e s0 (k, d) t"
  by (auto simp: at_db_def intro: csteps_pass)

lemma followsI:
  "(\<And>s. at_db e s0 x s \<Longrightarrow> wp m (\<lambda>_. stepped e s0) (\<lambda>_. held s0) s) \<Longrightarrow> follows e s0 x m"
  by (simp add: follows_def)

lemma follows_at:
  "follows e s0 x m \<Longrightarrow> at_db e s0 x s \<Longrightarrow> wp m (\<lambda>_. stepped e s0) (\<lambda>_. held s0) s"
  by (simp add: follows_def)

lemma wp_now [wp_simps]: "wp (now e) Q R s = Q (clk e (ticks s)) (s\<lparr>ticks := Suc (ticks s)\<rparr>)"
  by (simp add: wp_def now_def)

lemma wp_uid [wp_simps]: "wp (uid e) Q R s = Q (new_uid e (uids s)) (s\<lparr>uids := Suc (uids s)\<rparr>)"
  by (simp add: wp_def uid_def)

lemma wp_token [wp_simps]:
  "wp (token_urlsafe e) Q R s = Q (new_token e (draws s)) (s\<lparr>draws := Suc (draws s)\<rparr>)"
  by (simp add: wp_def token_urlsafe_def)

lemma wp_query [wp_simps]: "wp (query f) Q R s = Q (f (work s)) s"
  by (simp add: wp_def query_def)

lemma wp_change [wp_simps]: "wp (change f) Q R s = Q () (s\<lparr>work := f (work s)\<rparr>)"
  by (simp add: wp_def change_def)

lemma wp_flush [wp_simps]:
  "wp flush Q R s = (if integrity (work s) then Q () s else R Integrity s)"
  by (simp add: wp_def flush_def)

lemma wp_commit [wp_simps]:
  "wp commit Q R s =
     (if integrity (work s) then Q () (s\<lparr>store := work s\<rparr>) else R Integrity s)"
  by (simp add: wp_def commit_def)

subsection \<open>Rules for the primitive steps\<close>

named_theorems follow "introduction rules of the judgement follows"

lemma follows_ret [follow]: "follows e s0 x (ret a)"
  by (rule followsI) (simp add: wp_simps at_db_stepped)

lemma follows_raise [follow]: "follows e s0 x (raise f)"
  by (rule followsI) (simp add: wp_simps at_db_held)

lemma follows_clock:
  assumes "\<And>k. n \<le> k \<Longrightarrow> follows e s0 (Suc k, d) (g (clk e k))"
  shows "follows e s0 (n, d) (andThen (now e) g)"
proof (rule followsI)
  fix s assume s: "at_db e s0 (n, d) s"
  then have "n \<le> ticks s" by (simp add: at_db_def)
  from assms [OF this] show "wp (andThen (now e) g) (\<lambda>_. stepped e s0) (\<lambda>_. held s0) s"
    unfolding wp_simps by (rule follows_at) (rule at_db_pass [OF s], simp_all)
qed

lemma follows_weaken:
  assumes "follows e s0 (n, d) m" and "n \<le> k"
  shows "follows e s0 (k, d) m"
proof (rule followsI)
  fix s assume "at_db e s0 (k, d) s"
  with assms(2) have "at_db e s0 (n, d) s" by (simp add: at_db_def)
  with assms(1) show "wp m (\<lambda>_. stepped e s0) (\<lambda>_. held s0) s" by (rule follows_at)
qed

lemma follows_same:
  assumes "\<And>s Q R. \<exists>a t. wp (andThen m g) Q R s = wp (g a) Q R t \<and> core (work t) = core (work s) \<and>
      store t = store s \<and> ticks t = ticks s"
    and "\<And>a. follows e s0 (n, d) (g a)"
  shows "follows e s0 (n, d) (andThen m g)"
proof (rule followsI)
  fix s assume s: "at_db e s0 (n, d) s"
  from assms(1) [of "\<lambda>_. stepped e s0" "\<lambda>_. held s0" s] obtain a t where
    t: "wp (andThen m g) (\<lambda>_. stepped e s0) (\<lambda>_. held s0) s = wp (g a) (\<lambda>_. stepped e s0) (\<lambda>_. held s0) t"
    "core (work t) = core (work s)" "store t = store s" "ticks t = ticks s"
    by blast
  from s have "at_db e s0 (n, d) t" using t(2-4) by (simp add: at_db_def)
  with assms(2) show "wp (andThen m g) (\<lambda>_. stepped e s0) (\<lambda>_. held s0) s"
    unfolding t(1) by (rule follows_at)
qed

lemma follows_now [follow]:
  "(\<And>t. follows e s0 (n, d) (g t)) \<Longrightarrow> follows e s0 (n, d) (andThen (now e) g)"
  by (rule follows_clock) (blast intro: follows_weaken le_SucI)

lemma follows_uid [follow]:
  "(\<And>i. follows e s0 (n, d) (g i)) \<Longrightarrow> follows e s0 (n, d) (andThen (uid e) g)"
  by (rule follows_same) (unfold wp_simps, rule exI, rule exI, rule conjI, rule refl, simp_all)

lemma follows_token [follow]:
  "(\<And>i. follows e s0 (n, d) (g i)) \<Longrightarrow> follows e s0 (n, d) (andThen (token_urlsafe e) g)"
  by (rule follows_same) (unfold wp_simps, rule exI, rule exI, rule conjI, rule refl, simp_all)

lemma follows_query:
  "(\<And>c. f (core c) = f c) \<Longrightarrow> follows e s0 (n, d) (g (f d)) \<Longrightarrow>
     follows e s0 (n, d) (andThen (query f) g)"
  unfolding follows_def at_db_def wp_simps by (metis snd_conv)

lemma follows_read: "(\<And>a. follows e s0 x (g a)) \<Longrightarrow> follows e s0 x (andThen (query f) g)"
  by (rule followsI) (unfold wp_simps, blast intro: follows_at)

lemma follows_flush [follow]:
  "(checked d \<Longrightarrow> follows e s0 (n, d) (g ())) \<Longrightarrow> follows e s0 (n, d) (andThen flush g)"
proof (rule followsI)
  fix s assume s: "at_db e s0 (n, d) s" and g: "checked d \<Longrightarrow> follows e s0 (n, d) (g ())"
  have "checked d" if "integrity (work s)"
    using integrity_checked [OF that] s by (auto simp: at_db_def)
  with s show "wp (andThen flush g) (\<lambda>_. stepped e s0) (\<lambda>_. held s0) s"
    unfolding wp_simps by (simp add: at_db_held follows_at [OF g])
qed

lemma follows_change:
  assumes "\<And>c. core (f c) = F (core c)"
    and "\<And>k. n \<le> k \<Longrightarrow> checked (F d) \<Longrightarrow> checked d \<and> cstep e (k, d) (k, F d)"
    and "follows e s0 (n, F d) (g ())"
  shows "follows e s0 (n, d) (andThen (change f) g)"
proof (rule followsI)
  fix s assume s: "at_db e s0 (n, d) s"
  then have "at_db e s0 (n, F d) (s\<lparr>work := f (work s)\<rparr>)"
    using assms(1,2) by (auto simp: at_db_def intro: rtranclp.rtrancl_into_rtrancl)
  with assms(3) show "wp (andThen (change f) g) (\<lambda>_. stepped e s0) (\<lambda>_. held s0) s"
    by (simp add: wp_simps follows_at)
qed

lemma follows_side:
  "(\<And>c. core (f c) = core c) \<Longrightarrow> follows e s0 (n, d) (g ()) \<Longrightarrow>
     follows e s0 (n, d) (andThen (change f) g)"
  by (rule follows_same) (unfold wp_simps, rule exI, rule exI, rule conjI, rule refl, simp_all)

lemma follows_require [follow]:
  "(b \<Longrightarrow> follows e s0 x (g ())) \<Longrightarrow> follows e s0 x (andThen (require b f) g)"
  by (simp add: require_def follows_raise)

lemma follows_need [follow]:
  "(\<And>a. v = Some a \<Longrightarrow> follows e s0 x (g a)) \<Longrightarrow> follows e s0 x (andThen (need v f) g)"
  by (simp add: need_def follows_raise split: option.split)

lemma follows_if [follow]:
  "(b \<Longrightarrow> follows e s0 x m) \<Longrightarrow> (\<not> b \<Longrightarrow> follows e s0 x m') \<Longrightarrow> follows e s0 x (if b then m else m')"
  by simp

lemma follows_option [follow]:
  "(v = None \<Longrightarrow> follows e s0 x m) \<Longrightarrow> (\<And>a. v = Some a \<Longrightarrow> follows e s0 x (h a)) \<Longrightarrow>
     follows e s0 x (case v of None \<Rightarrow> m | Some a \<Rightarrow> h a)"
  by (simp split: option.split)

text \<open>A commit before any durable change leaves the durable tables of the store as they were.\<close>

lemma follows_reject:
  assumes "clean s0 (n, d)"
  shows "follows e s0 (n, d) (reject e dv k j c)"
  using assms
  by (auto intro!: followsI simp: reject_def event_def audit_def wp_simps at_db_def held_def
      clean_def core_writes)

lemma follows_reject_then:
  "clean s0 (n, d) \<Longrightarrow> follows e s0 (n, d) (andThen (reject e dv k j c) g)"
  using follows_reject [of s0 n d e dv k j c]
  by (simp add: reject_def)

text \<open>What a query reads of the durable tables.\<close>

lemma core_reads [simp]:
  "license_for (core d) v = license_for d v"
  "pending_token (core d) i k t = pending_token d i k t"
  "binding_count (core d) j = binding_count d j"
  "current_installation (core d) j = current_installation d j"
  "other_current_key (core d) i k = other_current_key d i k"
  "approval_binding (core d) v a = approval_binding d v a"
  "unused_tokens (core d) j = unused_tokens d j"
  "holds_active_device (core d) j = holds_active_device d j"
  by (simp_all add: license_for_def pending_token_def binding_count_def current_installation_def
      other_current_key_def approval_binding_def unused_tokens_def holds_active_device_def
      split: option.split)

subsection \<open>Rules for the helpers of the routes\<close>

lemma follows_queries [follow]:
  "follows e s0 (n, d) (g1 (get_customer d i)) \<Longrightarrow>
     follows e s0 (n, d) (andThen (query (\<lambda>d. get_customer d i)) g1)"
  "follows e s0 (n, d) (g2 (get_device_row d i)) \<Longrightarrow>
     follows e s0 (n, d) (andThen (query (\<lambda>d. get_device_row d i)) g2)"
  "follows e s0 (n, d) (g3 (get_installation d i)) \<Longrightarrow>
     follows e s0 (n, d) (andThen (query (\<lambda>d. get_installation d i)) g3)"
  "follows e s0 (n, d) (g4 (get_key d i)) \<Longrightarrow>
     follows e s0 (n, d) (andThen (query (\<lambda>d. get_key d i)) g4)"
  "follows e s0 (n, d) (g5 (get_license d i)) \<Longrightarrow>
     follows e s0 (n, d) (andThen (query (\<lambda>d. get_license d i)) g5)"
  "follows e s0 (n, d) (g6 (get_binding d i)) \<Longrightarrow>
     follows e s0 (n, d) (andThen (query (\<lambda>d. get_binding d i)) g6)"
  "follows e s0 (n, d) (g7 (license_for d v)) \<Longrightarrow>
     follows e s0 (n, d) (andThen (query (\<lambda>d. license_for d v)) g7)"
  "follows e s0 (n, d) (g8 (binding_count d i)) \<Longrightarrow>
     follows e s0 (n, d) (andThen (query (\<lambda>d. binding_count d i)) g8)"
  "follows e s0 (n, d) (g9 (current_installation d i)) \<Longrightarrow>
     follows e s0 (n, d) (andThen (query (\<lambda>d. current_installation d i)) g9)"
  "follows e s0 (n, d) (g10 (other_current_key d x k)) \<Longrightarrow>
     follows e s0 (n, d) (andThen (query (\<lambda>d. other_current_key d x k)) g10)"
  "follows e s0 (n, d) (g11 (approval_binding d v a)) \<Longrightarrow>
     follows e s0 (n, d) (andThen (query (\<lambda>d. approval_binding d v a)) g11)"
  "follows e s0 (n, d) (g12 (unused_tokens d i)) \<Longrightarrow>
     follows e s0 (n, d) (andThen (query (\<lambda>d. unused_tokens d i)) g12)"
  "follows e s0 (n, d) (g13 (holds_active_device d i)) \<Longrightarrow>
     follows e s0 (n, d) (andThen (query (\<lambda>d. holds_active_device d i)) g13)"
  "follows e s0 (n, d) (g14 (row_get ke_public_key i (device_keys d))) \<Longrightarrow>
     follows e s0 (n, d) (andThen (query (\<lambda>d. row_get ke_public_key i (device_keys d))) g14)"
  "follows e s0 (n, d) (g15 (row_get dv_serial i (devices d))) \<Longrightarrow>
     follows e s0 (n, d) (andThen (query (\<lambda>d. row_get dv_serial i (devices d))) g15)"
  "follows e s0 (n, d) (g16 (row_get at_token_hash i (activation_tokens d))) \<Longrightarrow>
     follows e s0 (n, d) (andThen (query (\<lambda>d. row_get at_token_hash i (activation_tokens d))) g16)"
  "follows e s0 (n, d) (g17 (filter (\<lambda>l. li_customer_id l = i) (licenses d))) \<Longrightarrow>
     follows e s0 (n, d) (andThen (query (\<lambda>d. filter (\<lambda>l. li_customer_id l = i) (licenses d))) g17)"
  by (intro follows_query; simp)+

lemma follows_reads [follow]:
  "(\<And>a. follows e s0 x (g1 a)) \<Longrightarrow> follows e s0 x (andThen (query (\<lambda>d. get_session d i)) g1)"
  "(\<And>a. follows e s0 x (g2 a)) \<Longrightarrow> follows e s0 x (andThen (query (\<lambda>d. get_challenge d i)) g2)"
  "(\<And>a. follows e s0 x (g3 a)) \<Longrightarrow>
     follows e s0 x (andThen (query (\<lambda>d. row_get ad_token_hash i (administrators d))) g3)"
  "(\<And>a. follows e s0 x (g4 a)) \<Longrightarrow>
     follows e s0 x (andThen (query (\<lambda>d. pending_token d y k t)) g4)"
  "(\<And>a. follows e s0 x (g5 a)) \<Longrightarrow>
     follows e s0 x (andThen (query (\<lambda>d. pending_ids d v)) g5)"
  "(\<And>a. follows e s0 x (g6 a)) \<Longrightarrow>
     follows e s0 x (andThen (query (\<lambda>d. license_bindings_of d i)) g6)"
  "(\<And>a. follows e s0 x (g7 a)) \<Longrightarrow>
     follows e s0 x (andThen (query (\<lambda>d. case c of None \<Rightarrow> None | Some i \<Rightarrow> get_customer d i)) g7)"
  by (intro follows_read; simp)+

lemma follows_audit [follow]:
  "follows e s0 (n, d) (g ()) \<Longrightarrow> follows e s0 (n, d) (andThen (audit e a b c j) g)"
  unfolding audit_def andThen_assoc by (intro follow follows_side) (simp_all add: core_writes)

lemma follows_event [follow]:
  "follows e s0 (n, d) (g ()) \<Longrightarrow> follows e s0 (n, d) (andThen (event e v k j) g)"
  unfolding event_def andThen_assoc by (intro follow follows_side) (simp_all add: core_writes)

lemma follows_admin:
  "clean s0 (n, d) \<Longrightarrow> (\<And>a. follows e s0 (n, d) (g a)) \<Longrightarrow>
     follows e s0 (n, d) (andThen (admin e c) g)"
  unfolding admin_def andThen_assoc andThen_option andThen_if andThen_ret
  by (intro follow follows_reject_then)

lemma follows_writer:
  "clean s0 (n, d) \<Longrightarrow> (\<And>a. follows e s0 (n, d) (g a)) \<Longrightarrow>
     follows e s0 (n, d) (andThen (writer e c) g)"
  unfolding writer_def andThen_assoc andThen_if andThen_ret andThen_raise
  by (intro follow follows_admin)

lemma follows_get_device [follow]:
  "(\<And>v. get_device_row d i = Some v \<Longrightarrow> follows e s0 (n, d) (g v)) \<Longrightarrow>
     follows e s0 (n, d) (andThen (get_device i) g)"
  unfolding get_device_def andThen_assoc by (intro follow)

lemma follows_active_customer [follow]:
  "(\<And>c. get_customer d i = Some c \<Longrightarrow> cu_archived_at c = None \<Longrightarrow> follows e s0 (n, d) (g c)) \<Longrightarrow>
     follows e s0 (n, d) (andThen (active_customer i) g)"
  unfolding active_customer_def andThen_assoc andThen_option andThen_if andThen_ret andThen_raise
  by (intro follow) simp_all

lemma follows_check_customer [follow]:
  "((\<forall>i. c = Some i \<longrightarrow> active_customer_in d i) \<Longrightarrow> follows e s0 (n, d) (g ())) \<Longrightarrow>
     follows e s0 (n, d) (andThen (check_customer c) g)"
  unfolding check_customer_def andThen_assoc andThen_option andThen_ret
  by (intro follow) (auto simp: active_in_def get_customer_def dest: row_get_mem row_get_key)

lemma follows_now_expired [follow]:
  "(\<And>b. follows e s0 (n, d) (g b)) \<Longrightarrow> follows e s0 (n, d) (andThen (now_expired e l) g)"
  unfolding now_expired_def andThen_assoc andThen_option andThen_ret by (intro follow)

lemma follows_license_unavailable [follow]:
  "(\<And>b. (b \<or> li_status l = ACTIVE) \<Longrightarrow> follows e s0 (n, d) (g b)) \<Longrightarrow>
     follows e s0 (n, d) (andThen (license_unavailable e l) g)"
  unfolding license_unavailable_def andThen_assoc andThen_if andThen_ret by (intro follow) simp_all

lemma follows_state [follow]:
  "(\<And>b. follows e s0 (n, d) (g b)) \<Longrightarrow> follows e s0 (n, d) (andThen (state e v) g)"
  unfolding state_def andThen_assoc andThen_option andThen_if andThen_ret
  by (intro follow)

lemma follows_identity_status [follow]:
  "(\<And>b. follows e s0 (n, d) (g b)) \<Longrightarrow> follows e s0 (n, d) (andThen (identity_status e v i k) g)"
  unfolding identity_status_def andThen_assoc andThen_option andThen_if andThen_ret
  by (intro follow)

lemma row_get_self: "row_get key k rows = Some r \<Longrightarrow> row_get key (key r) rows = Some r"
  using row_get_key [of key k rows r] by simp

definition identity_in :: "db \<Rightarrow> device \<times> installation \<times> device_key \<Rightarrow> bool" where
  "identity_in d x \<longleftrightarrow> (case x of (v, i, k) \<Rightarrow> get_device_row d (dv_id v) = Some v \<and>
     get_installation d (in_id i) = Some i \<and> k \<in> set (device_keys d))"

lemma follows_identity:
  assumes "clean s0 (n, d)"
    and "\<And>x. (\<And>y. x = Some y \<Longrightarrow> identity_in d y) \<Longrightarrow> follows e s0 (n, d) (g x)"
  shows "follows e s0 (n, d) (andThen (identity e v) g)"
  unfolding identity_def andThen_assoc andThen_option andThen_if andThen_ret
  by (intro follow follows_reject_then assms)
    (auto simp: identity_in_def get_defs dest: row_get_mem row_get_key row_get_self)

lemma follows_consume:
  assumes "clean s0 (n, d)"
    and "\<And>x. identity_in d x \<Longrightarrow> follows e s0 (n, d) (g x)"
  shows "follows e s0 (n, d) (andThen (consume e v p) g)"
proof -
  have "follows e s0 (n, d) (andThen (consume_valid e v p c) g)" for c
    unfolding consume_valid_def andThen_assoc andThen_option andThen_if andThen_ret
    by (intro follow follows_reject_then follows_side assms)
      (auto simp: identity_in_def get_defs core_writes dest: row_get_mem row_get_key row_get_self)
  then show ?thesis
    unfolding consume_def andThen_assoc andThen_option andThen_if andThen_ret
    by (intro follow follows_reject_then assms(1))
qed

lemma follows_device_session:
  assumes "\<And>x. identity_in d x \<Longrightarrow> follows e s0 (n, d) (g x)"
  shows "follows e s0 (n, d) (andThen (device_session e c) g)"
  unfolding device_session_def andThen_assoc andThen_ret
  by (intro follow assms)
    (auto simp: identity_in_def get_defs dest: row_get_mem row_get_key row_get_self)

lemma identity_in_mem:
  "identity_in d (v, i, k) \<Longrightarrow> v \<in> set (devices d) \<and> i \<in> set (installations d) \<and> k \<in> set (device_keys d)"
  by (auto simp: identity_in_def get_defs dest: row_get_mem)

lemma license_for_mem: "license_for d v = Some l \<Longrightarrow> l \<in> set (licenses d)"
  by (auto simp: license_for_def get_defs dest: row_get_mem split: option.splits)

lemma follows_authorize:
  assumes "v \<in> set (devices d)"
  shows "follows e s0 (n, d) (authorize e v i k)"
  unfolding authorize_def authorize_active_def Let_def andThen_assoc andThen_ret
  using assms
  by (intro follow follows_change
      [where F = "put_license (l\<lparr>li_last_validated_at := Some t\<rparr>) \<circ>
                  put_device (v\<lparr>dv_last_seen := Some t\<rparr>)" for l t]
      follows_side [where f = "add_session x" for x])
    (auto simp: core_writes dest: license_for_mem intro: cstep.touch)

lemma follows_any_active_license:
  assumes "\<And>b k. n \<le> k \<Longrightarrow> (\<not> b \<Longrightarrow> \<forall>l \<in> set ls. lapsed e k l) \<Longrightarrow> follows e s0 (k, d) (g b)"
  shows "follows e s0 (n, d) (andThen (any_active_license e ls) g)"
  using assms
proof (induction ls arbitrary: n g)
  case Nil
  then show ?case by simp
next
  case (Cons l ls)
  show ?case
    unfolding any_active_license.simps andThen_if andThen_option andThen_assoc andThen_ret
  proof (intro follows_if follows_option follows_clock)
    assume "li_status l \<noteq> ACTIVE"
    then show "follows e s0 (n, d) (andThen (any_active_license e ls) g)"
      by (intro Cons) (auto simp: lapsed_def)
  next
    fix x k assume "li_expires_at l = Some x" and "n \<le> k" and "\<not> clk e k < x"
    then have "lapsed e (Suc k) l" by (auto simp: lapsed_def intro!: exI [of _ k])
    with \<open>n \<le> k\<close> show "follows e s0 (Suc k, d) (andThen (any_active_license e ls) g)"
      by (intro Cons) (auto intro: lapsed_later)
  qed (rule Cons.prems; simp)+
qed

lemma follows_customer_archive:
  assumes "\<And>c k. cu_id c = cu_id item \<Longrightarrow>
      \<forall>l \<in> set (licenses d). li_customer_id l = cu_id item \<longrightarrow> lapsed e k l \<Longrightarrow>
      \<not> holds_active_device d (cu_id item) \<Longrightarrow> follows e s0 (k, d) (g c)"
  shows "follows e s0 (n, d) (andThen (customer_archive e item) g)"
  unfolding customer_archive_def andThen_assoc andThen_option andThen_ret
  by (intro follow follows_any_active_license assms) simp_all

lemma follows_expire_all:
  assumes "set ts \<subseteq> set (activation_tokens d)" and "distinct (map at_id ts)"
    and "\<forall>a \<in> set ts. at_used_at a = None"
    and "\<And>ats. map at_id ats = map at_id (activation_tokens d) \<Longrightarrow> follows e s0 (n, d\<lparr>activation_tokens := ats\<rparr>) (g ())"
  shows "follows e s0 (n, d) (andThen (expire_all e ts) g)"
  using assms
proof (induction ts arbitrary: d)
  case Nil
  from Nil(4) [of "activation_tokens d"] show ?case by simp
next
  case (Cons a ts)
  have "follows e s0 (n, put_token (a\<lparr>at_expires_at := t\<rparr>) d) (andThen (expire_all e ts) g)" for t
  proof (rule Cons.IH)
    have "at_id x \<noteq> at_id a" if "x \<in> set ts" for x
      using Cons.prems(2) that by (metis distinct.simps(2) image_eqI list.set_map list.simps(9))
    with Cons.prems(1) show "set ts \<subseteq> set (activation_tokens (put_token (a\<lparr>at_expires_at := t\<rparr>) d))"
      by (auto simp: put_token_def mem_row_put)
  qed (use Cons.prems in \<open>simp_all add: put_token_def map_key_row_put\<close>)
  with Cons.prems(1,3) show ?case
    unfolding expire_all.simps andThen_assoc
    by (intro follow follows_change [where F = "put_token x" for x])
      (auto simp: core_writes intro: cstep.expire_token)
qed

lemma unused_tokens_ok:
  assumes "checked d"
  shows "set (unused_tokens d i) \<subseteq> set (activation_tokens d)"
    and "distinct (map at_id (unused_tokens d i))"
    and "\<forall>a \<in> set (unused_tokens d i). at_used_at a = None"
  using assms by (auto simp: unused_tokens_def checked_def distinct_map_filter)

lemma change_expire_all:
  fixes g :: "unit \<Rightarrow> 'b tx"
  assumes "\<And>a d. put_token a (R d) = R (put_token a d)"
  shows "andThen (change R) (\<lambda>_. andThen (expire_all e ts) g)
       = andThen (expire_all e ts) (\<lambda>_. andThen (change R) g)"
proof (induction ts)
  case (Cons a ts)
  have "andThen (change R) (\<lambda>_. andThen (now e) (\<lambda>t.
          andThen (change (put_token (a\<lparr>at_expires_at := t\<rparr>))) h))
      = andThen (now e) (\<lambda>t. andThen (change (put_token (a\<lparr>at_expires_at := t\<rparr>)))
          (\<lambda>_. andThen (change R) h))" for h :: "unit \<Rightarrow> 'b tx"
    by (rule ext) (simp add: andThen_def change_def now_def assms)
  with Cons show ?case by simp
qed simp

section \<open>The routes\<close>

definition obeys :: "env \<Rightarrow> 'a tx \<Rightarrow> bool" where
  "obeys e m \<longleftrightarrow>
     (\<forall>s0. checked (store s0) \<longrightarrow> policy (store s0) \<longrightarrow> follows e s0 (ticks s0, core (store s0)) m)"

lemma policy_core [simp]: "policy (core d) = policy d"
  by (simp add: policy_def unique_ids_def links_def token_links_def one_identity_def
      current_pairs_def bound_iff_current_def active_entitled_def owner_agrees_def
      within_capacity_def)

lemma obeysI: "(\<And>s0 n d. clean s0 (n, d) \<Longrightarrow> follows e s0 (n, d) m) \<Longrightarrow> obeys e m"
  by (simp add: obeys_def clean_def)

lemma get_mem:
  "get_customer d i = Some c \<Longrightarrow> c \<in> set (customers d) \<and> cu_id c = i"
  "get_device_row d i = Some v \<Longrightarrow> v \<in> set (devices d) \<and> dv_id v = i"
  "get_installation d i = Some x \<Longrightarrow> x \<in> set (installations d) \<and> in_id x = i"
  "get_license d i = Some l \<Longrightarrow> l \<in> set (licenses d) \<and> li_id l = i"
  "get_binding d i = Some b \<Longrightarrow> b \<in> set (license_bindings d) \<and> lb_device_id b = i"
  by (auto simp: get_defs dest: row_get_mem row_get_key)

lemma get_customer_active:
  "get_customer d i = Some c \<Longrightarrow> cu_archived_at c = None \<Longrightarrow> active_customer_in d i"
  by (auto simp: active_in_def dest: get_mem)

subsection \<open>Administrator routes\<close>

lemma follows_license_summary [follow]:
  "(\<And>j. follows e s0 (n, d) (g j)) \<Longrightarrow> follows e s0 (n, d) (andThen (license_summary e l) g)"
  unfolding license_summary_def andThen_assoc andThen_if andThen_ret by (intro follow)

lemma follows_summary_rows [follow]:
  "(\<And>j. follows e s0 (n, d) (g j)) \<Longrightarrow> follows e s0 (n, d) (andThen (summary_rows e v) g)"
  unfolding summary_rows_def andThen_assoc andThen_option andThen_ret by (intro follow)

lemma follows_summary [follow]: "follows e s0 (n, d) (summary e v)"
  unfolding summary_def by (intro follow)

lemma follows_summary_then [follow]:
  "(\<And>j. follows e s0 (n, d) (g j)) \<Longrightarrow> follows e s0 (n, d) (andThen (summary e v) g)"
  unfolding summary_def andThen_assoc andThen_ret by (intro follow)

lemma obeys_customer: "obeys e (customer e c v)"
  unfolding customer_def
  by (intro obeysI follows_writer follow follows_change [where F = "add_customer x" for x])
    (auto simp: core_writes intro: cstep.new_customer)

lemma obeys_license_create: "obeys e (license_create e c v)"
  if "1 \<le> lv_max_devices v"
  unfolding license_create_def andThen_option andThen_assoc andThen_ret
  using that
  by (intro obeysI follows_writer follow follows_change [where F = "add_license x" for x])
    (auto simp: core_writes intro!: cstep.new_license get_customer_active split: option.splits)

lemma obeys_customer_update: "obeys e (customer_update e c i v r)"
  unfolding customer_update_def Let_def
  by (intro obeysI follows_writer follow follows_change [where F = "put_customer x" for x])
    (auto simp: core_writes dest: get_mem intro: cstep.edit_customer)

lemma obeys_customer_lifecycle: "obeys e (customer_lifecycle e c i a r)"
  unfolding customer_lifecycle_def andThen_if andThen_ret
  by (intro obeysI follows_writer follow follows_customer_archive
      follows_change [where F = "put_customer x" for x])
    (auto simp: core_writes dest!: get_mem intro: cstep.archive_customer cstep.restore_customer
      lapsed_later)

lemma obeys_device_create: "obeys e (device_create e c v)"
  unfolding device_create_def Let_def
  by (intro obeysI follows_writer follow follows_change [where F = "add_device x" for x])
    (auto simp: core_writes intro: cstep.new_device)

lemma follows_editable_device [follow]:
  "(\<And>v. get_device_row d i = Some v \<Longrightarrow> dv_archived_at v = None \<Longrightarrow> follows e s0 (n, d) (g v)) \<Longrightarrow>
     follows e s0 (n, d) (andThen (editable_device i) g)"
  unfolding editable_device_def andThen_assoc andThen_if andThen_ret andThen_raise
  by (intro follow) simp_all

text \<open>Under the policy a row is found by its key.\<close>

lemma row_get_inj: "inj_on key (set rows) \<Longrightarrow> r \<in> set rows \<Longrightarrow> row_get key (key r) rows = Some r"
  by (cases "row_get key (key r) rows")
    (auto simp: row_get_None dest: row_get_mem row_get_key inj_on_eq)

lemma get_row:
  assumes "policy d"
  shows "b \<in> set (license_bindings d) \<Longrightarrow> get_binding d (lb_device_id b) = Some b"
    "l \<in> set (licenses d) \<Longrightarrow> get_license d (li_id l) = Some l"
  using assms by (simp_all add: get_defs policy_def unique_ids_def row_get_inj)

lemma license_for_row:
  assumes "policy d" and "b \<in> set (license_bindings d)" and "l \<in> set (licenses d)"
    and "lb_device_id b = dv_id v" and "lb_license_id b = li_id l"
  shows "license_for d v = Some l"
  using get_row(1) [OF assms(1,2)] get_row(2) [OF assms(1,3)] assms(4,5)
  by (simp add: license_for_def)

lemma obeys_device_archive: "obeys e (device_archive e c i r)"
  unfolding device_archive_def Let_def andThen_option andThen_ret
  by (intro obeysI follows_writer follow follows_change [where F = "put_device x" for x]
      follows_expire_all unused_tokens_ok)
    (auto simp: core_writes clean_def dest!: get_mem intro!: cstep.archive_device)

lemma obeys_device_restore: "obeys e (device_restore e c i r)"
  unfolding device_restore_def Let_def
  by (intro obeysI follows_writer follow follows_change [where F = "put_device x" for x])
    (auto simp: core_writes dest!: get_mem intro!: cstep.restore_device)

lemma obeys_set_status: "st \<in> {SUSPENDED, REVOKED} \<Longrightarrow> obeys e (set_status e c i r st)"
  unfolding set_status_def
  by (intro obeysI follows_writer follow follows_change [where F = "put_device x" for x])
    (auto simp: core_writes dest!: get_mem intro: cstep.withdraw_device)

lemma reassign_order:
  "put_token a (release_identities i d) = release_identities i (put_token a d)"
  "unused_tokens (release_identities i d) j = unused_tokens d j"
  by (simp_all add: release_identities_def write_defs unused_tokens_def clear_key_def key_of_device_def)

lemma reassign_eq:
  "reassign e c i r =
     andThen (writer e c) (\<lambda>actor.
     andThen (editable_device i) (\<lambda>device.
     andThen (query (\<lambda>d. unused_tokens d (dv_id device))) (\<lambda>tokens.
     andThen (expire_all e tokens) (\<lambda>_.
     andThen (change (put_device (device\<lparr>dv_status := PENDING, dv_customer_id := None\<rparr>)
                      \<circ> release_binding (dv_id device) \<circ> release_identities (dv_id device))) (\<lambda>_.
     andThen (audit e (ad_name actor) ''REASSIGNED_RELEASED'' (dv_id device) (reason_detail r)) (\<lambda>_.
       ret (JObj [(''status'', JStr ''PENDING''),
         (''next'', JStr ''Approve replacement installation explicitly'')])))))))"
proof -
  have "andThen (change (release_identities i)) (\<lambda>_.
          andThen (query (\<lambda>d. unused_tokens d j)) (\<lambda>ts. andThen (expire_all e ts) (\<lambda>_.
          andThen (change f) g)))
      = andThen (query (\<lambda>d. unused_tokens d j)) (\<lambda>ts. andThen (expire_all e ts) (\<lambda>_.
          andThen (change (f \<circ> release_identities i)) g))" for i j f and g :: "unit \<Rightarrow> json tx"
  proof -
    have "andThen (change (release_identities i)) (\<lambda>_. andThen (query (\<lambda>d. unused_tokens d j)) h)
        = andThen (query (\<lambda>d. unused_tokens d j)) (\<lambda>ts.
            andThen (change (release_identities i)) (\<lambda>_. h ts))" for h :: "_ \<Rightarrow> json tx"
      by (rule ext) (simp add: andThen_def change_def query_def reassign_order)
    moreover have "andThen (change (release_identities i)) (\<lambda>_. andThen (change f) g)
        = andThen (change (f \<circ> release_identities i)) g"
      by (rule ext) (simp add: andThen_def change_def)
    ultimately show ?thesis
      by (simp add: change_expire_all reassign_order)
  qed
  then show ?thesis unfolding reassign_def by (simp add: comp_assoc)
qed

lemma obeys_reassign: "obeys e (reassign e c i r)"
  unfolding reassign_eq
  by (intro obeysI follows_writer follow follows_expire_all unused_tokens_ok
      follows_change [where F = "put_device x \<circ> release_binding y \<circ> release_identities y" for x y])
    (auto simp: core_writes core_releases clean_def dest!: get_mem intro!: cstep.release_device)

lemma obeys_renew: "obeys e (renew e c i r x)"
  unfolding renew_def andThen_if andThen_ret andThen_assoc
  by (intro obeysI follows_writer follow follows_change [where F = "put_license x" for x])
    (auto simp: core_writes active_in_def dest!: get_mem intro!: cstep.renew_license)

lemma obeys_license_control: "obeys e (license_control e c i a r)"
  unfolding license_control_def andThen_if andThen_ret andThen_assoc prod.case
  by (intro obeysI follows_writer follow follows_change [where F = "put_license x" for x])
    (auto simp: core_writes control_status_def active_in_def dest!: get_mem
      intro!: cstep.control_license split: if_splits)

text \<open>
  The guard of \<open>device_update\<close> looks the license up by the device's binding; under the policy that
  is every license the device holds.
\<close>

lemma obeys_device_update: "obeys e (device_update e c i v)"
  unfolding device_update_def Let_def
  by (intro obeysI follows_writer follow follows_change [where F = "put_device x" for x])
    (auto simp: core_writes license_for_row clean_def dest!: get_mem
      intro!: cstep.edit_device split: option.splits)

lemma change_then_if:
  "andThen (change f) (\<lambda>_. andThen (if b then change h else ret ()) g)
     = andThen (change ((if b then h else id) \<circ> f)) g"
  by (rule ext) (simp add: andThen_def change_def ret_def)

lemma approval_binding_mem:
  "approval_binding d v a = Some (i, k, l) \<Longrightarrow> i \<in> set (installations d) \<and>
     k \<in> set (device_keys d) \<and> l \<in> set (licenses d) \<and> in_device_id i = dv_id v \<and>
     ke_installation_id k = in_id i"
  by (auto simp: approval_binding_def dest: get_mem row_get_mem split: option.splits if_splits)

lemma follows_issue_token:
  assumes "v \<in> set (devices d)" and "dv_archived_at v = None" and "dv_status v \<notin> {REVOKED, SUSPENDED}"
    and "i \<in> set (installations d)" and "k \<in> set (device_keys d)"
    and "in_device_id i = dv_id v" and "ke_installation_id k = in_id i"
  shows "follows e s0 (n, d) (issue_token e actor v i k l value)"
proof -
  have *: "follows e s0 (n, d) (andThen (change ((if b then put_device x else id) \<circ> add_token a)) g)"
    if "b \<longleftrightarrow> dv_status v \<noteq> ACTIVE" "x = v\<lparr>dv_status := ACTIVATION_REQUIRED\<rparr>"
      "at_device_id a = dv_id v" "at_installation_id a = in_id i" "at_key_id a = ke_id k"
      "at_used_at a = None" "\<And>d'. follows e s0 (n, d') (g ())" for b x a and g :: "unit \<Rightarrow> json tx"
    using that assms cstep.new_token [of a d v i k e]
    by (intro follows_change [where F = "(if b then put_device x else id) \<circ> add_token a"])
      (auto simp: core_writes)
  show ?thesis
    unfolding issue_token_def change_then_if by (intro follow *) simp_all
qed

lemma obeys_approve: "obeys e (approve e c i v)"
  unfolding approve_def
  by (intro obeysI follows_writer follow follows_query)
    (auto simp: split_def intro!: follows_writer follow follows_issue_token
       dest!: approval_binding_mem get_mem)

lemma follows_mapM [follow]:
  fixes h :: "'b list \<Rightarrow> 'c tx"
  assumes "\<And>x (g :: 'b \<Rightarrow> 'c tx). (\<And>j. follows e s0 (n, d) (g j)) \<Longrightarrow> follows e s0 (n, d) (andThen (f x) g)"
    and "\<And>js. follows e s0 (n, d) (h js)"
  shows "follows e s0 (n, d) (andThen (mapM f xs) h)"
  using assms(2)
proof (induction xs arbitrary: h)
  case (Cons x xs)
  show ?case
    unfolding mapM.simps andThen_assoc andThen_ret by (intro assms(1) Cons)
qed simp

lemma obeys_admin:
  "(\<And>s0 n d a. follows e s0 (n, d) (g a)) \<Longrightarrow> obeys e (andThen (admin e c) g)"
  by (intro obeysI follows_admin)

lemma obeys_listings:
  "obeys e (administrator_session e c)"
  "obeys e (customer_list e c off lim arch)"
  "obeys e (license_list e c off lim)"
  "obeys e (event_list e c off lim)"
  "obeys e (device_list e c off lim arch)"
  "obeys e (device_detail e c i)"
  unfolding administrator_session_def customer_list_def license_list_def event_list_def
    device_list_def device_detail_def check_page_def split_def
  by (rule obeys_admin, intro follow follows_read, assumption?)+

subsection \<open>Device routes\<close>

lemma split_prod_bind: "andThen m (\<lambda>(v, i, k). g v i k) = andThen m (\<lambda>x. g (fst x) (fst (snd x)) (snd (snd x)))"
  by (simp add: split_def)

lemma add_mem [simp]:
  "v \<in> set (devices (add_device v d))"
  "devices (add_installation i d) = devices d"
  "installations (add_installation i d) = installations d @ [i]"
  by (simp_all add: write_defs)

lemma new_device_sel [simp]:
  "dv_status (new_device v i t) = PENDING" "dv_archived_at (new_device v i t) = None"
  "dv_customer_id (new_device v i t) = None" "dv_id (new_device v i t) = i"
  by (simp_all add: new_device_def)

lemma follows_enroll_new:
  assumes "\<And>x d'. follows e s0 (n, d') (g x)"
  shows "follows e s0 (n, d) (andThen (enroll_new e v) g)"
proof -
  have *: "follows e s0 (n, d) (andThen (device_for_serial e v) h)"
    if "\<And>d' w. w \<in> set (devices d') \<Longrightarrow> follows e s0 (n, d') (h w)" for h
    unfolding device_for_serial_def andThen_assoc andThen_option andThen_ret
    by (intro follow follows_change [where F = "add_device x" for x] that)
      (auto simp: core_writes intro: cstep.new_device dest: row_get_mem)
  show ?thesis
    unfolding enroll_new_def Let_def andThen_assoc andThen_ret
    by (intro * follow assms follows_change [where f = "add_installation x" and F = "add_installation x" for x]
        follows_change [where f = "add_key x" and F = "add_key x" for x])
      (auto simp: core_writes intro: cstep.new_installation cstep.new_key)
qed

lemma obeys_enroll: "obeys e (enroll e v)"
  unfolding enroll_def split_prod_bind andThen_option andThen_ret
  by (intro obeysI follows_identity follow follows_enroll_new)

lemma obeys_challenge: "obeys e (challenge e v)"
  unfolding challenge_def split_prod_bind Let_def
  by (intro obeysI follows_identity follow follows_side) (simp_all add: core_writes)

lemma obeys_verify: "obeys e (verify e v)"
  unfolding verify_def split_prod_bind
  by (intro obeysI follows_consume follow follows_authorize) (auto dest: identity_in_mem)

lemma obeys_status: "obeys e (status_route e c)"
  unfolding status_route_def split_prod_bind
  by (intro obeysI follows_device_session follow)

lemma obeys_heartbeat: "obeys e (heartbeat e c)"
  unfolding heartbeat_def split_prod_bind
  by (intro obeysI follows_device_session follows_authorize) (auto dest: identity_in_mem)

lemma active_in_mem: "c \<in> set cs \<Longrightarrow> cu_archived_at c = None \<Longrightarrow> cu_id c = i \<Longrightarrow> active_in cs i"
  by (auto simp: active_in_def)

lemma current_installation_None:
  "current_installation d j = None \<longleftrightarrow> (\<forall>x \<in> set (installations d). in_device_id x = j \<longrightarrow> \<not> in_current x)"
  by (auto simp: current_installation_def find_None_iff)

lemma current_installation_only:
  assumes "policy d" and "current_installation d j = Some y" and "x \<in> set (installations d)"
    and "in_device_id x = j" and "in_current x"
  shows "in_id x = in_id y"
proof -
  from assms(2) have "y \<in> set (installations d)" "in_device_id y = j" "in_current y"
    unfolding current_installation_def find_Some_iff by auto
  with assms show ?thesis
    unfolding policy_def one_identity_def one_per_def by metis
qed

lemma one_key_after_bind:
  assumes "unique_ids d" and "bindable d v i k l a" and "policy d"
    and "checked (bind_device u v i k l a t d)"
    and "x \<in> set (device_keys d)" and "ke_installation_id x = in_id i" and "ke_current x"
  shows "ke_id x = ke_id k"
proof -
  let ?k = "mark_key (ke_id k)"
  have "distinct (map ke_installation_id (filter ke_current (map ?k (device_keys d))))"
    using assms(4) unfolding checked_def one_current_key_def bind_installations [OF assms(1,2)]
    by blast
  then have "inj_on ke_installation_id (set (filter ke_current (map ?k (device_keys d))))"
    by (simp add: distinct_map)
  moreover have "?k x \<in> set (filter ke_current (map ?k (device_keys d)))"
    "?k k \<in> set (filter ke_current (map ?k (device_keys d)))"
    using assms(2,5,7) by (auto simp: bindable_def)
  moreover have "ke_installation_id (?k x) = ke_installation_id (?k k)"
    using bindable_links [OF assms(3,2)] assms(6) by simp
  ultimately have "?k x = ?k k" by (rule inj_on_eq)
  then show ?thesis by (metis mark_sel(4))
qed

lemma follows_activate_bind:
  assumes "clean s0 (n, d)" and "bindable d v i k l a" and "u \<longleftrightarrow> unbound d v"
    and "u \<longrightarrow> binding_count d (li_id l) < li_max_devices l"
  shows "follows e s0 (n, d) (activate_bind e u v i k l a)"
proof -
  have d: "unique_ids d" "policy d" "checked d"
    using assms(1) by (auto simp: clean_def dest: policyD(1))
  have v: "v \<in> set (devices d)" using assms(2) by (simp add: bindable_def)
  have *: "follows e s0 (n, d) (andThen (change (bind_device u v i k l a t)) g)"
    if "follows e s0 (n, bind_device u v i k l a t d) (g ())" for t and g :: "unit \<Rightarrow> json tx"
    using that d one_key_after_bind [OF d(1) assms(2) d(2)]
    by (intro follows_change [where F = "bind_device u v i k l a t"])
      (auto simp: core_releases intro!: cstep.bind assms(2-4))
  have **: "v\<lparr>dv_status := ACTIVE, dv_customer_id := Some (li_customer_id l)\<rparr>
      \<in> set (devices (bind_device u v i k l a t d))" for t
    using v by (simp add: bind_rows mem_row_put)
  show ?thesis
    unfolding activate_bind_def Let_def by (intro * ** follow follows_authorize)
qed

lemma follows_activate_new:
  assumes "clean s0 (n, d)" and "v \<in> set (devices d)" and "i \<in> set (installations d)"
    and "k \<in> set (device_keys d)" and "a \<in> set (activation_tokens d)"
    and "at_device_id a = dv_id v" and "at_installation_id a = in_id i" and "at_key_id a = ke_id k"
    and "at_used_at a = None"
  shows "follows e s0 (n, d) (activate_new e v i k a)"
proof -
  have d: "policy d" "checked d" using assms(1) by (auto simp: clean_def)
  have one: "in_id x = in_id i"
    if "\<not> (case current_installation d (dv_id v) of None \<Rightarrow> False | Some y \<Rightarrow> in_id y \<noteq> in_id i)"
      "x \<in> set (installations d)" "in_device_id x = dv_id v" "in_current x" for x
    using that current_installation_only [OF d(1)]
    by (cases "current_installation d (dv_id v)") (auto simp: current_installation_None)
  have held: "lb_license_id b = li_id l"
    if "\<not> (case get_binding d (dv_id v) of None \<Rightarrow> False | Some b \<Rightarrow> lb_license_id b \<noteq> li_id l)"
      "b \<in> set (license_bindings d)" "lb_device_id b = dv_id v" for b l
    using that get_row(1) [OF d(1) that(2)] by simp
  have free: "get_binding d (dv_id v) = None \<longleftrightarrow> unbound d v"
    by (simp add: unbound_def get_binding_def row_get_None)
  show ?thesis
    unfolding activate_new_def
    by (intro follow follows_reject follows_activate_bind assms(1))
      (auto simp: free bindable_def assms dest: get_mem active_in_mem intro: one held)
qed

lemma obeys_activate: "obeys e (activate e v)"
  unfolding activate_def split_prod_bind
proof (intro obeysI follows_consume follow follows_reject)
  fix s0 n d x a t
  assume "clean s0 (n, d)" and "identity_in d x"
    and "row_get at_token_hash (digest e (pv_activation_token v)) (activation_tokens d) = Some a"
    and "\<not> token_mismatch t a (fst x) (fst (snd x)) (snd (snd x))"
  note got = this
  show "follows e s0 (n, d) (activate_retry e (fst x) (fst (snd x)) (snd (snd x)) a)"
    unfolding activate_retry_def using got identity_in_mem [of d "fst x" "fst (snd x)" "snd (snd x)"]
    by (intro follow follows_reject follows_authorize) simp_all
  assume "\<not> at_used_at a \<noteq> None"
  with got identity_in_mem [of d "fst x" "fst (snd x)" "snd (snd x)"]
  show "follows e s0 (n, d) (activate_new e (fst x) (fst (snd x)) (snd (snd x)) a)"
    by (intro follows_activate_new) (auto simp: token_mismatch_def dest: row_get_mem)
qed

section \<open>Requests\<close>

text \<open>One constructor per route of the application, in the order the code declares them.\<close>

datatype request =
    Enroll enroll_input
  | Challenge challenge_input
  | Verify proof_input
  | Activate activate_input
  | Status "string option"
  | Heartbeat "string option"
  | AdministratorSession "string option"
  | CustomerList "string option" int int bool
  | CustomerCreate "string option" customer_input
  | CustomerUpdate "string option" string customer_input string
  | CustomerLifecycle "string option" string string string
  | LicenseList "string option" int int
  | LicenseCreate "string option" license_input
  | LicenseRenew "string option" string string int
  | LicenseControl "string option" string string string
  | EventList "string option" int int
  | DeviceList "string option" int int bool
  | DeviceCreate "string option" device_input
  | DeviceDetail "string option" string
  | DeviceUpdate "string option" string device_update_input
  | DeviceArchive "string option" string string
  | DeviceRestore "string option" string string
  | Approve "string option" string approval_input
  | Suspend "string option" string string
  | Revoke "string option" string string
  | Reassign "string option" string string

fun handle :: "env \<Rightarrow> request \<Rightarrow> json tx" where
  "handle e (Enroll v) = enroll e v"
| "handle e (Challenge v) = challenge e v"
| "handle e (Verify v) = verify e v"
| "handle e (Activate v) = activate e v"
| "handle e (Status c) = status_route e c"
| "handle e (Heartbeat c) = heartbeat e c"
| "handle e (AdministratorSession c) = administrator_session e c"
| "handle e (CustomerList c off lim arch) = customer_list e c off lim arch"
| "handle e (CustomerCreate c v) = customer e c v"
| "handle e (CustomerUpdate c i v r) = customer_update e c i v r"
| "handle e (CustomerLifecycle c i a r) = customer_lifecycle e c i a r"
| "handle e (LicenseList c off lim) = license_list e c off lim"
| "handle e (LicenseCreate c v) = license_create e c v"
| "handle e (LicenseRenew c i r x) = renew e c i r x"
| "handle e (LicenseControl c i a r) = license_control e c i a r"
| "handle e (EventList c off lim) = event_list e c off lim"
| "handle e (DeviceList c off lim arch) = device_list e c off lim arch"
| "handle e (DeviceCreate c v) = device_create e c v"
| "handle e (DeviceDetail c i) = device_detail e c i"
| "handle e (DeviceUpdate c i v) = device_update e c i v"
| "handle e (DeviceArchive c i r) = device_archive e c i r"
| "handle e (DeviceRestore c i r) = device_restore e c i r"
| "handle e (Approve c i v) = approve e c i v"
| "handle e (Suspend c i r) = suspend e c i r"
| "handle e (Revoke c i r) = revoke e c i r"
| "handle e (Reassign c i r) = reassign e c i r"

text \<open>What the request schema guarantees and the routes rely on: \<open>max_devices\<close> is at least 1.\<close>

fun well_formed :: "request \<Rightarrow> bool" where
  "well_formed (LicenseCreate c v) \<longleftrightarrow> 1 \<le> lv_max_devices v"
| "well_formed _ \<longleftrightarrow> True"

lemma obeys_handle: "well_formed r \<Longrightarrow> obeys e (handle e r)"
  by (cases r) (simp_all add: obeys_enroll obeys_challenge obeys_verify obeys_activate obeys_status
      obeys_heartbeat obeys_listings obeys_customer obeys_customer_update obeys_customer_lifecycle
      obeys_license_create obeys_renew obeys_license_control obeys_device_create
      obeys_device_update obeys_device_archive obeys_device_restore obeys_approve suspend_def
      revoke_def obeys_set_status obeys_reassign)

lemma serve_refines:
  assumes "obeys e m" and "policy (store w)" and "checked (store w)"
  shows "csteps e (ticks w, core (store w)) (ticks (snd (serve m w)), core (store (snd (serve m w))))"
    and "integrity (store w) \<Longrightarrow> integrity (store (snd (serve m w)))"
proof -
  let ?w = "w\<lparr>work := store w\<rparr>"
  have "at_db e ?w (ticks ?w, core (store ?w)) ?w"
    by (simp add: at_db_def)
  moreover have "follows e ?w (ticks ?w, core (store ?w)) m"
    using assms(1) [unfolded obeys_def, rule_format, of ?w] assms(2,3) by simp
  ultimately have "wp m (\<lambda>_. stepped e ?w) (\<lambda>_. held ?w) ?w"
    by (intro follows_at)
  then show "csteps e (ticks w, core (store w)) (ticks (snd (serve m w)), core (store (snd (serve m w))))"
    and "integrity (store w) \<Longrightarrow> integrity (store (snd (serve m w)))"
    by (auto simp: serve_def wp_def andThen_def commit_def ret_def stepped_def at_db_def held_def
        integrity_checked intro: csteps_pass split: prod.splits sum.splits if_splits)
qed

end
