(* ===== verification/Registry_Worlds.thy ===== *)
theory Registry_Worlds
  imports Registry_Simulation
begin

text \<open>
  The administrator's command line (registration-server/app/manage.py), the worlds the server can
  reach from an empty database by requests and commands in any order, and the invariants they
  inherit from the steps of Registry_Spec.
\<close>

section \<open>The command line\<close>

definition add_administrator :: "administrator \<Rightarrow> db \<Rightarrow> db" where
  "add_administrator a d = d\<lparr>administrators := administrators d @ [a]\<rparr>"

definition put_administrator :: "administrator \<Rightarrow> db \<Rightarrow> db" where
  "put_administrator a d = d\<lparr>administrators := row_put ad_id a (administrators d)\<rparr>"

definition days :: "int \<Rightarrow> int" where
  "days n = seconds (86400 * n)"

definition admin_create :: "env \<Rightarrow> string \<Rightarrow> string \<Rightarrow> string tx" where
  "admin_create e name role =
     andThen (token_urlsafe e) (\<lambda>token.
     andThen (now e) (\<lambda>t.
     andThen (uid e) (\<lambda>i.
     andThen (change (add_administrator
        \<lparr>ad_id = i, ad_name = name, ad_token_hash = digest e token, ad_role = role,
         ad_active = True, ad_expires_at = t + days 90\<rparr>)) (\<lambda>_.
     andThen commit (\<lambda>_. ret token)))))"

definition admin_disable :: "string \<Rightarrow> string tx" where
  "admin_disable name =
     andThen (query (\<lambda>d. row_get ad_name name (administrators d))) (\<lambda>found.
     andThen (need found (Crash ''Administrator not found'')) (\<lambda>admin.
     andThen (change (put_administrator (admin\<lparr>ad_active := False\<rparr>))) (\<lambda>_.
     andThen commit (\<lambda>_. ret ''''))))"

definition drop_challenges :: "int \<Rightarrow> db \<Rightarrow> db" where
  "drop_challenges t d = d\<lparr>challenges := filter (\<lambda>c. \<not> ch_expires_at c < t) (challenges d)\<rparr>"

definition drop_sessions :: "int \<Rightarrow> db \<Rightarrow> db" where
  "drop_sessions t d =
     d\<lparr>device_sessions := filter (\<lambda>x. \<not> ds_expires_at x < t) (device_sessions d)\<rparr>"

definition cleanup :: "env \<Rightarrow> string tx" where
  "cleanup e =
     andThen (now e) (\<lambda>t.
     andThen (change (drop_challenges (t - days 1))) (\<lambda>_.
     andThen (now e) (\<lambda>t'.
     andThen (change (drop_sessions (t' - days 1))) (\<lambda>_.
     andThen commit (\<lambda>_. ret '''')))))"

datatype command = AdminCreate string string | AdminDisable string | Cleanup

fun command_tx :: "env \<Rightarrow> command \<Rightarrow> string tx" where
  "command_tx e (AdminCreate name role) = admin_create e name role"
| "command_tx e (AdminDisable name) = admin_disable name"
| "command_tx e Cleanup = cleanup e"

definition run_command :: "string tx \<Rightarrow> world \<Rightarrow> (failure + string) \<times> world" where
  "run_command m w = (case m (w\<lparr>work := store w\<rparr>) of (r, t) \<Rightarrow> (r, t\<lparr>work := store t\<rparr>))"

section \<open>Reachable worlds\<close>

inductive reachable :: "env \<Rightarrow> world \<Rightarrow> bool" for e where
  empty: "store w = empty_db \<Longrightarrow> reachable e w"
| request: "reachable e w \<Longrightarrow> well_formed r \<Longrightarrow> reachable e (snd (serve (handle e r) w))"
| command: "reachable e w \<Longrightarrow> reachable e (snd (run_command (command_tx e c) w))"

lemma command_keeps:
  assumes "snd (run_command (command_tx e c) w) = w'"
  shows "core (store w') = core (store w) \<and> ticks w \<le> ticks w' \<and>
    (integrity (store w) \<longrightarrow> integrity (store w'))"
proof -
  have "wp (command_tx e c)
     (\<lambda>_ t. core (store t) = core (store w) \<and> ticks w \<le> ticks t \<and>
        (integrity (store w) \<longrightarrow> integrity (store t)))
     (\<lambda>_ t. core (store t) = core (store w) \<and> ticks w \<le> ticks t \<and>
        (integrity (store w) \<longrightarrow> integrity (store t))) (w\<lparr>work := store w\<rparr>)"
    by (cases c) (auto simp: admin_create_def admin_disable_def cleanup_def wp_simps core_def
        add_administrator_def put_administrator_def drop_challenges_def drop_sessions_def
        split: option.split)
  then show ?thesis
    unfolding assms [symmetric] by (auto simp: run_command_def wp_def split: prod.splits sum.splits)
qed

lemma integrity_empty_core: "core empty_db = empty_db"
  by (simp add: core_def empty_db_def)

lemma reachable_policy:
  assumes "reachable e w"
  shows "policy (store w) \<and> integrity (store w)"
  using assms
proof (induction rule: reachable.induct)
  case (empty w)
  then show ?case by (simp add: policy_empty integrity_empty)
next
  case (request w r)
  then show ?case
    using serve_refines [OF obeys_handle [OF request(2)], of w e]
      policy_steps [OF serve_refines(1) [OF obeys_handle [OF request(2)], of w e]]
    by (simp add: integrity_checked)
next
  case (command w c)
  then show ?case
    using command_keeps [OF refl, of e c w] by (metis policy_core)
qed

text \<open>
  An invariant of the durable tables and the clock holds in every reachable world once it holds
  of the empty tables and every step keeps it.
\<close>

locale durable_invariant =
  fixes e :: env and I :: "nat \<Rightarrow> db \<Rightarrow> bool"
  assumes start: "I n empty_db"
    and step: "cstep e (n, d) (m, d') \<Longrightarrow> policy d \<Longrightarrow> I n d \<Longrightarrow> I m d'"
    and on_core: "I n (core d) \<longleftrightarrow> I n d"
begin

lemma steps: "csteps e x y \<Longrightarrow> policy (snd x) \<Longrightarrow> I (fst x) (snd x) \<Longrightarrow> I (fst y) (snd y)"
proof (induction rule: rtranclp_induct)
  case (step y z)
  then have "policy (snd y)" by (blast intro: policy_steps)
  with step show ?case
    using durable_invariant.step [OF durable_invariant_axioms, of "fst y" "snd y" "fst z" "snd z"]
    by simp
qed

lemma request_step:
  "reachable e w \<Longrightarrow> well_formed r \<Longrightarrow> I (ticks w) (store w) \<Longrightarrow>
     I (ticks (snd (serve (handle e r) w))) (store (snd (serve (handle e r) w)))"
  using serve_refines(1) [OF obeys_handle, of r w e] reachable_policy [of e w] steps
  by (fastforce simp: integrity_checked on_core)

lemma reachable_holds: "reachable e w \<Longrightarrow> I (ticks w) (store w)"
proof (induction rule: reachable.induct)
  case (empty w)
  then show ?case by (simp add: start)
next
  case (request w r)
  then show ?case by (simp add: request_step)
next
  case (command w c)
  have "cstep e (ticks w, core (store w)) (ticks (snd (run_command (command_tx e c) w)), core (store w))"
    using command_keeps [OF refl, of e c w] by (intro cstep.pass) simp
  from step [OF this] reachable_policy [OF command(1)] command(2) command_keeps [OF refl, of e c w]
  show ?case by (metis on_core policy_core)
qed

end

interpretation closed: durable_invariant e "closed_customers e" for e
proof unfold_locales
  fix n d m d' assume "cstep e (n, d) (m, d')" "policy d" "closed_customers e n d"
  then show "closed_customers e m d'" using closed_customers_step by fastforce
qed (simp_all add: closed_customers_empty, simp add: closed_customers_def)

end
