(* ===== verification/Registry_Demo.thy ===== *)
theory Registry_Demo
  imports Registry_Worlds
begin

text \<open>
  A concrete environment and a concrete run of the server, from the empty database to an active
  device, on which the theorems about reachable worlds are applied.
\<close>

definition demo_env :: env where
  "demo_env = \<lparr>
     cfg = \<lparr>audience = ''kdx'', offline_grace_seconds = 86400, challenge_seconds = 120,
            device_session_seconds = 300, rate_per_minute = 120, allow_lab_http = False\<rparr>,
     clk = (\<lambda>n. int n), new_uid = (\<lambda>n. [''abcdefghijklmnopqrstuvwxyz'' ! n]),
     new_token = (\<lambda>n. [''ABCDEFGHIJKLMNOPQRSTUVWXYZ'' ! n]),
     digest = (\<lambda>s. CHR ''#'' # s), ed25519_verify = (\<lambda>_ _ _. True), ed25519_sign = (\<lambda>_. ''sig''),
     isoformat = (\<lambda>_. ''time'')\<rparr>"

definition demo_key :: string where
  "demo_key = ''a2tra2tra2tra2tra2tra2tra2tra2tra2tra2tra2s=''"

definition demo_identity :: "enroll_input" where
  "demo_identity = \<lparr>iv_serial = ''0123456789ABCDEF'', iv_installation_id = ''inst'',
     iv_public_key = demo_key, iv_firmware = ''1'', iv_model = ''m''\<rparr>"

definition demo_world :: world where
  "demo_world = \<lparr>store = empty_db, work = empty_db, ticks = 0, uids = 0, draws = 0\<rparr>"

definition demo_admin :: world where
  "demo_admin = snd (run_command (command_tx demo_env (AdminCreate ''root'' ''admin'')) demo_world)"

fun run :: "env \<Rightarrow> request list \<Rightarrow> world \<Rightarrow> world" where
  "run e [] w = w"
| "run e (r # rs) w = run e rs (snd (serve (handle e r) w))"

lemma reachable_run: "reachable e w \<Longrightarrow> list_all well_formed rs \<Longrightarrow> reachable e (run e rs w)"
  by (induction rs arbitrary: w) (auto intro: reachable.request)

lemma demo_admin_reachable: "reachable demo_env demo_admin"
  unfolding demo_admin_def by (intro reachable.command reachable.empty) (simp add: demo_world_def)

definition demo_setup :: "request list" where
  "demo_setup =
     [CustomerCreate (Some ''A'') \<lparr>cv_name = ''c'', cv_contact_name = None, cv_email = None,
        cv_phone = None\<rparr>,
      LicenseCreate (Some ''A'') \<lparr>lv_customer_id = ''b'', lv_kind = PERPETUAL,
        lv_expires_at = None, lv_max_devices = 1\<rparr>,
      Enroll demo_identity,
      Approve (Some ''A'') ''f'' \<lparr>ap_installation_id = ''inst'', ap_public_key = demo_key,
        ap_license_id = ''d'', ap_reason = ''first'', ap_token_ttl_seconds = 3600\<rparr>,
      Challenge \<lparr>iv_serial = ''0123456789ABCDEF'', iv_installation_id = ''inst'',
        iv_public_key = demo_key, iv_purpose = ''activate''\<rparr>]"

definition demo_proof :: activate_input where
  "demo_proof = \<lparr>pv_challenge_id = ''l'', pv_signature = ''c2ln'',
     pv_activation_token = ''B''\<rparr>"

section \<open>The server before and after the activation\<close>

definition demo_device :: device where
  "demo_device = \<lparr>dv_id = ''f'', dv_serial = ''0123456789ABCDEF'', dv_model = ''m'',
     dv_firmware = ''1'', dv_display_name = None, dv_notes = None, dv_archived_at = None,
     dv_status = ACTIVATION_REQUIRED, dv_customer_id = None, dv_last_seen = None,
     dv_created_at = 6\<rparr>"

definition demo_installation :: installation where
  "demo_installation = \<lparr>in_id = ''inst'', in_device_id = ''f'', in_current = False,
     in_created_at = 7\<rparr>"

definition demo_device_key :: device_key where
  "demo_device_key = \<lparr>ke_id = ''g'', ke_installation_id = ''inst'', ke_public_key = demo_key,
     ke_current = False\<rparr>"

definition demo_license :: license where
  "demo_license = \<lparr>li_id = ''d'', li_customer_id = ''b'', li_kind = PERPETUAL,
     li_status = ACTIVE, li_max_devices = 1, li_issued_at = 4, li_expires_at = None,
     li_last_validated_at = None\<rparr>"

definition demo_token :: activation_token where
  "demo_token = \<lparr>at_id = ''j'', at_token_hash = ''#B'', at_device_id = ''f'',
     at_installation_id = ''inst'', at_key_id = ''g'', at_license_id = ''d'',
     at_expires_at = 3600000012, at_used_at = None\<rparr>"

definition demo_challenge :: challenge_row where
  \<open>demo_challenge = \<lparr>ch_id = ''l'', ch_device_id = ''f'', ch_installation_id = ''inst'',
     ch_key_id = ''g'', ch_serial = ''0123456789ABCDEF'', ch_purpose = ''activate'',
     ch_message = ''{"aud":"kdx","challenge_id":"l","expires_at":120,"installation_id":"inst",'' @
       ''"key_hash":"#'' @ demo_key @ ''","nonce":"C","purpose":"activate",'' @
       ''"serial":"0123456789ABCDEF","v":1}'',
     ch_expires_at = 120000014, ch_used_at = None\<rparr>\<close>

definition demo_event :: "string \<Rightarrow> string \<Rightarrow> json \<Rightarrow> int \<Rightarrow> registration_event" where
  "demo_event i k j t = \<lparr>re_id = i, re_device_id = Some ''f'', re_kind = k, re_detail = j,
     re_created_at = t\<rparr>"

definition demo_log :: "string \<Rightarrow> string \<Rightarrow> string \<Rightarrow> string \<Rightarrow> json \<Rightarrow> int \<Rightarrow> audit_log" where
  "demo_log i a k v j t = \<lparr>au_id = i, au_actor = a, au_action = k, au_target = v, au_detail = j,
     au_created_at = t\<rparr>"

definition demo_ready_db :: db where
  "demo_ready_db = \<lparr>
     customers = [\<lparr>cu_id = ''b'', cu_name = ''c'', cu_contact_name = None, cu_email = None,
       cu_phone = None, cu_email_verified = False, cu_archived_at = None\<rparr>],
     devices = [demo_device], installations = [demo_installation],
     device_keys = [demo_device_key], licenses = [demo_license], license_bindings = [],
     activation_tokens = [demo_token], challenges = [demo_challenge], device_sessions = [],
     registration_events =
       [demo_event ''h'' ''ENROLLMENT_REQUESTED'' (JObj [(''installation_id'', JStr ''inst'')]) 8],
     audit_logs =
       [demo_log ''c'' ''root'' ''CUSTOMER_CREATED'' ''b'' (JObj []) 2,
        demo_log ''e'' ''root'' ''LICENSE_CREATED'' ''d'' (JObj []) 5,
        demo_log ''i'' ''device'' ''ENROLLMENT_REQUESTED'' ''f''
          (JObj [(''installation_id'', JStr ''inst'')]) 9,
        demo_log ''k'' ''root'' ''APPROVED'' ''f''
          (JObj [(''reason'', JStr ''first''), (''installation_id'', JStr ''inst''),
                 (''license_id'', JStr ''d'')]) 13],
     administrators =
       [\<lparr>ad_id = ''a'', ad_name = ''root'', ad_token_hash = ''#A'', ad_role = ''admin'',
         ad_active = True, ad_expires_at = 7776000000000\<rparr>]\<rparr>"

definition demo_activated :: json where
  "demo_activated = JObj [(''license_id'', JStr ''d''), (''installation_id'', JStr ''inst'')]"

definition demo_active_db :: db where
  "demo_active_db = demo_ready_db\<lparr>
     devices := [demo_device\<lparr>dv_status := ACTIVE, dv_customer_id := Some ''b'',
                             dv_last_seen := Some 21\<rparr>],
     installations := [demo_installation\<lparr>in_current := True\<rparr>],
     device_keys := [demo_device_key\<lparr>ke_current := True\<rparr>],
     licenses := [demo_license\<lparr>li_last_validated_at := Some 21\<rparr>],
     license_bindings := [\<lparr>lb_device_id = ''f'', lb_license_id = ''d''\<rparr>],
     activation_tokens := [demo_token\<lparr>at_used_at := Some 18\<rparr>],
     challenges := [demo_challenge\<lparr>ch_used_at := Some 16\<rparr>],
     device_sessions := [\<lparr>ds_token_hash = ''#D'', ds_device_id = ''f'',
       ds_installation_id = ''inst'', ds_key_id = ''g'', ds_expires_at = 300000021\<rparr>],
     registration_events := registration_events demo_ready_db
       @ [demo_event ''m'' ''ACTIVATED'' demo_activated 19],
     audit_logs := audit_logs demo_ready_db
       @ [demo_log ''n'' ''device'' ''ACTIVATED'' ''f'' demo_activated 20]\<rparr>"

definition demo_ready :: world where
  "demo_ready = \<lparr>store = demo_ready_db, work = demo_ready_db, ticks = 15, uids = 12, draws = 3\<rparr>"

definition demo_active :: world where
  "demo_active = \<lparr>store = demo_active_db, work = demo_active_db, ticks = 22, uids = 14, draws = 4\<rparr>"

lemma demo_setup_run: "run demo_env demo_setup demo_admin = demo_ready"
  by code_simp

lemma demo_activation: "snd (serve (handle demo_env (Activate demo_proof)) demo_ready) = demo_active"
  by code_simp

lemma demo_ready_reachable: "reachable demo_env demo_ready"
  unfolding demo_setup_run [symmetric]
  by (rule reachable_run [OF demo_admin_reachable]) (simp add: demo_setup_def)

lemma demo_active_reachable: "reachable demo_env demo_active"
  unfolding demo_activation [symmetric] by (rule reachable.request [OF demo_ready_reachable]) simp

end
