(* ===== verification/Registry_Safety.thy ===== *)
theory Registry_Safety
  imports Registry_Demo
begin

text \<open>
  What holds of the registration server in every world that requests and commands can reach:
  license capacity, single identities, entitlement of active devices, closed customers, and the
  refinement of the policy by every request.
\<close>

text \<open>
  C1: in every reachable database no license is bound to more devices than its \<open>max_devices\<close>.
\<close>

theorem license_capacity:
  assumes "reachable e w" and "l \<in> set (licenses (store w))"
  shows "binding_count (store w) (li_id l) \<le> li_max_devices l"
  using reachable_policy [OF assms(1)] assms(2)
  by (simp add: policy_def within_capacity_def)

lemma license_capacity_witness:
  "binding_count (store demo_active) ''d'' \<le> 1 \<and> 0 < binding_count (store demo_active) ''d''"
  using license_capacity [OF demo_active_reachable, of "demo_license\<lparr>li_last_validated_at := Some 21\<rparr>"]
  by (simp add: demo_active_def demo_active_db_def demo_license_def binding_count_def)

text \<open>
  C2: in every reachable database a device has at most one current installation, an installation
  at most one current key, and a device holds a license exactly while it has a current installation.
\<close>

theorem single_identity:
  assumes "reachable e w"
  shows "one_identity (store w) \<and> current_pairs (store w) \<and> bound_iff_current (store w)"
  using reachable_policy [OF assms] by (simp add: policy_def)

lemma single_identity_witness:
  "in_device_id (demo_installation\<lparr>in_current := True\<rparr>) \<in> lb_device_id ` set (license_bindings (store demo_active))"
  using single_identity [OF demo_active_reachable]
  by (simp add: demo_active_def demo_active_db_def bound_iff_current_def)

text \<open>
  C3: in every reachable database a device whose status is ACTIVE is not archived, holds a license
  that exists, and belongs to the customer who owns that license; the customer exists and is not
  archived.
\<close>

theorem active_device_entitled:
  assumes "reachable e w" and "v \<in> set (devices (store w))" and "dv_status v = ACTIVE"
  shows "dv_archived_at v = None \<and>
    (\<exists>l. license_for (store w) v = Some l \<and> dv_customer_id v = Some (li_customer_id l) \<and>
       active_customer_in (store w) (li_customer_id l))"
proof -
  have p: "policy (store w)" using reachable_policy [OF assms(1)] by simp
  then have "active_entitled (store w)" "owner_agrees (store w)" "links (store w)"
    by (simp_all add: policyD)
  note parts = this
  from parts(1) assms(2,3) have entitled: "dv_id v \<in> lb_device_id ` set (license_bindings (store w))"
    "\<exists>c. dv_customer_id v = Some c \<and> active_customer_in (store w) c" "dv_archived_at v = None"
    unfolding active_entitled_def by auto
  then obtain b c where b: "b \<in> set (license_bindings (store w))" "lb_device_id b = dv_id v"
    and c: "dv_customer_id v = Some c" "active_customer_in (store w) c"
    by auto
  with parts(3) obtain l where l: "l \<in> set (licenses (store w))" "lb_license_id b = li_id l"
    unfolding links_def by auto
  with parts(2) assms(2) b have "dv_customer_id v = Some (li_customer_id l)"
    unfolding owner_agrees_def by blast
  with c entitled(3) license_for_row [OF p b(1) l(1) b(2) l(2)] show ?thesis
    by auto
qed

lemma active_device_entitled_witness:
  "\<exists>l. license_for (store demo_active) (demo_device\<lparr>dv_status := ACTIVE,
      dv_customer_id := Some ''b'', dv_last_seen := Some 21\<rparr>) = Some l \<and> li_customer_id l = ''b''"
  using active_device_entitled [OF demo_active_reachable,
      of "demo_device\<lparr>dv_status := ACTIVE, dv_customer_id := Some ''b'', dv_last_seen := Some 21\<rparr>"]
  by (auto simp: demo_active_def demo_active_db_def)

text \<open>
  C4: once a customer is archived none of its licenses can be used: while the clock does not run
  backwards, every license of an archived customer is suspended or revoked, or it has expired at
  every later reading of the clock.
\<close>

theorem archived_customer_closed:
  assumes "reachable e w" and "mono (clk e)"
    and "c \<in> set (customers (store w))" and "cu_archived_at c \<noteq> None"
    and "l \<in> set (licenses (store w))" and "li_customer_id l = cu_id c"
    and "ticks w \<le> k"
  shows "li_status l \<noteq> ACTIVE \<or> (\<exists>x. li_expires_at l = Some x \<and> x \<le> clk e k)"
proof -
  have "lapsed e (ticks w) l"
    using closed.reachable_holds [OF assms(1)] assms(3-6) by (auto simp: closed_customers_def)
  then show ?thesis
    using monoD [OF assms(2)] assms(7) unfolding lapsed_def
    by (meson dual_order.trans le_trans less_imp_le)
qed

definition demo_closing :: "request list" where
  "demo_closing =
     [CustomerCreate (Some ''A'') \<lparr>cv_name = ''c'', cv_contact_name = None, cv_email = None,
        cv_phone = None\<rparr>,
      LicenseCreate (Some ''A'') \<lparr>lv_customer_id = ''b'', lv_kind = PERPETUAL,
        lv_expires_at = None, lv_max_devices = 1\<rparr>,
      LicenseControl (Some ''A'') ''d'' ''suspend'' ''unpaid'',
      CustomerLifecycle (Some ''A'') ''b'' ''archive'' ''closed'']"

lemma demo_mono: "mono (clk demo_env)"
  by (simp add: demo_env_def mono_def)

lemma demo_closing_run:
  "(\<lambda>w. (map (\<lambda>c. (cu_id c, cu_archived_at c)) (customers (store w)),
         map (\<lambda>l. (li_id l, li_customer_id l)) (licenses (store w)), ticks w))
      (run demo_env demo_closing demo_admin) = ([(''b'', Some 9)], [(''d'', ''b'')], 11)"
  by code_simp

lemma demo_closing_reachable: "reachable demo_env (run demo_env demo_closing demo_admin)"
  by (rule reachable_run [OF demo_admin_reachable]) (simp add: demo_closing_def)

lemma archived_customer_closed_witness:
  "\<exists>c \<in> set (customers (store (run demo_env demo_closing demo_admin))).
   \<exists>l. cu_archived_at c = Some 9 \<and> li_customer_id l = cu_id c \<and>
     l \<in> set (licenses (store (run demo_env demo_closing demo_admin))) \<and>
     (li_status l \<noteq> ACTIVE \<or> (\<exists>x. li_expires_at l = Some x \<and> x \<le> clk demo_env 11))"
proof -
  let ?w = "run demo_env demo_closing demo_admin"
  obtain c l where "customers (store ?w) = [c]" "cu_id c = ''b''" "cu_archived_at c = Some 9"
    "licenses (store ?w) = [l]" "li_customer_id l = ''b''" "ticks ?w = 11"
    using demo_closing_run by auto
  note row = this
  then have "li_status l \<noteq> ACTIVE \<or> (\<exists>x. li_expires_at l = Some x \<and> x \<le> clk demo_env 11)"
    by (intro archived_customer_closed [OF demo_closing_reachable demo_mono, of c]) simp_all
  with row show ?thesis by simp
qed

text \<open>
  C5: every request refines the policy. The whole handling of a request with its checks, its audit
  trail and its commit or rollback, seen on the tables that carry policy, is a sequence of the steps
  that the abstract transition system allows, at readings of the clock that the request saw.
\<close>

theorem requests_refine_policy:
  assumes "reachable e w" and "well_formed r"
  shows "csteps e (ticks w, core (store w)) (ticks (snd (serve (handle e r) w)), core (store (snd (serve (handle e r) w))))"
  using serve_refines(1) [OF obeys_handle [OF assms(2)]] reachable_policy [OF assms(1)] integrity_checked by blast

lemma requests_refine_policy_witness:
  "csteps demo_env (15, core demo_ready_db) (22, core demo_active_db)"
  using requests_refine_policy [OF demo_ready_reachable, of "Activate demo_proof"]
  unfolding demo_activation by (simp add: demo_ready_def demo_active_def)

end
