(* ===== verification/Registry_Schema.thy ===== *)
theory Registry_Schema
  imports Registry_Model
begin

text \<open>
  The schema of the registration database twice: as the migrations build it
  (migrations/versions/0001_initial.py and 0002_management.py, run as operations on a schema) and as
  the mapped classes of app/models.py declare it. The migrations end in the declared schema, can be
  undone, and the declared constraints are exactly the integrity conditions of the model's database.
\<close>

section \<open>Schemas\<close>

datatype coltype = CString nat | CText | CBoolean | CInteger | CDateTime | CJson

record column =
  co_name :: string
  co_type :: coltype
  co_nullable :: bool
  co_default :: "string option"

datatype check =
    OneOf string "string list"
  | AtLeast string int
  | EqualsOrNotNull string string string

datatype rule =
    PrimaryKey "string list"
  | Unique "string list"
  | ForeignKey string string string
  | Check check

text \<open>An index; a partial one covers the rows whose boolean column \<open>ix_where\<close> is true.\<close>

record table_index =
  ix_name :: string
  ix_columns :: "string list"
  ix_unique :: bool
  ix_where :: "string option"

record table_def =
  ta_name :: string
  ta_columns :: "column list"
  ta_rules :: "rule list"
  ta_indexes :: "table_index list"

type_synonym schema = "table_def list"

definition column :: "string \<Rightarrow> coltype \<Rightarrow> bool \<Rightarrow> column" where
  "column n t nullable = \<lparr>co_name = n, co_type = t, co_nullable = nullable, co_default = None\<rparr>"

definition index :: "string \<Rightarrow> string list \<Rightarrow> bool \<Rightarrow> string option \<Rightarrow> table_index" where
  "index n cs u w = \<lparr>ix_name = n, ix_columns = cs, ix_unique = u, ix_where = w\<rparr>"

definition table_def :: "string \<Rightarrow> column list \<Rightarrow> rule list \<Rightarrow> table_def" where
  "table_def n cs rs = \<lparr>ta_name = n, ta_columns = cs, ta_rules = rs, ta_indexes = []\<rparr>"

definition find_table :: "string \<Rightarrow> schema \<Rightarrow> table_def option" where
  "find_table n s = find (\<lambda>t. ta_name t = n) s"

definition change_table :: "string \<Rightarrow> (table_def \<Rightarrow> table_def) \<Rightarrow> schema \<Rightarrow> schema" where
  "change_table n f s = map (\<lambda>t. if ta_name t = n then f t else t) s"

section \<open>Migration operations\<close>

datatype operation =
    CreateTable table_def
  | CreateIndex string table_index
  | AddColumn string column
  | DropTable string
  | DropIndex string string
  | DropColumn string string

text \<open>The tables a table's foreign keys name, and the columns its rules and indexes use.\<close>

definition foreign_tables :: "table_def \<Rightarrow> string list" where
  "foreign_tables t = concat (map (\<lambda>r. case r of ForeignKey _ n _ \<Rightarrow> [n] | _ \<Rightarrow> []) (ta_rules t))"

fun check_columns :: "check \<Rightarrow> string list" where
  "check_columns (OneOf c vs) = [c]"
| "check_columns (AtLeast c n) = [c]"
| "check_columns (EqualsOrNotNull c v d) = [c, d]"

fun rule_columns :: "rule \<Rightarrow> string list" where
  "rule_columns (PrimaryKey cs) = cs"
| "rule_columns (Unique cs) = cs"
| "rule_columns (ForeignKey c n d) = [c]"
| "rule_columns (Check k) = check_columns k"

definition used_columns :: "table_def \<Rightarrow> string list" where
  "used_columns t = concat (map rule_columns (ta_rules t)) @ concat (map ix_columns (ta_indexes t))"

definition has_column :: "schema \<Rightarrow> string \<Rightarrow> string \<Rightarrow> bool" where
  "has_column s n c = (case find_table n s of None \<Rightarrow> False
     | Some t \<Rightarrow> list_ex (\<lambda>k. co_name k = c) (ta_columns t))"

definition foreign_ok :: "schema \<Rightarrow> rule \<Rightarrow> bool" where
  "foreign_ok s r = (case r of ForeignKey _ n c \<Rightarrow> has_column s n c | _ \<Rightarrow> True)"

text \<open>An operation on the database's schema; \<open>None\<close> when the database refuses it.\<close>

fun apply_op :: "operation \<Rightarrow> schema \<Rightarrow> schema option" where
  "apply_op (CreateTable t) s =
     (if find_table (ta_name t) s = None \<and> list_all (foreign_ok s) (ta_rules t)
      then Some (s @ [t]) else None)"
| "apply_op (CreateIndex n i) s =
     (if list_all (has_column s n) (ix_columns i) \<and>
         \<not> list_ex (\<lambda>t. ix_name i \<in> ix_name ` set (ta_indexes t)) s
      then Some (change_table n (\<lambda>t. t\<lparr>ta_indexes := ta_indexes t @ [i]\<rparr>) s) else None)"
| "apply_op (AddColumn n c) s =
     (if find_table n s \<noteq> None \<and> \<not> has_column s n (co_name c) \<and> (co_nullable c \<or> co_default c \<noteq> None)
      then Some (change_table n (\<lambda>t. t\<lparr>ta_columns := ta_columns t @ [c]\<rparr>) s) else None)"
| "apply_op (DropTable n) s =
     (if find_table n s \<noteq> None \<and>
         \<not> list_ex (\<lambda>t. ta_name t \<noteq> n \<and> n \<in> set (foreign_tables t)) s
      then Some (filter (\<lambda>t. ta_name t \<noteq> n) s) else None)"
| "apply_op (DropIndex n i) s =
     (case find_table n s of None \<Rightarrow> None
      | Some t \<Rightarrow> if i \<in> ix_name ` set (ta_indexes t)
          then Some (change_table n (\<lambda>t. t\<lparr>ta_indexes := filter (\<lambda>x. ix_name x \<noteq> i) (ta_indexes t)\<rparr>) s)
          else None)"
| "apply_op (DropColumn n c) s =
     (case find_table n s of None \<Rightarrow> None
      | Some t \<Rightarrow> if has_column s n c \<and> c \<notin> set (used_columns t)
          then Some (change_table n (\<lambda>t. t\<lparr>ta_columns := filter (\<lambda>k. co_name k \<noteq> c) (ta_columns t)\<rparr>) s)
          else None)"

fun apply_ops :: "operation list \<Rightarrow> schema \<Rightarrow> schema option" where
  "apply_ops [] s = Some s"
| "apply_ops (x # xs) s = (case apply_op x s of None \<Rightarrow> None | Some t \<Rightarrow> apply_ops xs t)"

section \<open>The migrations\<close>

definition administrators_0001 :: table_def where
  "administrators_0001 = table_def ''administrators''
     [column ''id'' (CString 36) False,
      column ''name'' (CString 120) False,
      column ''token_hash'' (CString 64) False,
      column ''role'' (CString 16) False,
      column ''active'' CBoolean False,
      column ''expires_at'' CDateTime False]
     [PrimaryKey [''id''],
      Unique [''name''],
      Unique [''token_hash'']]"

definition audit_logs_0001 :: table_def where
  "audit_logs_0001 = table_def ''audit_logs''
     [column ''id'' (CString 36) False,
      column ''actor'' (CString 120) False,
      column ''action'' (CString 64) False,
      column ''target'' (CString 120) False,
      column ''detail'' CJson False,
      column ''created_at'' CDateTime False]
     [PrimaryKey [''id'']]"

definition customers_0001 :: table_def where
  "customers_0001 = table_def ''customers''
     [column ''id'' (CString 36) False,
      column ''name'' (CString 200) False]
     [PrimaryKey [''id'']]"

definition devices_0001 :: table_def where
  "devices_0001 = table_def ''devices''
     [column ''id'' (CString 36) False,
      column ''serial'' (CString 16) False,
      column ''model'' (CString 120) False,
      column ''firmware'' (CString 120) False,
      column ''status'' (CString 32) False,
      column ''customer_id'' (CString 36) True,
      column ''last_seen'' CDateTime True,
      column ''created_at'' CDateTime False]
     [Check (OneOf ''status'' [''PENDING'', ''ACTIVATION_REQUIRED'', ''ACTIVE'', ''SUSPENDED'',
        ''REVOKED'', ''EXPIRED'', ''HARDWARE_MISMATCH'']),
      ForeignKey ''customer_id'' ''customers'' ''id'',
      PrimaryKey [''id''],
      Unique [''serial'']]"

definition licenses_0001 :: table_def where
  "licenses_0001 = table_def ''licenses''
     [column ''id'' (CString 36) False,
      column ''customer_id'' (CString 36) False,
      column ''kind'' (CString 20) False,
      column ''status'' (CString 20) False,
      column ''max_devices'' CInteger False,
      column ''issued_at'' CDateTime False,
      column ''expires_at'' CDateTime True,
      column ''last_validated_at'' CDateTime True]
     [Check (EqualsOrNotNull ''kind'' ''PERPETUAL'' ''expires_at''),
      Check (OneOf ''kind'' [''PERPETUAL'', ''SUBSCRIPTION'', ''RENTAL'', ''DEMO'']),
      Check (OneOf ''status'' [''ACTIVE'', ''SUSPENDED'', ''REVOKED'']),
      Check (AtLeast ''max_devices'' 1),
      ForeignKey ''customer_id'' ''customers'' ''id'',
      PrimaryKey [''id'']]"

definition installations_0001 :: table_def where
  "installations_0001 = table_def ''installations''
     [column ''id'' (CString 36) False,
      column ''device_id'' (CString 36) False,
      column ''current'' CBoolean False,
      column ''created_at'' CDateTime False]
     [ForeignKey ''device_id'' ''devices'' ''id'',
      PrimaryKey [''id'']]"

definition license_bindings_0001 :: table_def where
  "license_bindings_0001 = table_def ''license_bindings''
     [column ''device_id'' (CString 36) False,
      column ''license_id'' (CString 36) False]
     [ForeignKey ''device_id'' ''devices'' ''id'',
      ForeignKey ''license_id'' ''licenses'' ''id'',
      PrimaryKey [''device_id'']]"

definition registration_events_0001 :: table_def where
  "registration_events_0001 = table_def ''registration_events''
     [column ''id'' (CString 36) False,
      column ''device_id'' (CString 36) True,
      column ''kind'' (CString 64) False,
      column ''detail'' CJson False,
      column ''created_at'' CDateTime False]
     [ForeignKey ''device_id'' ''devices'' ''id'',
      PrimaryKey [''id'']]"

definition device_keys_0001 :: table_def where
  "device_keys_0001 = table_def ''device_keys''
     [column ''id'' (CString 36) False,
      column ''installation_id'' (CString 36) False,
      column ''public_key'' (CString 44) False,
      column ''current'' CBoolean False]
     [ForeignKey ''installation_id'' ''installations'' ''id'',
      PrimaryKey [''id''],
      Unique [''public_key'']]"

definition activation_tokens_0001 :: table_def where
  "activation_tokens_0001 = table_def ''activation_tokens''
     [column ''id'' (CString 36) False,
      column ''token_hash'' (CString 64) False,
      column ''device_id'' (CString 36) False,
      column ''installation_id'' (CString 36) False,
      column ''key_id'' (CString 36) False,
      column ''license_id'' (CString 36) False,
      column ''expires_at'' CDateTime False,
      column ''used_at'' CDateTime True]
     [ForeignKey ''device_id'' ''devices'' ''id'',
      ForeignKey ''installation_id'' ''installations'' ''id'',
      ForeignKey ''key_id'' ''device_keys'' ''id'',
      ForeignKey ''license_id'' ''licenses'' ''id'',
      PrimaryKey [''id''],
      Unique [''token_hash'']]"

definition challenges_0001 :: table_def where
  "challenges_0001 = table_def ''challenges''
     [column ''id'' (CString 36) False,
      column ''device_id'' (CString 36) False,
      column ''installation_id'' (CString 36) False,
      column ''key_id'' (CString 36) False,
      column ''serial'' (CString 16) False,
      column ''purpose'' (CString 16) False,
      column ''message'' CText False,
      column ''expires_at'' CDateTime False,
      column ''used_at'' CDateTime True]
     [ForeignKey ''device_id'' ''devices'' ''id'',
      ForeignKey ''installation_id'' ''installations'' ''id'',
      ForeignKey ''key_id'' ''device_keys'' ''id'',
      PrimaryKey [''id'']]"

definition device_sessions_0001 :: table_def where
  "device_sessions_0001 = table_def ''device_sessions''
     [column ''token_hash'' (CString 64) False,
      column ''device_id'' (CString 36) False,
      column ''installation_id'' (CString 36) False,
      column ''key_id'' (CString 36) False,
      column ''expires_at'' CDateTime False]
     [ForeignKey ''device_id'' ''devices'' ''id'',
      ForeignKey ''installation_id'' ''installations'' ''id'',
      ForeignKey ''key_id'' ''device_keys'' ''id'',
      PrimaryKey [''token_hash'']]"

definition upgrade_0001 :: "operation list" where
  "upgrade_0001 =
     [CreateTable administrators_0001,
      CreateTable audit_logs_0001,
      CreateTable customers_0001,
      CreateTable devices_0001,
      CreateTable licenses_0001,
      CreateTable installations_0001,
      CreateIndex ''installations'' (index ''ix_installations_device_id'' [''device_id''] False None),
      CreateIndex ''installations'' (index ''one_current_installation'' [''device_id''] True (Some ''current'')),
      CreateTable license_bindings_0001,
      CreateIndex ''license_bindings'' (index ''ix_license_bindings_license_id'' [''license_id''] False None),
      CreateTable registration_events_0001,
      CreateTable device_keys_0001,
      CreateIndex ''device_keys'' (index ''ix_device_keys_installation_id'' [''installation_id''] False None),
      CreateIndex ''device_keys'' (index ''one_current_key'' [''installation_id''] True (Some ''current'')),
      CreateTable activation_tokens_0001,
      CreateTable challenges_0001,
      CreateTable device_sessions_0001]"

definition downgrade_0001 :: "operation list" where
  "downgrade_0001 =
     [DropTable ''device_sessions'',
      DropTable ''challenges'',
      DropTable ''activation_tokens'',
      DropIndex ''device_keys'' ''one_current_key'',
      DropIndex ''device_keys'' ''ix_device_keys_installation_id'',
      DropTable ''device_keys'',
      DropTable ''registration_events'',
      DropIndex ''license_bindings'' ''ix_license_bindings_license_id'',
      DropTable ''license_bindings'',
      DropIndex ''installations'' ''one_current_installation'',
      DropIndex ''installations'' ''ix_installations_device_id'',
      DropTable ''installations'',
      DropTable ''licenses'',
      DropTable ''devices'',
      DropTable ''customers'',
      DropTable ''audit_logs'',
      DropTable ''administrators'']"

definition upgrade_0002 :: "operation list" where
  "upgrade_0002 =
     [AddColumn ''customers'' (column ''contact_name'' (CString 200) True),
      AddColumn ''customers'' (column ''email'' (CString 254) True),
      AddColumn ''customers'' (column ''phone'' (CString 40) True),
      AddColumn ''customers'' ((column ''email_verified'' CBoolean False)\<lparr>co_default := Some ''false''\<rparr>),
      AddColumn ''customers'' (column ''archived_at'' CDateTime True),
      AddColumn ''devices'' (column ''display_name'' (CString 120) True),
      AddColumn ''devices'' (column ''notes'' CText True),
      AddColumn ''devices'' (column ''archived_at'' CDateTime True)]"

definition downgrade_0002 :: "operation list" where
  "downgrade_0002 =
     map (DropColumn ''devices'') [''archived_at'', ''notes'', ''display_name''] @
     map (DropColumn ''customers'')
       [''archived_at'', ''email_verified'', ''phone'', ''email'', ''contact_name'']"

section \<open>The mapped classes\<close>

text \<open>
  \<open>mapped_column\<close>: \<open>None\<close> for the type of a column that takes it from the column its foreign key
  names.
\<close>

record mapped =
  mc_name :: string
  mc_type :: "coltype option"
  mc_nullable :: bool
  mc_primary :: bool
  mc_unique :: bool
  mc_index :: bool
  mc_foreign :: "(string \<times> string) option"
  mc_server_default :: "string option"

record model_def =
  mo_table :: string
  mo_columns :: "mapped list"
  mo_checks :: "rule list"
  mo_indexes :: "table_index list"

definition attr :: "string \<Rightarrow> coltype option \<Rightarrow> bool \<Rightarrow> mapped" where
  "attr n t nullable = \<lparr>mc_name = n, mc_type = t, mc_nullable = nullable, mc_primary = False,
     mc_unique = False, mc_index = False, mc_foreign = None, mc_server_default = None\<rparr>"

definition model_def :: "string \<Rightarrow> mapped list \<Rightarrow> rule list \<Rightarrow> table_index list \<Rightarrow> model_def" where
  "model_def n cs ks xs = \<lparr>mo_table = n, mo_columns = cs, mo_checks = ks, mo_indexes = xs\<rparr>"

definition customers_model :: model_def where
  "customers_model = model_def ''customers''
     [(attr ''id'' (Some (CString 36)) False)\<lparr>mc_primary := True\<rparr>,
      attr ''name'' (Some (CString 200)) False,
      attr ''contact_name'' (Some (CString 200)) True,
      attr ''email'' (Some (CString 254)) True,
      attr ''phone'' (Some (CString 40)) True,
      (attr ''email_verified'' (Some CBoolean) False)\<lparr>mc_server_default := Some ''false''\<rparr>,
      attr ''archived_at'' (Some CDateTime) True]
     []
     []"

definition devices_model :: model_def where
  "devices_model = model_def ''devices''
     [(attr ''id'' (Some (CString 36)) False)\<lparr>mc_primary := True\<rparr>,
      (attr ''serial'' (Some (CString 16)) False)\<lparr>mc_unique := True\<rparr>,
      attr ''model'' (Some (CString 120)) False,
      attr ''firmware'' (Some (CString 120)) False,
      attr ''display_name'' (Some (CString 120)) True,
      attr ''notes'' (Some CText) True,
      attr ''archived_at'' (Some CDateTime) True,
      attr ''status'' (Some (CString 32)) False,
      (attr ''customer_id'' None True)\<lparr>mc_foreign := Some (''customers'', ''id'')\<rparr>,
      attr ''last_seen'' (Some CDateTime) True,
      attr ''created_at'' (Some CDateTime) False]
     [Check (OneOf ''status'' [''PENDING'', ''ACTIVATION_REQUIRED'', ''ACTIVE'', ''SUSPENDED'',
        ''REVOKED'', ''EXPIRED'', ''HARDWARE_MISMATCH''])]
     []"

definition installations_model :: model_def where
  "installations_model = model_def ''installations''
     [(attr ''id'' (Some (CString 36)) False)\<lparr>mc_primary := True\<rparr>,
      (attr ''device_id'' None False)\<lparr>mc_index := True, mc_foreign := Some (''devices'',
        ''id'')\<rparr>,
      attr ''current'' (Some CBoolean) False,
      attr ''created_at'' (Some CDateTime) False]
     []
     [index ''one_current_installation'' [''device_id''] True (Some ''current'')]"

definition device_keys_model :: model_def where
  "device_keys_model = model_def ''device_keys''
     [(attr ''id'' (Some (CString 36)) False)\<lparr>mc_primary := True\<rparr>,
      (attr ''installation_id'' None False)\<lparr>mc_index := True,
        mc_foreign := Some (''installations'', ''id'')\<rparr>,
      (attr ''public_key'' (Some (CString 44)) False)\<lparr>mc_unique := True\<rparr>,
      attr ''current'' (Some CBoolean) False]
     []
     [index ''one_current_key'' [''installation_id''] True (Some ''current'')]"

definition licenses_model :: model_def where
  "licenses_model = model_def ''licenses''
     [(attr ''id'' (Some (CString 36)) False)\<lparr>mc_primary := True\<rparr>,
      (attr ''customer_id'' None False)\<lparr>mc_foreign := Some (''customers'', ''id'')\<rparr>,
      attr ''kind'' (Some (CString 20)) False,
      attr ''status'' (Some (CString 20)) False,
      attr ''max_devices'' (Some CInteger) False,
      attr ''issued_at'' (Some CDateTime) False,
      attr ''expires_at'' (Some CDateTime) True,
      attr ''last_validated_at'' (Some CDateTime) True]
     [Check (OneOf ''kind'' [''PERPETUAL'', ''SUBSCRIPTION'', ''RENTAL'', ''DEMO'']),
      Check (OneOf ''status'' [''ACTIVE'', ''SUSPENDED'', ''REVOKED'']),
      Check (AtLeast ''max_devices'' 1),
      Check (EqualsOrNotNull ''kind'' ''PERPETUAL'' ''expires_at'')]
     []"

definition license_bindings_model :: model_def where
  "license_bindings_model = model_def ''license_bindings''
     [(attr ''device_id'' None False)\<lparr>mc_primary := True, mc_foreign := Some (''devices'',
        ''id'')\<rparr>,
      (attr ''license_id'' None False)\<lparr>mc_index := True, mc_foreign := Some (''licenses'',
        ''id'')\<rparr>]
     []
     []"

definition activation_tokens_model :: model_def where
  "activation_tokens_model = model_def ''activation_tokens''
     [(attr ''id'' (Some (CString 36)) False)\<lparr>mc_primary := True\<rparr>,
      (attr ''token_hash'' (Some (CString 64)) False)\<lparr>mc_unique := True\<rparr>,
      (attr ''device_id'' None False)\<lparr>mc_foreign := Some (''devices'', ''id'')\<rparr>,
      (attr ''installation_id'' None False)\<lparr>mc_foreign := Some (''installations'',
        ''id'')\<rparr>,
      (attr ''key_id'' None False)\<lparr>mc_foreign := Some (''device_keys'', ''id'')\<rparr>,
      (attr ''license_id'' None False)\<lparr>mc_foreign := Some (''licenses'', ''id'')\<rparr>,
      attr ''expires_at'' (Some CDateTime) False,
      attr ''used_at'' (Some CDateTime) True]
     []
     []"

definition challenges_model :: model_def where
  "challenges_model = model_def ''challenges''
     [(attr ''id'' (Some (CString 36)) False)\<lparr>mc_primary := True\<rparr>,
      (attr ''device_id'' None False)\<lparr>mc_foreign := Some (''devices'', ''id'')\<rparr>,
      (attr ''installation_id'' None False)\<lparr>mc_foreign := Some (''installations'',
        ''id'')\<rparr>,
      (attr ''key_id'' None False)\<lparr>mc_foreign := Some (''device_keys'', ''id'')\<rparr>,
      attr ''serial'' (Some (CString 16)) False,
      attr ''purpose'' (Some (CString 16)) False,
      attr ''message'' (Some CText) False,
      attr ''expires_at'' (Some CDateTime) False,
      attr ''used_at'' (Some CDateTime) True]
     []
     []"

definition device_sessions_model :: model_def where
  "device_sessions_model = model_def ''device_sessions''
     [(attr ''token_hash'' (Some (CString 64)) False)\<lparr>mc_primary := True\<rparr>,
      (attr ''device_id'' None False)\<lparr>mc_foreign := Some (''devices'', ''id'')\<rparr>,
      (attr ''installation_id'' None False)\<lparr>mc_foreign := Some (''installations'',
        ''id'')\<rparr>,
      (attr ''key_id'' None False)\<lparr>mc_foreign := Some (''device_keys'', ''id'')\<rparr>,
      attr ''expires_at'' (Some CDateTime) False]
     []
     []"

definition registration_events_model :: model_def where
  "registration_events_model = model_def ''registration_events''
     [(attr ''id'' (Some (CString 36)) False)\<lparr>mc_primary := True\<rparr>,
      (attr ''device_id'' None True)\<lparr>mc_foreign := Some (''devices'', ''id'')\<rparr>,
      attr ''kind'' (Some (CString 64)) False,
      attr ''detail'' (Some CJson) False,
      attr ''created_at'' (Some CDateTime) False]
     []
     []"

definition audit_logs_model :: model_def where
  "audit_logs_model = model_def ''audit_logs''
     [(attr ''id'' (Some (CString 36)) False)\<lparr>mc_primary := True\<rparr>,
      attr ''actor'' (Some (CString 120)) False,
      attr ''action'' (Some (CString 64)) False,
      attr ''target'' (Some (CString 120)) False,
      attr ''detail'' (Some CJson) False,
      attr ''created_at'' (Some CDateTime) False]
     []
     []"

definition administrators_model :: model_def where
  "administrators_model = model_def ''administrators''
     [(attr ''id'' (Some (CString 36)) False)\<lparr>mc_primary := True\<rparr>,
      (attr ''name'' (Some (CString 120)) False)\<lparr>mc_unique := True\<rparr>,
      (attr ''token_hash'' (Some (CString 64)) False)\<lparr>mc_unique := True\<rparr>,
      attr ''role'' (Some (CString 16)) False,
      attr ''active'' (Some CBoolean) False,
      attr ''expires_at'' (Some CDateTime) False]
     []
     []"

definition models :: "model_def list" where
  "models = [customers_model, devices_model, installations_model, device_keys_model,
        licenses_model, license_bindings_model, activation_tokens_model, challenges_model,
        device_sessions_model, registration_events_model, audit_logs_model, administrators_model]"

text \<open>The table a mapped class describes, with the names and constraints SQLAlchemy derives.\<close>

definition mapped_at :: "model_def list \<Rightarrow> string \<times> string \<Rightarrow> mapped option" where
  "mapped_at ms r = (case find (\<lambda>m. mo_table m = fst r) ms of None \<Rightarrow> None
     | Some m \<Rightarrow> find (\<lambda>c. mc_name c = snd r) (mo_columns m))"

fun type_at :: "nat \<Rightarrow> model_def list \<Rightarrow> mapped \<Rightarrow> coltype option" where
  "type_at 0 ms c = None"
| "type_at (Suc n) ms c = (case mc_type c of Some t \<Rightarrow> Some t
     | None \<Rightarrow> (case mc_foreign c of None \<Rightarrow> None
         | Some r \<Rightarrow> (case mapped_at ms r of None \<Rightarrow> None | Some d \<Rightarrow> type_at n ms d)))"

definition column_of :: "model_def list \<Rightarrow> mapped \<Rightarrow> column" where
  "column_of ms c = \<lparr>co_name = mc_name c,
     co_type = (case type_at (length ms) ms c of None \<Rightarrow> CText | Some t \<Rightarrow> t),
     co_nullable = mc_nullable c, co_default = mc_server_default c\<rparr>"

definition table_of :: "model_def list \<Rightarrow> model_def \<Rightarrow> table_def" where
  "table_of ms m = \<lparr>ta_name = mo_table m, ta_columns = map (column_of ms) (mo_columns m),
     ta_rules = PrimaryKey (map mc_name (filter mc_primary (mo_columns m)))
        # map (\<lambda>c. Unique [mc_name c]) (filter mc_unique (mo_columns m))
        @ concat (map (\<lambda>c. case mc_foreign c of None \<Rightarrow> []
                          | Some r \<Rightarrow> [ForeignKey (mc_name c) (fst r) (snd r)]) (mo_columns m))
        @ mo_checks m,
     ta_indexes = mo_indexes m
        @ map (\<lambda>c. index (''ix_'' @ mo_table m @ ''_'' @ mc_name c) [mc_name c] False None)
            (filter mc_index (mo_columns m))\<rparr>"

definition declared :: schema where
  "declared = map (table_of models) models"

section \<open>The migrations build the declared schema\<close>

definition same_table :: "table_def \<Rightarrow> table_def \<Rightarrow> bool" where
  "same_table t u \<longleftrightarrow> ta_name t = ta_name u \<and> set (ta_columns t) = set (ta_columns u) \<and>
     set (ta_rules t) = set (ta_rules u) \<and> set (ta_indexes t) = set (ta_indexes u)"

definition covers :: "schema \<Rightarrow> schema \<Rightarrow> bool" where
  "covers a b \<longleftrightarrow> list_all (\<lambda>t. list_ex (same_table t) b) a"

definition same_schema :: "schema \<Rightarrow> schema \<Rightarrow> bool" where
  "same_schema a b \<longleftrightarrow> covers a b \<and> covers b a"

lemma migrations_run:
  "\<exists>s1 s2. apply_ops upgrade_0001 [] = Some s1 \<and> apply_ops upgrade_0002 s1 = Some s2 \<and>
     same_schema s2 declared \<and>
     apply_ops downgrade_0002 s2 = Some s1 \<and> apply_ops downgrade_0001 s1 = Some []"
proof -
  have "case apply_ops upgrade_0001 [] of None \<Rightarrow> False
    | Some s1 \<Rightarrow> (case apply_ops upgrade_0002 s1 of None \<Rightarrow> False
        | Some s2 \<Rightarrow> same_schema s2 declared \<and> apply_ops downgrade_0002 s2 = Some s1 \<and>
            apply_ops downgrade_0001 s1 = Some [])"
    by code_simp
  then show ?thesis by (auto split: option.splits)
qed

lemma apply_ops_append:
  "apply_ops (xs @ ys) s = (case apply_ops xs s of None \<Rightarrow> None | Some t \<Rightarrow> apply_ops ys t)"
  by (induction xs arbitrary: s) (auto split: option.split)

end
