(* ===== verification/Registry_Rows.thy ===== *)
theory Registry_Rows
  imports Registry_Schema
begin

text \<open>
  The rows of the model's database as rows of the schema, and what it means that rows satisfy a
  schema: every value is one of its column's type (a text within the length of a VARCHAR, a number of 32
  bits), and the keys, checks and unique indexes hold. The rows of a database satisfy the schema exactly
  when the model's \<open>integrity\<close> holds and its values fit the columns.
\<close>

section \<open>Rows of a schema\<close>

datatype cell = Null | Str string | Num int | Flag bool | Time int | Doc json

type_synonym row = "(string \<times> cell) list"

type_synonym contents = "string \<Rightarrow> row list"

definition cell :: "string \<Rightarrow> row \<Rightarrow> cell" where
  "cell c r = (case map_of r c of None \<Rightarrow> Null | Some v \<Rightarrow> v)"

definition opt :: "('a \<Rightarrow> cell) \<Rightarrow> 'a option \<Rightarrow> cell" where
  "opt f x = (case x of None \<Rightarrow> Null | Some a \<Rightarrow> f a)"

fun fits :: "coltype \<Rightarrow> cell \<Rightarrow> bool" where
  "fits (CString n) (Str s) = (length s \<le> n)"
| "fits CText (Str _) = True"
| "fits CBoolean (Flag _) = True"
| "fits CInteger (Num k) = (- (2 ^ 31) \<le> k \<and> k < 2 ^ 31)"
| "fits CDateTime (Time _) = True"
| "fits CJson (Doc _) = True"
| "fits _ _ = False"

definition column_ok :: "row list \<Rightarrow> column \<Rightarrow> bool" where
  "column_ok rows c \<longleftrightarrow> list_all (\<lambda>r. cell (co_name c) r = Null \<and> co_nullable c \<or>
     fits (co_type c) (cell (co_name c) r)) rows"

definition unique_on :: "string list \<Rightarrow> row list \<Rightarrow> bool" where
  "unique_on cs rows \<longleftrightarrow>
     distinct (filter (\<lambda>k. Null \<notin> set k) (map (\<lambda>r. map (\<lambda>c. cell c r) cs) rows))"

fun check_ok :: "check \<Rightarrow> row \<Rightarrow> bool" where
  "check_ok (OneOf c vs) r = (case cell c r of Null \<Rightarrow> True | Str v \<Rightarrow> v \<in> set vs | _ \<Rightarrow> False)"
| "check_ok (AtLeast c n) r = (case cell c r of Null \<Rightarrow> True | Num k \<Rightarrow> n \<le> k | _ \<Rightarrow> False)"
| "check_ok (EqualsOrNotNull c v d) r = (cell c r = Str v \<or> cell d r \<noteq> Null)"

fun rule_ok :: "contents \<Rightarrow> row list \<Rightarrow> rule \<Rightarrow> bool" where
  "rule_ok f rows (PrimaryKey cs) = unique_on cs rows"
| "rule_ok f rows (Unique cs) = unique_on cs rows"
| "rule_ok f rows (ForeignKey c n d) =
     list_all (\<lambda>r. cell c r = Null \<or> cell c r \<in> cell d ` set (f n)) rows"
| "rule_ok f rows (Check k) = list_all (check_ok k) rows"

definition index_ok :: "row list \<Rightarrow> table_index \<Rightarrow> bool" where
  "index_ok rows i \<longleftrightarrow> (ix_unique i \<longrightarrow> unique_on (ix_columns i)
     (filter (\<lambda>r. case ix_where i of None \<Rightarrow> True | Some c \<Rightarrow> cell c r = Flag True) rows))"

definition table_ok :: "contents \<Rightarrow> table_def \<Rightarrow> bool" where
  "table_ok f t \<longleftrightarrow> (\<forall>c \<in> set (ta_columns t). column_ok (f (ta_name t)) c) \<and>
     (\<forall>r \<in> set (ta_rules t). rule_ok f (f (ta_name t)) r) \<and>
     (\<forall>i \<in> set (ta_indexes t). index_ok (f (ta_name t)) i)"

definition satisfies :: "contents \<Rightarrow> schema \<Rightarrow> bool" where
  "satisfies f s \<longleftrightarrow> (\<forall>t \<in> set s. table_ok f t)"

lemma satisfies_covered:
  assumes "covers b a" and "satisfies f a"
  shows "satisfies f b"
proof -
  have "table_ok f t" if "u \<in> set a" "same_table t u" for t u
    using that assms(2) by (simp add: satisfies_def table_ok_def same_table_def)
  then show ?thesis
    using assms(1) by (auto simp: covers_def satisfies_def list_all_iff list_ex_iff)
qed

lemma satisfies_same: "same_schema a b \<Longrightarrow> satisfies f a = satisfies f b"
  by (auto simp: same_schema_def intro: satisfies_covered)

section \<open>The rows of the model's tables\<close>

definition customer_row :: "customer \<Rightarrow> row" where
  "customer_row r = [(''id'', Str (cu_id r)), (''name'', Str (cu_name r)),
     (''contact_name'', opt Str (cu_contact_name r)), (''email'', opt Str (cu_email r)),
     (''phone'', opt Str (cu_phone r)), (''email_verified'', Flag (cu_email_verified r)),
     (''archived_at'', opt Time (cu_archived_at r))]"

definition device_row :: "device \<Rightarrow> row" where
  "device_row r = [(''id'', Str (dv_id r)), (''serial'', Str (dv_serial r)),
     (''model'', Str (dv_model r)), (''firmware'', Str (dv_firmware r)),
     (''display_name'', opt Str (dv_display_name r)), (''notes'', opt Str (dv_notes r)),
     (''archived_at'', opt Time (dv_archived_at r)), (''status'', Str (status_name (dv_status r))),
     (''customer_id'', opt Str (dv_customer_id r)), (''last_seen'', opt Time (dv_last_seen r)),
     (''created_at'', Time (dv_created_at r))]"

definition installation_row :: "installation \<Rightarrow> row" where
  "installation_row r = [(''id'', Str (in_id r)), (''device_id'', Str (in_device_id r)),
     (''current'', Flag (in_current r)), (''created_at'', Time (in_created_at r))]"

definition key_row :: "device_key \<Rightarrow> row" where
  "key_row r = [(''id'', Str (ke_id r)), (''installation_id'', Str (ke_installation_id r)),
     (''public_key'', Str (ke_public_key r)), (''current'', Flag (ke_current r))]"

definition license_row :: "license \<Rightarrow> row" where
  "license_row r = [(''id'', Str (li_id r)), (''customer_id'', Str (li_customer_id r)),
     (''kind'', Str (kind_name (li_kind r))), (''status'', Str (status_name (li_status r))),
     (''max_devices'', Num (li_max_devices r)), (''issued_at'', Time (li_issued_at r)),
     (''expires_at'', opt Time (li_expires_at r)),
     (''last_validated_at'', opt Time (li_last_validated_at r))]"

definition binding_row :: "license_binding \<Rightarrow> row" where
  "binding_row r = [(''device_id'', Str (lb_device_id r)), (''license_id'', Str (lb_license_id r))]"

definition token_row :: "activation_token \<Rightarrow> row" where
  "token_row r = [(''id'', Str (at_id r)), (''token_hash'', Str (at_token_hash r)),
     (''device_id'', Str (at_device_id r)), (''installation_id'', Str (at_installation_id r)),
     (''key_id'', Str (at_key_id r)), (''license_id'', Str (at_license_id r)),
     (''expires_at'', Time (at_expires_at r)), (''used_at'', opt Time (at_used_at r))]"

definition challenge_row_of :: "challenge_row \<Rightarrow> row" where
  "challenge_row_of r = [(''id'', Str (ch_id r)), (''device_id'', Str (ch_device_id r)),
     (''installation_id'', Str (ch_installation_id r)), (''key_id'', Str (ch_key_id r)),
     (''serial'', Str (ch_serial r)), (''purpose'', Str (ch_purpose r)),
     (''message'', Str (ch_message r)), (''expires_at'', Time (ch_expires_at r)),
     (''used_at'', opt Time (ch_used_at r))]"

definition session_row :: "device_session_row \<Rightarrow> row" where
  "session_row r = [(''token_hash'', Str (ds_token_hash r)), (''device_id'', Str (ds_device_id r)),
     (''installation_id'', Str (ds_installation_id r)), (''key_id'', Str (ds_key_id r)),
     (''expires_at'', Time (ds_expires_at r))]"

definition event_row :: "registration_event \<Rightarrow> row" where
  "event_row r = [(''id'', Str (re_id r)), (''device_id'', opt Str (re_device_id r)),
     (''kind'', Str (re_kind r)), (''detail'', Doc (re_detail r)),
     (''created_at'', Time (re_created_at r))]"

definition audit_row :: "audit_log \<Rightarrow> row" where
  "audit_row r = [(''id'', Str (au_id r)), (''actor'', Str (au_actor r)),
     (''action'', Str (au_action r)), (''target'', Str (au_target r)),
     (''detail'', Doc (au_detail r)), (''created_at'', Time (au_created_at r))]"

definition administrator_row :: "administrator \<Rightarrow> row" where
  "administrator_row r = [(''id'', Str (ad_id r)), (''name'', Str (ad_name r)),
     (''token_hash'', Str (ad_token_hash r)), (''role'', Str (ad_role r)),
     (''active'', Flag (ad_active r)), (''expires_at'', Time (ad_expires_at r))]"

definition contents_of :: "db \<Rightarrow> contents" where
  "contents_of d n =
     (if n = ''customers'' then map customer_row (customers d)
      else if n = ''devices'' then map device_row (devices d)
      else if n = ''installations'' then map installation_row (installations d)
      else if n = ''device_keys'' then map key_row (device_keys d)
      else if n = ''licenses'' then map license_row (licenses d)
      else if n = ''license_bindings'' then map binding_row (license_bindings d)
      else if n = ''activation_tokens'' then map token_row (activation_tokens d)
      else if n = ''challenges'' then map challenge_row_of (challenges d)
      else if n = ''device_sessions'' then map session_row (device_sessions d)
      else if n = ''registration_events'' then map event_row (registration_events d)
      else if n = ''audit_logs'' then map audit_row (audit_logs d)
      else if n = ''administrators'' then map administrator_row (administrators d)
      else [])"

lemmas row_defs = customer_row_def device_row_def installation_row_def key_row_def license_row_def
  binding_row_def token_row_def challenge_row_of_def session_row_def event_row_def audit_row_def
  administrator_row_def

section \<open>What the schema says of these rows\<close>

text \<open>The declared lengths of the texts of a database, and the range of its one number.\<close>

definition short :: "nat \<Rightarrow> string option \<Rightarrow> bool" where
  "short n x = (case x of None \<Rightarrow> True | Some s \<Rightarrow> length s \<le> n)"

definition customer_within :: "customer \<Rightarrow> bool" where
  "customer_within r \<longleftrightarrow> length (cu_id r) \<le> 36 \<and> length (cu_name r) \<le> 200 \<and> short 200 (cu_contact_name r) \<and>
     short 254 (cu_email r) \<and> short 40 (cu_phone r)"

definition device_within :: "device \<Rightarrow> bool" where
  "device_within r \<longleftrightarrow> length (dv_id r) \<le> 36 \<and> length (dv_serial r) \<le> 16 \<and> length (dv_model r) \<le> 120 \<and>
     length (dv_firmware r) \<le> 120 \<and> short 120 (dv_display_name r) \<and> short 36 (dv_customer_id r)"

definition installation_within :: "installation \<Rightarrow> bool" where
  "installation_within r \<longleftrightarrow> length (in_id r) \<le> 36 \<and> length (in_device_id r) \<le> 36"

definition key_within :: "device_key \<Rightarrow> bool" where
  "key_within r \<longleftrightarrow> length (ke_id r) \<le> 36 \<and> length (ke_installation_id r) \<le> 36 \<and> length (ke_public_key r) \<le> 44"

definition license_within :: "license \<Rightarrow> bool" where
  "license_within r \<longleftrightarrow> length (li_id r) \<le> 36 \<and> length (li_customer_id r) \<le> 36 \<and>
     - (2 ^ 31) \<le> li_max_devices r \<and> li_max_devices r < 2 ^ 31"

definition binding_within :: "license_binding \<Rightarrow> bool" where
  "binding_within r \<longleftrightarrow> length (lb_device_id r) \<le> 36 \<and> length (lb_license_id r) \<le> 36"

definition token_within :: "activation_token \<Rightarrow> bool" where
  "token_within r \<longleftrightarrow> length (at_id r) \<le> 36 \<and> length (at_token_hash r) \<le> 64 \<and> length (at_device_id r) \<le> 36 \<and>
     length (at_installation_id r) \<le> 36 \<and> length (at_key_id r) \<le> 36 \<and> length (at_license_id r) \<le> 36"

definition challenge_within :: "challenge_row \<Rightarrow> bool" where
  "challenge_within r \<longleftrightarrow> length (ch_id r) \<le> 36 \<and> length (ch_device_id r) \<le> 36 \<and> length (ch_installation_id r) \<le> 36 \<and>
     length (ch_key_id r) \<le> 36 \<and> length (ch_serial r) \<le> 16 \<and> length (ch_purpose r) \<le> 16"

definition session_within :: "device_session_row \<Rightarrow> bool" where
  "session_within r \<longleftrightarrow> length (ds_token_hash r) \<le> 64 \<and> length (ds_device_id r) \<le> 36 \<and>
     length (ds_installation_id r) \<le> 36 \<and> length (ds_key_id r) \<le> 36"

definition event_within :: "registration_event \<Rightarrow> bool" where
  "event_within r \<longleftrightarrow> length (re_id r) \<le> 36 \<and> short 36 (re_device_id r) \<and> length (re_kind r) \<le> 64"

definition audit_within :: "audit_log \<Rightarrow> bool" where
  "audit_within r \<longleftrightarrow> length (au_id r) \<le> 36 \<and> length (au_actor r) \<le> 120 \<and> length (au_action r) \<le> 64 \<and>
     length (au_target r) \<le> 120"

definition administrator_within :: "administrator \<Rightarrow> bool" where
  "administrator_within r \<longleftrightarrow> length (ad_id r) \<le> 36 \<and> length (ad_name r) \<le> 120 \<and> length (ad_token_hash r) \<le> 64 \<and>
     length (ad_role r) \<le> 16"

definition values_fit :: "db \<Rightarrow> bool" where
  "values_fit d \<longleftrightarrow> list_all customer_within (customers d) \<and> list_all device_within (devices d) \<and>
     list_all installation_within (installations d) \<and> list_all key_within (device_keys d) \<and>
     list_all license_within (licenses d) \<and> list_all binding_within (license_bindings d) \<and>
     list_all token_within (activation_tokens d) \<and> list_all challenge_within (challenges d) \<and>
     list_all session_within (device_sessions d) \<and> list_all event_within (registration_events d) \<and>
     list_all audit_within (audit_logs d) \<and> list_all administrator_within (administrators d)"

lemma fits_opt:
  "(opt Str x = Null \<or> fits (CString n) (opt Str x)) = short n x" "opt Str x = Null \<or> fits CText (opt Str x)"
  "opt Time y = Null \<or> fits CDateTime (opt Time y)"
  by (simp_all add: opt_def short_def split: option.split)

lemma unique_single:
  assumes "\<And>r. r \<in> set rows \<Longrightarrow> cell c r \<noteq> Null"
  shows "unique_on [c] rows \<longleftrightarrow> distinct (map (cell c) rows)"
proof -
  have "filter (\<lambda>k. Null \<notin> set k) (map (\<lambda>r. map (\<lambda>c. cell c r) [c]) rows) = map (\<lambda>r. [cell c r]) rows"
    using assms by (auto simp: filter_id_conv eq_commute)
  then show ?thesis
    by (simp add: unique_on_def distinct_map inj_on_def)
qed

lemma unique_text:
  assumes "\<And>x. cell c (f x) = Str (g x)"
  shows "unique_on [c] (map f xs) \<longleftrightarrow> distinct (map g xs)"
proof -
  have "unique_on [c] (map f xs) \<longleftrightarrow> distinct (map (cell c) (map f xs))"
    using assms by (intro unique_single) auto
  also have "\<dots> \<longleftrightarrow> distinct (map g xs)"
    using assms by (simp add: distinct_map inj_on_def)
  finally show ?thesis .
qed

lemma unique_where:
  assumes "\<And>x. cell c (f x) = Str (g x)" and "\<And>x. cell w (f x) = Flag (h x)"
  shows "unique_on [c] (filter (\<lambda>r. cell w r = Flag True) (map f xs)) \<longleftrightarrow> distinct (map g (filter h xs))"
proof -
  have "filter (\<lambda>r. cell w r = Flag True) (map f xs) = map f (filter h xs)"
    using assms(2) by (induction xs) simp_all
  then show ?thesis
    using unique_text [OF assms(1)] by simp
qed

lemma status_name_inj: "status_name s = status_name t \<longleftrightarrow> s = t"
  by (cases s; cases t) simp_all

lemma name_lengths [simp]: "length (status_name s) \<le> 20" "length (status_name s) \<le> 32" "length (kind_name k) \<le> 20"
  by (cases s, simp_all) (cases s, simp_all, cases k, simp_all)

lemma unique_rows:
  "unique_on [''id''] (map customer_row cus) \<longleftrightarrow> distinct (map cu_id cus)"
  "unique_on [''id''] (map device_row dvs) \<longleftrightarrow> distinct (map dv_id dvs)"
  "unique_on [''serial''] (map device_row dvs) \<longleftrightarrow> distinct (map dv_serial dvs)"
  "unique_on [''id''] (map installation_row ins) \<longleftrightarrow> distinct (map in_id ins)"
  "unique_on [''id''] (map key_row kes) \<longleftrightarrow> distinct (map ke_id kes)"
  "unique_on [''public_key''] (map key_row kes) \<longleftrightarrow> distinct (map ke_public_key kes)"
  "unique_on [''id''] (map license_row lis) \<longleftrightarrow> distinct (map li_id lis)"
  "unique_on [''device_id''] (map binding_row lbs) \<longleftrightarrow> distinct (map lb_device_id lbs)"
  "unique_on [''id''] (map token_row ats) \<longleftrightarrow> distinct (map at_id ats)"
  "unique_on [''token_hash''] (map token_row ats) \<longleftrightarrow> distinct (map at_token_hash ats)"
  "unique_on [''id''] (map challenge_row_of chs) \<longleftrightarrow> distinct (map ch_id chs)"
  "unique_on [''token_hash''] (map session_row dss) \<longleftrightarrow> distinct (map ds_token_hash dss)"
  "unique_on [''id''] (map event_row res) \<longleftrightarrow> distinct (map re_id res)"
  "unique_on [''id''] (map audit_row aus) \<longleftrightarrow> distinct (map au_id aus)"
  "unique_on [''id''] (map administrator_row ads) \<longleftrightarrow> distinct (map ad_id ads)"
  "unique_on [''name''] (map administrator_row ads) \<longleftrightarrow> distinct (map ad_name ads)"
  "unique_on [''token_hash''] (map administrator_row ads) \<longleftrightarrow> distinct (map ad_token_hash ads)"
  by (rule unique_text, simp add: cell_def row_defs)+

lemma unique_current:
  "unique_on [''device_id''] (filter (\<lambda>r. cell ''current'' r = Flag True) (map installation_row ins))
     \<longleftrightarrow> distinct (map in_device_id (filter in_current ins))"
  "unique_on [''installation_id''] (filter (\<lambda>r. cell ''current'' r = Flag True) (map key_row kes))
     \<longleftrightarrow> distinct (map ke_installation_id (filter ke_current kes))"
  by (rule unique_where; simp add: cell_def row_defs)+

lemma contents_simps [simp]:
  "contents_of d ''customers'' = map customer_row (customers d)"
  "contents_of d ''devices'' = map device_row (devices d)"
  "contents_of d ''installations'' = map installation_row (installations d)"
  "contents_of d ''device_keys'' = map key_row (device_keys d)"
  "contents_of d ''licenses'' = map license_row (licenses d)"
  "contents_of d ''license_bindings'' = map binding_row (license_bindings d)"
  "contents_of d ''activation_tokens'' = map token_row (activation_tokens d)"
  "contents_of d ''challenges'' = map challenge_row_of (challenges d)"
  "contents_of d ''device_sessions'' = map session_row (device_sessions d)"
  "contents_of d ''registration_events'' = map event_row (registration_events d)"
  "contents_of d ''audit_logs'' = map audit_row (audit_logs d)"
  "contents_of d ''administrators'' = map administrator_row (administrators d)"
  by (simp_all add: contents_of_def)

lemma foreign_text: "Str a \<in> (\<lambda>x. Str (g x)) ` S \<longleftrightarrow> a \<in> g ` S"
  by auto

lemma foreign_opt:
  "(opt Str x = Null \<or> opt Str x \<in> (\<lambda>y. Str (g y)) ` S) \<longleftrightarrow>
     (case x of None \<Rightarrow> True | Some a \<Rightarrow> a \<in> g ` S)"
  by (auto simp: opt_def split: option.split)

subsection \<open>The types of the columns\<close>

lemma type_given: "mc_type c = Some t \<Longrightarrow> type_at (length models) models c = Some t"
  by (simp add: models_def)

lemma mapped_ids:
  "mapped_at models (''customers'', ''id'') = Some ((attr ''id'' (Some (CString 36)) False)\<lparr>mc_primary := True\<rparr>)"
  "mapped_at models (''devices'', ''id'') = Some ((attr ''id'' (Some (CString 36)) False)\<lparr>mc_primary := True\<rparr>)"
  "mapped_at models (''installations'', ''id'') = Some ((attr ''id'' (Some (CString 36)) False)\<lparr>mc_primary := True\<rparr>)"
  "mapped_at models (''device_keys'', ''id'') = Some ((attr ''id'' (Some (CString 36)) False)\<lparr>mc_primary := True\<rparr>)"
  "mapped_at models (''licenses'', ''id'') = Some ((attr ''id'' (Some (CString 36)) False)\<lparr>mc_primary := True\<rparr>)"
  by code_simp+

lemma type_foreign:
  assumes "mc_type c = None" and "mc_foreign c = Some (t, ''id'')"
    and "t \<in> {''customers'', ''devices'', ''installations'', ''device_keys'', ''licenses''}"
  shows "type_at (length models) models c = Some (CString 36)"
  using assms mapped_ids by (auto simp: models_def attr_def)

lemma column_of_simps:
  "co_name (column_of ms c) = mc_name c" "co_nullable (column_of ms c) = mc_nullable c"
  "co_type (column_of ms c) = (case type_at (length ms) ms c of None \<Rightarrow> CText | Some t \<Rightarrow> t)"
  by (simp_all add: column_of_def)

lemma cell_simps:
  "cell c [] = Null" "cell c ((k, v) # r) = (if k = c then v else cell c r)"
  by (simp_all add: cell_def)

lemmas cell_rows = row_defs [THEN arg_cong, of "cell c" for c]

lemmas fits_defs = customer_within_def device_within_def installation_within_def key_within_def license_within_def
  binding_within_def token_within_def challenge_within_def session_within_def event_within_def audit_within_def
  administrator_within_def

lemmas table_simps = fits_defs  table_ok_def table_of_def model_def_def attr_def column_ok_def column_of_simps
  list_all_iff cell_simps cell_rows fits_opt index_ok_def index_def type_given type_foreign unique_rows
  unique_current image_image foreign_text foreign_opt status_name_inj

lemma customers_ok:
  "table_ok (contents_of d) (table_of models customers_model) \<longleftrightarrow> list_all customer_within (customers d) \<and> distinct (map cu_id (customers d))"
  by (auto simp: table_simps customers_model_def)

lemma devices_ok:
  "table_ok (contents_of d) (table_of models devices_model) \<longleftrightarrow> list_all device_within (devices d) \<and>
     distinct (map dv_id (devices d)) \<and> distinct (map dv_serial (devices d)) \<and>
     (\<forall>x \<in> set (devices d).
        case dv_customer_id x of None \<Rightarrow> True | Some c \<Rightarrow> c \<in> cu_id ` set (customers d))"
proof -
  have "status_name s \<in> {''PENDING'', ''ACTIVATION_REQUIRED'', ''ACTIVE'', ''SUSPENDED'', ''REVOKED'',
      ''EXPIRED'', ''HARDWARE_MISMATCH''}" for s
    by (cases s) simp_all
  then show ?thesis by (auto simp: table_simps devices_model_def)
qed

lemma installations_ok:
  "table_ok (contents_of d) (table_of models installations_model) \<longleftrightarrow> list_all installation_within (installations d) \<and>
     distinct (map in_id (installations d)) \<and> one_current_installation d \<and>
     (\<forall>x \<in> set (installations d). in_device_id x \<in> dv_id ` set (devices d))"
  by (auto simp: table_simps installations_model_def one_current_installation_def)

lemma keys_ok:
  "table_ok (contents_of d) (table_of models device_keys_model) \<longleftrightarrow> list_all key_within (device_keys d) \<and>
     distinct (map ke_id (device_keys d)) \<and> distinct (map ke_public_key (device_keys d)) \<and>
     one_current_key d \<and>
     (\<forall>x \<in> set (device_keys d). ke_installation_id x \<in> in_id ` set (installations d))"
  by (auto simp: table_simps device_keys_model_def one_current_key_def)

lemma licenses_ok:
  "table_ok (contents_of d) (table_of models licenses_model) \<longleftrightarrow> list_all license_within (licenses d) \<and>
     distinct (map li_id (licenses d)) \<and> list_all license_checks (licenses d) \<and>
     (\<forall>x \<in> set (licenses d). li_customer_id x \<in> cu_id ` set (customers d))"
proof -
  have "kind_name k \<in> {''PERPETUAL'', ''SUBSCRIPTION'', ''RENTAL'', ''DEMO''}" for k
    by (cases k) simp_all
  moreover have "status_name s \<in> {''ACTIVE'', ''SUSPENDED'', ''REVOKED''}
      \<longleftrightarrow> s \<in> {ACTIVE, SUSPENDED, REVOKED}" for s
    by (cases s) simp_all
  moreover have "kind_name k = ''PERPETUAL'' \<longleftrightarrow> k = PERPETUAL" for k
    by (cases k) simp_all
  moreover have "opt Time x = Null \<longleftrightarrow> x = None" "x = None \<or> fits CDateTime (opt Time x)" for x
    by (simp_all add: opt_def split: option.split)
  ultimately show ?thesis
    by (auto simp: table_simps licenses_model_def license_checks_def)
qed

lemma bindings_ok:
  "table_ok (contents_of d) (table_of models license_bindings_model) \<longleftrightarrow> list_all binding_within (license_bindings d) \<and>
     distinct (map lb_device_id (license_bindings d)) \<and>
     (\<forall>x \<in> set (license_bindings d). lb_device_id x \<in> dv_id ` set (devices d) \<and>
        lb_license_id x \<in> li_id ` set (licenses d))"
  by (auto simp: table_simps license_bindings_model_def)

lemma tokens_ok:
  "table_ok (contents_of d) (table_of models activation_tokens_model) \<longleftrightarrow> list_all token_within (activation_tokens d) \<and>
     distinct (map at_id (activation_tokens d)) \<and> distinct (map at_token_hash (activation_tokens d)) \<and>
     (\<forall>x \<in> set (activation_tokens d). at_device_id x \<in> dv_id ` set (devices d) \<and>
        at_installation_id x \<in> in_id ` set (installations d) \<and>
        at_key_id x \<in> ke_id ` set (device_keys d) \<and> at_license_id x \<in> li_id ` set (licenses d))"
  by (auto simp: table_simps activation_tokens_model_def)

lemma challenges_ok:
  "table_ok (contents_of d) (table_of models challenges_model) \<longleftrightarrow> list_all challenge_within (challenges d) \<and>
     distinct (map ch_id (challenges d)) \<and>
     (\<forall>x \<in> set (challenges d). ch_device_id x \<in> dv_id ` set (devices d) \<and>
        ch_installation_id x \<in> in_id ` set (installations d) \<and>
        ch_key_id x \<in> ke_id ` set (device_keys d))"
  by (auto simp: table_simps challenges_model_def)

lemma sessions_ok:
  "table_ok (contents_of d) (table_of models device_sessions_model) \<longleftrightarrow> list_all session_within (device_sessions d) \<and>
     distinct (map ds_token_hash (device_sessions d)) \<and>
     (\<forall>x \<in> set (device_sessions d). ds_device_id x \<in> dv_id ` set (devices d) \<and>
        ds_installation_id x \<in> in_id ` set (installations d) \<and>
        ds_key_id x \<in> ke_id ` set (device_keys d))"
  by (auto simp: table_simps device_sessions_model_def)

lemma events_ok:
  "table_ok (contents_of d) (table_of models registration_events_model) \<longleftrightarrow> list_all event_within (registration_events d) \<and>
     distinct (map re_id (registration_events d)) \<and>
     (\<forall>x \<in> set (registration_events d).
        case re_device_id x of None \<Rightarrow> True | Some v \<Rightarrow> v \<in> dv_id ` set (devices d))"
  by (auto simp: table_simps registration_events_model_def)

lemma audits_ok:
  "table_ok (contents_of d) (table_of models audit_logs_model) \<longleftrightarrow> list_all audit_within (audit_logs d) \<and> distinct (map au_id (audit_logs d))"
  by (auto simp: table_simps audit_logs_model_def)

lemma administrators_ok:
  "table_ok (contents_of d) (table_of models administrators_model) \<longleftrightarrow> list_all administrator_within (administrators d) \<and>
     distinct (map ad_id (administrators d)) \<and> distinct (map ad_name (administrators d)) \<and>
     distinct (map ad_token_hash (administrators d))"
  by (auto simp: table_simps administrators_model_def)

lemma satisfies_declared: "satisfies (contents_of d) declared \<longleftrightarrow> integrity d \<and> values_fit d"
proof -
  have "satisfies (contents_of d) declared \<longleftrightarrow>
      (\<forall>m \<in> set models. table_ok (contents_of d) (table_of models m))"
    by (simp add: satisfies_def declared_def)
  also have "\<dots> \<longleftrightarrow> integrity d \<and> values_fit d"
    by (simp add: models_def [THEN arg_cong, of set] customers_ok devices_ok installations_ok keys_ok
      licenses_ok bindings_ok tokens_ok challenges_ok sessions_ok events_ok audits_ok administrators_ok)
      (auto simp: integrity_def values_fit_def unique_columns_def foreign_keys_def)
  finally show ?thesis .
qed

section \<open>Properties\<close>

text \<open>
  Run on an empty database, the migrations are accepted operation by operation and end in the
  schema the mapped classes declare (the same tables, columns with their types and nullability,
  keys, checks and indexes); each downgrade undoes its upgrade, down to the empty database.
\<close>

theorem migrations_build_declared_schema:
  "\<exists>s1 s2. apply_ops upgrade_0001 [] = Some s1 \<and> apply_ops upgrade_0002 s1 = Some s2 \<and>
     same_schema s2 declared \<and>
     apply_ops downgrade_0002 s2 = Some s1 \<and> apply_ops downgrade_0001 s1 = Some []"
  by (rule migrations_run)

text \<open>
  C25: The rows of a database satisfy the schema that the migrations build (types with the lengths of the
  texts and the 32 bits of the number, nullability, primary and foreign keys, unique columns, checks and
  partial unique indexes) exactly when the \<open>integrity\<close> conditions hold that a commit of the modelled server
  enforces and no text is longer than its column's declared length. The conditions are those of the schema:
  the server's refusal of a NUL character in a text and the range of its timestamps are outside them.
\<close>

theorem migrated_schema_is_integrity:
  "\<exists>s. apply_ops (upgrade_0001 @ upgrade_0002) [] = Some s \<and>
     (\<forall>d. satisfies (contents_of d) s \<longleftrightarrow> integrity d \<and> values_fit d)"
  using migrations_run satisfies_declared satisfies_same
  by (auto simp: apply_ops_append)

end
