(* ===== verification/Text.thy ===== *)
theory Text
  imports Prelude
begin

text \<open>
  The string operations of Python that the programs use, on strings whose characters are all below
  code 256 (Latin-1; the programs exchange ASCII): case, stripping, splitting, prefixes, removal of a
  substring, decimal numbers, and the text form of a UUID.
\<close>

section \<open>Characters\<close>

definition code :: "char \<Rightarrow> nat" where
  "code c = of_char c"

definition is_dec :: "char \<Rightarrow> bool" where
  "is_dec c \<longleftrightarrow> 48 \<le> code c \<and> code c \<le> 57"

definition is_lower_hex :: "char \<Rightarrow> bool" where
  "is_lower_hex c \<longleftrightarrow> is_dec c \<or> (97 \<le> code c \<and> code c \<le> 102)"

definition is_upper_hex :: "char \<Rightarrow> bool" where
  "is_upper_hex c \<longleftrightarrow> is_dec c \<or> (65 \<le> code c \<and> code c \<le> 70)"

definition is_hex :: "char \<Rightarrow> bool" where
  "is_hex c \<longleftrightarrow> is_lower_hex c \<or> is_upper_hex c"

definition is_lower :: "char \<Rightarrow> bool" where
  "is_lower c \<longleftrightarrow> 97 \<le> code c \<and> code c \<le> 122"

definition is_upper :: "char \<Rightarrow> bool" where
  "is_upper c \<longleftrightarrow> 65 \<le> code c \<and> code c \<le> 90"

definition is_alnum :: "char \<Rightarrow> bool" where
  "is_alnum c \<longleftrightarrow> is_dec c \<or> is_lower c \<or> is_upper c"

text \<open>The blanks of \<open>str.strip\<close> and of \<open>\s\<close>, and the letters \<open>str.lower\<close> changes.\<close>

definition is_blank :: "char \<Rightarrow> bool" where
  "is_blank c \<longleftrightarrow> (9 \<le> code c \<and> code c \<le> 13) \<or> (28 \<le> code c \<and> code c \<le> 32) \<or>
     code c = 133 \<or> code c = 160"

definition is_capital :: "char \<Rightarrow> bool" where
  "is_capital c \<longleftrightarrow> is_upper c \<or> (192 \<le> code c \<and> code c \<le> 222 \<and> code c \<noteq> 215)"

definition lower_char :: "char \<Rightarrow> char" where
  "lower_char c = (if is_capital c then char_of (code c + 32) else c)"

definition lower :: "string \<Rightarrow> string" where
  "lower s = map lower_char s"

section \<open>Strings\<close>

definition rstrip :: "(char \<Rightarrow> bool) \<Rightarrow> string \<Rightarrow> string" where
  "rstrip p s = rev (dropWhile p (rev s))"

definition strip :: "(char \<Rightarrow> bool) \<Rightarrow> string \<Rightarrow> string" where
  "strip p s = rstrip p (dropWhile p s)"

definition startswith :: "string \<Rightarrow> string \<Rightarrow> bool" where
  "startswith s pre \<longleftrightarrow> take (length pre) s = pre"

text \<open>\<open>s.split(c)\<close> for a separator of one character: never empty.\<close>

fun split_on :: "char \<Rightarrow> string \<Rightarrow> string list" where
  "split_on c [] = [[]]"
| "split_on c (x # xs) =
     (if x = c then [] # split_on c xs
      else (case split_on c xs of [] \<Rightarrow> [[x]] | w # ws \<Rightarrow> (x # w) # ws))"

text \<open>\<open>c.join(parts)\<close>.\<close>

fun join_with :: "char \<Rightarrow> string list \<Rightarrow> string" where
  "join_with c [] = []"
| "join_with c [w] = w"
| "join_with c (w # ws) = w @ c # join_with c ws"

text \<open>\<open>s.replace(sub, "")\<close> for a non-empty \<open>sub\<close>.\<close>

function remove_sub :: "string \<Rightarrow> string \<Rightarrow> string" where
  "remove_sub sub s =
     (case s of [] \<Rightarrow> []
      | c # cs \<Rightarrow> (if sub \<noteq> [] \<and> startswith s sub then remove_sub sub (drop (length sub) s)
                  else c # remove_sub sub cs))"
  by pat_completeness auto
termination
  by (relation "measure (\<lambda>(sub, s). length s)") auto

declare remove_sub.simps [simp del]

definition dec_digits :: "string \<Rightarrow> int" where
  "dec_digits s = foldl (\<lambda>n c. 10 * n + (int (code c) - 48)) 0 s"

definition all_dec :: "string \<Rightarrow> bool" where
  "all_dec s \<longleftrightarrow> s \<noteq> [] \<and> list_all is_dec s"

section \<open>Facts\<close>

lemma code_less [simp]: "code c < 256"
  unfolding code_def using nat_of_char_less_256 [of c] by simp

lemma split_on_nonempty [simp]: "split_on c s \<noteq> []"
  by (cases s) (auto split: list.split)

lemma join_split: "join_with c (split_on c s) = s"
proof (induction s)
  case (Cons x xs)
  then show ?case
    by (cases "split_on c xs"; cases "tl (split_on c xs)") auto
qed simp

lemma split_on_parts: "w \<in> set (split_on c s) \<Longrightarrow> c \<notin> set w"
proof (induction s arbitrary: w)
  case (Cons x xs)
  then show ?case
    by (cases "split_on c xs") (auto split: if_splits)
qed simp

lemma split_on_free: "c \<notin> set s \<Longrightarrow> split_on c s = [s]"
  by (induction s) auto

lemma split_on_append: "c \<notin> set w \<Longrightarrow> split_on c (w @ c # s) = w # split_on c s"
  by (induction w) (auto split: list.split)

lemma split_join:
  "ws \<noteq> [] \<Longrightarrow> (\<And>w. w \<in> set ws \<Longrightarrow> c \<notin> set w) \<Longrightarrow> split_on c (join_with c ws) = ws"
  by (induction c ws rule: join_with.induct) (auto simp: split_on_free split_on_append)

lemma startswith_append [simp]: "startswith (s @ t) s"
  by (simp add: startswith_def)

lemma startswith_iff: "startswith s pre \<longleftrightarrow> (\<exists>t. s = pre @ t)"
  by (metis append_eq_conv_conj startswith_def)

lemma set_rstrip: "set (rstrip p s) \<subseteq> set s"
  by (auto simp: rstrip_def dest: set_dropWhileD)

lemma set_strip: "set (strip p s) \<subseteq> set s"
  using set_rstrip [of p "dropWhile p s"] by (auto simp: strip_def dest: set_dropWhileD)

lemma strip_ends: "strip p s \<noteq> [] \<Longrightarrow> \<not> p (last (strip p s))"
  unfolding strip_def rstrip_def by (simp add: last_rev hd_dropWhile)

lemma strip_Cons: "\<not> p c \<Longrightarrow> strip p (c # s) = rstrip p (c # s)"
  by (simp add: strip_def)

lemma rstrip_id: "s = [] \<or> \<not> p (last s) \<Longrightarrow> rstrip p s = s"
  by (cases s rule: rev_cases) (auto simp: rstrip_def)

lemma strip_id: "s = [] \<or> \<not> p (hd s) \<and> \<not> p (last s) \<Longrightarrow> strip p s = s"
  by (cases s) (auto simp: strip_def rstrip_id)

lemma rstrip_hd: "rstrip p s \<noteq> [] \<Longrightarrow> hd (rstrip p s) = hd s"
proof -
  assume r: "rstrip p s \<noteq> []"
  have "s = rstrip p s @ rev (takeWhile p (rev s))"
    unfolding rstrip_def by (metis rev_append rev_rev_ident takeWhile_dropWhile_id)
  with r show ?thesis by (metis hd_append2)
qed

lemma strip_hd: "strip p s \<noteq> [] \<Longrightarrow> \<not> p (hd (strip p s))"
proof -
  assume r: "strip p s \<noteq> []"
  then have "dropWhile p s \<noteq> []" unfolding strip_def rstrip_def by force
  with r show ?thesis
    using hd_dropWhile [of p s] by (simp add: strip_def rstrip_hd)
qed

lemma strip_strip [simp]: "strip p (strip p s) = strip p s"
  by (rule strip_id) (use strip_hd strip_ends in blast)

lemma length_rstrip: "length (rstrip p s) \<le> length s"
  unfolding rstrip_def using length_dropWhile_le [of p "rev s"] by simp

lemma length_strip: "length (strip p s) \<le> length s"
  unfolding strip_def using length_rstrip [of p "dropWhile p s"] length_dropWhile_le [of p s] by simp

lemma code_lower: "code (lower_char c) = (if is_capital c then code c + 32 else code c)"
proof -
  have "code (char_of (code c + 32) :: char) = code c + 32" if "is_capital c"
    using that by (auto simp: is_capital_def is_upper_def code_def of_char_of)
  then show ?thesis by (simp add: lower_char_def)
qed

lemma lower_idem [simp]: "lower (lower s) = lower s"
proof -
  have "lower_char (lower_char c) = lower_char c" for c
  proof (cases "is_capital c")
    case True
    then have "\<not> is_capital (lower_char c)" by (auto simp: is_capital_def is_upper_def code_lower)
    then show ?thesis by (simp add: lower_char_def)
  next
    case False
    then show ?thesis by (simp add: lower_char_def)
  qed
  then show ?thesis by (simp add: lower_def)
qed

lemma length_lower [simp]: "length (lower s) = length s"
  by (simp add: lower_def)

section \<open>UUIDs\<close>

text \<open>
  \<open>str(uuid.UUID(s))\<close>: the prefixes, braces and hyphens are dropped and 32 hexadecimal digits must
  remain; the result is their lower-case form in groups of 8-4-4-4-12. (\<open>int(s, 16)\<close> also takes
  blanks, a sign, an underscore or \<open>0x\<close> among the 32 characters; those spellings are refused here.)
\<close>

definition uuid_digits :: "string \<Rightarrow> string" where
  "uuid_digits s =
     filter (\<lambda>c. c \<noteq> CHR ''-'')
       (strip (\<lambda>c. c \<in> {CHR ''{'', CHR ''}''}) (remove_sub ''uuid:'' (remove_sub ''urn:'' s)))"

definition uuid_text :: "string \<Rightarrow> string" where
  "uuid_text h = take 8 h @ ''-'' @ take 4 (drop 8 h) @ ''-'' @ take 4 (drop 12 h) @ ''-'' @
     take 4 (drop 16 h) @ ''-'' @ drop 20 h"

definition uuid_of :: "string \<Rightarrow> string option" where
  "uuid_of s =
     (let h = uuid_digits s
      in if length h = 32 \<and> list_all is_hex h then Some (uuid_text (lower h)) else None)"

lemma uuid_of_length: "uuid_of s = Some u \<Longrightarrow> length u = 36"
  by (auto simp: uuid_of_def uuid_text_def Let_def split: if_splits)

end
