(* ===== verification/Registry_Requests.thy ===== *)
theory Registry_Requests
  imports Registry_Admin Registry_Rows Text
begin

text \<open>
  The request bodies of the registration server (registration-server/app/schemas.py): the checks and
  normalizations of each pydantic class as a function from the fields of a JSON object to the input
  the routes take, \<open>None\<close> where the server answers 422. How pydantic reads a UUID, a time and an
  integer from JSON is a parameter.
\<close>

section \<open>Fields\<close>

record pydantic =
  parse_uuid :: "string \<Rightarrow> string option"
  parse_int :: "json \<Rightarrow> int option"
  parse_datetime :: "json \<Rightarrow> (bool \<times> int) option"

type_synonym fields = "(string \<times> json) list"

text \<open>\<open>extra="forbid"\<close>.\<close>

definition only :: "string list \<Rightarrow> fields \<Rightarrow> bool" where
  "only ks kvs \<longleftrightarrow> list_all (\<lambda>(k, v). k \<in> set ks) kvs"

definition within :: "nat \<Rightarrow> nat \<Rightarrow> string \<Rightarrow> bool" where
  "within a b s \<longleftrightarrow> a \<le> length s \<and> length s \<le> b"

definition guard :: "bool \<Rightarrow> 'a option \<Rightarrow> 'a option" where
  "guard b x = (if b then x else None)"

text \<open>A required text, and a text that may be missing or \<open>null\<close>.\<close>

definition text_field :: "fields \<Rightarrow> string \<Rightarrow> string option" where
  "text_field kvs k = (case map_of kvs k of Some (JStr s) \<Rightarrow> Some s | _ \<Rightarrow> None)"

definition bounded_text :: "nat \<Rightarrow> nat \<Rightarrow> fields \<Rightarrow> string \<Rightarrow> string option" where
  "bounded_text a b kvs k = Option.bind (text_field kvs k) (\<lambda>s. guard (within a b s) (Some s))"

fun optional_text :: "nat \<Rightarrow> json option \<Rightarrow> string option option" where
  "optional_text n None = Some None"
| "optional_text n (Some JNull) = Some None"
| "optional_text n (Some (JStr s)) = guard (length s \<le> n) (Some (Some s))"
| "optional_text n (Some _) = None"

definition uuid_field :: "pydantic \<Rightarrow> fields \<Rightarrow> string \<Rightarrow> string option" where
  "uuid_field p kvs k = Option.bind (text_field kvs k) (parse_uuid p)"

definition optional_uuid :: "pydantic \<Rightarrow> fields \<Rightarrow> string \<Rightarrow> string option option" where
  "optional_uuid p kvs k = (case map_of kvs k of None \<Rightarrow> Some None | Some JNull \<Rightarrow> Some None
     | Some (JStr s) \<Rightarrow> map_option Some (parse_uuid p s) | Some _ \<Rightarrow> None)"

definition bounded_int :: "pydantic \<Rightarrow> int \<Rightarrow> int \<Rightarrow> int \<Rightarrow> fields \<Rightarrow> string \<Rightarrow> int option" where
  "bounded_int p missing a b kvs k =
     Option.bind (case map_of kvs k of None \<Rightarrow> Some missing | Some v \<Rightarrow> parse_int p v)
       (\<lambda>n. guard (a \<le> n \<and> n \<le> b) (Some n))"

section \<open>Validators\<close>

definition hex_serial :: "string \<Rightarrow> bool" where
  "hex_serial s \<longleftrightarrow> length s = 16 \<and> list_all is_hex s"

definition serial_field :: "fields \<Rightarrow> string option" where
  "serial_field kvs = Option.bind (text_field kvs ''serial'')
     (\<lambda>s. guard (hex_serial s) (Some (upper s)))"

definition valid_key :: "string \<Rightarrow> string option" where
  "valid_key k = guard (public_key k \<noteq> None) (Some k)"

fun strip_text :: "string option \<Rightarrow> string option option" where
  "strip_text None = Some None"
| "strip_text (Some s) = guard (strip is_blank s \<noteq> []) (Some (Some (strip is_blank s)))"

text \<open>\<open>[^@\s]+@[^@\s]+\.[^@\s]+\<close>: one at sign, no blanks, a dot inside the domain.\<close>

definition email_shape :: "string \<Rightarrow> bool" where
  "email_shape s \<longleftrightarrow> (case split_on (CHR ''@'') s of
     [local, domain] \<Rightarrow> local \<noteq> [] \<and> list_all (\<lambda>c. \<not> is_blank c) s \<and>
       CHR ''.'' \<in> set (butlast (tl domain))
   | _ \<Rightarrow> False)"

fun email_format :: "string option \<Rightarrow> string option option" where
  "email_format None = Some None"
| "email_format (Some s) =
     (if s = [] then Some None
      else let v = strip is_blank s
           in guard (email_shape v) (case split_on (CHR ''@'') v of
                [local, domain] \<Rightarrow> Some (Some (local @ CHR ''@'' # lower domain)) | _ \<Rightarrow> None))"

definition aware :: "bool \<times> int \<Rightarrow> int option" where
  "aware t = guard (fst t) (Some (snd t))"

section \<open>Device requests\<close>

definition identity_of :: "pydantic \<Rightarrow> fields \<Rightarrow> identity_input option" where
  "identity_of p kvs =
     Option.bind (serial_field kvs) (\<lambda>serial.
     Option.bind (uuid_field p kvs ''installation_id'') (\<lambda>inst.
     Option.bind (Option.bind (bounded_text 44 44 kvs ''public_key'') valid_key) (\<lambda>key.
     Some \<lparr>iv_serial = serial, iv_installation_id = inst, iv_public_key = key\<rparr>)))"

definition enroll_of :: "pydantic \<Rightarrow> fields \<Rightarrow> enroll_input option" where
  "enroll_of p kvs =
     guard (only [''serial'', ''installation_id'', ''public_key'', ''firmware'', ''model''] kvs)
       (Option.bind (identity_of p kvs) (\<lambda>i.
        Option.bind (bounded_text 1 120 kvs ''firmware'') (\<lambda>f.
        Option.bind (bounded_text 1 120 kvs ''model'') (\<lambda>m.
        Some (identity_input.extend i \<lparr>iv_firmware = f, iv_model = m\<rparr>)))))"

definition challenge_of :: "pydantic \<Rightarrow> fields \<Rightarrow> challenge_input option" where
  "challenge_of p kvs =
     guard (only [''serial'', ''installation_id'', ''public_key'', ''purpose''] kvs)
       (Option.bind (identity_of p kvs) (\<lambda>i.
        Option.bind (case map_of kvs ''purpose'' of None \<Rightarrow> Some ''authenticate''
                     | Some (JStr s) \<Rightarrow> guard (s \<in> {''authenticate'', ''activate''}) (Some s)
                     | Some _ \<Rightarrow> None) (\<lambda>s.
        Some (identity_input.extend i \<lparr>iv_purpose = s\<rparr>))))"

definition signature_field :: "fields \<Rightarrow> string option" where
  "signature_field kvs = Option.bind (bounded_text 88 88 kvs ''signature'') (\<lambda>s.
     case b64decode s of None \<Rightarrow> None | Some raw \<Rightarrow> guard (length raw = 64) (Some s))"

definition proof_fields_of :: "pydantic \<Rightarrow> fields \<Rightarrow> proof_input option" where
  "proof_fields_of p kvs =
     Option.bind (uuid_field p kvs ''challenge_id'') (\<lambda>c.
     Option.bind (signature_field kvs) (\<lambda>s.
     Some \<lparr>pv_challenge_id = c, pv_signature = s\<rparr>))"

definition proof_of :: "pydantic \<Rightarrow> fields \<Rightarrow> proof_input option" where
  "proof_of p kvs = guard (only [''challenge_id'', ''signature''] kvs) (proof_fields_of p kvs)"

definition activate_of :: "pydantic \<Rightarrow> fields \<Rightarrow> activate_input option" where
  "activate_of p kvs = guard (only [''challenge_id'', ''signature'', ''activation_token''] kvs)
     (Option.bind (proof_fields_of p kvs) (\<lambda>i.
      Option.bind (bounded_text 32 200 kvs ''activation_token'') (\<lambda>t.
      Some (proof_input.extend i \<lparr>pv_activation_token = t\<rparr>))))"

section \<open>Administrator requests\<close>

definition customer_fields_of :: "fields \<Rightarrow> customer_input option" where
  "customer_fields_of kvs =
     Option.bind (Option.bind (bounded_text 1 200 kvs ''name'') (\<lambda>s. strip_text (Some s))) (\<lambda>name.
     Option.bind (Option.bind (optional_text 200 (map_of kvs ''contact_name'')) strip_text) (\<lambda>contact.
     Option.bind (Option.bind (optional_text 254 (map_of kvs ''email'')) email_format) (\<lambda>email.
     Option.bind (Option.bind (optional_text 40 (map_of kvs ''phone'')) strip_text) (\<lambda>phone.
     Option.bind name (\<lambda>n.
     Some \<lparr>cv_name = n, cv_contact_name = contact, cv_email = email, cv_phone = phone\<rparr>)))))"

definition customer_of :: "fields \<Rightarrow> customer_input option" where
  "customer_of kvs = guard (only [''name'', ''contact_name'', ''email'', ''phone''] kvs)
     (customer_fields_of kvs)"

definition reason_field :: "fields \<Rightarrow> string option" where
  "reason_field kvs = bounded_text 5 500 kvs ''reason''"

definition customer_update_of :: "fields \<Rightarrow> (customer_input \<times> string) option" where
  "customer_update_of kvs =
     guard (only [''name'', ''contact_name'', ''email'', ''phone'', ''reason''] kvs)
       (Option.bind (customer_fields_of kvs) (\<lambda>c.
        Option.bind (reason_field kvs) (\<lambda>r. Some (c, r))))"

definition device_create_of :: "pydantic \<Rightarrow> fields \<Rightarrow> device_input option" where
  "device_create_of p kvs =
     guard (only [''serial'', ''model'', ''display_name'', ''notes'', ''customer_id''] kvs)
       (Option.bind (serial_field kvs) (\<lambda>serial.
        guard (serial \<noteq> replicate 16 (CHR ''0'') \<and> serial \<noteq> replicate 16 (CHR ''F''))
       (Option.bind (bounded_text 1 120 kvs ''model'') (\<lambda>model.
        guard (strip is_blank model \<noteq> [])
       (Option.bind (optional_text 120 (map_of kvs ''display_name'')) (\<lambda>name.
        Option.bind (optional_text 1000 (map_of kvs ''notes'')) (\<lambda>notes.
        Option.bind (optional_uuid p kvs ''customer_id'') (\<lambda>c.
        Some \<lparr>dvv_serial = serial, dvv_model = strip is_blank model, dvv_display_name = name,
              dvv_notes = notes, dvv_customer_id = c\<rparr>))))))))"

definition device_update_of :: "pydantic \<Rightarrow> fields \<Rightarrow> device_update_input option" where
  "device_update_of p kvs =
     guard (only [''display_name'', ''notes'', ''customer_id'', ''reason''] kvs)
       (Option.bind (optional_text 120 (map_of kvs ''display_name'')) (\<lambda>name.
        Option.bind (optional_text 1000 (map_of kvs ''notes'')) (\<lambda>notes.
        Option.bind (optional_uuid p kvs ''customer_id'') (\<lambda>c.
        Option.bind (reason_field kvs) (\<lambda>r.
        Some \<lparr>du_display_name = name, du_notes = notes, du_customer_id = c, du_reason = r\<rparr>)))))"

definition kind_field :: "fields \<Rightarrow> kind option" where
  "kind_field kvs = Option.bind (text_field kvs ''kind'') (\<lambda>s.
     find (\<lambda>k. kind_name k = s) [PERPETUAL, SUBSCRIPTION, RENTAL, DEMO])"

definition license_of :: "pydantic \<Rightarrow> fields \<Rightarrow> license_input option" where
  "license_of p kvs =
     guard (only [''customer_id'', ''kind'', ''expires_at'', ''max_devices''] kvs)
       (Option.bind (uuid_field p kvs ''customer_id'') (\<lambda>c.
        Option.bind (kind_field kvs) (\<lambda>k.
        Option.bind (case map_of kvs ''expires_at'' of None \<Rightarrow> Some None | Some JNull \<Rightarrow> Some None
                     | Some v \<Rightarrow> Option.bind (parse_datetime p v) (\<lambda>t. map_option Some (aware t))) (\<lambda>x.
        Option.bind (bounded_int p 1 1 100000 kvs ''max_devices'') (\<lambda>n.
        Some \<lparr>lv_customer_id = c, lv_kind = k, lv_expires_at = x, lv_max_devices = n\<rparr>)))))"

definition approval_of :: "pydantic \<Rightarrow> fields \<Rightarrow> approval_input option" where
  "approval_of p kvs =
     guard (only [''installation_id'', ''public_key'', ''license_id'', ''reason'', ''token_ttl_seconds''] kvs)
       (Option.bind (uuid_field p kvs ''installation_id'') (\<lambda>i.
        Option.bind (Option.bind (text_field kvs ''public_key'') valid_key) (\<lambda>k.
        Option.bind (uuid_field p kvs ''license_id'') (\<lambda>l.
        Option.bind (reason_field kvs) (\<lambda>r.
        Option.bind (bounded_int p 3600 60 86400 kvs ''token_ttl_seconds'') (\<lambda>t.
        Some \<lparr>ap_installation_id = i, ap_public_key = k, ap_license_id = l, ap_reason = r,
              ap_token_ttl_seconds = t\<rparr>))))))"

definition reason_of :: "fields \<Rightarrow> string option" where
  "reason_of kvs = guard (only [''reason''] kvs) (reason_field kvs)"

definition renewal_of :: "pydantic \<Rightarrow> fields \<Rightarrow> (string \<times> int) option" where
  "renewal_of p kvs = guard (only [''reason'', ''expires_at''] kvs)
     (Option.bind (reason_field kvs) (\<lambda>r.
      Option.bind (map_of kvs ''expires_at'') (\<lambda>v.
      Option.bind (parse_datetime p v) (\<lambda>t.
      Option.bind (aware t) (\<lambda>x. Some (r, x))))))"

section \<open>Normal forms\<close>

lemma guard_Some [simp]: "guard b x = Some y \<longleftrightarrow> b \<and> x = Some y"
  by (simp add: guard_def)

lemma guard_True [simp]: "guard True x = x"
  by (simp add: guard_def)

lemma within_strip: "within a b s \<Longrightarrow> strip p s \<noteq> [] \<Longrightarrow> a \<le> 1 \<Longrightarrow> within a b (strip p s)"
  using length_strip [of p s] by (cases "strip p s") (auto simp: within_def)

lemma lower_at: "lower_char c = CHR ''@'' \<longleftrightarrow> c = CHR ''@''"
proof -
  have eq: "c = d \<longleftrightarrow> code c = code d" for c d :: char
    by (simp add: code_def)
  have "code (CHR ''@'') = 64" by (simp add: code_def)
  then show ?thesis unfolding eq code_lower by (auto simp: is_capital_def is_upper_def)
qed

lemma lower_dot: "lower_char c = CHR ''.'' \<longleftrightarrow> c = CHR ''.''"
proof -
  have eq: "c = d \<longleftrightarrow> code c = code d" for c d :: char
    by (simp add: code_def)
  have "code (CHR ''.'') = 46" by (simp add: code_def)
  then show ?thesis unfolding eq code_lower by (auto simp: is_capital_def is_upper_def)
qed

lemma lower_blank: "is_blank (lower_char c) \<longleftrightarrow> is_blank c"
  unfolding is_blank_def code_lower by (auto simp: is_capital_def is_upper_def)

lemma at_lower: "CHR ''@'' \<in> set (lower s) \<longleftrightarrow> CHR ''@'' \<in> set s"
  using lower_at by (auto simp: lower_def image_iff eq_commute [of "CHR ''@''"])

lemma dot_lower: "CHR ''.'' \<in> set (butlast (tl (lower s))) \<longleftrightarrow> CHR ''.'' \<in> set (butlast (tl s))"
  using lower_dot by (auto simp: lower_def map_tl [symmetric] map_butlast [symmetric] image_iff
      eq_commute [of "CHR ''.''"])

lemma split_at_parts: "split_on c s = [l, d] \<Longrightarrow> s = l @ c # d \<and> c \<notin> set l \<and> c \<notin> set d"
  using join_split [of c s] split_on_parts [of _ c s] by auto

lemma split_two: "c \<notin> set l \<Longrightarrow> c \<notin> set d \<Longrightarrow> split_on c (l @ c # d) = [l, d]"
  by (simp add: split_on_append split_on_free)

text \<open>A normalized address is accepted again and stays as it is.\<close>

lemma email_format_fixed:
  assumes "email_format x = Some (Some w)"
  shows "email_format (Some w) = Some (Some w)" and "w \<noteq> []"
    and "x = Some s \<Longrightarrow> length w \<le> length s"
proof -
  from assms obtain s where x: "x = Some s" by (cases x) auto
  from assms x have v: "email_shape (strip is_blank s)"
    by (auto simp: Let_def split: if_splits)
  then obtain l d where split: "split_on (CHR ''@'') (strip is_blank s) = [l, d]" and ne: "l \<noteq> []"
    and nb: "list_all (\<lambda>c. \<not> is_blank c) (strip is_blank s)" and dot: "CHR ''.'' \<in> set (butlast (tl d))"
    by (auto simp: email_shape_def split: list.splits)
  note parts = split_at_parts [OF split]
  from assms x v split have w: "w = l @ CHR ''@'' # lower d"
    by (auto simp: Let_def split: if_splits)
  have nbw: "list_all (\<lambda>c. \<not> is_blank c) w"
    using nb parts by (auto simp: w list_all_iff lower_def lower_blank)
  have "strip is_blank w = w"
    using nbw by (intro strip_id) (auto simp: list_all_iff w ne)
  moreover have "split_on (CHR ''@'') w = [l, lower d]"
    using parts by (simp add: w split_two at_lower)
  ultimately show "email_format (Some w) = Some (Some w)"
    using nbw ne dot by (simp add: w email_shape_def dot_lower)
  show "w \<noteq> []" by (simp add: w)
  have "length w = length (strip is_blank s)" using parts by (simp add: w)
  then show "x = Some s \<Longrightarrow> length w \<le> length s" for s
    using x length_strip [of is_blank s] by auto
qed

lemma email_format_None: "email_format x = Some None \<Longrightarrow> x = None \<or> x = Some []"
  by (cases x) (auto simp: Let_def split: if_splits list.splits)

lemma strip_text_fixed:
  assumes "strip_text x = Some y"
  shows "strip_text y = Some y" and "y = Some t \<Longrightarrow> t \<noteq> []"
    and "x = Some s \<Longrightarrow> y = Some t \<Longrightarrow> length t \<le> length s"
  using assms by (cases x; auto simp: length_strip)+

section \<open>Properties\<close>

definition customer_fields :: "customer_input \<Rightarrow> fields" where
  "customer_fields v = [(''name'', JStr (cv_name v)), (''contact_name'', jstr_opt (cv_contact_name v)),
     (''email'', jstr_opt (cv_email v)), (''phone'', jstr_opt (cv_phone v))]"

lemma optional_jstr: "optional_text n (Some (jstr_opt x)) = (case x of None \<Rightarrow> Some None
    | Some s \<Rightarrow> guard (length s \<le> n) (Some (Some s)))"
  by (cases x) simp_all

lemma optional_within: "optional_text n j = Some (Some s) \<Longrightarrow> length s \<le> n"
  by (cases "(n, j)" rule: optional_text.cases) auto

lemma stripped_again:
  assumes "Option.bind (optional_text n j) strip_text = Some y"
  shows "Option.bind (optional_text n (Some (jstr_opt y))) strip_text = Some y"
    and "\<And>t. y = Some t \<Longrightarrow> length t \<le> n"
proof -
  from assms obtain x where x: "optional_text n j = Some x" "strip_text x = Some y"
    by (auto simp: bind_eq_Some_conv)
  have len: "length t \<le> n" if "y = Some t" for t
  proof -
    from x(2) that obtain s where s: "x = Some s" by (cases x) auto
    with x(1) have "length s \<le> n" by (auto intro: optional_within)
    with strip_text_fixed(3) [OF x(2) s that] show ?thesis by simp
  qed
  then show "Option.bind (optional_text n (Some (jstr_opt y))) strip_text = Some y"
    using strip_text_fixed(1) [OF x(2)] by (cases y) (simp_all add: optional_jstr del: strip_text.simps(2))
  show "\<And>t. y = Some t \<Longrightarrow> length t \<le> n" by (rule len)
qed

lemma email_again:
  assumes "Option.bind (optional_text n j) email_format = Some y"
  shows "Option.bind (optional_text n (Some (jstr_opt y))) email_format = Some y"
    and "\<And>t. y = Some t \<Longrightarrow> length t \<le> n"
proof -
  from assms obtain x where x: "optional_text n j = Some x" "email_format x = Some y"
    by (auto simp: bind_eq_Some_conv)
  have fixed: "length t \<le> n \<and> email_format (Some t) = Some (Some t)" if "y = Some t" for t
  proof -
    have e: "email_format x = Some (Some t)" using x(2) that by simp
    then obtain s where s: "x = Some s" by (cases x) auto
    with x(1) have "length s \<le> n" by (auto intro: optional_within)
    with email_format_fixed(3) [OF e s] email_format_fixed(1) [OF e] show ?thesis by simp
  qed
  then show "Option.bind (optional_text n (Some (jstr_opt y))) email_format = Some y"
    by (cases y) (simp_all add: optional_jstr del: email_format.simps(2))
  show "\<And>t. y = Some t \<Longrightarrow> length t \<le> n" using fixed by blast
qed

text \<open>
  Normalizing customer data is idempotent: what the server accepted and stored (name, contact
  and phone without surrounding blanks, the e-mail address with its domain in lower case) is accepted
  again as it is and changes nothing, so that reading a customer and writing it back is no change.
\<close>

theorem customer_data_round_trip:
  assumes "customer_of kvs = Some v"
  shows "customer_of (customer_fields v) = Some v"
proof -
  from assms obtain name contact email phone n where parts:
    "Option.bind (bounded_text 1 200 kvs ''name'') (\<lambda>s. strip_text (Some s)) = Some name"
    "Option.bind (optional_text 200 (map_of kvs ''contact_name'')) strip_text = Some contact"
    "Option.bind (optional_text 254 (map_of kvs ''email'')) email_format = Some email"
    "Option.bind (optional_text 40 (map_of kvs ''phone'')) strip_text = Some phone"
    "name = Some n" "v = \<lparr>cv_name = n, cv_contact_name = contact, cv_email = email, cv_phone = phone\<rparr>"
    unfolding customer_of_def customer_fields_of_def by (auto simp: bind_eq_Some_conv)
  from parts(1,5) obtain s where "within 1 200 s" "n = strip is_blank s" "n \<noteq> []"
    by (auto simp: bounded_text_def bind_eq_Some_conv)
  then have "within 1 200 n" using within_strip [of 1 200 s is_blank] by simp
  moreover have "strip is_blank n = n" using \<open>n = strip is_blank s\<close> by simp
  ultimately have "Option.bind (bounded_text 1 200 (customer_fields v) ''name'') (\<lambda>s. strip_text (Some s))
      = Some (Some n)"
    using \<open>n \<noteq> []\<close> by (simp add: bounded_text_def text_field_def customer_fields_def parts(6))
  moreover have "map_of (customer_fields v) ''contact_name'' = Some (jstr_opt contact)"
    "map_of (customer_fields v) ''email'' = Some (jstr_opt email)"
    "map_of (customer_fields v) ''phone'' = Some (jstr_opt phone)"
    "only [''name'', ''contact_name'', ''email'', ''phone''] (customer_fields v)"
    by (simp_all add: customer_fields_def parts(6) only_def)
  ultimately show ?thesis
    using stripped_again(1) [OF parts(2)] email_again(1) [OF parts(3)] stripped_again(1) [OF parts(4)]
    by (simp add: customer_of_def customer_fields_of_def parts(6))
qed

lemma customer_data_round_trip_witness:
  "customer_of [(''name'', JStr ''A''), (''contact_name'', JNull), (''email'', JStr ''b@c.d''), (''phone'', JNull)]
     = Some \<lparr>cv_name = ''A'', cv_contact_name = None, cv_email = Some ''b@c.d'', cv_phone = None\<rparr>"
proof -
  have "customer_of [(''name'', JStr '' A ''), (''email'', JStr ''b@C.d'')]
     = Some \<lparr>cv_name = ''A'', cv_contact_name = None, cv_email = Some ''b@c.d'', cv_phone = None\<rparr>"
    by code_simp
  from customer_data_round_trip [OF this] show ?thesis by (simp add: customer_fields_def)
qed

text \<open>How long a text a column of the schema takes.\<close>

definition column_limit :: "string \<Rightarrow> string \<Rightarrow> nat option" where
  "column_limit t c = (case find_table t declared of None \<Rightarrow> None
     | Some d \<Rightarrow> (case find (\<lambda>k. co_name k = c) (ta_columns d) of None \<Rightarrow> None
         | Some k \<Rightarrow> (case co_type k of CString n \<Rightarrow> Some n | _ \<Rightarrow> None)))"

definition fits_column :: "string \<Rightarrow> string \<Rightarrow> string option \<Rightarrow> bool" where
  "fits_column t c x = (case x of None \<Rightarrow> True
     | Some s \<Rightarrow> (case column_limit t c of None \<Rightarrow> True | Some n \<Rightarrow> length s \<le> n))"

lemma column_limits:
  "column_limit ''devices'' ''serial'' = Some 16" "column_limit ''devices'' ''model'' = Some 120"
  "column_limit ''devices'' ''firmware'' = Some 120" "column_limit ''devices'' ''display_name'' = Some 120"
  "column_limit ''devices'' ''notes'' = None" "column_limit ''device_keys'' ''public_key'' = Some 44"
  "column_limit ''customers'' ''name'' = Some 200" "column_limit ''customers'' ''contact_name'' = Some 200"
  "column_limit ''customers'' ''email'' = Some 254" "column_limit ''customers'' ''phone'' = Some 40"
  by code_simp+

lemma serial_field_ok: "serial_field kvs = Some s \<Longrightarrow> length s = 16"
  by (auto simp: serial_field_def bind_eq_Some_conv hex_serial_def upper_def)

lemma bounded_text_ok: "bounded_text a b kvs k = Some s \<Longrightarrow> a \<le> length s \<and> length s \<le> b"
  by (auto simp: bounded_text_def bind_eq_Some_conv within_def)

lemma fits_text:
  "fits_column t c (Some s) \<longleftrightarrow> (case column_limit t c of None \<Rightarrow> True | Some n \<Rightarrow> length s \<le> n)"
  "fits_column t c None"
  by (simp_all add: fits_column_def)

lemma fits_optional:
  "optional_text n j = Some x \<Longrightarrow> column_limit t c = Some n \<or> column_limit t c = None \<Longrightarrow> fits_column t c x"
  by (cases x) (auto simp: fits_text dest: optional_within)

lemma enroll_fits:
  assumes "enroll_of p kvs = Some i"
  shows "fits_column ''devices'' ''serial'' (Some (iv_serial i)) \<and>
    fits_column ''devices'' ''model'' (Some (iv_model i)) \<and>
    fits_column ''devices'' ''firmware'' (Some (iv_firmware i)) \<and>
    fits_column ''device_keys'' ''public_key'' (Some (iv_public_key i))"
  using assms
  by (auto simp: enroll_of_def identity_of_def bind_eq_Some_conv valid_key_def fits_text column_limits
      identity_input.defs dest!: serial_field_ok bounded_text_ok)

lemma customer_fits:
  assumes "customer_of kvs = Some c"
  shows "fits_column ''customers'' ''name'' (Some (cv_name c)) \<and>
    fits_column ''customers'' ''contact_name'' (cv_contact_name c) \<and>
    fits_column ''customers'' ''email'' (cv_email c) \<and>
    fits_column ''customers'' ''phone'' (cv_phone c)"
proof -
  from assms obtain name where parts:
    "Option.bind (bounded_text 1 200 kvs ''name'') (\<lambda>s. strip_text (Some s)) = Some name"
    "Option.bind (optional_text 200 (map_of kvs ''contact_name'')) strip_text = Some (cv_contact_name c)"
    "Option.bind (optional_text 254 (map_of kvs ''email'')) email_format = Some (cv_email c)"
    "Option.bind (optional_text 40 (map_of kvs ''phone'')) strip_text = Some (cv_phone c)"
    "name = Some (cv_name c)"
    unfolding customer_of_def customer_fields_of_def by (auto simp: bind_eq_Some_conv)
  from parts(1,5) obtain s where "length s \<le> 200" "cv_name c = strip is_blank s"
    by (auto simp: bounded_text_def bind_eq_Some_conv within_def)
  then have "length (cv_name c) \<le> 200" using length_strip [of is_blank s] by simp
  then show ?thesis
    using stripped_again(2) [OF parts(2)] email_again(2) [OF parts(3)] stripped_again(2) [OF parts(4)]
    by (cases "cv_contact_name c"; cases "cv_email c"; cases "cv_phone c")
      (simp_all add: fits_text column_limits)
qed

lemma device_fits:
  assumes "device_create_of p kvs = Some d"
  shows "fits_column ''devices'' ''serial'' (Some (dvv_serial d)) \<and>
    fits_column ''devices'' ''model'' (Some (dvv_model d)) \<and>
    fits_column ''devices'' ''display_name'' (dvv_display_name d) \<and>
    fits_column ''devices'' ''notes'' (dvv_notes d)"
proof -
  from assms obtain m where "serial_field kvs = Some (dvv_serial d)"
    "bounded_text 1 120 kvs ''model'' = Some m" "dvv_model d = strip is_blank m"
    "optional_text 120 (map_of kvs ''display_name'') = Some (dvv_display_name d)"
    "optional_text 1000 (map_of kvs ''notes'') = Some (dvv_notes d)"
    by (auto simp: device_create_of_def bind_eq_Some_conv)
  then show ?thesis
    using length_strip [of is_blank m]
    by (auto simp: fits_text column_limits intro: fits_optional dest!: serial_field_ok bounded_text_ok)
qed

text \<open>
  C40: A request body the server accepts never overflows a column of the schema: the serial, key,
  model and firmware of an enrollment, the data of a customer and of a device are at most as long as
  the columns they are stored in. Texts are of the characters up to U+00FF here. For the e-mail address
  this is a condition: its domain is lowered after its length was checked, and outside these characters
  \<open>str.lower\<close> can lengthen a text (U+0130 becomes two characters), so that an accepted address of 254
  characters can be stored as a longer one.
\<close>

theorem accepted_texts_fit_columns:
  "(\<forall>i. enroll_of p kvs = Some i \<longrightarrow>
      fits_column ''devices'' ''serial'' (Some (iv_serial i)) \<and>
      fits_column ''devices'' ''model'' (Some (iv_model i)) \<and>
      fits_column ''devices'' ''firmware'' (Some (iv_firmware i)) \<and>
      fits_column ''device_keys'' ''public_key'' (Some (iv_public_key i))) \<and>
   (\<forall>c. customer_of kvs = Some c \<longrightarrow>
      fits_column ''customers'' ''name'' (Some (cv_name c)) \<and>
      fits_column ''customers'' ''contact_name'' (cv_contact_name c) \<and>
      fits_column ''customers'' ''email'' (cv_email c) \<and>
      fits_column ''customers'' ''phone'' (cv_phone c)) \<and>
   (\<forall>d. device_create_of p kvs = Some d \<longrightarrow>
      fits_column ''devices'' ''serial'' (Some (dvv_serial d)) \<and>
      fits_column ''devices'' ''model'' (Some (dvv_model d)) \<and>
      fits_column ''devices'' ''display_name'' (dvv_display_name d) \<and>
      fits_column ''devices'' ''notes'' (dvv_notes d))"
  using enroll_fits customer_fits device_fits by blast

lemma accepted_texts_fit_columns_witness:
  "fits_column ''customers'' ''email'' (Some ''b@c.d'')"
proof -
  have "customer_of [(''name'', JStr '' A ''), (''email'', JStr ''b@C.d'')]
     = Some \<lparr>cv_name = ''A'', cv_contact_name = None, cv_email = Some ''b@c.d'', cv_phone = None\<rparr>"
    by code_simp
  then show ?thesis
    using accepted_texts_fit_columns [of undefined "[(''name'', JStr '' A ''), (''email'', JStr ''b@C.d'')]"]
    by simp
qed

end
