(* ===== verification/Registry_Guard.thy ===== *)
theory Registry_Guard
  imports Registry_Core Text
begin

text \<open>
  The middleware in front of every route of the registration server (\<open>guard\<close> in
  registration-server/app/main.py): HTTPS only, a sliding window of requests per address, and a bound
  on the size of a body. Readings of \<open>time.monotonic()\<close> are nanoseconds.
\<close>

section \<open>Requests and buckets\<close>

record http_request =
  hr_client :: "string option"
  hr_path :: string
  hr_scheme :: string
  hr_content_length :: "string option"
  hr_chunks :: "string list"

text \<open>
  What the middleware does with a request: answer it, hand it on as it is, hand it on with its body
  read, or end in an exception.
\<close>

datatype verdict =
    Refuse nat string
  | Forward
  | Forward_body string
  | Failed

text \<open>\<open>buckets\<close>: the addresses in the order of their first request, with their recent requests.\<close>

type_synonym buckets = "(string \<times> int list) list"

definition window :: int where
  "window = 60 * 1000000000"

definition client_ip :: "http_request \<Rightarrow> string" where
  "client_ip r = (case hr_client r of None \<Rightarrow> ''unknown'' | Some h \<Rightarrow> h)"

definition bucket :: "buckets \<Rightarrow> string \<Rightarrow> int list" where
  "bucket bs ip = (case map_of bs ip of None \<Rightarrow> [] | Some ts \<Rightarrow> ts)"

fun set_bucket :: "string \<Rightarrow> int list \<Rightarrow> buckets \<Rightarrow> buckets" where
  "set_bucket ip ts [] = [(ip, ts)]"
| "set_bucket ip ts ((j, us) # bs) = (if j = ip then (ip, ts) # bs else (j, us) # set_bucket ip ts bs)"

definition evict :: "int \<Rightarrow> buckets \<Rightarrow> buckets" where
  "evict cutoff bs = filter (\<lambda>(ip, ts). \<not> (ts = [] \<or> last ts < cutoff)) bs"

definition capacity :: nat where
  "capacity = 10000"

section \<open>The sliding window\<close>

text \<open>
  The buckets after a request of \<open>ip\<close> and whether the request goes on; \<open>t1\<close> is the reading for the
  eviction and \<open>t2\<close> the one for the window.
\<close>

datatype admission = Admitted | Over_capacity | Over_rate

definition admit :: "int \<Rightarrow> string \<Rightarrow> int \<Rightarrow> int \<Rightarrow> buckets \<Rightarrow> admission \<times> buckets" where
  "admit rate ip t1 t2 bs =
     (let bs = (if capacity < length bs then evict (t1 - window) bs else bs)
      in if capacity < length bs \<and> ip \<notin> fst ` set bs then (Over_capacity, bs)
         else let ts = dropWhile (\<lambda>t. t < t2 - window) (bucket bs ip)
              in if rate \<le> int (length ts) then (Over_rate, set_bucket ip ts bs)
                 else (Admitted, set_bucket ip (ts @ [t2]) bs))"

section \<open>The body\<close>

text \<open>
  \<open>str.isdigit\<close> also accepts the superscripts one, two and three, which \<open>int\<close> does not.
\<close>

definition isdigit :: "string \<Rightarrow> bool" where
  "isdigit s \<longleftrightarrow> s \<noteq> [] \<and> list_all (\<lambda>c. is_dec c \<or> code c \<in> {178, 179, 185}) s"

definition max_body :: nat where
  "max_body = 16384"

fun read_chunks :: "nat \<Rightarrow> string list \<Rightarrow> string option" where
  "read_chunks sofar [] = Some []"
| "read_chunks sofar (c # cs) =
     (if max_body < sofar + length c then None
      else map_option (\<lambda>rest. c @ rest) (read_chunks (sofar + length c) cs))"

definition too_large :: verdict where
  "too_large = Refuse 413 ''Request too large''"

definition read_body :: "http_request \<Rightarrow> verdict" where
  "read_body r =
     (let stream = (case read_chunks 0 (hr_chunks r) of None \<Rightarrow> too_large | Some b \<Rightarrow> Forward_body b)
      in case hr_content_length r of None \<Rightarrow> stream
       | Some n \<Rightarrow> if n = [] then stream
                   else if \<not> isdigit n then too_large
                   else if \<not> all_dec n then Failed
                   else if int max_body < dec_digits n then too_large else stream)"

section \<open>The middleware\<close>

definition guard_request ::
    "settings \<Rightarrow> http_request \<Rightarrow> int \<Rightarrow> int \<Rightarrow> buckets \<Rightarrow> verdict \<times> buckets" where
  "guard_request c r t1 t2 bs =
     (if hr_path r = ''/health'' then (Forward, bs)
      else if \<not> allow_lab_http c \<and> hr_scheme r \<noteq> ''https'' then (Refuse 400 ''HTTPS required'', bs)
      else case admit (rate_per_minute c) (client_ip r) t1 t2 bs of
        (Over_capacity, bs') \<Rightarrow> (Refuse 429 ''Rate limit capacity reached'', bs')
      | (Over_rate, bs') \<Rightarrow> (Refuse 429 ''Rate limit exceeded'', bs')
      | (Admitted, bs') \<Rightarrow> (read_body r, bs'))"

text \<open>A run of the middleware over the requests with their two readings of the clock.\<close>

fun guard_run ::
    "settings \<Rightarrow> (http_request \<times> int \<times> int) list \<Rightarrow> buckets \<Rightarrow> verdict list \<times> buckets" where
  "guard_run c [] bs = ([], bs)"
| "guard_run c ((r, t1, t2) # rs) bs =
     (case guard_request c r t1 t2 bs of (v, bs') \<Rightarrow>
      case guard_run c rs bs' of (vs, bs'') \<Rightarrow> (v # vs, bs''))"

section \<open>Reading the buckets\<close>

lemma bucket_set: "bucket (set_bucket ip ts bs) j = (if j = ip then ts else bucket bs j)"
  by (induction ip ts bs rule: set_bucket.induct) (auto simp: bucket_def)

lemma keys_set: "fst ` set (set_bucket ip ts bs) = insert ip (fst ` set bs)"
  by (induction ip ts bs rule: set_bucket.induct) auto

lemma length_set: "length (set_bucket ip ts bs) = (if ip \<in> fst ` set bs then length bs else Suc (length bs))"
  by (induction ip ts bs rule: set_bucket.induct) auto

lemma distinct_set: "distinct (map fst bs) \<Longrightarrow> distinct (map fst (set_bucket ip ts bs))"
proof (induction ip ts bs rule: set_bucket.induct)
  case (2 ip ts j us bs)
  then show ?case using keys_set [of ip ts bs] by auto
qed simp

lemma bucket_evict:
  assumes "distinct (map fst bs)"
  shows "bucket (evict cutoff bs) ip = bucket bs ip \<or>
    bucket (evict cutoff bs) ip = [] \<and> (bucket bs ip = [] \<or> last (bucket bs ip) < cutoff)"
  using assms
proof (induction bs)
  case (Cons b bs)
  obtain j us where b: "b = (j, us)" by fastforce
  have absent: "bucket (evict cutoff bs) j = []" if "j \<notin> fst ` set bs"
  proof -
    from that have "map_of (filter P bs) j = None" for P
      by (auto simp: map_of_eq_None_iff)
    then show ?thesis by (simp add: bucket_def evict_def)
  qed
  show ?case
  proof (cases "j = ip")
    case True
    with Cons.prems b have "ip \<notin> fst ` set bs" by auto
    with absent True b show ?thesis by (auto simp: bucket_def evict_def)
  next
    case False
    then have "bucket (b # bs) ip = bucket bs ip" "bucket (evict cutoff (b # bs)) ip = bucket (evict cutoff bs) ip"
      by (simp_all add: bucket_def evict_def b)
    with Cons show ?thesis by simp
  qed
qed (simp add: bucket_def evict_def)

lemma distinct_evict: "distinct (map fst bs) \<Longrightarrow> distinct (map fst (evict cutoff bs))"
  unfolding evict_def by (rule distinct_map_filter)

section \<open>The buckets hold the recent requests\<close>

text \<open>
  \<open>log\<close> is the history of admitted requests: a bucket is the end of its address' part of it, and
  what the bucket no longer holds lies before the window that ends at \<open>tick\<close>.
\<close>

definition times :: "(string \<times> int) list \<Rightarrow> string \<Rightarrow> int list" where
  "times log ip = map snd (filter (\<lambda>x. fst x = ip) log)"

definition tracks :: "buckets \<Rightarrow> (string \<times> int) list \<Rightarrow> int \<Rightarrow> bool" where
  "tracks bs log tick \<longleftrightarrow> distinct (map fst bs) \<and> (\<forall>x \<in> set log. snd x \<le> tick) \<and>
     (\<forall>ip. sorted (times log ip) \<and>
       (\<exists>old. times log ip = old @ bucket bs ip \<and> (\<forall>u \<in> set old. u < tick - window)))"

definition within_rate :: "int \<Rightarrow> (string \<times> int) list \<Rightarrow> bool" where
  "within_rate rate log \<longleftrightarrow> (\<forall>ip t.
     int (length (filter (\<lambda>u. t - window \<le> u \<and> u \<le> t) (times log ip))) \<le> rate)"

lemma tracks_later: "tracks bs log tick \<Longrightarrow> tick \<le> t \<Longrightarrow> tracks bs log t"
  unfolding tracks_def by (force intro: order_trans)

lemma tracks_drop:
  assumes t: "tracks bs log tick"
    and d: "distinct (map fst bs')"
    and b: "\<And>ip. \<exists>gone. bucket bs ip = gone @ bucket bs' ip \<and> (\<forall>u \<in> set gone. u < tick - window)"
  shows "tracks bs' log tick"
proof -
  have "\<exists>old. times log ip = old @ bucket bs' ip \<and> (\<forall>u \<in> set old. u < tick - window)" for ip
  proof -
    from t obtain old where "times log ip = old @ bucket bs ip" "\<forall>u \<in> set old. u < tick - window"
      unfolding tracks_def by blast
    with b [of ip] show ?thesis by (metis append_assoc Un_iff set_append)
  qed
  with t d show ?thesis unfolding tracks_def by blast
qed

lemma sorted_last: "sorted ts \<Longrightarrow> u \<in> set ts \<Longrightarrow> u \<le> last ts"
  by (induction ts) (auto split: if_splits)

lemma tracks_evict:
  assumes t: "tracks bs log tick"
  shows "tracks (evict (tick - window) bs) log tick"
proof (rule tracks_drop [OF t])
  from t have d: "distinct (map fst bs)" by (simp add: tracks_def)
  then show "distinct (map fst (evict (tick - window) bs))" by (rule distinct_evict)
  fix ip
  from t obtain old where "times log ip = old @ bucket bs ip" "sorted (times log ip)"
    unfolding tracks_def by blast
  then have "sorted (bucket bs ip)" by (simp add: sorted_append)
  then have "\<forall>u \<in> set (bucket bs ip). u < tick - window" if "last (bucket bs ip) < tick - window"
    using that sorted_last by fastforce
  then show "\<exists>gone. bucket bs ip = gone @ bucket (evict (tick - window) bs) ip \<and>
      (\<forall>u \<in> set gone. u < tick - window)"
    using bucket_evict [OF d, of "tick - window" ip] by auto
qed

lemma tracks_popped:
  assumes t: "tracks bs log tick"
  shows "tracks (set_bucket ip (dropWhile (\<lambda>t. t < tick - window) (bucket bs ip)) bs) log tick"
proof (rule tracks_drop [OF t])
  from t show "distinct (map fst (set_bucket ip (dropWhile (\<lambda>t. t < tick - window) (bucket bs ip)) bs))"
    by (simp add: tracks_def distinct_set)
  fix j
  show "\<exists>gone. bucket bs j = gone @ bucket (set_bucket ip (dropWhile (\<lambda>t. t < tick - window) (bucket bs ip)) bs) j
      \<and> (\<forall>u \<in> set gone. u < tick - window)"
    by (cases "j = ip")
      (auto simp: bucket_set intro!: exI [of _ "takeWhile (\<lambda>t. t < tick - window) (bucket bs ip)"]
        dest: set_takeWhileD)
qed

lemma times_snoc: "times (log @ [(ip, t)]) j = times log j @ (if j = ip then [t] else [])"
  by (simp add: times_def)

lemma tracks_admitted:
  assumes t: "tracks bs log tick"
  shows "tracks (set_bucket ip (bucket bs ip @ [tick]) bs) (log @ [(ip, tick)]) tick"
proof -
  have "sorted (times (log @ [(ip, tick)]) j) \<and> (\<exists>old. times (log @ [(ip, tick)]) j
      = old @ bucket (set_bucket ip (bucket bs ip @ [tick]) bs) j \<and> (\<forall>u \<in> set old. u < tick - window))" for j
  proof -
    from t obtain old where "sorted (times log j)" "times log j = old @ bucket bs j"
      "\<forall>u \<in> set old. u < tick - window" unfolding tracks_def by blast
    moreover from t have "\<forall>u \<in> set (times log j). u \<le> tick"
      by (auto simp: tracks_def times_def)
    ultimately show ?thesis
      by (auto simp: times_snoc bucket_set sorted_append)
  qed
  with t show ?thesis by (auto simp: tracks_def distinct_set)
qed

lemma within_rate_admitted:
  assumes t: "tracks bs log tick" and r: "within_rate rate log" and l: "int (length (bucket bs ip)) < rate"
  shows "within_rate rate (log @ [(ip, tick)])"
  unfolding within_rate_def
proof (intro allI)
  fix j x
  let ?in = "\<lambda>u. x - window \<le> u \<and> u \<le> x"
  have base: "int (length (filter ?in (times log j))) \<le> rate"
    using r by (simp add: within_rate_def)
  show "int (length (filter ?in (times (log @ [(ip, tick)]) j))) \<le> rate"
  proof (cases "j = ip \<and> tick \<le> x")
    case True
    from t obtain old where old: "times log ip = old @ bucket bs ip" "\<forall>u \<in> set old. u < tick - window"
      unfolding tracks_def by blast
    have "filter ?in old = []"
      using old(2) True by (force simp: filter_empty_conv)
    then have "length (filter ?in (times log ip)) \<le> length (bucket bs ip)"
      by (simp add: old(1))
    then show ?thesis
      using True l by (auto simp: times_snoc)
  next
    case False
    with base show ?thesis by (auto simp: times_snoc)
  qed
qed

lemma admit_keeps:
  assumes t: "tracks bs log tick" and r: "within_rate rate log" and c: "tick \<le> t1" "t1 \<le> t2"
    and a: "admit rate ip t1 t2 bs = (d, bs')"
  shows "tracks bs' (log @ (if d = Admitted then [(ip, t2)] else [])) t2 \<and>
    within_rate rate (log @ (if d = Admitted then [(ip, t2)] else []))"
proof -
  define cs where "cs = (if capacity < length bs then evict (t1 - window) bs else bs)"
  have "tracks cs log t1"
    using tracks_later [OF t c(1)] by (simp add: cs_def tracks_evict)
  then have cs: "tracks cs log t2" by (rule tracks_later [OF _ c(2)])
  let ?ts = "dropWhile (\<lambda>t. t < t2 - window) (bucket cs ip)"
  note popped = tracks_popped [OF cs, of ip]
  have "set_bucket ip (ts @ [t2]) (set_bucket ip ts cs) = set_bucket ip (ts @ [t2]) cs" for ts
    by (induction ip ts cs rule: set_bucket.induct) auto
  then have "tracks (set_bucket ip (?ts @ [t2]) cs) (log @ [(ip, t2)]) t2"
    using tracks_admitted [OF popped, of ip] by (simp add: bucket_set)
  moreover have "within_rate rate (log @ [(ip, t2)])" if "int (length ?ts) < rate"
    using within_rate_admitted [OF popped r, of ip] that by (simp add: bucket_set)
  ultimately show ?thesis
    using a cs popped r by (auto simp: admit_def Let_def cs_def [symmetric] split: if_splits)
qed

section \<open>Runs of the middleware\<close>

text \<open>The requests a run hands on with their body, as (address, time) pairs.\<close>

fun forwarded :: "(http_request \<times> int \<times> int) list \<Rightarrow> verdict list \<Rightarrow> (string \<times> int) list" where
  "forwarded ((r, t1, t2) # rs) (Forward_body b # vs) = (client_ip r, t2) # forwarded rs vs"
| "forwarded (r # rs) (v # vs) = forwarded rs vs"
| "forwarded _ _ = []"

fun readings :: "(http_request \<times> int \<times> int) list \<Rightarrow> int list" where
  "readings [] = []"
| "readings ((r, t1, t2) # rs) = t1 # t2 # readings rs"

definition in_window :: "string \<Rightarrow> int \<Rightarrow> (string \<times> int) list \<Rightarrow> nat" where
  "in_window ip t log = length (filter (\<lambda>u. t - window \<le> u \<and> u \<le> t) (times log ip))"

lemma in_window_append: "in_window ip t (xs @ ys) = in_window ip t xs + in_window ip t ys"
  by (simp add: in_window_def times_def)

lemma in_window_Cons: "in_window ip t (x # xs) = in_window ip t [x] + in_window ip t xs"
  using in_window_append [of ip t "[x]" xs] by simp

lemma in_window_Nil: "in_window ip t [] = 0"
  by (simp add: in_window_def times_def)

lemma guard_request_keeps:
  assumes "tracks bs log tick" and "within_rate (rate_per_minute c) log" and "tick \<le> t1" "t1 \<le> t2"
    and "guard_request c r t1 t2 bs = (v, bs')"
  shows "\<exists>more. tracks bs' (log @ more) t2 \<and> within_rate (rate_per_minute c) (log @ more) \<and>
    (more = [] \<and> (\<forall>b. v \<noteq> Forward_body b) \<or> more = [(client_ip r, t2)])"
proof (cases "hr_path r = ''/health'' \<or> (\<not> allow_lab_http c \<and> hr_scheme r \<noteq> ''https'')")
  case True
  with assms(5) have "bs' = bs" "\<forall>b. v \<noteq> Forward_body b"
    by (auto simp: guard_request_def split: if_splits)
  with assms(2) tracks_later [OF assms(1) order_trans [OF assms(3,4)]] show ?thesis
    by (intro exI [of _ "[]"]) simp
next
  case False
  obtain d cs where d: "admit (rate_per_minute c) (client_ip r) t1 t2 bs = (d, cs)" by fastforce
  with False assms(5) have "bs' = cs" "d \<noteq> Admitted \<Longrightarrow> \<forall>b. v \<noteq> Forward_body b"
    by (auto simp: guard_request_def split: admission.splits)
  with admit_keeps [OF assms(1-4) d] show ?thesis
    by (cases "d = Admitted") (auto intro: exI [of _ "[]"])
qed

lemma guard_run_keeps:
  assumes "tracks bs log tick" and "within_rate (rate_per_minute c) log"
    and "sorted (tick # readings rs)" and "guard_run c rs bs = (vs, bs')"
  shows "\<exists>more tick'. tracks bs' (log @ more) tick' \<and> within_rate (rate_per_minute c) (log @ more) \<and>
    (\<forall>ip t. in_window ip t (forwarded rs vs) \<le> in_window ip t more)"
  using assms
proof (induction rs arbitrary: bs log tick vs bs')
  case Nil
  then show ?case by (intro exI [of _ "[]"] exI [of _ tick]) simp
next
  case (Cons x rs)
  obtain r t1 t2 where x: "x = (r, t1, t2)" using prod_cases3 by blast
  obtain v cs where v: "guard_request c r t1 t2 bs = (v, cs)" by fastforce
  obtain ws where ws: "guard_run c rs cs = (ws, bs')" "vs = v # ws"
    using Cons.prems(4) by (auto simp: x v split: prod.splits)
  have t: "tick \<le> t1" "t1 \<le> t2" "sorted (t2 # readings rs)"
    using Cons.prems(3) by (auto simp: x)
  from guard_request_keeps [OF Cons.prems(1,2) t(1,2) v] obtain m where m:
    "tracks cs (log @ m) t2" "within_rate (rate_per_minute c) (log @ m)"
    "m = [] \<and> (\<forall>b. v \<noteq> Forward_body b) \<or> m = [(client_ip r, t2)]" by blast
  from Cons.IH [OF m(1,2) t(3) ws(1)] obtain more tick' where more:
    "tracks bs' (log @ m @ more) tick'" "within_rate (rate_per_minute c) (log @ m @ more)"
    "\<And>ip t. in_window ip t (forwarded rs ws) \<le> in_window ip t more" by auto
  have "in_window ip t (forwarded (x # rs) vs) \<le> in_window ip t (m @ more)" for ip t
  proof (cases "\<exists>b. v = Forward_body b")
    case True
    with m(3) have "m = [(client_ip r, t2)]" by auto
    with True more(3) [of ip t] show ?thesis
      by (auto simp: x ws(2) in_window_Cons [of ip t _ "forwarded rs ws"] in_window_Cons [of ip t _ more])
  next
    case False
    then have "forwarded (x # rs) vs = forwarded rs ws"
      by (cases v) (auto simp: x ws(2))
    with more(3) [of ip t] show ?thesis by (simp add: in_window_append)
  qed
  with more(1,2) show ?case by blast
qed

lemma tracks_empty: "tracks [] [] tick"
  by (simp add: tracks_def times_def bucket_def)

section \<open>Bounds\<close>

definition bounded_buckets :: "int \<Rightarrow> buckets \<Rightarrow> bool" where
  "bounded_buckets rate bs \<longleftrightarrow> length bs \<le> Suc capacity \<and> (\<forall>ip. int (length (bucket bs ip)) \<le> rate)"

lemma bucket_evict_le: "distinct (map fst bs) \<Longrightarrow> length (bucket (evict cutoff bs) ip) \<le> length (bucket bs ip)"
  using bucket_evict [of bs cutoff ip] by auto

lemma admit_bounded:
  assumes "bounded_buckets rate bs" and "distinct (map fst bs)" and "0 \<le> rate"
    and a: "admit rate ip t1 t2 bs = (d, bs')"
  shows "bounded_buckets rate bs' \<and> distinct (map fst bs')"
proof -
  define cs where "cs = (if capacity < length bs then evict (t1 - window) bs else bs)"
  have "length (evict (t1 - window) bs) \<le> length bs" by (simp add: evict_def)
  with assms(1) have l: "length cs \<le> Suc capacity" by (auto simp: cs_def bounded_buckets_def)
  have b: "int (length (bucket cs j)) \<le> rate" for j
  proof -
    have "length (bucket cs j) \<le> length (bucket bs j)"
      using bucket_evict_le [OF assms(2)] by (simp add: cs_def)
    with assms(1) show ?thesis by (meson bounded_buckets_def of_nat_le_iff order_trans)
  qed
  have d: "distinct (map fst cs)" using assms(2) by (simp add: cs_def distinct_evict)
  let ?ts = "dropWhile (\<lambda>t. t < t2 - window) (bucket cs ip)"
  have drop: "int (length ?ts) \<le> rate"
    using b [of ip] length_dropWhile_le [of "\<lambda>t. t < t2 - window" "bucket cs ip"] by linarith
  have new: "bounded_buckets rate (set_bucket ip ts cs) \<and> distinct (map fst (set_bucket ip ts cs))"
    if "\<not> (capacity < length cs \<and> ip \<notin> fst ` set cs)" "int (length ts) \<le> rate" for ts
    using that l b d by (auto simp: bounded_buckets_def bucket_set length_set distinct_set not_less)
  show ?thesis
  proof (cases "capacity < length cs \<and> ip \<notin> fst ` set cs")
    case True
    with a l b d show ?thesis
      by (simp add: admit_def Let_def cs_def [symmetric] bounded_buckets_def)
  next
    case False
    with a new [OF False, of ?ts] new [OF False, of "?ts @ [t2]"] drop show ?thesis
      by (auto simp: admit_def Let_def cs_def [symmetric] split: if_splits)
  qed
qed

lemma guard_request_bounded:
  assumes "bounded_buckets (rate_per_minute c) bs \<and> distinct (map fst bs)" and "0 \<le> rate_per_minute c"
    and "guard_request c r t1 t2 bs = (v, bs')"
  shows "bounded_buckets (rate_per_minute c) bs' \<and> distinct (map fst bs')"
  using assms admit_bounded [of "rate_per_minute c" bs "client_ip r" t1 t2]
  by (auto simp: guard_request_def split: if_splits prod.splits admission.splits)

lemma guard_run_bounded:
  assumes "bounded_buckets (rate_per_minute c) bs \<and> distinct (map fst bs)" and "0 \<le> rate_per_minute c"
    and "guard_run c rs bs = (vs, bs')"
  shows "bounded_buckets (rate_per_minute c) bs' \<and> distinct (map fst bs')"
  using assms
proof (induction rs arbitrary: bs vs)
  case (Cons x rs)
  obtain r t1 t2 where x: "x = (r, t1, t2)" using prod_cases3 by blast
  obtain v cs where v: "guard_request c r t1 t2 bs = (v, cs)" by fastforce
  note step = guard_request_bounded [OF Cons.prems(1,2) v]
  obtain ws where "guard_run c rs cs = (ws, bs')"
    using Cons.prems(3) by (auto simp: x v split: prod.splits)
  with Cons.IH [OF step Cons.prems(2)] show ?case .
qed simp

lemma read_chunks_bound:
  "read_chunks n cs = Some b \<Longrightarrow> n \<le> max_body \<Longrightarrow> n + length b \<le> max_body \<and> b = concat cs"
  by (induction n cs arbitrary: b rule: read_chunks.induct) (auto split: if_splits)

lemma read_body_bound: "read_body r = Forward_body b \<Longrightarrow> length b \<le> max_body \<and> b = concat (hr_chunks r)"
  using read_chunks_bound [of 0 "hr_chunks r" b]
  by (auto simp: read_body_def too_large_def Let_def split: option.splits if_splits)

section \<open>Properties\<close>

text \<open>
  C11: The rate limit holds over every window, not just per minute of the clock: whatever the
  requests and their order, among the requests of one address that reach a route (all but
  /health) at most \<open>rate_per_minute\<close> fall into any 60 seconds, as long as the monotonic clock
  does not run backwards.
\<close>

theorem rate_limited:
  assumes "sorted (readings rs)" and "0 \<le> rate_per_minute c"
  shows "int (in_window ip t (forwarded rs (fst (guard_run c rs [])))) \<le> rate_per_minute c"
proof -
  obtain vs bs' where run: "guard_run c rs [] = (vs, bs')" by fastforce
  have "within_rate (rate_per_minute c) []" using assms(2) by (simp add: within_rate_def times_def)
  moreover have "sorted ((case readings rs of [] \<Rightarrow> 0 | u # _ \<Rightarrow> u) # readings rs)"
    using assms(1) by (auto split: list.split)
  ultimately obtain more where "within_rate (rate_per_minute c) more"
    "in_window ip t (forwarded rs vs) \<le> in_window ip t more"
    using guard_run_keeps [OF tracks_empty _ _ run] by fastforce
  then have "int (in_window ip t more) \<le> rate_per_minute c"
    "in_window ip t (forwarded rs vs) \<le> in_window ip t more"
    by (simp_all add: within_rate_def in_window_def)
  then show ?thesis by (simp add: run)
qed

definition demo_request :: http_request where
  "demo_request = \<lparr>hr_client = Some ''a'', hr_path = ''/'', hr_scheme = ''https'',
     hr_content_length = None, hr_chunks = [''x'']\<rparr>"

definition demo_settings :: settings where
  "demo_settings = \<lparr>audience = '''', offline_grace_seconds = 60, challenge_seconds = 15,
     device_session_seconds = 30, rate_per_minute = 1, allow_lab_http = False\<rparr>"

lemma rate_limited_witness:
  "in_window ''a'' 2 (forwarded [(demo_request, 1, 1), (demo_request, 2, 2)]
     (fst (guard_run demo_settings [(demo_request, 1, 1), (demo_request, 2, 2)] []))) \<le> 1"
  using rate_limited [of "[(demo_request, 1, 1), (demo_request, 2, 2)]" demo_settings "''a''" 2]
  by (simp add: demo_settings_def)

text \<open>
  The middleware's memory and the bodies it passes on are bounded: from an empty start it keeps
  at most 10001 addresses with at most \<open>rate_per_minute\<close> times each, and a body it hands on is the
  whole stream and at most 16384 bytes long, whatever the announced length.
\<close>

theorem middleware_bounded:
  assumes "0 \<le> rate_per_minute c" and "guard_run c rs [] = (vs, bs)"
    and "guard_request c r t1 t2 bs = (v, bs')"
  shows "length bs' \<le> 10001 \<and> int (length (bucket bs' ip)) \<le> rate_per_minute c \<and>
    (\<forall>b. v = Forward_body b \<longrightarrow> length b \<le> 16384 \<and> b = concat (hr_chunks r))"
proof -
  have "bounded_buckets (rate_per_minute c) []" using assms(1) by (simp add: bounded_buckets_def bucket_def)
  with guard_run_bounded [OF _ assms(1,2)] have "bounded_buckets (rate_per_minute c) bs \<and> distinct (map fst bs)"
    by simp
  from guard_request_bounded [OF this assms(1,3)] have "bounded_buckets (rate_per_minute c) bs'" by simp
  moreover have "length b \<le> 16384 \<and> b = concat (hr_chunks r)" if "v = Forward_body b" for b
    using assms(3) that read_body_bound [of r b]
    by (auto simp: guard_request_def max_body_def split: if_splits prod.splits admission.splits)
  ultimately show ?thesis by (simp add: bounded_buckets_def capacity_def)
qed

lemma middleware_bounded_witness:
  "length (snd (guard_request demo_settings demo_request 1 1 [])) \<le> 10001"
  using middleware_bounded [of demo_settings "[]" "[]" "[]" demo_request 1 1, OF _ _ prod.collapse [symmetric]]
  by (simp add: demo_settings_def)

end
