(* ===== verification/Values.thy ===== *)
theory Values
  imports Text Encoding
begin

text \<open>
  Python's view of JSON values as the device programs use them: truth, equality, the text of a value,
  the number of a value, and reading and writing a dictionary.
\<close>

section \<open>Truth and equality\<close>

text \<open>\<open>==\<close> on JSON values: \<open>True == 1\<close>, and the order of a dictionary's keys does not matter.\<close>

fun unbool :: "json \<Rightarrow> json" where
  "unbool (JBool b) = JInt (if b then 1 else 0)"
| "unbool (JArr vs) = JArr (map unbool vs)"
| "unbool (JObj kvs) = JObj (map (\<lambda>(k, v). (k, unbool v)) kvs)"
| "unbool v = v"

definition py_eq :: "json \<Rightarrow> json \<Rightarrow> bool" where
  "py_eq a b \<longleftrightarrow> jsort (unbool a) = jsort (unbool b)"

fun truthy :: "json \<Rightarrow> bool" where
  "truthy JNull = False"
| "truthy (JBool b) = b"
| "truthy (JInt n) = (n \<noteq> 0)"
| "truthy (JStr s) = (s \<noteq> [])"
| "truthy (JArr vs) = (vs \<noteq> [])"
| "truthy (JObj kvs) = (kvs \<noteq> [])"

text \<open>\<open>d.get(k, default)\<close> and \<open>d[k] = v\<close> of a dictionary.\<close>

definition dget :: "(string \<times> json) list \<Rightarrow> string \<Rightarrow> json \<Rightarrow> json" where
  "dget d k v = (case map_of d k of None \<Rightarrow> v | Some x \<Rightarrow> x)"

fun dput :: "string \<Rightarrow> json \<Rightarrow> (string \<times> json) list \<Rightarrow> (string \<times> json) list" where
  "dput k v [] = [(k, v)]"
| "dput k v ((k', v') # d) = (if k' = k then (k, v) # d else (k', v') # dput k v d)"

definition dputs :: "(string \<times> json) list \<Rightarrow> (string \<times> json) list \<Rightarrow> (string \<times> json) list" where
  "dputs kvs d = foldl (\<lambda>d (k, v). dput k v d) d kvs"

lemma map_of_dput: "map_of (dput k v d) = (map_of d)(k \<mapsto> v)"
  by (induction d rule: dput.induct) auto

lemma map_of_dputs: "map_of (dputs kvs d) = map_of d ++ map_of (rev kvs)"
  unfolding dputs_def by (induction kvs arbitrary: d) (auto simp: map_of_dput)

section \<open>The text of a value\<close>

text \<open>\<open>repr\<close> of a text: the quotes are double only when the text has single ones and no double ones.\<close>

definition shown :: "char \<Rightarrow> bool" where
  "shown c \<longleftrightarrow> (32 \<le> code c \<and> code c \<le> 126) \<or> (161 \<le> code c \<and> code c \<noteq> 173)"

definition repr_char :: "char \<Rightarrow> char \<Rightarrow> string" where
  "repr_char q c =
     (if c = q \<or> c = backslash then [backslash, c]
      else if c = CHR 0x0A then [backslash, CHR ''n'']
      else if c = CHR 0x0D then [backslash, CHR ''r'']
      else if c = CHR 0x09 then [backslash, CHR ''t'']
      else if shown c then [c]
      else [backslash, CHR ''x'', hex_digit (code c div 16), hex_digit (code c mod 16)])"

definition repr_text :: "string \<Rightarrow> string" where
  "repr_text s =
     (let q = (if CHR 0x27 \<in> set s \<and> quote_mark \<notin> set s then quote_mark else CHR 0x27)
      in q # concat (map (repr_char q) s) @ [q])"

fun comma_list :: "string list \<Rightarrow> string" where
  "comma_list [] = []"
| "comma_list [x] = x"
| "comma_list (x # xs) = x @ '', '' @ comma_list xs"

fun py_repr :: "json \<Rightarrow> string" where
  "py_repr JNull = ''None''"
| "py_repr (JBool b) = (if b then ''True'' else ''False'')"
| "py_repr (JInt n) = int_dec n"
| "py_repr (JStr s) = repr_text s"
| "py_repr (JArr vs) = CHR ''['' # comma_list (map py_repr vs) @ '']''"
| "py_repr (JObj kvs) = CHR ''{'' # comma_list (map (\<lambda>(k, v). repr_text k @ '': '' @ py_repr v) kvs) @ ''}''"

definition py_str :: "json \<Rightarrow> string" where
  "py_str v = (case v of JStr s \<Rightarrow> s | _ \<Rightarrow> py_repr v)"

section \<open>The number of a value\<close>

text \<open>
  \<open>int(s)\<close>: blanks around, a sign, and digits with single underscores between them; \<open>None\<close> is
  \<open>ValueError\<close>.
\<close>

definition int_of_text :: "string \<Rightarrow> int option" where
  "int_of_text s =
     (let t = strip is_blank s; signed = t \<noteq> [] \<and> hd t \<in> {CHR ''+'', CHR ''-''};
          groups = split_on (CHR ''_'') (if signed then tl t else t)
      in if list_all all_dec groups
         then Some ((if signed \<and> hd t = CHR ''-'' then -1 else 1) * dec_digits (concat groups))
         else None)"

fun py_int :: "json \<Rightarrow> string + int" where
  "py_int (JInt n) = Inr n"
| "py_int (JBool b) = Inr (if b then 1 else 0)"
| "py_int (JStr s) = (case int_of_text s of None \<Rightarrow> Inl ''ValueError'' | Some n \<Rightarrow> Inr n)"
| "py_int _ = Inl ''TypeError''"

section \<open>Programs over values\<close>

text \<open>\<open>v.get(k, default)\<close> of a value that need not be a dictionary.\<close>

definition get_or :: "json \<Rightarrow> string \<Rightarrow> json \<Rightarrow> ('s, json) handler" where
  "get_or v k x = (case v of JObj kvs \<Rightarrow> ret (dget kvs k x) | _ \<Rightarrow> raise (Crash ''AttributeError''))"

text \<open>A value with the name of the exception it ends in.\<close>

definition lifted :: "string + 'a \<Rightarrow> ('s, 'a) handler" where
  "lifted x = (case x of Inl e \<Rightarrow> raise (Crash e) | Inr a \<Rightarrow> ret a)"

lemma wp_get_or [wp_simps]:
  "wp (get_or v k x) Q R s = (case v of JObj kvs \<Rightarrow> Q (dget kvs k x) s | _ \<Rightarrow> R (Crash ''AttributeError'') s)"
  by (cases v) (simp_all add: get_or_def wp_simps)

lemma wp_lifted [wp_simps]:
  "wp (lifted x) Q R s = (case x of Inl e \<Rightarrow> R (Crash e) s | Inr a \<Rightarrow> Q a s)"
  by (simp add: lifted_def wp_simps split: sum.split)

lemma safe_get_or [safe_rules]: "safe I (get_or v k x)"
  by (cases v) (simp_all add: get_or_def safe_rules)

lemma safe_lifted [safe_rules]: "safe I (lifted x)"
  by (simp add: lifted_def safe_rules split: sum.split)

section \<open>A state\<close>

text \<open>Reading and writing the state of a program.\<close>

definition get_state :: "('s \<Rightarrow> 'a) \<Rightarrow> ('s, 'e, 'a) prog" where
  "get_state f = (\<lambda>s. (Inr (f s), s))"

definition modify :: "('s \<Rightarrow> 's) \<Rightarrow> ('s, 'e, unit) prog" where
  "modify f = (\<lambda>s. (Inr (), f s))"

lemma wp_get_state [wp_simps]: "wp (get_state f) Q R s = Q (f s) s"
  by (simp add: wp_def get_state_def)

lemma wp_modify [wp_simps]: "wp (modify f) Q R s = Q () (f s)"
  by (simp add: wp_def modify_def)

lemma safe_get_state [safe_rules]: "safe I (get_state f)"
  by (simp add: safe_def wp_simps)

lemma safe_modify: "(\<And>s. I s \<Longrightarrow> I (f s)) \<Longrightarrow> safe I (modify f)"
  by (simp add: safe_def wp_simps)

end
