(* ===== verification/Client.thy ===== *)
theory Client
  imports Values
begin

text \<open>
  The registration agent of a device, device-registration/client.py: the checks on the server's
  address (\<open>Transport\<close>), the requests (\<open>post\<close>), the proof of identity (\<open>prove\<close>), the check of the
  server's signed authorization (\<open>verify_document\<close>) and a whole run (\<open>synchronize\<close>), with the files
  it keeps in its state directory.
\<close>

section \<open>Exceptions and JSON values\<close>

datatype fault =
    Denied string
  | Unavailable
  | InvalidSignature
  | KeyError
  | ValueError
  | TypeError
  | AttributeError
  | IndexError
  | Other_error string

text \<open>\<open>value[k]\<close> for a value that \<open>json.loads\<close> returned.\<close>

fun field :: "json \<Rightarrow> string \<Rightarrow> ('s, fault, json) prog" where
  "field (JObj kvs) k = need (map_of kvs k) KeyError"
| "field _ k = raise TypeError"

text \<open>A number in a comparison with an \<open>int\<close>; \<open>bool\<close> is a subclass of \<open>int\<close>.\<close>

fun num :: "json \<Rightarrow> ('s, fault, int) prog" where
  "num (JInt n) = ret n"
| "num (JBool b) = ret (if b then 1 else 0)"
| "num _ = raise TypeError"

text \<open>A chain of \<open>or\<close>: the tests run in order until one is true or raises.\<close>

fun any_of :: "('s, fault, bool) prog list \<Rightarrow> ('s, fault, bool) prog" where
  "any_of [] = ret False"
| "any_of (t # ts) = andThen t (\<lambda>b. if b then ret True else any_of ts)"

definition differs :: "json \<Rightarrow> string \<Rightarrow> json \<Rightarrow> ('s, fault, bool) prog" where
  "differs p k v = andThen (field p k) (\<lambda>x. ret (\<not> py_eq x v))"

definition not_text :: "json \<Rightarrow> string \<Rightarrow> ('s, fault, bool) prog" where
  "not_text p k = andThen (field p k) (\<lambda>x. ret (case x of JStr _ \<Rightarrow> False | _ \<Rightarrow> True))"

definition number_test :: "json \<Rightarrow> string \<Rightarrow> (int \<Rightarrow> bool) \<Rightarrow> ('s, fault, bool) prog" where
  "number_test p k t = andThen (field p k) (\<lambda>x. andThen (num x) (\<lambda>n. ret (t n)))"

section \<open>The agent\<close>

text \<open>
  What one request gets back: a body of some length (with \<open>None\<close> when it is not JSON), an HTTP
  error with its body, one of the ways the connection fails, or an exception, by its name, that no clause
  of \<open>post\<close> names: one of \<open>http.client\<close> (BadStatusLine, IncompleteRead), an \<open>OSError\<close> of reading
  the body of an HTTP error, a \<open>RecursionError\<close> of parsing a body.
\<close>

datatype reply =
    Body nat "json option"
  | Http_error "json option"
  | Ssl_error
  | Url_error
  | Timed_out
  | Bad_value
  | Reply_raises string

record url_parts =
  ur_scheme :: string
  ur_hostname :: "string option"
  ur_username :: "string option"
  ur_password :: "string option"
  ur_path :: string
  ur_query :: string
  ur_fragment :: string

text \<open>
  The surroundings of the agent: the clock (reading \<open>n\<close> of \<open>int(time.time())\<close>), the network (a reply
  for the requests made so far), the device's key, SHA-256, Ed25519, \<open>urlsplit\<close>, \<open>json.loads\<close> (with the
  texts nested too deep for it, a \<open>RecursionError\<close>), and the fingerprint of the configured trust anchor (\<open>None\<close> when it cannot be read).
\<close>

record device_env =
  time_at :: "nat \<Rightarrow> int"
  network :: "(string \<times> json) list \<Rightarrow> reply"
  key_sign :: "string \<Rightarrow> string"
  sha256_hex :: "string \<Rightarrow> string"
  check_signature :: "string \<Rightarrow> string \<Rightarrow> string \<Rightarrow> bool"
  urlsplit :: "string \<Rightarrow> url_parts option"
  loads :: "string \<Rightarrow> json option"
  too_deep :: "string \<Rightarrow> bool"
  anchor_fingerprint :: "string \<Rightarrow> string option"

record client_config =
  server_url :: string
  server_public_key :: string
  lab_http :: bool
  ca_bundle :: "string option"
  ca_certificate_sha256 :: string
  device_model :: "string option"
  device_firmware :: "string option"
  publish_status :: bool

record identity_request =
  rq_serial :: string
  rq_installation_id :: string
  rq_public_key :: string

text \<open>
  The files of the state directory, the status being built, and the requests and signatures made.
\<close>

record agent =
  ag_authorization :: "(string \<times> json) list option"
  ag_status :: "(string \<times> json) list option"
  ag_public :: "(string \<times> json) list option"
  ag_report :: "(string \<times> json) list"
  ag_reads :: nat
  ag_sent :: "(string \<times> json) list"
  ag_signed :: "string list"

type_synonym 'a agent_prog = "(agent, fault, 'a) prog"

definition clock :: "device_env \<Rightarrow> int agent_prog" where
  "clock e = (\<lambda>s. (Inr (time_at e (ag_reads s)), s\<lparr>ag_reads := Suc (ag_reads s)\<rparr>))"

definition report :: "(string \<times> json) list \<Rightarrow> unit agent_prog" where
  "report kvs = (\<lambda>s. (Inr (), s\<lparr>ag_report := dputs kvs (ag_report s)\<rparr>))"

definition save_authorization :: "(string \<times> json) list \<Rightarrow> unit agent_prog" where
  "save_authorization d = (\<lambda>s. (Inr (), s\<lparr>ag_authorization := Some d\<rparr>))"

definition sign_message :: "device_env \<Rightarrow> string \<Rightarrow> string agent_prog" where
  "sign_message e m = (\<lambda>s. (Inr (key_sign e m), s\<lparr>ag_signed := ag_signed s @ [m]\<rparr>))"

section \<open>Transport\<close>

definition transport :: "device_env \<Rightarrow> client_config \<Rightarrow> string agent_prog" where
  "transport e c =
     (let url = rstrip (\<lambda>x. x = CHR ''/'') (server_url c)
      in andThen (need (urlsplit e url) ValueError) (\<lambda>p.
         if ur_scheme p \<notin> {''http'', ''https''} \<or> ur_hostname p \<in> {None, Some ''''} \<or>
            ur_username p \<notin> {None, Some ''''} \<or> ur_password p \<notin> {None, Some ''''} \<or>
            ur_query p \<noteq> '''' \<or> ur_fragment p \<noteq> '''' \<or> ur_path p \<notin> {'''', ''/''}
         then raise (Denied ''INVALID_SERVER_URL'')
         else if ur_scheme p \<noteq> ''https'' \<and> \<not> lab_http c then raise (Denied ''HTTPS_REQUIRED'')
         else case ca_bundle c of None \<Rightarrow> ret url
           | Some b \<Rightarrow>
               if b = [] then ret url
               else case anchor_fingerprint e b of
                 None \<Rightarrow> raise (Denied ''TLS_CONFIGURATION_INVALID'')
               | Some fp \<Rightarrow>
                   let expected = lower (filter (\<lambda>x. x \<noteq> CHR '':'') (ca_certificate_sha256 c))
                   in if expected = '''' \<or> fp \<noteq> expected
                      then raise (Denied ''TLS_TRUST_ANCHOR_MISMATCH'') else ret url))"

definition timeout_seconds :: "int \<Rightarrow> int" where
  "timeout_seconds n = min (max n 1) 30"

definition identity_errors :: "string list" where
  "identity_errors = [''HARDWARE_MISMATCH'', ''IDENTITY_MISMATCH'', ''KEY_REUSE'']"

text \<open>A list or dictionary as \<open>detail\<close> is not hashable: the membership test raises \<open>TypeError\<close>.\<close>

fun http_denial :: "json option \<Rightarrow> fault" where
  "http_denial (Some (JObj body)) =
     (case dget body ''detail'' (JStr '''') of
        JStr d \<Rightarrow> Denied (if d \<in> set identity_errors then d else ''SERVER_REJECTED_REQUEST'')
      | JArr _ \<Rightarrow> TypeError
      | JObj _ \<Rightarrow> TypeError
      | _ \<Rightarrow> Denied ''SERVER_REJECTED_REQUEST'')"
| "http_denial _ = Denied ''SERVER_REJECTED_REQUEST''"

definition reply_value :: "reply \<Rightarrow> fault + json" where
  "reply_value r = (case r of
     Body n j \<Rightarrow> if 65536 < n then Inl (Denied ''INVALID_SERVER_RESPONSE'')
                 else (case j of None \<Rightarrow> Inl (Denied ''INVALID_SERVER_RESPONSE'') | Some v \<Rightarrow> Inr v)
   | Http_error j \<Rightarrow> Inl (http_denial j)
   | Ssl_error \<Rightarrow> Inl (Denied ''TLS_VALIDATION_FAILED'')
   | Url_error \<Rightarrow> Inl Unavailable
   | Timed_out \<Rightarrow> Inl Unavailable
   | Bad_value \<Rightarrow> Inl (Denied ''INVALID_SERVER_RESPONSE'')
   | Reply_raises x \<Rightarrow> Inl (Other_error x))"

definition post :: "device_env \<Rightarrow> string \<Rightarrow> json \<Rightarrow> json agent_prog" where
  "post e path v =
     (\<lambda>s. let sent = ag_sent s @ [(path, v)]
          in (reply_value (network e sent), s\<lparr>ag_sent := sent\<rparr>))"

section \<open>The server's authorization\<close>

definition text_arg :: "json \<Rightarrow> ('s, fault, string) prog" where
  "text_arg j = (case j of JStr s \<Rightarrow> ret s | _ \<Rightarrow> raise TypeError)"

definition raw_key :: "string \<Rightarrow> ('s, fault, string) prog" where
  "raw_key k = (case b64decode k of None \<Rightarrow> raise ValueError
     | Some raw \<Rightarrow> if length raw \<noteq> 32 then raise ValueError else ret raw)"

definition document_faults ::
    "device_env \<Rightarrow> identity_request \<Rightarrow> json \<Rightarrow> json \<Rightarrow> int \<Rightarrow> json \<Rightarrow> ('s, fault, bool) prog" where
  "document_faults e rq device_id last_clock tick p = any_of
     [differs p ''v'' (JInt 1),
      differs p ''aud'' (JStr ''kdx-infrabox-registration''),
      differs p ''status'' (JStr ''ACTIVE''),
      differs p ''serial'' (JStr (rq_serial rq)),
      differs p ''installation_id'' (JStr (rq_installation_id rq)),
      differs p ''key_hash'' (JStr (sha256_hex e (rq_public_key rq))),
      differs p ''device_id'' device_id,
      not_text p ''license_id'',
      number_test p ''issued_at'' (\<lambda>n. tick + 30 < n),
      number_test p ''expires_at'' (\<lambda>n. n \<le> tick),
      andThen (field p ''expires_at'') (\<lambda>x. andThen (num x) (\<lambda>n.
        number_test p ''issued_at'' (\<lambda>m. 604800 < n - m))),
      andThen (num last_clock) (\<lambda>n. ret (tick < n))]"

definition verify_document ::
    "device_env \<Rightarrow> json \<Rightarrow> string \<Rightarrow> identity_request \<Rightarrow> json \<Rightarrow> json \<Rightarrow> json agent_prog" where
  "verify_document e doc pinned rq device_id last_clock =
     andThen (clock e) (\<lambda>tick.
     andThen (field doc ''payload'') (\<lambda>p.
     andThen (raw_key pinned) (\<lambda>pub.
     andThen (field doc ''signature'') (\<lambda>sg.
     andThen (text_arg sg) (\<lambda>text.
     andThen (need (b64decode text) ValueError) (\<lambda>raw.
     andThen (require (check_signature e pub raw (canonical p)) InvalidSignature) (\<lambda>_.
     andThen (document_faults e rq device_id last_clock tick p) (\<lambda>bad.
       if bad then raise (Denied ''INVALID_AUTHORIZATION_DOCUMENT'') else ret p))))))))"

section \<open>The hardware serial\<close>

text \<open>
  \<open>read_serial\<close>: the device tree's file when there is one (with its trailing NUL bytes), else the
  first line of /proc/cpuinfo that starts with \<open>Serial\<close>; a line without a colon is an \<open>IndexError\<close>,
  an exception of its own that nothing handles.
\<close>

fun cpuinfo_serial :: "string list \<Rightarrow> string option" where
  "cpuinfo_serial [] = Some []"
| "cpuinfo_serial (l # ls) =
     (if startswith l ''Serial''
      then (if CHR '':'' \<in> set l
            then Some (upper (strip is_blank (tl (dropWhile (\<lambda>c. c \<noteq> CHR '':'') l)))) else None)
      else cpuinfo_serial ls)"

definition serial_ok :: "string \<Rightarrow> bool" where
  "serial_ok v \<longleftrightarrow> length v = 16 \<and> list_all (\<lambda>c. c \<in> set ''0123456789ABCDEF'') v"

definition read_serial :: "string option \<Rightarrow> string list \<Rightarrow> ('s, fault, string) prog" where
  "read_serial devicetree cpuinfo =
     andThen (need (case devicetree of
                  Some raw \<Rightarrow> Some (upper (rstrip (\<lambda>c. c = char_of (0 :: nat)) raw))
                | None \<Rightarrow> cpuinfo_serial cpuinfo) IndexError) (\<lambda>value.
     andThen (require (serial_ok value) (Denied ''HARDWARE_SERIAL_UNAVAILABLE'')) (\<lambda>_.
     ret value))"

section \<open>Proof of identity\<close>

definition request_fields :: "identity_request \<Rightarrow> (string \<times> json) list" where
  "request_fields rq = [(''serial'', JStr (rq_serial rq)),
     (''installation_id'', JStr (rq_installation_id rq)), (''public_key'', JStr (rq_public_key rq))]"

definition purpose_of :: "string option \<Rightarrow> string" where
  "purpose_of token = (case token of None \<Rightarrow> ''authenticate''
     | Some t \<Rightarrow> if t = [] then ''authenticate'' else ''activate'')"

definition short_nonce :: "json \<Rightarrow> ('s, fault, bool) prog" where
  "short_nonce v = andThen (field v ''nonce'') (\<lambda>x.
     ret (case x of JStr s \<Rightarrow> length s < 32 | _ \<Rightarrow> True))"

definition challenge_faults ::
    "device_env \<Rightarrow> identity_request \<Rightarrow> string \<Rightarrow> json \<Rightarrow> int \<Rightarrow> json \<Rightarrow> ('s, fault, bool) prog" where
  "challenge_faults e rq purpose ch tick v = any_of
     [differs v ''aud'' (JStr ''kdx-infrabox-registration''),
      differs v ''v'' (JInt 1),
      differs v ''purpose'' (JStr purpose),
      differs v ''serial'' (JStr (rq_serial rq)),
      differs v ''installation_id'' (JStr (rq_installation_id rq)),
      differs v ''key_hash'' (JStr (sha256_hex e (rq_public_key rq))),
      andThen (field v ''challenge_id'') (\<lambda>x. andThen (field ch ''challenge_id'') (\<lambda>y.
        ret (\<not> py_eq x y))),
      number_test v ''expires_at'' (\<lambda>n. \<not> (tick \<le> n \<and> n \<le> tick + 300)),
      short_nonce v]"

definition token_field :: "string option \<Rightarrow> (string \<times> json) list" where
  "token_field token = (case token of None \<Rightarrow> []
     | Some t \<Rightarrow> if t = [] then [] else [(''activation_token'', JStr t)])"

definition proof_path :: "string option \<Rightarrow> string" where
  "proof_path token = ''/api/v1/devices/'' @
     (if purpose_of token = ''activate'' then ''activate'' else ''verify'')"

definition prove_identity :: "device_env \<Rightarrow> identity_request \<Rightarrow> string option \<Rightarrow> json agent_prog" where
  "prove_identity e rq token =
     andThen (post e ''/api/v1/devices/challenge''
        (JObj (request_fields rq @ [(''purpose'', JStr (purpose_of token))]))) (\<lambda>ch.
     andThen (field ch ''message'') (\<lambda>m.
     andThen (text_arg m) (\<lambda>message.
     andThen (require (\<not> too_deep e message) (Other_error ''RecursionError'')) (\<lambda>_.
     andThen (need (loads e message) ValueError) (\<lambda>v.
     andThen (clock e) (\<lambda>tick.
     andThen (challenge_faults e rq (purpose_of token) ch tick v) (\<lambda>bad.
     andThen (require (\<not> bad) (Denied ''INVALID_SERVER_CHALLENGE'')) (\<lambda>_.
     andThen (field ch ''challenge_id'') (\<lambda>i.
     andThen (sign_message e message) (\<lambda>sg.
       post e (proof_path token)
         (JObj ([(''challenge_id'', i), (''signature'', JStr (b64encode sg))]
                @ token_field token))))))))))))"

section \<open>A run of the agent\<close>

definition first_report :: "client_config \<Rightarrow> identity_request \<Rightarrow> int \<Rightarrow> (string \<times> json) list" where
  "first_report c rq tick = request_fields rq @
     [(''checked_at'', JInt tick), (''server_url'', JStr (server_url c)), (''authorized'', JBool False)]"

definition denial_record :: "int \<Rightarrow> (string \<times> json) list" where
  "denial_record tick = [(''denied'', JBool True), (''last_clock'', JInt tick)]"

text \<open>\<open>str(uuid.UUID(x))\<close>: a value without a \<open>replace\<close> method raises \<open>AttributeError\<close>, \<open>None\<close> \<open>TypeError\<close>.\<close>

definition uuid_arg :: "json \<Rightarrow> ('s, fault, string) prog" where
  "uuid_arg j = (case j of JStr s \<Rightarrow> need (uuid_of s) ValueError
     | JNull \<Rightarrow> raise TypeError | _ \<Rightarrow> raise AttributeError)"

definition grant ::
    "client_config \<Rightarrow> device_env \<Rightarrow> identity_request \<Rightarrow> (string \<times> json) list \<Rightarrow> int \<Rightarrow> string \<Rightarrow> json
      \<Rightarrow> unit agent_prog" where
  "grant c e rq cache tick device_id result =
     andThen (field result ''authorization'') (\<lambda>doc.
     andThen (verify_document e doc (server_public_key c) rq (JStr device_id)
                (dget cache ''last_clock'' (JInt 0))) (\<lambda>p.
     andThen (save_authorization [(''document'', doc), (''device_id'', JStr device_id),
                (''last_clock'', JInt tick), (''denied'', JBool False)]) (\<lambda>_.
     andThen (field p ''license_id'') (\<lambda>l.
     andThen (field p ''expires_at'') (\<lambda>x.
       report [(''authorized'', JBool True), (''license_id'', l),
               (''authorization_expires_at'', x)])))))"

definition online ::
    "client_config \<Rightarrow> device_env \<Rightarrow> identity_request \<Rightarrow> (string \<times> json) list \<Rightarrow> int \<Rightarrow> string option
      \<Rightarrow> unit agent_prog" where
  "online c e rq cache tick token =
     andThen (transport e c) (\<lambda>_.
     andThen (post e ''/api/v1/devices/enroll'' (JObj (request_fields rq @
        [(''model'', JStr (case device_model c of None \<Rightarrow> ''Galaxy-RP4'' | Some m \<Rightarrow> m)),
         (''firmware'', JStr (case device_firmware c of None \<Rightarrow> ''0.3.46'' | Some f \<Rightarrow> f))]))) (\<lambda>enr.
     andThen (field enr ''device_id'') (\<lambda>d.
     andThen (uuid_arg d) (\<lambda>device_id.
     andThen (report [(''device_id'', JStr device_id)]) (\<lambda>_.
     andThen (field enr ''installation_id'') (\<lambda>i.
     andThen (require (py_eq i (JStr (rq_installation_id rq)))
                (Denied ''INVALID_ENROLLMENT_RESPONSE'')) (\<lambda>_.
     andThen (prove_identity e rq token) (\<lambda>result.
     andThen (field result ''device_id'') (\<lambda>d'.
     andThen (require (py_eq d' (JStr device_id)) (Denied ''INVALID_DEVICE_BINDING'')) (\<lambda>_.
     andThen (field result ''status'') (\<lambda>st.
     andThen (report [(''status'', st), (''mode'', JStr ''online'')]) (\<lambda>_.
       if st = JStr ''ACTIVE'' then grant c e rq cache tick device_id result
       else save_authorization (denial_record tick)))))))))))))"

definition recoverable :: "fault \<Rightarrow> bool" where
  "recoverable f \<longleftrightarrow> (case f of Unavailable \<Rightarrow> False | AttributeError \<Rightarrow> False | IndexError \<Rightarrow> False
     | Other_error _ \<Rightarrow> False | _ \<Rightarrow> True)"

definition offline_grant ::
    "client_config \<Rightarrow> device_env \<Rightarrow> identity_request \<Rightarrow> (string \<times> json) list \<Rightarrow> int \<Rightarrow> unit agent_prog" where
  "offline_grant c e rq cache tick =
     andThen (need (map_of cache ''document'') KeyError) (\<lambda>doc.
     andThen (need (map_of cache ''device_id'') KeyError) (\<lambda>device_id.
     andThen (verify_document e doc (server_public_key c) rq device_id
                (dget cache ''last_clock'' (JInt 0))) (\<lambda>p.
     andThen (field p ''license_id'') (\<lambda>l.
     andThen (field p ''expires_at'') (\<lambda>x.
     andThen (report [(''status'', JStr ''ACTIVE''), (''mode'', JStr ''offline-grace''),
        (''authorized'', JBool True), (''device_id'', device_id), (''license_id'', l),
        (''authorization_expires_at'', x)]) (\<lambda>_.
       save_authorization (dput ''last_clock'' (JInt tick) cache)))))))"

definition offline ::
    "client_config \<Rightarrow> device_env \<Rightarrow> identity_request \<Rightarrow> (string \<times> json) list \<Rightarrow> int \<Rightarrow> string option
      \<Rightarrow> unit agent_prog" where
  "offline c e rq cache tick token =
     andThen (report [(''status'', JStr ''UNAVAILABLE''), (''mode'', JStr ''offline''),
                      (''error'', JStr ''SERVER_UNREACHABLE'')]) (\<lambda>_.
     if purpose_of token = ''authenticate'' \<and> truthy (dget cache ''document'' JNull) \<and>
        \<not> truthy (dget cache ''denied'' JNull)
     then handling (offline_grant c e rq cache tick) (\<lambda>f.
            if recoverable f
            then report [(''error'', JStr ''OFFLINE_AUTHORIZATION_INVALID_OR_EXPIRED'')]
            else raise f)
     else ret ())"

definition denied :: "int \<Rightarrow> fault \<Rightarrow> unit agent_prog" where
  "denied tick f =
     (let reason = (case f of Denied r \<Rightarrow> r | _ \<Rightarrow> ''INVALID_SERVER_RESPONSE'')
      in andThen (report [(''status'', JStr ''DENIED''), (''mode'', JStr ''online''),
                          (''error'', JStr reason)]) (\<lambda>_.
         andThen (if reason = ''HARDWARE_MISMATCH'' then report [(''status'', JStr reason)] else ret ())
           (\<lambda>_. save_authorization (denial_record tick))))"

definition public_fields :: "string list" where
  "public_fields = [''serial'', ''installation_id'', ''device_id'', ''license_id'', ''checked_at'',
     ''authorization_expires_at'', ''server_url'', ''authorized'', ''status'', ''mode'', ''transport'',
     ''error'']"

definition publish :: "client_config \<Rightarrow> unit agent_prog" where
  "publish c = (\<lambda>s.
     let r = dput ''transport'' (JStr (if startswith (server_url c) ''https://'' then ''https''
                                       else ''lab-http'')) (ag_report s)
     in (Inr (), s\<lparr>ag_report := r, ag_status := Some r,
          ag_public := (if publish_status c then Some (filter (\<lambda>(k, v). k \<in> set public_fields) r)
                        else ag_public s)\<rparr>))"

text \<open>The part of a run that talks to the server and handles what it raised.\<close>

definition session ::
    "client_config \<Rightarrow> device_env \<Rightarrow> identity_request \<Rightarrow> (string \<times> json) list \<Rightarrow> int \<Rightarrow> string option
      \<Rightarrow> unit agent_prog" where
  "session c e rq cache tick token =
     handling (online c e rq cache tick token) (\<lambda>f.
       if f = Unavailable then offline c e rq cache tick token
       else if recoverable f then denied tick f else raise f)"

definition synchronize ::
    "client_config \<Rightarrow> device_env \<Rightarrow> identity_request \<Rightarrow> string option
      \<Rightarrow> (string \<times> json) list agent_prog" where
  "synchronize c e rq token =
     andThen (clock e) (\<lambda>tick.
     andThen (\<lambda>s. (Inr (case ag_authorization s of None \<Rightarrow> [] | Some d \<Rightarrow> d), s)) (\<lambda>cache.
     andThen (\<lambda>s. (Inr (), s\<lparr>ag_report := first_report c rq tick\<rparr>)) (\<lambda>_.
     andThen (session c e rq cache tick token) (\<lambda>_.
     andThen (publish c) (\<lambda>_.
       (\<lambda>s. (Inr (ag_report s), s)))))))"

text \<open>
  The whole function: \<open>opened\<close> is what the steps before its \<open>try\<close> end in, the directory, the identity
  (with a new key when there is none) and the reading of the stored authorization: an exception of theirs
  ends the run, otherwise the identity is there and the stored authorization is that of the state.
\<close>

definition opened_run ::
    "client_config \<Rightarrow> device_env \<Rightarrow> fault + identity_request \<Rightarrow> string option
      \<Rightarrow> (string \<times> json) list agent_prog" where
  "opened_run c e opened token = (case opened of Inl f \<Rightarrow> raise f | Inr rq \<Rightarrow> synchronize c e rq token)"

text \<open>\<open>main\<close> exits with 1 when the status it printed is a refusal.\<close>

definition exit_code :: "(string \<times> json) list \<Rightarrow> int" where
  "exit_code status =
     (if dget status ''status'' JNull
          \<in> {JStr ''DENIED'', JStr ''HARDWARE_MISMATCH'', JStr ''UNAVAILABLE''} then 1 else 0)"

text \<open>\<open>main\<close>: what the commands print, and the exit code; \<open>entered\<close> is the token typed in.\<close>

datatype agent_command = Sync | Activate | Identity | Status

definition with_url :: "string option \<Rightarrow> client_config \<Rightarrow> client_config" where
  "with_url url c = (case url of None \<Rightarrow> c
     | Some u \<Rightarrow> if u = [] then c else c\<lparr>server_url := u\<rparr>)"

definition agent_main ::
    "client_config \<Rightarrow> device_env \<Rightarrow> fault + identity_request \<Rightarrow> string \<Rightarrow> string option \<Rightarrow> agent_command
      \<Rightarrow> ((string \<times> json) list \<times> int) agent_prog" where
  "agent_main c e opened entered url command =
     (case command of
        Status \<Rightarrow> (\<lambda>s. (Inr (case ag_status s of Some r \<Rightarrow> r
                               | None \<Rightarrow> [(''status'', JStr ''NOT_CONFIGURED'')], 0), s))
      | Identity \<Rightarrow> (case opened of Inl f \<Rightarrow> raise f | Inr rq \<Rightarrow> ret (request_fields rq, 0))
      | Sync \<Rightarrow> andThen (opened_run (with_url url c) e opened None) (\<lambda>r. ret (r, exit_code r))
      | Activate \<Rightarrow> andThen (opened_run (with_url url c) e opened (Some entered)) (\<lambda>r. ret (r, exit_code r)))"

end
