(* ===== verification/Client_Safety.thy ===== *)
theory Client_Safety
  imports Client
begin

text \<open>
  What the agent's checks amount to (\<open>accepts\<close>), and what a run guarantees: it is authorized only by
  a document that the pinned key signed for this device and that is valid at that moment, a denial
  survives going offline, and the device key signs only challenges addressed to this device.
\<close>

section \<open>Reading a value\<close>

fun get_field :: "json \<Rightarrow> string \<Rightarrow> fault + json" where
  "get_field (JObj kvs) k = (case map_of kvs k of None \<Rightarrow> Inl KeyError | Some v \<Rightarrow> Inr v)"
| "get_field _ k = Inl TypeError"

fun get_num :: "json \<Rightarrow> fault + int" where
  "get_num (JInt n) = Inr n"
| "get_num (JBool b) = Inr (if b then 1 else 0)"
| "get_num _ = Inl TypeError"

lemma wp_field [wp_simps]:
  "wp (field j k) Q R s = (case get_field j k of Inl f \<Rightarrow> R f s | Inr v \<Rightarrow> Q v s)"
  by (cases j) (auto simp: wp_simps split: option.split)

lemma wp_num [wp_simps]:
  "wp (num j) Q R s = (case get_num j of Inl f \<Rightarrow> R f s | Inr v \<Rightarrow> Q v s)"
  by (cases j) (auto simp: wp_simps)

lemma wp_text_arg [wp_simps]:
  "wp (text_arg j) Q R s = (case j of JStr t \<Rightarrow> Q t s | _ \<Rightarrow> R TypeError s)"
  by (cases j) (auto simp: wp_simps text_arg_def)

lemma wp_raw_key [wp_simps]:
  "wp (raw_key k) Q R s = (case b64decode k of None \<Rightarrow> R ValueError s
     | Some raw \<Rightarrow> if length raw \<noteq> 32 then R ValueError s else Q raw s)"
  by (auto simp: wp_simps raw_key_def split: option.split)

lemma wp_clock [wp_simps]:
  "wp (clock e) Q R s = Q (time_at e (ag_reads s)) (s\<lparr>ag_reads := Suc (ag_reads s)\<rparr>)"
  by (simp add: wp_def clock_def)

lemma wp_any_of [wp_simps]:
  "wp (any_of []) Q R s = Q False s"
  "wp (any_of (t # ts)) Q R s = wp t (\<lambda>b u. if b then Q True u else wp (any_of ts) Q R u) R s"
proof -
  have "(\<lambda>b. wp (if b then ret True else any_of ts) Q R)
      = (\<lambda>b u. if b then Q True u else wp (any_of ts) Q R u)"
    by (simp add: fun_eq_iff wp_simps)
  then show "wp (any_of (t # ts)) Q R s = wp t (\<lambda>b u. if b then Q True u else wp (any_of ts) Q R u) R s"
    by (simp add: wp_andThen)
qed (simp add: wp_simps)

section \<open>The documents the agent accepts\<close>

definition has_value :: "json \<Rightarrow> string \<Rightarrow> json \<Rightarrow> bool" where
  "has_value p k v \<longleftrightarrow> (\<exists>x. get_field p k = Inr x \<and> py_eq x v)"

definition has_number :: "json \<Rightarrow> string \<Rightarrow> (int \<Rightarrow> bool) \<Rightarrow> bool" where
  "has_number p k t \<longleftrightarrow> (\<exists>x n. get_field p k = Inr x \<and> get_num x = Inr n \<and> t n)"

definition number_at :: "json \<Rightarrow> string \<Rightarrow> int" where
  "number_at p k = (case get_field p k of Inl _ \<Rightarrow> 0
     | Inr x \<Rightarrow> (case get_num x of Inl _ \<Rightarrow> 0 | Inr n \<Rightarrow> n))"

text \<open>A payload that entitles this device at time \<open>tick\<close>.\<close>

definition entitles ::
    "device_env \<Rightarrow> identity_request \<Rightarrow> json \<Rightarrow> json \<Rightarrow> int \<Rightarrow> json \<Rightarrow> bool" where
  "entitles e rq device_id last_clock tick p \<longleftrightarrow>
     has_value p ''v'' (JInt 1) \<and>
     has_value p ''aud'' (JStr ''kdx-infrabox-registration'') \<and>
     has_value p ''status'' (JStr ''ACTIVE'') \<and>
     has_value p ''serial'' (JStr (rq_serial rq)) \<and>
     has_value p ''installation_id'' (JStr (rq_installation_id rq)) \<and>
     has_value p ''key_hash'' (JStr (sha256_hex e (rq_public_key rq))) \<and>
     has_value p ''device_id'' device_id \<and>
     (\<exists>l. get_field p ''license_id'' = Inr (JStr l)) \<and>
     has_number p ''issued_at'' (\<lambda>n. n \<le> tick + 30) \<and>
     has_number p ''expires_at'' (\<lambda>n. tick < n) \<and>
     number_at p ''expires_at'' - number_at p ''issued_at'' \<le> 604800 \<and>
     (\<exists>n. get_num last_clock = Inr n \<and> n \<le> tick)"

text \<open>A document whose payload the holder of the pinned key signed.\<close>

definition signed_by :: "device_env \<Rightarrow> string \<Rightarrow> json \<Rightarrow> json \<Rightarrow> bool" where
  "signed_by e pinned doc p \<longleftrightarrow>
     (\<exists>pub text raw. get_field doc ''payload'' = Inr p \<and> b64decode pinned = Some pub \<and>
        length pub = 32 \<and> get_field doc ''signature'' = Inr (JStr text) \<and>
        b64decode text = Some raw \<and> check_signature e pub raw (canonical p))"

lemma document_faults_iff:
  "wp (document_faults e rq dev lc tick p) (\<lambda>bad t. \<not> bad \<and> Q t) (\<lambda>_ _. False) s
     \<longleftrightarrow> entitles e rq dev lc tick p \<and> Q s"
  unfolding document_faults_def entitles_def
  by (auto simp: wp_simps differs_def not_text_def number_test_def has_value_def has_number_def
      number_at_def not_less not_le split: sum.splits json.splits)

lemma verify_document_iff:
  "wp (verify_document e doc pinned rq dev lc) (\<lambda>p t. Q p t) (\<lambda>_ _. False) s \<longleftrightarrow>
     (\<exists>p. signed_by e pinned doc p \<and> entitles e rq dev lc (time_at e (ag_reads s)) p \<and>
        Q p (s\<lparr>ag_reads := Suc (ag_reads s)\<rparr>))"
proof -
  have "wp (andThen (document_faults e rq dev lc tick p) (\<lambda>bad.
          if bad then raise (Denied d) else ret p)) Q (\<lambda>_ _. False) t
      \<longleftrightarrow> entitles e rq dev lc tick p \<and> Q p t" for tick p d t
  proof -
    have "(\<lambda>bad. wp (if bad then raise (Denied d) else ret p) Q (\<lambda>_ _. False))
        = (\<lambda>bad t. \<not> bad \<and> Q p t)"
      by (simp add: fun_eq_iff wp_simps)
    then show ?thesis
      using document_faults_iff [of e rq dev lc tick p "Q p" t] by (simp add: wp_andThen)
  qed
  then show ?thesis
    unfolding verify_document_def signed_by_def
    by (auto simp: wp_simps split: sum.splits json.splits option.splits)
qed

text \<open>What \<open>verify_document\<close> returns is the payload of a document it accepts.\<close>

lemma verify_document_result:
  assumes "verify_document e doc pinned rq dev lc s = (Inr p, t)"
  shows "signed_by e pinned doc p \<and> entitles e rq dev lc (time_at e (ag_reads s)) p \<and>
    t = s\<lparr>ag_reads := Suc (ag_reads s)\<rparr>"
  using verify_document_iff [of e doc pinned rq dev lc "\<lambda>q u. q = p \<and> u = t" s] assms
  by (auto simp: wp_def)

lemma verify_document_accepts:
  assumes "signed_by e pinned doc p" and "entitles e rq dev lc (time_at e (ag_reads s)) p"
  shows "verify_document e doc pinned rq dev lc s = (Inr p, s\<lparr>ag_reads := Suc (ag_reads s)\<rparr>)"
  using verify_document_iff [of e doc pinned rq dev lc "\<lambda>q u. q = p \<and> u = s\<lparr>ag_reads := Suc (ag_reads s)\<rparr>" s]
    assms
  by (auto simp: wp_def split: prod.splits sum.splits)

section \<open>A logic for the runs of the agent\<close>

lemma safe_field [safe_rules]: "safe I (field j k)"
  by (simp add: safe_def wp_simps split: sum.split)

lemma safe_num [safe_rules]: "safe I (num j)"
  by (simp add: safe_def wp_simps split: sum.split)

lemma safe_text_arg [safe_rules]: "safe I (text_arg j)"
  by (simp add: safe_def wp_simps split: json.split)

lemma safe_raw_key [safe_rules]: "safe I (raw_key k)"
  by (simp add: safe_def wp_simps split: option.split)

lemma safe_uuid_arg [safe_rules]: "safe I (uuid_arg j)"
  unfolding uuid_arg_def by (cases j) (simp_all add: safe_rules)

lemma safe_any_of [safe_rules]:
  "safe I (any_of [])" "safe I t \<Longrightarrow> safe I (any_of ts) \<Longrightarrow> safe I (any_of (t # ts))"
  unfolding any_of.simps by (intro safe_rules; assumption)+

lemma safe_differs [safe_rules]: "safe I (differs p k v)"
  unfolding differs_def by (intro safe_rules)

lemma safe_document_faults [safe_rules]: "safe I (document_faults e rq dev lc tick p)"
  unfolding document_faults_def differs_def not_text_def number_test_def
  by (intro safe_rules)

lemma safe_challenge_faults [safe_rules]: "safe I (challenge_faults e rq pu ch tick v)"
  unfolding challenge_faults_def differs_def number_test_def short_nonce_def
  by (intro safe_rules)

text \<open>The steps that do change the agent.\<close>

definition reads_free :: "(agent \<Rightarrow> bool) \<Rightarrow> bool" where
  "reads_free I \<longleftrightarrow> (\<forall>s. I s \<longrightarrow> I (s\<lparr>ag_reads := Suc (ag_reads s)\<rparr>))"

definition sent_free :: "(agent \<Rightarrow> bool) \<Rightarrow> bool" where
  "sent_free I \<longleftrightarrow> (\<forall>s x. I s \<longrightarrow> I (s\<lparr>ag_sent := x\<rparr>))"

lemma safe_clock [safe_rules]: "reads_free I \<Longrightarrow> safe I (clock e)"
  by (simp add: safe_def wp_simps reads_free_def)

lemma safe_post [safe_rules]: "sent_free I \<Longrightarrow> safe I (post e path v)"
  by (auto simp: safe_def wp_def post_def sent_free_def Let_def split: sum.split)

lemma safe_transport [safe_rules]: "safe I (transport e c)"
  unfolding transport_def Let_def by (intro safe_rules)

lemma safe_verify_document [safe_rules]: "reads_free I \<Longrightarrow> safe I (verify_document e doc k rq dev lc)"
  unfolding verify_document_def by (intro safe_rules)

lemma wp_report [wp_simps]:
  "wp (report kvs) Q R s = Q () (s\<lparr>ag_report := dputs kvs (ag_report s)\<rparr>)"
  by (simp add: wp_def report_def)

lemma wp_save [wp_simps]:
  "wp (save_authorization d) Q R s = Q () (s\<lparr>ag_authorization := Some d\<rparr>)"
  by (simp add: wp_def save_authorization_def)

lemma wp_verify:
  assumes "\<And>p. signed_by e k doc p \<Longrightarrow> entitles e rq dev lc (time_at e (ag_reads s)) p \<Longrightarrow>
      Q p (s\<lparr>ag_reads := Suc (ag_reads s)\<rparr>)"
    and "\<And>f t. t = s \<or> t = s\<lparr>ag_reads := Suc (ag_reads s)\<rparr> \<Longrightarrow> R f t"
  shows "wp (verify_document e doc k rq dev lc) Q R s"
proof -
  let ?s = "s\<lparr>ag_reads := Suc (ag_reads s)\<rparr>"
  have "wp (andThen (field doc ''payload'') g) (\<lambda>_ t. t = ?s) (\<lambda>_ t. t = ?s) ?s"
    if "\<And>p. safe (\<lambda>t. t = ?s) (g p)" for g :: "json \<Rightarrow> json agent_prog"
    using safe_andThen [OF safe_field that, of doc "''payload''"] by (simp add: safe_def)
  then have "wp (verify_document e doc k rq dev lc) (\<lambda>_ t. t = ?s) (\<lambda>_ t. t = ?s) s"
    unfolding verify_document_def wp_andThen [of "clock e"] wp_clock by (simp add: safe_rules)
  note ends = this
  obtain x t where run: "verify_document e doc k rq dev lc s = (x, t)" by fastforce
  show ?thesis
  proof (cases x)
    case (Inl f)
    with ends run have "t = ?s" by (simp add: wp_def)
    with assms(2) run Inl show ?thesis by (simp add: wp_def)
  next
    case (Inr p)
    with run verify_document_result [of e doc k rq dev lc s p t] assms(1) show ?thesis
      by (simp add: wp_def)
  qed
qed

section \<open>Authorization\<close>

text \<open>
  A status that says \<open>authorized\<close> is justified: a document of the pinned key entitles this device at
  a time the run read that is not before the last clock \<open>lc\<close> it had stored, and the reported license
  is the one of that document.
\<close>

definition justified ::
    "client_config \<Rightarrow> device_env \<Rightarrow> identity_request \<Rightarrow> json \<Rightarrow> nat \<Rightarrow> (string \<times> json) list \<Rightarrow> bool" where
  "justified c e rq lc n r \<longleftrightarrow> (map_of r ''authorized'' = Some (JBool True) \<longrightarrow>
     (\<exists>doc p dev k l. n \<le> k \<and> signed_by e (server_public_key c) doc p \<and>
        entitles e rq dev lc (time_at e k) p \<and> get_field p ''license_id'' = Inr l \<and>
        map_of r ''license_id'' = Some l))"

definition sound ::
    "client_config \<Rightarrow> device_env \<Rightarrow> identity_request \<Rightarrow> json \<Rightarrow> nat \<Rightarrow> agent \<Rightarrow> bool" where
  "sound c e rq lc n s \<longleftrightarrow> n \<le> ag_reads s \<and> justified c e rq lc n (ag_report s)"

lemma sound_free [simp]: "reads_free (sound c e rq lc n)" "sent_free (sound c e rq lc n)"
  by (simp_all add: reads_free_def sent_free_def sound_def)

lemma map_of_dputs_other: "k \<notin> fst ` set kvs \<Longrightarrow> map_of (dputs kvs r) k = map_of r k"
  unfolding dputs_def by (induction kvs arbitrary: r) (auto simp: map_of_dput)

lemma justified_update:
  assumes "justified c e rq lc n r" and "''authorized'' \<notin> fst ` set kvs" and "''license_id'' \<notin> fst ` set kvs"
  shows "justified c e rq lc n (dputs kvs r)"
  using assms(1)
  unfolding justified_def map_of_dputs_other [OF assms(2)] map_of_dputs_other [OF assms(3)] .

lemma safe_report:
  "''authorized'' \<notin> fst ` set kvs \<Longrightarrow> ''license_id'' \<notin> fst ` set kvs \<Longrightarrow>
     safe (sound c e rq lc n) (report kvs)"
  by (simp add: safe_def wp_simps sound_def justified_update)

lemma safe_save [safe_rules]: "safe (sound c e rq lc n) (save_authorization d)"
  by (simp add: safe_def wp_simps sound_def)

lemma safe_sign: "safe (sound c e rq lc n) (sign_message e' m)"
  by (simp add: safe_def wp_def sign_message_def sound_def)

lemma safe_prove: "safe (sound c e rq lc n) (prove_identity e' rq' token)"
  unfolding prove_identity_def by (intro safe_rules safe_sign sound_free)

text \<open>The two places that report \<open>authorized\<close> do so right after the document was verified.\<close>

lemma safe_verified:
  assumes "\<And>p l x u. sound c e rq lc n u \<Longrightarrow> signed_by e (server_public_key c) doc p \<Longrightarrow>
      (\<exists>k \<ge> n. entitles e rq dev lc (time_at e k) p) \<Longrightarrow>
      wp (g p) (\<lambda>_. sound c e rq lc n) (\<lambda>_. sound c e rq lc n) u"
  shows "safe (sound c e rq lc n)
     (andThen (verify_document e doc (server_public_key c) rq dev lc) g)"
  unfolding safe_def wp_andThen
proof (intro allI impI wp_verify)
  fix s p assume "sound c e rq lc n s" and "signed_by e (server_public_key c) doc p"
    and "entitles e rq dev lc (time_at e (ag_reads s)) p"
  moreover from this(1) have "sound c e rq lc n (s\<lparr>ag_reads := Suc (ag_reads s)\<rparr>)" "n \<le> ag_reads s"
    by (simp_all add: sound_def)
  ultimately show "wp (g p) (\<lambda>_. sound c e rq lc n) (\<lambda>_. sound c e rq lc n) (s\<lparr>ag_reads := Suc (ag_reads s)\<rparr>)"
    by (intro assms) auto
qed (auto simp: sound_def)

lemma sound_granted:
  assumes "sound c e rq lc n u" and "signed_by e (server_public_key c) doc p"
    and "\<exists>k \<ge> n. entitles e rq dev lc (time_at e k) p"
    and "get_field p ''license_id'' = Inr l" and "map_of (rev kvs) ''license_id'' = Some l"
    and "v = u\<lparr>ag_report := dputs kvs r\<rparr>"
  shows "sound c e rq lc n v"
proof -
  have "map_of (dputs kvs r) ''license_id'' = Some l"
    using assms(5) by (simp add: map_of_dputs)
  with assms(2-4) have "justified c e rq lc n (dputs kvs r)"
    unfolding justified_def by blast
  with assms(1,6) show ?thesis by (simp add: sound_def)
qed

lemma safe_grant: "safe (sound c e rq (dget cache ''last_clock'' (JInt 0)) n) (grant c e rq cache tick dev result)"
  unfolding grant_def
proof (intro safe_andThen [OF safe_field] safe_verified)
  fix doc p u
  assume "sound c e rq (dget cache ''last_clock'' (JInt 0)) n u" "signed_by e (server_public_key c) doc p"
    "\<exists>k \<ge> n. entitles e rq (JStr dev) (dget cache ''last_clock'' (JInt 0)) (time_at e k) p"
  note got = this
  have "sound c e rq (dget cache ''last_clock'' (JInt 0)) n (u\<lparr>ag_authorization := d\<rparr>)" for d
    using got(1) by (simp add: sound_def)
  then show "wp (andThen (save_authorization [(''document'', doc), (''device_id'', JStr dev),
        (''last_clock'', JInt tick), (''denied'', JBool False)]) (\<lambda>_.
      andThen (field p ''license_id'') (\<lambda>l. andThen (field p ''expires_at'') (\<lambda>x.
        report [(''authorized'', JBool True), (''license_id'', l),
          (''authorization_expires_at'', x)])))) (\<lambda>_. sound c e rq (dget cache ''last_clock'' (JInt 0)) n) (\<lambda>_. sound c e rq (dget cache ''last_clock'' (JInt 0)) n) u"
    by (auto simp: wp_simps intro!: sound_granted [OF _ got(2,3) _ _ refl] split: sum.split)
qed

lemma safe_offline_grant: "safe (sound c e rq (dget cache ''last_clock'' (JInt 0)) n) (offline_grant c e rq cache tick)"
  unfolding offline_grant_def
proof (intro safe_andThen [OF safe_need] safe_verified)
  fix doc dev p u
  assume "sound c e rq (dget cache ''last_clock'' (JInt 0)) n u" "signed_by e (server_public_key c) doc p"
    "\<exists>k \<ge> n. entitles e rq dev (dget cache ''last_clock'' (JInt 0)) (time_at e k) p"
  note got = this
  have saved: "sound c e rq (dget cache ''last_clock'' (JInt 0)) n (v\<lparr>ag_authorization := d\<rparr>)" if "sound c e rq (dget cache ''last_clock'' (JInt 0)) n v" for d v
    using that by (simp add: sound_def)
  show "wp (andThen (field p ''license_id'') (\<lambda>l. andThen (field p ''expires_at'') (\<lambda>x.
      andThen (report [(''status'', JStr ''ACTIVE''), (''mode'', JStr ''offline-grace''),
        (''authorized'', JBool True), (''device_id'', dev), (''license_id'', l),
        (''authorization_expires_at'', x)]) (\<lambda>_.
       save_authorization (dput ''last_clock'' (JInt tick) cache)))))
      (\<lambda>_. sound c e rq (dget cache ''last_clock'' (JInt 0)) n) (\<lambda>_. sound c e rq (dget cache ''last_clock'' (JInt 0)) n) u"
    using got(1) by (auto simp: wp_simps intro!: saved sound_granted [OF got _ _ refl] split: sum.split)
qed

lemma safe_online: "safe (sound c e rq (dget cache ''last_clock'' (JInt 0)) n) (online c e rq cache tick token)"
  unfolding online_def by (intro safe_rules safe_prove safe_grant safe_report sound_free) simp_all

lemma safe_offline: "safe (sound c e rq (dget cache ''last_clock'' (JInt 0)) n) (offline c e rq cache tick token)"
  unfolding offline_def by (intro safe_rules safe_offline_grant safe_report) simp_all

lemma safe_denied: "safe (sound c e rq lc n) (denied tick f)"
  unfolding denied_def Let_def by (intro safe_rules safe_report) simp_all

lemma first_report_unauthorized: "map_of (first_report c rq tick) ''authorized'' = Some (JBool False)"
  by (simp add: first_report_def request_fields_def)

lemma publish_keeps: "publish c s = (Inr (), t) \<Longrightarrow>
    ag_report t = dput ''transport'' (JStr (if startswith (server_url c) ''https://'' then ''https''
                                       else ''lab-http'')) (ag_report s) \<and> ag_reads t = ag_reads s \<and>
    ag_authorization t = ag_authorization s \<and> ag_signed t = ag_signed s"
  by (auto simp: publish_def Let_def)

lemma synchronize_session:
  assumes "synchronize c e rq token s = (Inr r, t)"
  obtains u v where
    "session c e rq (case ag_authorization s of None \<Rightarrow> [] | Some d \<Rightarrow> d) (time_at e (ag_reads s)) token
       (s\<lparr>ag_reads := Suc (ag_reads s), ag_report := first_report c rq (time_at e (ag_reads s))\<rparr>)
       = (Inr (), u)"
    and "publish c u = (Inr (), t)" and "r = ag_report t"
  using assms
  by (auto simp: synchronize_def andThen_def clock_def split: prod.splits sum.splits)

lemma safe_session: "safe (sound c e rq (dget cache ''last_clock'' (JInt 0)) n) (session c e rq cache tick token)"
  unfolding session_def
  by (intro safe_rules safe_online safe_offline safe_denied)

text \<open>The clock a previous run stored.\<close>

definition last_clock_of :: "agent \<Rightarrow> json" where
  "last_clock_of s =
     dget (case ag_authorization s of None \<Rightarrow> [] | Some d \<Rightarrow> d) ''last_clock'' (JInt 0)"

lemma run_authorized:
  assumes run: "synchronize c e rq token s = (Inr r, t)"
  shows "justified c e rq (last_clock_of s) (ag_reads s) r"
proof -
  from run obtain u where u:
    "session c e rq (case ag_authorization s of None \<Rightarrow> [] | Some d \<Rightarrow> d) (time_at e (ag_reads s)) token
       (s\<lparr>ag_reads := Suc (ag_reads s), ag_report := first_report c rq (time_at e (ag_reads s))\<rparr>)
       = (Inr (), u)" and t: "publish c u = (Inr (), t)" "r = ag_report t"
    by (rule synchronize_session)
  have "sound c e rq (last_clock_of s) (ag_reads s)
      (s\<lparr>ag_reads := Suc (ag_reads s), ag_report := first_report c rq (time_at e (ag_reads s))\<rparr>)"
    by (simp add: sound_def justified_def first_report_unauthorized)
  note start = this
  have "wp (session c e rq (case ag_authorization s of None \<Rightarrow> [] | Some d \<Rightarrow> d) (time_at e (ag_reads s)) token)
      (\<lambda>_. sound c e rq (last_clock_of s) (ag_reads s)) (\<lambda>_. sound c e rq (last_clock_of s) (ag_reads s))
      (s\<lparr>ag_reads := Suc (ag_reads s), ag_report := first_report c rq (time_at e (ag_reads s))\<rparr>)"
    unfolding last_clock_of_def
    by (rule safe_session [unfolded safe_def, rule_format]) (rule start [unfolded last_clock_of_def])
  from wp_Inr [OF this u] have "sound c e rq (last_clock_of s) (ag_reads s) u" .
  then have "justified c e rq (last_clock_of s) (ag_reads s) (dputs [(''transport'', j)] (ag_report u))" for j
    unfolding sound_def by (intro justified_update) simp_all
  then show ?thesis
    using publish_keeps [OF t(1)] t(2) by (simp add: dputs_def)
qed

section \<open>Denials\<close>

text \<open>After a run that reached the server, the stored authorization is a denial or was just granted.\<close>

definition settled :: "int \<Rightarrow> agent \<Rightarrow> bool" where
  "settled tick s \<longleftrightarrow> (map_of (ag_report s) ''mode'' = Some (JStr ''online'') \<longrightarrow>
     map_of (ag_report s) ''authorized'' = Some (JBool True) \<or>
     ag_authorization s = Some (denial_record tick))"

lemma grant_settles: "wp (grant c e rq cache tick dev result) (\<lambda>_. settled tick) (\<lambda>_ _. True) s"
  unfolding grant_def
  by (intro wp_skip) (simp add: wp_simps settled_def map_of_dputs)

lemma online_settles: "wp (online c e rq cache tick token) (\<lambda>_. settled tick) (\<lambda>_ _. True) s"
  unfolding online_def
  by (intro wp_skip) (auto simp: wp_if wp_save settled_def grant_settles)

lemma offline_mode:
  "wp (offline c e rq cache tick token)
     (\<lambda>_ t. map_of (ag_report t) ''mode'' \<noteq> Some (JStr ''online'')) (\<lambda>_ _. True) s"
proof -
  let ?I = "\<lambda>t. map_of (ag_report t) ''mode'' \<noteq> Some (JStr ''online'')"
  have moded: "safe ?I (report kvs)"
    if "map_of (rev kvs) ''mode'' = Some m" "m \<noteq> JStr ''online''" for kvs m
    using that by (simp add: safe_def wp_simps map_of_dputs)
  have other: "safe ?I (report kvs)" if "''mode'' \<notin> fst ` set kvs" for kvs
    using that by (simp add: safe_def wp_simps map_of_dputs_other)
  have saved: "safe ?I (save_authorization d)" for d
    by (simp add: safe_def wp_simps)
  have "reads_free ?I" by (simp add: reads_free_def)
  then have "safe ?I (if b then handling (offline_grant c e rq cache tick) (\<lambda>f.
      if recoverable f then report [(''error'', JStr ''OFFLINE_AUTHORIZATION_INVALID_OR_EXPIRED'')]
      else raise f) else ret ())" for b
    unfolding offline_grant_def
    by (intro safe_rules saved moded [of _ "JStr ''offline-grace''"] other) simp_all
  then have "wp (offline c e rq cache tick token) (\<lambda>_. ?I) (\<lambda>_. ?I) s"
    unfolding offline_def wp_andThen wp_report by (simp only: safe_def) (simp add: map_of_dputs)
  then show ?thesis by (rule wp_mono) simp_all
qed

lemma wp_denied:
  "wp (denied tick f) (\<lambda>_. settled tick) (\<lambda>_ _. True) s"
  unfolding denied_def Let_def
  by (auto simp: wp_simps settled_def)

lemma session_settles:
  "wp (session c e rq cache tick token) (\<lambda>_. settled tick) (\<lambda>_ _. True) s"
proof -
  have "wp (offline c e rq cache tick token) (\<lambda>_. settled tick) (\<lambda>_ _. True) u" for u
    using offline_mode by (rule wp_mono) (simp_all add: settled_def)
  then have "wp (if f = Unavailable then offline c e rq cache tick token
        else if recoverable f then denied tick f else raise f) (\<lambda>_. settled tick) (\<lambda>_ _. True) u" for f u
    by (simp add: wp_simps wp_denied)
  then show ?thesis
    unfolding session_def wp_handling by (intro wp_mono [OF online_settles])
qed

lemma run_settles:
  assumes run: "synchronize c e rq token s = (Inr r, t)"
    and "map_of r ''mode'' = Some (JStr ''online'')" and "map_of r ''authorized'' \<noteq> Some (JBool True)"
  shows "ag_authorization t = Some (denial_record (time_at e (ag_reads s)))"
proof -
  from run obtain u where u:
    "session c e rq (case ag_authorization s of None \<Rightarrow> [] | Some d \<Rightarrow> d) (time_at e (ag_reads s)) token
       (s\<lparr>ag_reads := Suc (ag_reads s), ag_report := first_report c rq (time_at e (ag_reads s))\<rparr>)
       = (Inr (), u)" and t: "publish c u = (Inr (), t)" "r = ag_report t"
    by (rule synchronize_session)
  from wp_Inr [OF session_settles u] have "settled (time_at e (ag_reads s)) u" .
  with publish_keeps [OF t(1)] t(2) assms(2,3) show ?thesis
    by (simp add: settled_def map_of_dput)
qed

text \<open>A stored denial keeps a run that does not reach the server unauthorized.\<close>

definition unauthorized :: "agent \<Rightarrow> bool" where
  "unauthorized s \<longleftrightarrow> map_of (ag_report s) ''authorized'' = Some (JBool False)"

lemma unauthorized_free [simp]: "reads_free unauthorized" "sent_free unauthorized"
  by (simp_all add: reads_free_def sent_free_def unauthorized_def)

lemma unauthorized_report: "''authorized'' \<notin> fst ` set kvs \<Longrightarrow> safe unauthorized (report kvs)"
  by (simp add: safe_def wp_simps unauthorized_def map_of_dputs_other)

lemma unauthorized_save: "safe unauthorized (save_authorization d)"
  by (simp add: safe_def wp_simps unauthorized_def)

lemma unauthorized_sign: "safe unauthorized (sign_message e m)"
  by (simp add: safe_def wp_def sign_message_def unauthorized_def)

lemma unauthorized_prove: "safe unauthorized (prove_identity e rq token)"
  unfolding prove_identity_def by (intro safe_rules unauthorized_sign unauthorized_free)

definition reported_online :: "agent \<Rightarrow> bool" where
  "reported_online s \<longleftrightarrow> map_of (ag_report s) ''mode'' = Some (JStr ''online'')"

lemma grant_fails_unauthorized:
  assumes "unauthorized s" and "reported_online s"
  shows "wp (grant c e rq cache tick dev result) (\<lambda>_. reported_online) (\<lambda>_. unauthorized) s"
proof -
  let ?I = "\<lambda>t. unauthorized t \<and> reported_online t"
  have "reads_free ?I" "safe ?I (save_authorization d)" for d
    by (simp_all add: reads_free_def safe_def wp_simps unauthorized_def reported_online_def)
  then have "wp (grant c e rq cache tick dev result) (\<lambda>_. reported_online) (\<lambda>_. ?I) s"
    unfolding grant_def using assms
    by (intro wp_part safe_rules)
      (simp_all add: wp_simps reported_online_def map_of_dputs)
  then show ?thesis by (rule wp_mono) simp_all
qed

lemma concluding_fails_unauthorized:
  assumes "unauthorized s"
  shows "wp (andThen (report [(''status'', st), (''mode'', JStr ''online'')]) (\<lambda>_.
       if st = JStr ''ACTIVE'' then grant c e rq cache tick dev result
       else save_authorization (denial_record tick))) (\<lambda>_. reported_online) (\<lambda>_. unauthorized) s"
proof -
  have "unauthorized (s\<lparr>ag_report := dputs [(''status'', st), (''mode'', JStr ''online'')] (ag_report s)\<rparr>)"
    "reported_online (s\<lparr>ag_report := dputs [(''status'', st), (''mode'', JStr ''online'')] (ag_report s)\<rparr>)"
    using assms by (simp_all add: unauthorized_def reported_online_def map_of_dputs)
  note ends = this
  show ?thesis
    using grant_fails_unauthorized [OF ends] ends(2)
    by (cases "st = JStr ''ACTIVE''")
      (simp_all add: wp_andThen wp_report wp_save reported_online_def)
qed

lemma online_fails_unauthorized:
  assumes "unauthorized s"
  shows "wp (online c e rq cache tick token) (\<lambda>_. reported_online) (\<lambda>_. unauthorized) s"
  unfolding online_def
  by (intro concluding_fails_unauthorized wp_part [where I = unauthorized] safe_rules
      unauthorized_prove unauthorized_report unauthorized_free assms) simp_all

lemma offline_refused:
  assumes "truthy (dget cache ''denied'' JNull)" and "unauthorized s"
  shows "wp (offline c e rq cache tick token) (\<lambda>_. unauthorized) R s"
  unfolding offline_def using assms by (simp add: wp_simps unauthorized_def map_of_dputs)

lemma denied_online: "wp (denied tick f) (\<lambda>_. reported_online) R s"
  unfolding denied_def Let_def by (auto simp: wp_simps reported_online_def map_of_dputs)

lemma session_refused:
  assumes "truthy (dget cache ''denied'' JNull)" and "unauthorized s"
  shows "wp (session c e rq cache tick token) (\<lambda>_ t. reported_online t \<or> unauthorized t)
     (\<lambda>_ _. True) s"
proof -
  let ?Q = "\<lambda>_ t. reported_online t \<or> unauthorized t"
  have "wp (if f = Unavailable then offline c e rq cache tick token
        else if recoverable f then denied tick f else raise f) ?Q (\<lambda>_ _. True) u"
    if "unauthorized u" for f u
    using that assms(1)
    by (auto simp: wp_simps intro: wp_mono [OF offline_refused [where R = "\<lambda>_ _. True"]]
        wp_mono [OF denied_online [where R = "\<lambda>_ _. True"]])
  then show ?thesis
    unfolding session_def wp_handling
    by (intro wp_mono [OF online_fails_unauthorized [OF assms(2)]]) simp_all
qed

lemma run_refused:
  assumes run: "synchronize c e rq token s = (Inr r, t)"
    and "ag_authorization s = Some d" and "truthy (dget d ''denied'' JNull)"
    and "map_of r ''mode'' \<noteq> Some (JStr ''online'')"
  shows "map_of r ''authorized'' = Some (JBool False)"
proof -
  from run obtain u where u:
    "session c e rq (case ag_authorization s of None \<Rightarrow> [] | Some d \<Rightarrow> d) (time_at e (ag_reads s)) token
       (s\<lparr>ag_reads := Suc (ag_reads s), ag_report := first_report c rq (time_at e (ag_reads s))\<rparr>)
       = (Inr (), u)" and t: "publish c u = (Inr (), t)" "r = ag_report t"
    by (rule synchronize_session)
  have "reported_online u \<or> unauthorized u"
    by (rule wp_Inr [OF session_refused u])
      (simp_all add: assms(2,3) unauthorized_def first_report_unauthorized)
  with publish_keeps [OF t(1)] t(2) assms(4) show ?thesis
    by (simp add: reported_online_def unauthorized_def map_of_dput)
qed

section \<open>Signatures\<close>

text \<open>A challenge of the protocol for this device, this purpose and this moment.\<close>

definition addressed :: "device_env \<Rightarrow> identity_request \<Rightarrow> string \<Rightarrow> int \<Rightarrow> json \<Rightarrow> bool" where
  "addressed e rq purpose tick v \<longleftrightarrow>
     has_value v ''aud'' (JStr ''kdx-infrabox-registration'') \<and>
     has_value v ''v'' (JInt 1) \<and>
     has_value v ''purpose'' (JStr purpose) \<and>
     has_value v ''serial'' (JStr (rq_serial rq)) \<and>
     has_value v ''installation_id'' (JStr (rq_installation_id rq)) \<and>
     has_value v ''key_hash'' (JStr (sha256_hex e (rq_public_key rq))) \<and>
     has_number v ''expires_at'' (\<lambda>n. tick \<le> n \<and> n \<le> tick + 300) \<and>
     (\<exists>x. get_field v ''nonce'' = Inr (JStr x) \<and> 32 \<le> length x)"

lemma challenge_faults_result:
  "wp (challenge_faults e rq purpose ch tick v) (\<lambda>bad t. t = s \<and> (\<not> bad \<longrightarrow> addressed e rq purpose tick v))
     (\<lambda>_ t. t = s) s"
  unfolding challenge_faults_def addressed_def
  by (auto simp: wp_simps differs_def short_nonce_def number_test_def has_value_def has_number_def
      split: sum.splits json.splits)

definition signs_own :: "device_env \<Rightarrow> identity_request \<Rightarrow> string \<Rightarrow> string list \<Rightarrow> nat \<Rightarrow> agent \<Rightarrow> bool" where
  "signs_own e rq purpose old n s \<longleftrightarrow> n \<le> ag_reads s \<and> (\<exists>new. ag_signed s = old @ new \<and>
     (\<forall>m \<in> set new. \<exists>v k. n \<le> k \<and> loads e m = Some v \<and> addressed e rq purpose (time_at e k) v))"

lemma signs_own_free [simp]:
  "reads_free (signs_own e rq p old n)" "sent_free (signs_own e rq p old n)"
  by (simp_all add: reads_free_def sent_free_def signs_own_def)

lemma signs_own_report: "safe (signs_own e rq p old n) (report kvs)"
  by (simp add: safe_def wp_simps signs_own_def)

lemma signs_own_save: "safe (signs_own e rq p old n) (save_authorization d)"
  by (simp add: safe_def wp_simps signs_own_def)

lemma signs_own_sign:
  assumes "loads e m = Some v" and "addressed e rq p (time_at e k) v" and "n \<le> k"
  shows "safe (signs_own e rq p old n) (sign_message e m)"
proof -
  have "signs_own e rq p old n (s\<lparr>ag_signed := ag_signed s @ [m]\<rparr>)"
    if s: "signs_own e rq p old n s" for s
  proof -
    from s obtain new where "ag_signed s = old @ new" "n \<le> ag_reads s"
      "\<forall>m \<in> set new. \<exists>v k. n \<le> k \<and> loads e m = Some v \<and> addressed e rq p (time_at e k) v"
      by (auto simp: signs_own_def)
    with assms show ?thesis
      unfolding signs_own_def by (intro conjI exI [of _ "new @ [m]"]) auto
  qed
  then show ?thesis by (simp add: safe_def wp_def sign_message_def)
qed

lemma safe_need_value:
  "(\<And>a. x = Some a \<Longrightarrow> safe I (f a)) \<Longrightarrow> safe I (andThen (need x e) f)"
  by (cases x) (simp_all add: need_def safe_raise)

lemma signs_own_checked:
  assumes f: "\<And>k. n \<le> k \<Longrightarrow> addressed e rq p (time_at e k) v \<Longrightarrow> safe (signs_own e rq p old n) f"
  shows "safe (signs_own e rq p old n)
     (andThen (clock e) (\<lambda>tick. andThen (challenge_faults e rq p ch tick v) (\<lambda>bad.
        andThen (require (\<not> bad) x) (\<lambda>_. f))))"
  unfolding safe_def
proof (intro allI impI)
  fix s assume s: "signs_own e rq p old n s"
  let ?k = "ag_reads s" and ?s = "s\<lparr>ag_reads := Suc (ag_reads s)\<rparr>"
  have "n \<le> ?k" using s by (simp add: signs_own_def)
  have own: "signs_own e rq p old n ?s" using s by (simp add: signs_own_def)
  have "wp (andThen (require (\<not> bad) x) (\<lambda>_. f))
      (\<lambda>_. signs_own e rq p old n) (\<lambda>_. signs_own e rq p old n) t"
    if "t = ?s \<and> (\<not> bad \<longrightarrow> addressed e rq p (time_at e ?k) v)" for bad t
    using that own f [OF \<open>n \<le> ?k\<close>] by (cases bad) (simp_all add: wp_simps safe_def)
  then show "wp (andThen (clock e) (\<lambda>tick. andThen (challenge_faults e rq p ch tick v) (\<lambda>bad.
        andThen (require (\<not> bad) x) (\<lambda>_. f))))
      (\<lambda>_. signs_own e rq p old n) (\<lambda>_. signs_own e rq p old n) s"
    unfolding wp_andThen wp_clock
    by (intro wp_mono [OF challenge_faults_result]) (simp_all add: wp_andThen own)
qed

lemma signs_own_prove: "safe (signs_own e rq (purpose_of token) old n) (prove_identity e rq token)"
  unfolding prove_identity_def
proof (intro safe_andThen [OF safe_post [OF signs_own_free(2)]] safe_andThen [OF safe_field]
    safe_andThen [OF safe_text_arg] safe_need_value signs_own_checked safe_andThen [OF safe_require])
  fix ch m message v k i
  assume "loads e message = Some v" "n \<le> k" "addressed e rq (purpose_of token) (time_at e k) v"
  note signed = signs_own_sign [OF this(1,3,2)]
  show "safe (signs_own e rq (purpose_of token) old n)
      (andThen (sign_message e message) (\<lambda>sg.
         post e (proof_path token) (JObj ([(''challenge_id'', i), (''signature'', JStr (b64encode sg))]
                @ token_field token))))"
    by (intro safe_rules signs_own_free signed)
qed

lemmas signs_own_rules = signs_own_prove signs_own_report signs_own_save signs_own_free

lemma signs_own_session: "safe (signs_own e rq (purpose_of token) old n) (session c e rq cache tick token)"
  unfolding session_def online_def grant_def offline_def offline_grant_def denied_def Let_def
  by (intro safe_rules signs_own_rules)

lemma run_signs:
  assumes run: "synchronize c e rq token s = (x, t)"
  shows "signs_own e rq (purpose_of token) (ag_signed s) (ag_reads s) t"
proof -
  let ?I = "signs_own e rq (purpose_of token) (ag_signed s) (ag_reads s)"
  have start: "safe ?I (\<lambda>u. (Inr (f u), u))" for f
    by (simp add: safe_def wp_def)
  have set_report: "safe ?I (\<lambda>u. (Inr (), u\<lparr>ag_report := r\<rparr>))" for r
    by (simp add: safe_def wp_def signs_own_def)
  have published: "safe ?I (publish c)"
    by (simp add: safe_def wp_def publish_def Let_def signs_own_def)
  have "safe ?I (synchronize c e rq token)"
    unfolding synchronize_def
    by (intro safe_rules start set_report published signs_own_session signs_own_free)
  moreover have "?I s" by (simp add: signs_own_def)
  ultimately have "wp (synchronize c e rq token) (\<lambda>_. ?I) (\<lambda>_. ?I) s"
    unfolding safe_def by blast
  with run show ?thesis
    by (cases x) (simp_all add: wp_def)
qed

section \<open>Faults\<close>

lemma fails_steps [fail_rules]:
  "fails_in F (clock e)" "fails_in F (report kvs)" "fails_in F (save_authorization d)"
  "fails_in F (sign_message e m)" "fails_in F (publish c)"
  by (simp_all add: fails_in_def wp_simps)
    (simp_all add: wp_def sign_message_def publish_def Let_def)

lemma fails_field [fail_rules]: "F KeyError \<Longrightarrow> F TypeError \<Longrightarrow> fails_in F (field j k)"
  by (cases j) (auto intro: fail_rules)

lemma fails_num [fail_rules]: "F TypeError \<Longrightarrow> fails_in F (num j)"
  by (cases j) (auto intro: fail_rules)

lemma fails_text_arg [fail_rules]: "F TypeError \<Longrightarrow> fails_in F (text_arg j)"
  by (cases j) (auto simp: text_arg_def intro: fail_rules)

lemma fails_raw_key [fail_rules]: "F ValueError \<Longrightarrow> fails_in F (raw_key k)"
  by (simp add: raw_key_def fail_rules split: option.split)

lemma fails_any_of [fail_rules]:
  "fails_in F (any_of [])" "fails_in F t \<Longrightarrow> fails_in F (any_of ts) \<Longrightarrow> fails_in F (any_of (t # ts))"
  unfolding any_of.simps by (intro fail_rules; assumption)+

lemma fails_document_faults [fail_rules]:
  "F KeyError \<Longrightarrow> F TypeError \<Longrightarrow> fails_in F (document_faults e rq dev lc tick p)"
  unfolding document_faults_def differs_def not_text_def number_test_def by (intro fail_rules)

lemma fails_challenge_faults [fail_rules]:
  "F KeyError \<Longrightarrow> F TypeError \<Longrightarrow> fails_in F (challenge_faults e rq pu ch tick v)"
  unfolding challenge_faults_def differs_def number_test_def short_nonce_def by (intro fail_rules)

text \<open>The exceptions that \<open>synchronize\<close> has no handler for.\<close>

definition unhandled :: "fault \<Rightarrow> bool" where
  "unhandled f \<longleftrightarrow> f = AttributeError \<or> f = IndexError \<or> (\<exists>x. f = Other_error x)"

lemma unhandled_simps [simp]:
  "unhandled AttributeError" "unhandled IndexError" "unhandled (Other_error x)"
  "\<not> unhandled Unavailable" "\<not> unhandled KeyError"
  "\<not> unhandled ValueError" "\<not> unhandled TypeError" "\<not> unhandled InvalidSignature" "\<not> unhandled (Denied d)"
  by (simp_all add: unhandled_def)

lemma recoverable_handled: "recoverable f \<longleftrightarrow> f \<noteq> Unavailable \<and> \<not> unhandled f"
  by (cases f) (simp_all add: recoverable_def)

lemma http_denial_handled: "\<not> unhandled (http_denial j)"
  by (cases j rule: http_denial.cases) (auto split: json.split)

text \<open>What may end a part of a run: an exception that is handled, or one that a reply of the network raised.\<close>

definition from_network :: "device_env \<Rightarrow> fault \<Rightarrow> bool" where
  "from_network e f \<longleftrightarrow> (unhandled f \<longrightarrow> (\<exists>x sent. f = Other_error x \<and> network e sent = Reply_raises x) \<or>
     (\<exists>m. f = Other_error ''RecursionError'' \<and> too_deep e m))"

lemma from_network_simps [simp]:
  "from_network e Unavailable" "from_network e KeyError" "from_network e ValueError" "from_network e TypeError"
  "from_network e InvalidSignature" "from_network e (Denied d)"
  by (simp_all add: from_network_def)

lemma fails_post [fail_rules]: "fails_in (from_network e) (post e path v)"
  using http_denial_handled
  by (auto simp: fails_in_def wp_def post_def Let_def reply_value_def from_network_def
      split: reply.split option.split)

lemma fails_verify [fail_rules]:
  "F KeyError \<Longrightarrow> F TypeError \<Longrightarrow> F ValueError \<Longrightarrow> F InvalidSignature \<Longrightarrow> (\<And>d. F (Denied d)) \<Longrightarrow>
     fails_in F (verify_document e doc k rq dev lc)"
  unfolding verify_document_def by (intro fail_rules; assumption)

lemma fails_nested [fail_rules]:
  "fails_in (from_network e) (require (\<not> too_deep e m) (Other_error ''RecursionError''))"
  by (auto simp: fails_in_def wp_simps from_network_def)

lemma fails_prove [fail_rules]: "fails_in (from_network e) (prove_identity e rq token)"
  unfolding prove_identity_def by (intro fails_nested fail_rules) simp_all

lemma fails_grant [fail_rules]: "fails_in (\<lambda>f. \<not> unhandled f) (grant c e rq cache tick dev result)"
  unfolding grant_def by (intro fail_rules) simp_all

lemma fails_uuid_arg: "fails_in (\<lambda>f. f = AttributeError \<or> from_network e f) (uuid_arg j)"
  by (cases j) (auto simp: uuid_arg_def intro: fail_rules)

lemma fails_transport: "fails_in (from_network e) (transport e c)"
  unfolding transport_def Let_def by (auto intro!: fail_rules split: option.split)

lemma fails_offline: "fails_in F (offline c e rq cache tick token)"
proof -
  have "fails_in recoverable (offline_grant c e rq cache tick)"
    unfolding offline_grant_def by (intro fail_rules) (simp_all add: recoverable_handled)
  note granted = fails_handling [OF this]
  have "fails_in F (if recoverable f then report kvs else raise f)" if "recoverable f" for f kvs
    by (simp add: that fail_rules)
  note handled = this
  show ?thesis
    unfolding offline_def by (intro handled granted fail_rules)
qed

lemma fails_denied: "fails_in F (denied tick f)"
  unfolding denied_def Let_def by (intro fail_rules)

definition same_files :: "agent \<Rightarrow> agent \<Rightarrow> bool" where
  "same_files s t \<longleftrightarrow> ag_authorization t = ag_authorization s \<and> ag_status t = ag_status s \<and>
     ag_public t = ag_public s"

text \<open>Where a run ends in an exception that is not handled, it has written nothing yet.\<close>

definition lost :: "device_env \<Rightarrow> agent \<Rightarrow> fault \<Rightarrow> agent \<Rightarrow> bool" where
  "lost e s f t \<longleftrightarrow> (unhandled f \<longrightarrow> same_files s t \<and> (f = AttributeError \<or> from_network e f))"

lemma lost_prefix:
  assumes "safe (same_files s0) m" and "fails_in (\<lambda>f. f = AttributeError \<or> from_network e f) m" and "same_files s0 s"
    and "\<And>a t. same_files s0 t \<Longrightarrow> wp (f a) (\<lambda>_ _. True) (lost e s0) t"
  shows "wp (andThen m f) (\<lambda>_ _. True) (lost e s0) s"
proof -
  have "wp m (\<lambda>_ t. same_files s0 t \<and> True) (\<lambda>f t. same_files s0 t \<and> (f = AttributeError \<or> from_network e f)) s"
    unfolding wp_conj using assms(1,2,3) by (simp add: safe_def fails_in_def)
  then show ?thesis
    unfolding wp_andThen by (rule wp_mono) (use assms(4) in \<open>auto simp: lost_def\<close>)
qed

lemma fails_may: "fails_in (from_network e) m \<Longrightarrow> fails_in (\<lambda>f. f = AttributeError \<or> from_network e f) m"
  unfolding fails_in_def by (blast intro: wp_mono)

lemma same_files_free: "sent_free (same_files s)" "reads_free (same_files s)"
  by (simp_all add: sent_free_def reads_free_def same_files_def)

lemma same_files_steps: "safe (same_files s) (report kvs)" "safe (same_files s) (sign_message e m)"
  by (simp_all add: safe_def wp_simps same_files_def) (simp add: wp_def sign_message_def same_files_def)

lemma same_files_prove: "safe (same_files s) (prove_identity e rq token)"
  unfolding prove_identity_def by (intro safe_rules same_files_free same_files_steps)

lemma online_unhandled:
  assumes "same_files s0 s"
  shows "wp (online c e rq cache tick token) (\<lambda>_ _. True) (lost e s0) s"
proof -
  have rest: "wp (if st = JStr ''ACTIVE'' then grant c e rq cache tick device_id result
       else save_authorization (denial_record tick)) (\<lambda>_ _. True) (lost e s0) t" for st device_id result t
  proof -
    have "fails_in (\<lambda>f. \<not> unhandled f) (if st = JStr ''ACTIVE'' then grant c e rq cache tick device_id result
       else save_authorization (denial_record tick))"
      by (intro fail_rules)
    then show ?thesis unfolding fails_in_def by (elim allE [of _ t] wp_mono) (simp_all add: lost_def)
  qed
  show ?thesis
    unfolding online_def
    by (intro lost_prefix safe_transport safe_post safe_field safe_uuid_arg safe_require same_files_free same_files_steps
        same_files_prove assms rest fails_uuid_arg fails_may fails_transport fail_rules) simp_all
qed

end
