(* ===== verification/Client_Guarantees.thy ===== *)
theory Client_Guarantees
  imports Client_Safety
begin

text \<open>
  What holds of every run of the registration agent: it reports itself authorized only on a document
  the server signed, a denial survives going offline, the device key signs nothing but challenges
  addressed to this device, and the public status file holds the public fields only.
\<close>

section \<open>A device to run\<close>

definition demo_request :: identity_request where
  "demo_request = \<lparr>rq_serial = ''s'', rq_installation_id = ''i'', rq_public_key = ''k''\<rparr>"

definition demo_payload :: json where
  "demo_payload = JObj [(''v'', JInt 1), (''aud'', JStr ''kdx-infrabox-registration''),
     (''device_id'', JStr ''d''), (''serial'', JStr ''s''), (''installation_id'', JStr ''i''),
     (''key_hash'', JStr ''k''), (''license_id'', JStr ''l''), (''status'', JStr ''ACTIVE''),
     (''issued_at'', JInt 5), (''expires_at'', JInt 20)]"

definition demo_document :: json where
  "demo_document = JObj [(''payload'', demo_payload), (''signature'', JStr '''')]"

definition demo_device_env :: "((string \<times> json) list \<Rightarrow> reply) \<Rightarrow> device_env" where
  "demo_device_env net = \<lparr>time_at = (\<lambda>_. 9), network = net, key_sign = (\<lambda>m. m),
     sha256_hex = (\<lambda>x. x), check_signature = (\<lambda>_ _ m. m = canonical demo_payload),
     urlsplit = (\<lambda>_. Some \<lparr>ur_scheme = ''https'', ur_hostname = Some ''h'', ur_username = None,
        ur_password = None, ur_path = '''', ur_query = '''', ur_fragment = ''''\<rparr>),
     loads = (\<lambda>_. None), too_deep = (\<lambda>_. False), anchor_fingerprint = (\<lambda>_. None)\<rparr>"

definition demo_config :: client_config where
  "demo_config = \<lparr>server_url = ''https://h'', server_public_key = b64encode (replicate 32 CHR ''p''),
     lab_http = False, ca_bundle = None, ca_certificate_sha256 = '''', device_model = None,
     device_firmware = None, publish_status = True\<rparr>"

definition demo_agent :: "(string \<times> json) list option \<Rightarrow> agent" where
  "demo_agent stored = \<lparr>ag_authorization = stored, ag_status = None, ag_public = None, ag_report = [],
     ag_reads = 0, ag_sent = [], ag_signed = []\<rparr>"

definition demo_cache :: "(string \<times> json) list" where
  "demo_cache = [(''document'', demo_document), (''device_id'', JStr ''d''),
     (''last_clock'', JInt 7), (''denied'', JBool False)]"

definition run_status :: "(fault + (string \<times> json) list) \<times> agent \<Rightarrow> (string \<times> json) list" where
  "run_status x = (case fst x of Inl _ \<Rightarrow> [] | Inr r \<Rightarrow> r)"

fun ends_with :: "(fault + (string \<times> json) list) \<times> agent \<Rightarrow> (string \<times> json) list \<Rightarrow> bool" where
  "ends_with (Inr r, t) kvs = list_all (\<lambda>(k, v). map_of r k = Some v) kvs"
| "ends_with (Inl f, t) kvs = False"

lemma ends_withD:
  assumes "ends_with x kvs"
  shows "x = (Inr (run_status x), snd x)" and "(k, v) \<in> set kvs \<Longrightarrow> map_of (run_status x) k = Some v"
  using assms by (cases "(x, kvs)" rule: ends_with.cases; auto simp: run_status_def list_all_iff)+

text \<open>A run without a network, from a stored authorization.\<close>

definition demo_offline :: "(fault + (string \<times> json) list) \<times> agent" where
  "demo_offline = synchronize demo_config (demo_device_env (\<lambda>_. Url_error)) demo_request None
     (demo_agent (Some demo_cache))"

lemma demo_offline_ends:
  "ends_with demo_offline [(''authorized'', JBool True), (''license_id'', JStr ''l'')]"
  by code_simp

text \<open>A run that the server refuses, because the serial is enrolled on other hardware.\<close>

definition demo_refused :: "(fault + (string \<times> json) list) \<times> agent" where
  "demo_refused = synchronize demo_config
     (demo_device_env (\<lambda>_. Http_error (Some (JObj [(''detail'', JStr ''HARDWARE_MISMATCH'')]))))
     demo_request None (demo_agent (Some demo_cache))"

lemma demo_refused_ends:
  "ends_with demo_refused [(''authorized'', JBool False), (''mode'', JStr ''online''),
     (''status'', JStr ''HARDWARE_MISMATCH'')]"
  by code_simp

text \<open>The next run of that device, without a network.\<close>

definition demo_again :: "(fault + (string \<times> json) list) \<times> agent" where
  "demo_again = synchronize demo_config (demo_device_env (\<lambda>_. Url_error)) demo_request None
     (snd demo_refused)"

lemma demo_again_ends: "ends_with demo_again [(''mode'', JStr ''offline'')]"
  by code_simp

text \<open>A run that enrolls, proves its identity and is authorized by the server.\<close>

definition demo_challenge :: json where
  "demo_challenge = JObj [(''aud'', JStr ''kdx-infrabox-registration''), (''v'', JInt 1),
     (''purpose'', JStr ''authenticate''), (''serial'', JStr ''s''), (''installation_id'', JStr ''i''),
     (''key_hash'', JStr ''k''), (''challenge_id'', JStr ''c''), (''expires_at'', JInt 99),
     (''nonce'', JStr (replicate 32 CHR ''n''))]"

definition demo_device_id :: string where
  "demo_device_id = ''00000000-0000-0000-0000-000000000000''"

fun demo_answer :: "nat \<Rightarrow> json" where
  "demo_answer 0 = JObj [(''device_id'', JStr demo_device_id), (''installation_id'', JStr ''i'')]"
| "demo_answer (Suc 0) = JObj [(''message'', JStr ''m''), (''challenge_id'', JStr ''c'')]"
| "demo_answer n = JObj [(''device_id'', JStr demo_device_id), (''status'', JStr ''SUSPENDED'')]"

definition demo_server :: "(string \<times> json) list \<Rightarrow> reply" where
  "demo_server sent = Body 1 (Some (demo_answer (length sent - 1)))"

definition demo_online_env :: device_env where
  "demo_online_env = (demo_device_env demo_server)
     \<lparr>loads := (\<lambda>m. if m = ''m'' then Some demo_challenge else None)\<rparr>"

definition demo_online :: "(fault + (string \<times> json) list) \<times> agent" where
  "demo_online = synchronize demo_config demo_online_env demo_request None (demo_agent None)"

lemma demo_online_env_simps [simp]:
  "time_at demo_online_env k = 9" "network demo_online_env = demo_server" "key_sign demo_online_env m = m"
  "sha256_hex demo_online_env x = x"
  "loads demo_online_env m = (if m = ''m'' then Some demo_challenge else None)"
  "\<not> too_deep demo_online_env m"
  by (simp_all add: demo_online_env_def demo_device_env_def)

lemma demo_transport: "transport demo_online_env demo_config = ret ''https://h''"
  by (simp add: transport_def demo_online_env_def demo_device_env_def demo_config_def need_def rstrip_def
      Let_def)

lemma demo_challenge_faults:
  "challenge_faults demo_online_env demo_request ''authenticate''
     (JObj [(''message'', JStr ''m''), (''challenge_id'', JStr ''c'')]) 9 demo_challenge = ret False"
  by (simp add: challenge_faults_def demo_challenge_def demo_request_def differs_def number_test_def
      short_nonce_def need_def py_eq_def)

lemma wp_demo_post:
  "wp (post demo_online_env p v) Q R s
     = Q (demo_answer (length (ag_sent s))) (s\<lparr>ag_sent := ag_sent s @ [(p, v)]\<rparr>)"
  by (simp add: wp_def post_def demo_server_def reply_value_def Let_def)

lemma demo_online_signs:
  "wp (synchronize demo_config demo_online_env demo_request None)
     (\<lambda>r t. ag_signed t = [''m''] \<and> map_of r ''status'' = Some (JStr ''SUSPENDED'')) (\<lambda>_ _. False)
     (demo_agent None)"
proof -
  have query: "wp (\<lambda>s. (Inr (f s), s)) Q R t = Q (f t) t" for f :: "agent \<Rightarrow> 'x" and Q R t
    by (simp add: wp_def)
  have set_report: "wp (\<lambda>s. (Inr (), s\<lparr>ag_report := r\<rparr>)) Q R t = Q () (t\<lparr>ag_report := r\<rparr>)" for r Q R t
    by (simp add: wp_def)
  have signs: "wp (sign_message demo_online_env m) Q R t = Q m (t\<lparr>ag_signed := ag_signed t @ [m]\<rparr>)" for m Q R t
    by (simp add: wp_def sign_message_def)
  have published: "wp (publish c) Q R t = Q () (snd (publish c t))"
    "ag_signed (snd (publish c t)) = ag_signed t"
    "map_of (ag_report (snd (publish c t))) ''status'' = map_of (ag_report t) ''status''" for c Q R t
    by (simp_all add: wp_def publish_def Let_def map_of_dput)
  have request: "rq_installation_id demo_request = ''i''"
    by (simp add: demo_request_def)
  have device: "uuid_of demo_device_id = Some demo_device_id"
    by code_simp
  show ?thesis
    by (simp add: synchronize_def session_def online_def prove_identity_def wp_simps query set_report
      signs published wp_demo_post device demo_transport demo_challenge_faults demo_agent_def uuid_arg_def
      py_eq_def purpose_of_def request map_of_dputs)
qed

lemma demo_online_signed: "ag_signed (snd demo_online) = [''m'']"
  using demo_online_signs by (auto simp: wp_def demo_online_def split: prod.splits sum.splits)

section \<open>Guarantees\<close>

text \<open>
  C7: A run of the agent that reports the device authorized, online or offline, holds a payload
  that the server issued (only the holder of the pinned key can sign), that names this serial,
  installation, key and device, and that is valid at a time the run read: not before the last clock
  an earlier run stored, before the payload's end, at most 30 seconds before its start, with a term
  of at most a week. The license reported is the one of that payload.
\<close>

theorem authorized_only_by_issued_document:
  assumes run: "synchronize c e rq token s = (Inr r, t)"
    and authorized: "map_of r ''authorized'' = Some (JBool True)"
    and unforgeable: "\<And>pub raw m. b64decode (server_public_key c) = Some pub \<Longrightarrow>
      check_signature e pub raw m \<Longrightarrow> m \<in> canonical ` issued"
  shows "\<exists>p dev k l. (\<exists>q \<in> issued. jsort p = jsort q) \<and> ag_reads s \<le> k \<and>
    entitles e rq dev (last_clock_of s) (time_at e k) p \<and>
    get_field p ''license_id'' = Inr l \<and> map_of r ''license_id'' = Some l"
proof -
  from run_authorized [OF run] authorized obtain doc p dev k l where p:
    "signed_by e (server_public_key c) doc p" "ag_reads s \<le> k"
    "entitles e rq dev (last_clock_of s) (time_at e k) p"
    "get_field p ''license_id'' = Inr l" "map_of r ''license_id'' = Some l"
    unfolding justified_def by auto
  from p(1) obtain pub raw where "b64decode (server_public_key c) = Some pub"
    "check_signature e pub raw (canonical p)"
    unfolding signed_by_def by blast
  then have "canonical p \<in> canonical ` issued" by (rule unforgeable)
  then obtain q where "q \<in> issued" "canonical p = canonical q" by auto
  with canonical_inj p(2-5) show ?thesis by blast
qed

lemma authorized_only_by_issued_document_witness:
  "\<exists>p dev. jsort p = jsort demo_payload \<and> entitles (demo_device_env (\<lambda>_. Url_error)) demo_request dev
     (JInt 7) 9 p"
  using authorized_only_by_issued_document [OF ends_withD(1) [OF demo_offline_ends, unfolded demo_offline_def],
      of "{demo_payload}"] ends_withD(2) [OF demo_offline_ends]
  by (auto simp: demo_offline_def demo_device_env_def last_clock_of_def demo_agent_def demo_cache_def
      dget_def)

text \<open>
  C8: A denial survives going offline. When a run that reached the server did not authorize the
  device, no later run that finds what it stored and does not reach the server reports the device
  authorized, whatever authorization was stored before the refusal, whatever the clock says.
\<close>

theorem denial_survives_offline:
  assumes "synchronize c e rq token s = (Inr r, t)"
    and "map_of r ''mode'' = Some (JStr ''online'')" and "map_of r ''authorized'' \<noteq> Some (JBool True)"
    and "ag_authorization u = ag_authorization t"
    and "synchronize c' e' rq' token' u = (Inr r', v)" and "map_of r' ''mode'' \<noteq> Some (JStr ''online'')"
  shows "map_of r' ''authorized'' = Some (JBool False)"
  using run_settles [OF assms(1-3)] assms(4)
  by (intro run_refused [OF assms(5) _ _ assms(6), of "denial_record (time_at e (ag_reads s))"])
    (simp_all add: denial_record_def dget_def)

lemma denial_survives_offline_witness:
  "map_of (run_status demo_again) ''authorized'' = Some (JBool False)"
  using denial_survives_offline [OF ends_withD(1) [OF demo_refused_ends, unfolded demo_refused_def]
      _ _ _ ends_withD(1) [OF demo_again_ends, unfolded demo_again_def]]
    ends_withD(2) [OF demo_refused_ends] ends_withD(2) [OF demo_again_ends]
  by (simp add: demo_refused_def demo_again_def)

text \<open>
  C19: However a run ends, the messages it signed with the device key beyond those signed before are
  challenges of the registration protocol for this serial, installation and key and for the purpose
  at hand, with a nonce of at least 32 characters and an end at most 300 seconds after a time the
  run read: no reply of a server makes the key sign anything else.
\<close>

theorem signs_only_addressed_challenges:
  assumes "synchronize c e rq token s = (x, t)"
  shows "\<exists>new. ag_signed t = ag_signed s @ new \<and> (\<forall>m \<in> set new. \<exists>v k. ag_reads s \<le> k \<and>
    loads e m = Some v \<and> addressed e rq (purpose_of token) (time_at e k) v)"
  using run_signs [OF assms] by (simp add: signs_own_def)

lemma signs_only_addressed_challenges_witness:
  "\<exists>k. addressed demo_online_env demo_request ''authenticate'' (time_at demo_online_env k) demo_challenge"
  using signs_only_addressed_challenges [of demo_config demo_online_env demo_request None "demo_agent None",
      OF prod.collapse [symmetric], folded demo_online_def] demo_online_signed
  by (auto simp: demo_agent_def purpose_of_def)

text \<open>
  The status file a run publishes for the user interface holds exactly the public fields of the
  status it returns, with their values: never the device's public key.
\<close>

theorem public_status_fields:
  assumes "synchronize c e rq token s = (Inr r, t)" and "publish_status c"
  shows "\<exists>d. ag_public t = Some d \<and> map_of d ''public_key'' = None \<and>
    (\<forall>k. map_of d k = (if k \<in> set public_fields then map_of r k else None))"
proof -
  have restricted: "map_of (filter (\<lambda>(k, v). k \<in> A) kvs) k = (if k \<in> A then map_of kvs k else None)"
    for A k and kvs :: "(string \<times> json) list"
    by (induction kvs) auto
  from assms(1) obtain u where "publish c u = (Inr (), t)" "r = ag_report t"
    by (rule synchronize_session)
  with assms(2) have "ag_public t = Some (filter (\<lambda>(k, v). k \<in> set public_fields) r)"
    by (auto simp: publish_def Let_def)
  then show ?thesis by (simp add: restricted) (simp add: public_fields_def)
qed

lemma public_status_fields_witness:
  "\<exists>d. ag_public (snd demo_offline) = Some d \<and> map_of d ''license_id'' = Some (JStr ''l'') \<and>
     map_of d ''public_key'' = None"
  using public_status_fields [OF ends_withD(1) [OF demo_offline_ends, unfolded demo_offline_def]]
    ends_withD(2) [OF demo_offline_ends]
  by (auto simp: demo_config_def demo_offline_def public_fields_def)

text \<open>
  C9: Offline grace works. A device whose stored authorization is not denied and holds a document of
  the server that entitles it at the time of the run is authorized without the server, when the
  connection fails: it reports the license and the end of the document, and stores the time of the
  run as the last clock and nothing else.
\<close>

theorem offline_grace_available:
  assumes connect: "transport e c = ret url" "\<And>sent. network e sent = Url_error"
    and stored: "ag_authorization s = Some cache" "map_of cache ''document'' = Some doc" "truthy doc"
      "map_of cache ''device_id'' = Some dev" "\<not> truthy (dget cache ''denied'' JNull)"
    and valid: "signed_by e (server_public_key c) doc p"
      "entitles e rq dev (last_clock_of s) (time_at e (Suc (ag_reads s))) p"
  shows "\<exists>r t l x. synchronize c e rq None s = (Inr r, t) \<and>
    map_of r ''authorized'' = Some (JBool True) \<and> map_of r ''mode'' = Some (JStr ''offline-grace'') \<and>
    get_field p ''license_id'' = Inr l \<and> map_of r ''license_id'' = Some l \<and>
    get_field p ''expires_at'' = Inr x \<and> map_of r ''authorization_expires_at'' = Some x \<and>
    ag_authorization t = Some (dput ''last_clock'' (JInt (time_at e (ag_reads s))) cache)"
proof -
  obtain l x where lx: "get_field p ''license_id'' = Inr l" "get_field p ''expires_at'' = Inr x"
    using valid(2) by (auto simp: entitles_def has_number_def)
  let ?now = "time_at e (ag_reads s)"
  let ?Q = "\<lambda>_ t. map_of (ag_report t) ''authorized'' = Some (JBool True) \<and>
    map_of (ag_report t) ''mode'' = Some (JStr ''offline-grace'') \<and>
    map_of (ag_report t) ''license_id'' = Some l \<and>
    map_of (ag_report t) ''authorization_expires_at'' = Some x \<and>
    ag_authorization t = Some (dput ''last_clock'' (JInt ?now) cache)"
  let ?s = "s\<lparr>ag_reads := Suc (ag_reads s), ag_report := first_report c rq ?now\<rparr>"
  have accepted: "wp (verify_document e doc (server_public_key c) rq dev (last_clock_of s)) Q R t
      = Q p (t\<lparr>ag_reads := Suc (ag_reads t)\<rparr>)" if "ag_reads t = Suc (ag_reads s)" for Q R t
    using verify_document_accepts [OF valid(1), of rq dev "last_clock_of s" t] valid(2) that
    by (simp add: wp_def)
  have unreachable: "wp (post e path v) Q R t = R Unavailable (t\<lparr>ag_sent := ag_sent t @ [(path, v)]\<rparr>)"
    for path v Q R t
    by (simp add: wp_def post_def connect reply_value_def Let_def)
  have last: "dget cache ''last_clock'' (JInt 0) = last_clock_of s"
    by (simp add: last_clock_of_def stored)
  have "wp (session c e rq cache ?now None) ?Q (\<lambda>_ _. False) ?s"
    unfolding session_def online_def offline_def offline_grant_def last connect(1)
    using stored lx
    by (simp add: wp_simps unreachable accepted purpose_of_def dget_def map_of_dputs)
  moreover obtain y u where u: "session c e rq cache ?now None ?s = (y, u)" by fastforce
  ultimately have ends: "y = Inr ()" "?Q () u"
    by (simp_all add: wp_def split: sum.splits)
  have "synchronize c e rq None s = (Inr (ag_report (snd (publish c u))), snd (publish c u))"
    using u ends(1) stored(1) by (simp add: synchronize_def andThen_def clock_def publish_def Let_def)
  moreover have "publish c u = (Inr (), snd (publish c u))"
    by (simp add: publish_def Let_def)
  note publish_keeps [OF this]
  ultimately show ?thesis
    using ends(2) lx by (simp add: map_of_dput)
qed

lemma offline_grace_available_witness:
  "map_of (run_status demo_offline) ''mode'' = Some (JStr ''offline-grace'')"
proof -
  have key: "b64decode (server_public_key demo_config) = Some (replicate 32 CHR ''p'')"
    by (simp only: demo_config_def client_config.simps b64_roundtrip)
  then have "signed_by (demo_device_env (\<lambda>_. Url_error)) (server_public_key demo_config) demo_document
      demo_payload"
    by (simp add: signed_by_def demo_document_def demo_device_env_def)
  moreover have "entitles (demo_device_env (\<lambda>_. Url_error)) demo_request (JStr ''d'') (JInt 7) 9 demo_payload"
    by (simp add: entitles_def has_value_def has_number_def number_at_def demo_payload_def demo_request_def
        demo_device_env_def py_eq_def)
  moreover have "transport (demo_device_env (\<lambda>_. Url_error)) demo_config = ret ''https://h''"
    by (simp add: transport_def demo_device_env_def demo_config_def need_def rstrip_def Let_def)
  ultimately show ?thesis
    using offline_grace_available [of "demo_device_env (\<lambda>_. Url_error)" demo_config "''https://h''"
        "demo_agent (Some demo_cache)" demo_cache demo_document "JStr ''d''" demo_payload demo_request]
    by (auto simp: demo_agent_def demo_cache_def demo_document_def last_clock_of_def dget_def
        demo_device_env_def demo_offline_def run_status_def)
qed

text \<open>
  C30: A run, from its first step on, turns every exception into a status but four kinds: one of the steps
  before it has read its identity and its stored authorization, \<open>AttributeError\<close> where the server's
  \<open>device_id\<close> is not text, one of a request that no clause of \<open>post\<close> names (of the HTTP library, or of
  reading the body of an HTTP error), and \<open>RecursionError\<close> for a challenge nested too deep. Where one of
  these ends a run, the stored authorization, the status and the published status are as they were, so that
  a refusal is not recorded. The device's own files are taken to be writable, the stored authorization to be
  an object as the agent writes it, and a value that was read not to be nested too deep to be written again.
\<close>

theorem run_faults:
  assumes "opened_run c e opened token s = (Inl f, t)"
  shows "same_files s t \<and> (opened = Inl f \<or> f = AttributeError \<or>
    (\<exists>x sent. f = Other_error x \<and> network e sent = Reply_raises x) \<or>
    (\<exists>m. f = Other_error ''RecursionError'' \<and> too_deep e m))"
proof (cases opened)
  case (Inl g)
  with assms show ?thesis by (simp add: opened_run_def raise_def same_files_def)
next
  case (Inr rq)
  let ?R = "\<lambda>f t. same_files s t \<and> unhandled f \<and> (f = AttributeError \<or> from_network e f)"
  have failing: "wp m (\<lambda>_ _. True) ?R u" if "fails_in (\<lambda>_. False) m" for m :: "unit agent_prog" and u
    using that [unfolded fails_in_def, rule_format, of u] by (rule wp_mono) simp_all
  have "wp (session c e rq cache tick token) (\<lambda>_ _. True) ?R u" if "same_files s u" for cache tick u
    unfolding session_def wp_handling
  proof (rule wp_mono [OF online_unhandled [OF that]])
    fix f v assume "lost e s f v"
    then show "wp (if f = Unavailable then offline c e rq cache tick token
        else if recoverable f then denied tick f else raise f) (\<lambda>_ _. True) ?R v"
      by (auto simp: wp_raise recoverable_handled fails_offline fails_denied lost_def intro: failing)
  qed simp
  note ended = this
  have "wp (synchronize c e rq token) (\<lambda>_ _. True) ?R s"
    unfolding synchronize_def wp_andThen wp_clock
    by (simp add: wp_def [of "\<lambda>s. (Inr (f s), g s)" for f g])
      (rule wp_mono [OF ended], simp_all add: same_files_def wp_andThen publish_def wp_def Let_def)
  with assms Inr show ?thesis by (auto simp: wp_def opened_run_def from_network_def)
qed

definition demo_crash_env :: device_env where
  "demo_crash_env = demo_device_env (\<lambda>_. Body 1 (Some (JObj [(''device_id'', JInt 5)])))"

definition demo_crash :: "(fault + (string \<times> json) list) \<times> agent" where
  "demo_crash = opened_run demo_config demo_crash_env (Inr demo_request) None (demo_agent (Some demo_cache))"

lemma demo_crash_fails: "\<exists>f t. demo_crash = (Inl f, t)"
proof -
  have connect: "transport demo_crash_env demo_config = ret ''https://h''"
    by (simp add: transport_def demo_crash_env_def demo_device_env_def demo_config_def need_def rstrip_def
        Let_def)
  have answer: "wp (post demo_crash_env p v) Q R s
      = Q (JObj [(''device_id'', JInt 5)]) (s\<lparr>ag_sent := ag_sent s @ [(p, v)]\<rparr>)" for p v Q R s
    by (simp add: wp_def post_def reply_value_def demo_crash_env_def demo_device_env_def Let_def)
  have fails: "wp (session c demo_crash_env rq cache tick None) (\<lambda>_ _. False) (\<lambda>_ _. True) s"
    if "c = demo_config" for c rq cache tick s
    unfolding session_def online_def that connect
    by (simp add: wp_simps answer uuid_arg_def recoverable_def)
  have "wp (synchronize demo_config demo_crash_env demo_request None) (\<lambda>_ _. False) (\<lambda>_ _. True)
      (demo_agent (Some demo_cache))"
    unfolding synchronize_def wp_andThen wp_clock
    by (simp add: wp_def [of "\<lambda>s. (Inr (f s), g s)" for f g] wp_mono [OF fails])
  then show ?thesis
    by (auto simp: wp_def demo_crash_def opened_run_def split: prod.splits sum.splits)
qed

lemma run_faults_witness: "\<exists>f. fst demo_crash = Inl f \<and> ag_status (snd demo_crash) = None"
proof -
  obtain f t where crash: "demo_crash = (Inl f, t)" using demo_crash_fails by blast
  show ?thesis
    using run_faults [OF crash [unfolded demo_crash_def]]
    by (subst (1 2) crash) (simp add: same_files_def demo_agent_def)
qed

end
