(* ===== verification/Addresses.thy ===== *)
theory Addresses
  imports Text Encoding
begin

text \<open>
  Python's \<open>ipaddress\<close> as the programs use it: IPv4 and IPv6 addresses and networks from text, the
  text of an IPv4 address, and membership of an address in a network. An address is a number.
\<close>

section \<open>IPv4\<close>

text \<open>\<open>_parse_octet\<close>: one to three digits, no leading zero, at most 255.\<close>

definition octet :: "string \<Rightarrow> nat option" where
  "octet s = (if all_dec s \<and> length s \<le> 3 \<and> (s = ''0'' \<or> hd s \<noteq> CHR ''0'') \<and> dec_val s \<le> 255
     then Some (dec_val s) else None)"

definition ipv4 :: "string \<Rightarrow> nat option" where
  "ipv4 s = (case map octet (split_on (CHR ''.'') s) of
     [Some a, Some b, Some c, Some d] \<Rightarrow> Some (((a * 256 + b) * 256 + c) * 256 + d) | _ \<Rightarrow> None)"

definition ipv4_text :: "nat \<Rightarrow> string" where
  "ipv4_text n = join_with (CHR ''.'')
     [nat_dec (n div 16777216), nat_dec (n div 65536 mod 256), nat_dec (n div 256 mod 256), nat_dec (n mod 256)]"

section \<open>IPv6\<close>

definition hextet :: "string \<Rightarrow> nat option" where
  "hextet s = (if s \<noteq> [] \<and> length s \<le> 4 \<and> list_all is_hex s
     then Some (foldl (\<lambda>n c. 16 * n + hex_val (lower_char c)) 0 s) else None)"

fun hextets :: "string list \<Rightarrow> nat option" where
  "hextets [] = Some 0"
| "hextets (w # ws) = (case hextet w of None \<Rightarrow> None
     | Some h \<Rightarrow> map_option (\<lambda>n. h * 65536 ^ length ws + n) (hextets ws))"

text \<open>A dotted quad at the end stands for two groups.\<close>

definition unquad :: "string list \<Rightarrow> string list option" where
  "unquad ws = (if CHR ''.'' \<notin> set (last ws) then Some ws
     else case ipv4 (last ws) of None \<Rightarrow> None
       | Some n \<Rightarrow> Some (butlast ws @ [concat (map (\<lambda>i. [hex_digit (n div 16 ^ i mod 16)]) [7, 6, 5, 4]),
                                     concat (map (\<lambda>i. [hex_digit (n div 16 ^ i mod 16)]) [3, 2, 1, 0])]))"

text \<open>The positions of the empty groups between the first and the last one.\<close>

definition skips :: "string list \<Rightarrow> nat list" where
  "skips ws = filter (\<lambda>i. ws ! i = []) [1..<length ws - 1]"

definition ipv6_groups :: "string list \<Rightarrow> nat option" where
  "ipv6_groups ws = (case skips ws of
     [] \<Rightarrow> if length ws = 8 then hextets ws else None
   | [i] \<Rightarrow>
       (let hi = take i ws; lo = drop (Suc i) ws;
            hi = (if hd ws = [] then tl hi else hi);
            lo = (if last ws = [] then butlast lo else lo)
        in if (hd ws = [] \<and> hi \<noteq> []) \<or> (last ws = [] \<and> lo \<noteq> []) \<or> 7 < length hi + length lo then None
           else case (hextets hi, hextets lo) of
             (Some a, Some b) \<Rightarrow> Some (a * 65536 ^ (8 - length hi) + b) | _ \<Rightarrow> None)
   | _ \<Rightarrow> None)"

definition ipv6 :: "string \<Rightarrow> nat option" where
  "ipv6 s =
     (let a = takeWhile (\<lambda>c. c \<noteq> CHR ''%'') s; scope = drop (Suc (length a)) s; ws = split_on (CHR '':'') a
      in if (a \<noteq> s \<and> (scope = [] \<or> CHR ''%'' \<in> set scope)) \<or> length ws < 3 then None
         else case unquad ws of None \<Rightarrow> None
           | Some ws \<Rightarrow> if 9 < length ws then None else ipv6_groups ws)"

section \<open>Networks\<close>

text \<open>A network by its lowest address and the length of its prefix.\<close>

datatype network = Net4 nat nat | Net6 nat nat

definition floor_to :: "nat \<Rightarrow> nat \<Rightarrow> nat" where
  "floor_to k a = a div k * k"

text \<open>A prefix length, or a mask of leading ones, or one of trailing ones.\<close>

definition mask4 :: "nat \<Rightarrow> nat option" where
  "mask4 m = find (\<lambda>p. m = (2 ^ p - 1) * 2 ^ (32 - p)) [0..<33]"

definition prefix4 :: "string \<Rightarrow> nat option" where
  "prefix4 s = (if all_dec s \<and> dec_val s \<le> 32 then Some (dec_val s)
     else case ipv4 s of None \<Rightarrow> None
       | Some m \<Rightarrow> (case mask4 m of Some p \<Rightarrow> Some p | None \<Rightarrow> mask4 (2 ^ 32 - 1 - m)))"

definition prefix6 :: "string \<Rightarrow> nat option" where
  "prefix6 s = (if all_dec s \<and> dec_val s \<le> 128 then Some (dec_val s) else None)"

text \<open>\<open>ip_interface\<close>: an address and the prefix length of its network.\<close>

datatype address = Ip4 nat | Ip6 nat

definition interface_with ::
    "(string \<Rightarrow> nat option) \<Rightarrow> (string \<Rightarrow> nat option) \<Rightarrow> nat \<Rightarrow> string \<Rightarrow> (nat \<times> nat) option" where
  "interface_with addr prefix bits s = (case split_on (CHR ''/'') s of
     [a] \<Rightarrow> map_option (\<lambda>n. (n, bits)) (addr a)
   | [a, m] \<Rightarrow> (case (addr a, prefix m) of (Some n, Some p) \<Rightarrow> Some (n, p) | _ \<Rightarrow> None)
   | _ \<Rightarrow> None)"

definition ip_interface :: "string \<Rightarrow> (address \<times> nat) option" where
  "ip_interface s = (case interface_with ipv4 prefix4 32 s of
     Some (n, p) \<Rightarrow> Some (Ip4 n, p)
   | None \<Rightarrow> map_option (\<lambda>(n, p). (Ip6 n, p)) (interface_with ipv6 prefix6 128 s))"

fun network_of :: "address \<times> nat \<Rightarrow> network" where
  "network_of (Ip4 n, p) = Net4 (floor_to (2 ^ (32 - p)) n) p"
| "network_of (Ip6 n, p) = Net6 (floor_to (2 ^ (128 - p)) n) p"

text \<open>\<open>ip_network(s, strict=False)\<close>, \<open>ip_network(s)\<close> and \<open>IPv4Network(s)\<close>.\<close>

definition ip_network :: "string \<Rightarrow> network option" where
  "ip_network s = map_option network_of (ip_interface s)"

fun aligned :: "address \<times> nat \<Rightarrow> bool" where
  "aligned (Ip4 n, p) = (n mod 2 ^ (32 - p) = 0)"
| "aligned (Ip6 n, p) = (n mod 2 ^ (128 - p) = 0)"

definition strict_network :: "string \<Rightarrow> network option" where
  "strict_network s = (case ip_interface s of None \<Rightarrow> None
     | Some i \<Rightarrow> if aligned i then Some (network_of i) else None)"

definition ipv4_network :: "string \<Rightarrow> (nat \<times> nat) option" where
  "ipv4_network s = (case interface_with ipv4 prefix4 32 s of None \<Rightarrow> None
     | Some (n, p) \<Rightarrow> if n mod 2 ^ (32 - p) = 0 then Some (n, p) else None)"

fun host_network :: "address \<Rightarrow> network" where
  "host_network (Ip4 n) = Net4 n 32"
| "host_network (Ip6 n) = Net6 n 128"

fun member :: "address \<Rightarrow> network \<Rightarrow> bool" where
  "member (Ip4 a) (Net4 n p) = (floor_to (2 ^ (32 - p)) a = n)"
| "member (Ip6 a) (Net6 n p) = (floor_to (2 ^ (128 - p)) a = n)"
| "member _ _ = False"

definition subnet4 :: "nat \<times> nat \<Rightarrow> nat \<times> nat \<Rightarrow> bool" where
  "subnet4 a b \<longleftrightarrow> snd b \<le> snd a \<and> floor_to (2 ^ (32 - snd b)) (fst a) = fst b"

definition private4 :: "nat \<times> nat \<Rightarrow> bool" where
  "private4 n \<longleftrightarrow> list_ex (subnet4 n) [(167772160, 8), (2886729728, 12), (3232235520, 16)]"

definition broadcast4 :: "nat \<times> nat \<Rightarrow> nat" where
  "broadcast4 n = fst n + 2 ^ (32 - snd n) - 1"

section \<open>Facts\<close>

lemma is_dec_digit: "is_dec c = is_digit c"
  unfolding is_dec_def is_digit_def code_def by linarith

lemma all_dec_nat_dec: "all_dec (nat_dec n)"
  using digits_nat_dec nat_dec_nonempty by (auto simp: all_dec_def list_all_iff is_dec_digit)

lemma digit_zero: "n < 10 \<Longrightarrow> digit n = CHR ''0'' \<longleftrightarrow> n = 0"
proof -
  assume "n < 10"
  then have "of_char (digit n) = (48 + n :: nat)" by simp
  moreover have "digit 0 = CHR ''0''" by code_simp
  ultimately show ?thesis by auto
qed

lemma nat_dec_two:
  assumes "10 \<le> n" and "n < 100"
  shows "nat_dec n = [digit (n div 10), digit (n mod 10)]"
proof -
  have "n div 10 < 10" using assms by auto
  then have "nat_dec (n div 10) = [digit (n div 10)]"
    by (subst nat_dec.simps) simp
  then show ?thesis
    using assms by (subst nat_dec.simps) simp
qed

lemma nat_dec_three:
  assumes "100 \<le> n" and "n < 1000"
  shows "nat_dec n = [digit (n div 100), digit (n div 10 mod 10), digit (n mod 10)]"
proof -
  have "nat_dec (n div 10) = [digit (n div 10 div 10), digit (n div 10 mod 10)]"
    using assms by (intro nat_dec_two) auto
  then show ?thesis
    using assms by (subst nat_dec.simps) (simp add: div_mult2_eq [symmetric])
qed

lemma octet_nat_dec:
  assumes "n \<le> 255"
  shows "octet (nat_dec n) = Some n"
proof -
  consider "n < 10" | "10 \<le> n" "n < 100" | "100 \<le> n" by linarith
  then have "length (nat_dec n) \<le> 3 \<and> (nat_dec n = ''0'' \<or> hd (nat_dec n) \<noteq> CHR ''0'')"
  proof cases
    case 1
    then show ?thesis by (auto simp: nat_dec.simps [of n] digit_zero)
  next
    case 2
    then have "n div 10 < 10" "n div 10 \<noteq> 0" by auto
    with 2 show ?thesis by (simp add: nat_dec_two digit_zero)
  next
    case 3
    with assms have "n div 100 < 10" "n div 100 \<noteq> 0" by auto
    with 3 assms show ?thesis by (simp add: nat_dec_three digit_zero)
  qed
  then show ?thesis
    using assms by (auto simp: octet_def all_dec_nat_dec dec_val_nat_dec)
qed

lemma nat_dec_free: "\<not> is_digit c \<Longrightarrow> c \<notin> set (nat_dec n)"
  using digits_nat_dec by blast

lemma octets_sum:
  fixes n :: nat
  shows "((n div 16777216 * 256 + n div 65536 mod 256) * 256 + n div 256 mod 256) * 256 + n mod 256 = n"
proof -
  have "n div 65536 = n div 16777216 * 256 + n div 65536 mod 256"
    using div_mult_mod_eq [of "n div 65536" 256] by (simp add: div_mult2_eq [symmetric])
  moreover have "n div 256 = n div 65536 * 256 + n div 256 mod 256"
    using div_mult_mod_eq [of "n div 256" 256] by (simp add: div_mult2_eq [symmetric])
  ultimately show ?thesis by simp
qed

lemma ipv4_ipv4_text:
  assumes "n < 2 ^ 32"
  shows "ipv4 (ipv4_text n) = Some n"
proof -
  have "split_on (CHR ''.'') (ipv4_text n) = [nat_dec (n div 16777216), nat_dec (n div 65536 mod 256),
      nat_dec (n div 256 mod 256), nat_dec (n mod 256)]"
    unfolding ipv4_text_def by (rule split_join) (auto simp: nat_dec_free is_digit_def)
  moreover have "n div 16777216 \<le> 255" using assms by simp
  ultimately show ?thesis
    using octets_sum [of n] by (simp add: ipv4_def octet_nat_dec)
qed

lemma ipv4_text_free: "\<not> is_digit c \<Longrightarrow> c \<noteq> CHR ''.'' \<Longrightarrow> c \<notin> set (ipv4_text n)"
  by (simp add: ipv4_text_def nat_dec_free)

lemma interface_host:
  assumes "n < 2 ^ 32"
  shows "ip_interface (ipv4_text n @ ''/32'') = Some (Ip4 n, 32)"
    and "ip_interface (ipv4_text n) = Some (Ip4 n, 32)"
proof -
  have free: "CHR ''/'' \<notin> set (ipv4_text n)" by (rule ipv4_text_free) (simp_all add: is_digit_def)
  have "prefix4 ''32'' = Some 32" by code_simp
  then show "ip_interface (ipv4_text n @ ''/32'') = Some (Ip4 n, 32)"
    using split_on_append [OF free, of "''32''"]
    by (simp add: ip_interface_def interface_with_def ipv4_ipv4_text [OF assms])
  show "ip_interface (ipv4_text n) = Some (Ip4 n, 32)"
    by (simp add: ip_interface_def interface_with_def split_on_free [OF free] ipv4_ipv4_text [OF assms])
qed

lemma network_host:
  assumes "n < 2 ^ 32"
  shows "ip_network (ipv4_text n @ ''/32'') = Some (Net4 n 32)"
    and "strict_network (ipv4_text n @ ''/32'') = Some (Net4 n 32)"
  by (simp_all add: ip_network_def strict_network_def interface_host [OF assms] floor_to_def)

lemma octet_less: "octet s = Some n \<Longrightarrow> n < 256"
  by (auto simp: octet_def split: if_splits)

lemma ipv4_less:
  assumes "ipv4 s = Some n"
  shows "n < 2 ^ 32"
proof -
  obtain ws where ws: "map octet (split_on (CHR ''.'') s) = ws" by blast
  with assms obtain a b c d where o: "ws = [Some a, Some b, Some c, Some d]"
    and n: "n = ((a * 256 + b) * 256 + c) * 256 + d"
    by (auto simp: ipv4_def split: list.splits option.splits)
  have "x < 256" if "Some x \<in> set ws" for x
    using that octet_less by (auto simp: ws [symmetric])
  then have "a < 256" "b < 256" "c < 256" "d < 256" by (auto simp: o)
  then show ?thesis by (simp add: n)
qed

end
