(* ===== verification/Wg_Config.thy ===== *)
theory Wg_Config
  imports Addresses
begin

text \<open>
  The text of a WireGuard configuration as scripts/kdx-wg-server.py reads and changes it: the split
  into sections (\<open>blocks\<close>), the fields of a section (\<open>fields\<close>), the peers (\<open>peers\<close>), and the text
  of the section it appends. What the parser makes of the text after a peer was appended or cut out
  is what the provisioning relies on.
\<close>

section \<open>Faults\<close>

text \<open>
  \<open>ProvisionError\<close> with its message; an exception that \<open>main\<close> reports without its text; and one it
  does not handle.
\<close>

datatype wg_fault = Provision string | Reported | Unhandled

section \<open>Lines and words\<close>

definition newline :: char where
  "newline = CHR 0x0A"

definition line_end :: "char \<Rightarrow> bool" where
  "line_end c \<longleftrightarrow> code c \<in> {10, 11, 12, 13, 28, 29, 30, 133}"

text \<open>\<open>str.splitlines\<close>; a carriage return and a line feed end one line.\<close>

function splitlines :: "string \<Rightarrow> string list" where
  "splitlines s = (case s of [] \<Rightarrow> []
     | c # cs \<Rightarrow>
         if line_end c
         then [] # splitlines (if c = CHR 0x0D \<and> cs \<noteq> [] \<and> hd cs = newline then tl cs else cs)
         else (case splitlines cs of [] \<Rightarrow> [[c]] | w # ws \<Rightarrow> (c # w) # ws))"
  by pat_completeness auto
termination
  by (relation "measure length") auto

declare splitlines.simps [simp del]

text \<open>\<open>s.split()\<close>: the words between blanks.\<close>

definition words_of :: "string \<Rightarrow> string list" where
  "words_of s = filter (\<lambda>w. w \<noteq> [])
     (split_on (CHR '' '') (map (\<lambda>c. if is_blank c then CHR '' '' else c) s))"

text \<open>\<open>s.split(c, 1)\<close> when \<open>c\<close> occurs in \<open>s\<close>.\<close>

definition before :: "char \<Rightarrow> string \<Rightarrow> string" where
  "before c s = takeWhile (\<lambda>x. x \<noteq> c) s"

definition after :: "char \<Rightarrow> string \<Rightarrow> string" where
  "after c s = drop (Suc (length (before c s))) s"

section \<open>Sections\<close>

text \<open>
  The lookahead \<open>^\s*\[(?:Interface|Peer)\]\s*(?:#.*)?$\<close> at the start of a line: blanks may run over
  lines, and after the header only blanks up to the end of a line, or a comment.
\<close>

definition header_end :: "string \<Rightarrow> bool" where
  "header_end r \<longleftrightarrow>
     (let q = dropWhile is_blank r
      in newline \<in> set (takeWhile is_blank r) \<or> q = [] \<or> hd q = CHR ''#'')"

definition header_with :: "string \<Rightarrow> string \<Rightarrow> bool" where
  "header_with h t \<longleftrightarrow> startswith t h \<and> header_end (drop (length h) t)"

definition header_at :: "string \<Rightarrow> bool" where
  "header_at s \<longleftrightarrow> header_with ''[Interface]'' (dropWhile is_blank s) \<or>
     header_with ''[Peer]'' (dropWhile is_blank s)"

text \<open>\<open>re.split\<close> at the empty matches of the lookahead.\<close>

fun cut :: "bool \<Rightarrow> string \<Rightarrow> string list" where
  "cut line_start [] = [[]]"
| "cut line_start (c # cs) =
     (case cut (c = newline) cs of [] \<Rightarrow> []
      | w # ws \<Rightarrow> if line_start \<and> header_at (c # cs) then [] # (c # w) # ws else (c # w) # ws)"

definition blocks :: "string \<Rightarrow> string list" where
  "blocks text = cut True text"

definition line_field :: "string \<Rightarrow> (string \<times> string) list" where
  "line_field line =
     (let l = strip is_blank (before (CHR ''#'') line)
      in if CHR ''='' \<in> set l
         then [(lower (strip is_blank (before (CHR ''='') l)), strip is_blank (after (CHR ''='') l))]
         else [])"

definition config_fields :: "string \<Rightarrow> (string \<times> string) list" where
  "config_fields block = concat (map line_field (splitlines block))"

definition field_values :: "string \<Rightarrow> string \<Rightarrow> string list" where
  "field_values k block = map snd (filter (\<lambda>f. fst f = k) (config_fields block))"

section \<open>Peers\<close>

definition wg_key :: "string \<Rightarrow> wg_fault + string" where
  "wg_key k = (case b64decode k of
     None \<Rightarrow> Inl (Provision ''Invalid WireGuard public key'')
   | Some raw \<Rightarrow>
       if length raw \<noteq> 32 then Inl (Provision ''Invalid WireGuard public key'')
       else if raw = replicate 32 (char_of (0 :: nat))
       then Inl (Provision ''All-zero public key is invalid'') else Inr k)"

type_synonym peer_map = "(string \<times> network list) list"

definition peer_block :: "string \<Rightarrow> bool" where
  "peer_block b \<longleftrightarrow> startswith (dropWhile is_blank b) ''[Peer]''"

definition block_networks :: "string \<Rightarrow> network list option" where
  "block_networks b = those (map (\<lambda>n. ip_network (strip is_blank n))
     (concat (map (split_on (CHR '','')) (field_values ''allowedips'' b))))"

fun collect_peers :: "string list \<Rightarrow> peer_map \<Rightarrow> wg_fault + peer_map" where
  "collect_peers [] found = Inr found"
| "collect_peers (b # bs) found =
     (if \<not> peer_block b then collect_peers bs found
      else case field_values ''publickey'' b of
        [k] \<Rightarrow>
          (if k \<in> fst ` set found
           then Inl (Provision ''Duplicate or invalid peer in server configuration'')
           else case wg_key k of Inl f \<Rightarrow> Inl f
             | Inr pub \<Rightarrow> (case block_networks b of
                 None \<Rightarrow> Inl (Provision ''Invalid AllowedIPs in server configuration'')
               | Some nets \<Rightarrow> collect_peers bs (found @ [(pub, nets)])))
      | _ \<Rightarrow> Inl (Provision ''Duplicate or invalid peer in server configuration''))"

definition peers_of :: "string \<Rightarrow> wg_fault + peer_map" where
  "peers_of text = collect_peers (blocks text) []"

text \<open>The section of a new peer, and the text with it appended.\<close>

definition peer_section :: "string \<Rightarrow> string \<Rightarrow> string \<Rightarrow> string" where
  "peer_section peer_name pub address =
     ''[Peer]'' @ newline # ''# KDX InfraBox '' @ peer_name @ newline # ''PublicKey = '' @ pub @
     newline # ''AllowedIPs = '' @ address @ [newline]"

definition append_peer :: "string \<Rightarrow> string \<Rightarrow> string \<Rightarrow> string \<Rightarrow> string" where
  "append_peer text peer_name pub address =
     rstrip is_blank text @ newline # newline # peer_section peer_name pub address"

text \<open>The text without the sections of a key.\<close>

definition without_peer :: "string \<Rightarrow> string \<Rightarrow> string" where
  "without_peer pub text = concat (filter (\<lambda>b. field_values ''publickey'' b \<noteq> [pub]) (blocks text))"

section \<open>The split into sections\<close>

lemma cut_nonempty [simp]: "cut b s \<noteq> []"
  by (induction b s rule: cut.induct) (auto split: list.split)

lemma concat_blocks: "concat (blocks text) = text"
proof -
  have "concat (cut b s) = s" for b s
    by (induction b s rule: cut.induct) (auto split: list.split)
  then show ?thesis by (simp add: blocks_def)
qed

lemma blank_newline [simp]: "is_blank newline"
  by (simp add: is_blank_def newline_def code_def)

lemma line_end_blank: "line_end c \<Longrightarrow> is_blank c"
  by (auto simp: line_end_def is_blank_def)

lemma header_bracket: "header_at s \<Longrightarrow> CHR ''['' \<in> set s"
proof -
  assume "header_at s"
  then have "\<exists>y. dropWhile is_blank s = CHR ''['' # y"
    by (auto simp: header_at_def header_with_def startswith_iff)
  then have "CHR ''['' \<in> set (dropWhile is_blank s)" by auto
  then show ?thesis by (blast dest: set_dropWhileD)
qed

lemma cut_free: "CHR ''['' \<notin> set s \<Longrightarrow> cut b s = [s]"
proof (induction b s rule: cut.induct)
  case (2 b c cs)
  then show ?case using header_bracket [of "c # cs"] by auto
qed simp

text \<open>What follows a text that ends in no blank does not change where its sections start.\<close>

lemma startswith_blank_end:
  assumes "u = [] \<or> is_blank (hd u)" and "\<And>c. c \<in> set pre \<Longrightarrow> \<not> is_blank c"
  shows "startswith (x @ u) pre = startswith x pre"
proof (cases "length pre \<le> length x")
  case False
  then have "take (length pre) (x @ u) \<noteq> pre"
  proof (cases u)
    case (Cons d v)
    show ?thesis
    proof
      assume "take (length pre) (x @ u) = pre"
      moreover have "d \<in> set (take (length pre) (x @ u))"
        using False Cons by (simp add: take_Cons')
      ultimately show False using assms Cons by auto
    qed
  qed auto
  moreover have "take (length pre) x \<noteq> pre" using False by (metis length_take min.absorb1 nat_le_linear)
  ultimately show ?thesis by (simp add: startswith_def)
qed (simp add: startswith_def)

definition solid :: "string \<Rightarrow> bool" where
  "solid s \<longleftrightarrow> s = [] \<or> \<not> is_blank (last s)"

lemma solid_suffix: "solid (x @ s) \<Longrightarrow> solid s"
  by (auto simp: solid_def split: if_splits)

lemma solid_drop: "solid s \<Longrightarrow> solid (drop n s)"
  using solid_suffix [of "take n s" "drop n s"] by simp

lemma solid_rstrip: "solid (rstrip is_blank s)"
proof (cases "dropWhile is_blank (rev s) = []")
  case False
  then show ?thesis using hd_dropWhile [OF False] by (simp add: solid_def rstrip_def last_rev)
qed (simp add: solid_def rstrip_def)

lemma dropWhile_solid:
  assumes "solid s" and "s \<noteq> []"
  shows "dropWhile is_blank s \<noteq> []"
    and "dropWhile is_blank (s @ u) = dropWhile is_blank s @ u"
    and "takeWhile is_blank (s @ u) = takeWhile is_blank s"
proof -
  have "last s \<in> set s" "\<not> is_blank (last s)" using assms by (auto simp: solid_def)
  then show "dropWhile is_blank (s @ u) = dropWhile is_blank s @ u"
    "takeWhile is_blank (s @ u) = takeWhile is_blank s"
    by (auto simp: dropWhile_append1 takeWhile_append1)
  show "dropWhile is_blank s \<noteq> []"
    using \<open>last s \<in> set s\<close> \<open>\<not> is_blank (last s)\<close> by (meson dropWhile_eq_Nil_conv)
qed

lemma header_end_extend:
  assumes "solid r" and "u = [] \<or> (is_blank (hd u) \<and> (hd u = newline \<or> (\<forall>c \<in> set u. is_blank c)))"
  shows "header_end (r @ u) = header_end r"
proof (cases "r = []")
  case True
  have "header_end u"
  proof (cases u)
    case (Cons d v)
    with assms(2) have "is_blank d" "d = newline \<or> dropWhile is_blank u = []" by auto
    with Cons show ?thesis by (auto simp: header_end_def Let_def)
  qed (simp add: header_end_def)
  with True show ?thesis by (simp add: header_end_def)
next
  case False
  note parts = dropWhile_solid [OF assms(1) False]
  show ?thesis
    unfolding header_end_def Let_def parts(2,3) using parts(1)
    by (simp del: dropWhile_eq_Nil_conv)
qed

lemma header_at_extend:
  assumes "solid s" and "s \<noteq> []"
    and u: "u = [] \<or> (is_blank (hd u) \<and> (hd u = newline \<or> (\<forall>c \<in> set u. is_blank c)))"
  shows "header_at (s @ u) = header_at s"
proof -
  let ?t = "dropWhile is_blank s"
  have t: "dropWhile is_blank (s @ u) = ?t @ u" "solid ?t"
    using dropWhile_solid [OF assms(1,2)] solid_suffix [of "takeWhile is_blank s" ?t] assms(1) by simp_all
  have pre: "startswith (?t @ u) p = startswith ?t p" if "p \<in> {''[Interface]'', ''[Peer]''}" for p
    using that u by (intro startswith_blank_end) (auto simp: is_blank_def code_def)
  have rest: "header_end (drop (length p) (?t @ u)) = header_end (drop (length p) ?t)"
    if "startswith ?t p" for p
  proof -
    have "length p \<le> length ?t" using that by (metis startswith_def length_take min.cobounded1)
    then show ?thesis
      using header_end_extend [OF solid_drop [OF t(2)] u, of "length p"] by simp
  qed
  have "header_with p (?t @ u) = header_with p ?t" if "p \<in> {''[Interface]'', ''[Peer]''}" for p
    unfolding header_with_def using pre [OF that] rest [of p] by metis
  then show ?thesis by (simp add: header_at_def t(1))
qed

lemma cut_append:
  assumes "solid s" and "s \<noteq> []"
    and u: "u = [] \<or> (is_blank (hd u) \<and> (hd u = newline \<or> (\<forall>c \<in> set u. is_blank c)))"
  shows "cut b (s @ u) = butlast (cut b s) @ (last (cut b s) @ hd (cut False u)) # tl (cut False u)"
  using assms(1,2)
proof (induction s arbitrary: b)
  case (Cons c cs)
  have h: "header_at ((c # cs) @ u) = header_at (c # cs)"
    using Cons.prems by (intro header_at_extend u) auto
  show ?case
  proof (cases "cs = []")
    case True
    with Cons.prems have "c \<noteq> newline" by (auto simp: solid_def)
    with True h show ?thesis by (cases "cut False u") auto
  next
    case False
    with Cons.prems have "solid cs" using solid_suffix [of "[c]" cs] by simp
    from Cons.IH [OF this False] have IH: "cut b (cs @ u)
      = butlast (cut b cs) @ (last (cut b cs) @ hd (cut False u)) # tl (cut False u)" for b .
    obtain w ws where w: "cut (c = newline) cs = w # ws" by (cases "cut (c = newline) cs") auto
    show ?thesis
      using h by (cases ws) (auto simp: IH w)
  qed
qed simp

section \<open>The fields of a section\<close>

lemma splitlines_simps:
  "splitlines [] = []"
  "line_end c \<Longrightarrow> c \<noteq> CHR 0x0D \<Longrightarrow> splitlines (c # cs) = [] # splitlines cs"
  "line_end c \<Longrightarrow> splitlines [c] = [[]]"
  "\<not> line_end c \<Longrightarrow> splitlines (c # cs) = (case splitlines cs of [] \<Rightarrow> [[c]] | w # ws \<Rightarrow> (c # w) # ws)"
  by (subst splitlines.simps; simp add: splitlines.simps [of "[]"])+

lemma newline_end [simp]: "line_end newline" "newline \<noteq> CHR 0x0D"
  by (simp_all add: line_end_def newline_def code_def)

lemma splitlines_line:
  "list_all (\<lambda>c. \<not> line_end c) l \<Longrightarrow> splitlines (l @ newline # rest) = l # splitlines rest"
  by (induction l) (simp_all add: splitlines_simps)

lemma line_field_blank: "list_all is_blank l \<Longrightarrow> line_field l = []"
proof -
  assume "list_all is_blank l"
  then have "\<forall>c \<in> set (before (CHR ''#'') l). is_blank c"
    unfolding before_def list_all_iff using set_takeWhileD by fast
  then have "strip is_blank (before (CHR ''#'') l) = []"
    by (simp add: strip_def rstrip_def dropWhile_eq_Nil_conv [THEN iffD2])
  then show ?thesis by (simp add: line_field_def)
qed

lemma rstrip_append_blank: "list_all is_blank w \<Longrightarrow> rstrip is_blank (s @ w) = rstrip is_blank s"
  unfolding rstrip_def by (induction w rule: rev_induct) auto

lemma strip_append_blank:
  assumes "list_all is_blank w"
  shows "strip is_blank (s @ w) = strip is_blank s"
proof (cases "list_all is_blank s")
  case True
  with assms have "dropWhile is_blank (s @ w) = []" "dropWhile is_blank s = []"
    by (auto simp: list_all_iff)
  note empty = this
  show ?thesis unfolding strip_def empty by simp
next
  case False
  then have "dropWhile is_blank (s @ w) = dropWhile is_blank s @ w"
    by (auto simp: list_all_iff dropWhile_append1)
  then show ?thesis by (simp add: strip_def rstrip_append_blank [OF assms])
qed

lemma line_field_append:
  assumes "list_all is_blank w"
  shows "line_field (l @ w) = line_field l"
proof -
  have "CHR ''#'' \<notin> set w" using assms by (auto simp: list_all_iff is_blank_def code_def)
  then have "before (CHR ''#'') (l @ w)
      = (if CHR ''#'' \<in> set l then before (CHR ''#'') l else before (CHR ''#'') l @ w)"
    by (auto simp: before_def takeWhile_append takeWhile_eq_all_conv [THEN iffD2])
  then show ?thesis
    using strip_append_blank [OF assms] by (simp add: line_field_def)
qed

lemma splitlines_set: "l \<in> set (splitlines s) \<Longrightarrow> set l \<subseteq> set s"
proof (induction s arbitrary: l rule: splitlines.induct)
  case (1 s)
  show ?case
  proof (cases s)
    case Nil
    with "1.prems" show ?thesis by (simp add: splitlines_simps)
  next
    case (Cons c cs)
    let ?r = "if c = CHR 0x0D \<and> cs \<noteq> [] \<and> hd cs = newline then tl cs else cs"
    have r: "set ?r \<subseteq> set cs" by (cases cs) auto
    show ?thesis
    proof (cases "line_end c")
      case True
      then have "splitlines s = [] # splitlines ?r" using Cons by (subst splitlines.simps) simp
      with "1.IH" (1) [OF Cons True] "1.prems" r Cons show ?thesis by auto
    next
      case False
      have IH: "\<And>l. l \<in> set (splitlines cs) \<Longrightarrow> set l \<subseteq> set cs"
        using "1.IH" (2) [OF Cons False] by blast
      show ?thesis
      proof (cases "splitlines cs")
        case Nil
        with Cons False "1.prems" show ?thesis by (simp add: splitlines_simps)
      next
        case (Cons w ws)
        with \<open>s = c # cs\<close> False "1.prems" IH [of w] IH [of l] show ?thesis
          by (auto simp: splitlines_simps)
      qed
    qed
  qed
qed

lemma config_fields_blank:
  assumes "\<forall>l \<in> set ls. list_all is_blank l"
  shows "concat (map line_field ls) = []"
  using assms by (auto simp: line_field_blank)

lemma splitlines_append:
  assumes "s \<noteq> []" and "\<not> is_blank (last s)" and w: "list_all is_blank w"
  shows "\<exists>ls l w' ws. splitlines s = ls @ [l] \<and> splitlines (s @ w) = ls @ (l @ w') # ws \<and>
    (\<forall>x \<in> set (w' # ws). list_all is_blank x)"
  using assms(1,2)
proof (induction s rule: splitlines.induct)
  case (1 s)
  from "1.prems" obtain c cs where s: "s = c # cs" by (cases s) auto
  show ?case
  proof (cases "line_end c")
    case True
    let ?r = "\<lambda>cs. if c = CHR 0x0D \<and> cs \<noteq> [] \<and> hd cs = newline then tl cs else cs"
    have "cs \<noteq> []" using True "1.prems" s line_end_blank by auto
    then have r: "?r cs \<noteq> []" "last (?r cs) = last s" "?r (cs @ w) = ?r cs @ w"
      using "1.prems"(2) s by (cases cs; auto)+
    have lines: "splitlines s = [] # splitlines (?r cs)" "splitlines (s @ w) = [] # splitlines (?r (cs @ w))"
      using True s by (subst splitlines.simps; simp)+
    from "1.IH"(1) [OF s True r(1)] r(2) "1.prems"(2) obtain ls l w' ws where
      "splitlines (?r cs) = ls @ [l]" "splitlines (?r cs @ w) = ls @ (l @ w') # ws"
      "\<forall>x \<in> set (w' # ws). list_all is_blank x" by auto
    then have "splitlines s = ([] # ls) @ [l]" "splitlines (s @ w) = ([] # ls) @ (l @ w') # ws"
      by (simp_all only: lines r(3) append_Cons)
    with \<open>\<forall>x \<in> set (w' # ws). list_all is_blank x\<close> show ?thesis by blast
  next
    case False
    show ?thesis
    proof (cases "cs = []")
      case True
      have "\<forall>x \<in> set (splitlines w). list_all is_blank x"
        using splitlines_set w by (fastforce simp: list_all_iff)
      then show ?thesis
        using True False s
        by (cases "splitlines w") (auto simp: splitlines_simps intro!: exI [of _ "[]"])
    next
      case cs: False
      with "1.prems" s have "\<not> is_blank (last cs)" by simp
      from "1.IH"(2) [OF s False cs this] obtain ls l w' ws where
        "splitlines cs = ls @ [l]" "splitlines (cs @ w) = ls @ (l @ w') # ws"
        "\<forall>x \<in> set (w' # ws). list_all is_blank x" by auto
      note IH = this
      show ?thesis
      proof (cases ls)
        case Nil
        with IH False s have "splitlines s = [] @ [c # l]" "splitlines (s @ w) = [] @ ((c # l) @ w') # ws"
          by (simp_all add: splitlines_simps)
        with IH(3) show ?thesis by blast
      next
        case (Cons y ys)
        with IH False s have "splitlines s = ((c # y) # ys) @ [l]"
          "splitlines (s @ w) = ((c # y) # ys) @ (l @ w') # ws"
          by (simp_all add: splitlines_simps)
        with IH(3) show ?thesis by blast
      qed
    qed
  qed
qed

lemma config_fields_append:
  assumes "solid s" and w: "list_all is_blank w"
  shows "config_fields (s @ w) = config_fields s"
proof (cases "s = []")
  case True
  have "\<forall>x \<in> set (splitlines w). list_all is_blank x"
    using splitlines_set w by (fastforce simp: list_all_iff)
  with True show ?thesis by (simp add: config_fields_def splitlines_simps config_fields_blank)
next
  case False
  with assms(1) have "\<not> is_blank (last s)" by (simp add: solid_def)
  from splitlines_append [OF False this w] obtain ls l w' ws where
    "splitlines s = ls @ [l]" "splitlines (s @ w) = ls @ (l @ w') # ws"
    "\<forall>x \<in> set (w' # ws). list_all is_blank x" by blast
  then show ?thesis
    by (simp add: config_fields_def line_field_append config_fields_blank del: concat_eq_Nil_conv)
qed

lemma peer_block_append:
  assumes "solid s" and w: "list_all is_blank w"
  shows "peer_block (s @ w) = peer_block s"
proof (cases "s = []")
  case True
  from w have "dropWhile is_blank w = []" by (auto simp: list_all_iff)
  note empty = this
  show ?thesis unfolding peer_block_def True append_Nil empty by simp
next
  case False
  have "w = [] \<or> is_blank (hd w)" using w by (cases w) auto
  then show ?thesis
    unfolding peer_block_def dropWhile_solid(2) [OF assms(1) False]
    by (rule startswith_blank_end) (auto simp: is_blank_def code_def)
qed

text \<open>Blanks at the end of a section do not change what it is.\<close>

lemma block_append:
  assumes "solid s" and "list_all is_blank w"
  shows "peer_block (s @ w) = peer_block s" "field_values k (s @ w) = field_values k s"
    "block_networks (s @ w) = block_networks s"
  using config_fields_append [OF assms] peer_block_append [OF assms]
  by (simp_all add: field_values_def block_networks_def)

section \<open>Appending and removing a peer\<close>

definition word_ok :: "string \<Rightarrow> bool" where
  "word_ok w \<longleftrightarrow> w \<noteq> [] \<and> list_all (\<lambda>c. \<not> is_blank c \<and> c \<noteq> CHR ''#'' \<and> c \<noteq> CHR ''['') w"

lemma word_ok_solid: "word_ok w \<Longrightarrow> solid w"
  by (auto simp: word_ok_def solid_def list_all_iff)

lemma word_ok_lines: "word_ok w \<Longrightarrow> list_all (\<lambda>c. \<not> line_end c) w"
  using line_end_blank by (auto simp: word_ok_def list_all_iff)

lemma word_ok_bracket: "word_ok w \<Longrightarrow> CHR ''['' \<notin> set w"
  by (auto simp: word_ok_def list_all_iff)

lemma strip_word: "word_ok w \<Longrightarrow> strip is_blank w = w"
  by (rule strip_id) (auto simp: word_ok_def list_all_iff)

lemma blank_space [simp]: "is_blank (CHR '' '')"
  by (simp add: is_blank_def code_def)

lemma strip_space: "strip is_blank (CHR '' '' # s) = strip is_blank s"
  by (simp add: strip_def)

lemma line_field_value:
  assumes k: "word_ok k" "CHR ''='' \<notin> set k" and v: "word_ok v"
  shows "line_field (k @ '' = '' @ v) = [(lower k, v)]"
proof -
  let ?l = "k @ '' = '' @ v"
  have free: "CHR ''#'' \<notin> set ?l" using k(1) v by (auto simp: word_ok_def list_all_iff)
  then have "before (CHR ''#'') ?l = ?l"
    unfolding before_def by (intro takeWhile_eq_all_conv [THEN iffD2]) auto
  moreover have "strip is_blank ?l = ?l"
    by (rule strip_id) (use k(1) v in \<open>auto simp: word_ok_def list_all_iff\<close>)
  moreover have "before (CHR ''='') ?l = k @ '' ''"
    unfolding before_def using k(2) by (subst takeWhile_append2) auto
  moreover have "strip is_blank (k @ '' '') = k"
    using strip_append_blank [of "'' ''" k] strip_word [OF k(1)] by simp
  moreover have "after (CHR ''='') ?l = '' '' @ v"
    using \<open>before (CHR ''='') ?l = k @ '' ''\<close> by (simp add: after_def)
  ultimately show ?thesis
    by (simp add: line_field_def Let_def strip_space strip_word [OF v])
qed

definition peer_text_ok :: "string \<Rightarrow> string \<Rightarrow> string \<Rightarrow> bool" where
  "peer_text_ok peer_name pub address \<longleftrightarrow> word_ok peer_name \<and> word_ok pub \<and> word_ok address"

lemma section_lines:
  assumes "peer_text_ok n pub address"
  shows "splitlines (peer_section n pub address) =
    [''[Peer]'', ''# KDX InfraBox '' @ n, ''PublicKey = '' @ pub, ''AllowedIPs = '' @ address]"
proof -
  have ok: "list_all (\<lambda>c. \<not> line_end c) (''# KDX InfraBox '' @ n)"
    "list_all (\<lambda>c. \<not> line_end c) (''PublicKey = '' @ pub)"
    "list_all (\<lambda>c. \<not> line_end c) (''AllowedIPs = '' @ address)" "list_all (\<lambda>c. \<not> line_end c) ''[Peer]''"
    using assms word_ok_lines by (auto simp: peer_text_ok_def line_end_def code_def)
  have "peer_section n pub address = ''[Peer]'' @ newline # (''# KDX InfraBox '' @ n) @ newline #
      (''PublicKey = '' @ pub) @ newline # (''AllowedIPs = '' @ address) @ newline # []"
    by (simp add: peer_section_def)
  then show ?thesis
    by (simp only: splitlines_line [OF ok(1)] splitlines_line [OF ok(2)] splitlines_line [OF ok(3)]
        splitlines_line [OF ok(4)] splitlines_simps(1))
qed

lemma section_fields:
  assumes "peer_text_ok n pub address"
  shows "config_fields (peer_section n pub address) = [(''publickey'', pub), (''allowedips'', address)]"
proof -
  have "line_field ''[Peer]'' = []" by code_simp
  moreover have "line_field (''# KDX InfraBox '' @ n) = []"
    by (simp add: line_field_def before_def strip_def rstrip_def)
  moreover have "line_field (''PublicKey'' @ '' = '' @ pub) = [(lower ''PublicKey'', pub)]"
    "line_field (''AllowedIPs'' @ '' = '' @ address) = [(lower ''AllowedIPs'', address)]"
    using assms by (intro line_field_value; simp add: peer_text_ok_def word_ok_def is_blank_def code_def)+
  moreover have "lower ''PublicKey'' = ''publickey''" "lower ''AllowedIPs'' = ''allowedips''"
    by code_simp+
  ultimately show ?thesis
    by (simp add: config_fields_def section_lines [OF assms])
qed

lemma section_block:
  assumes "peer_text_ok n pub address"
  shows "cut True (peer_section n pub address) = [[], peer_section n pub address]"
    and "header_at (newline # peer_section n pub address)"
    and "peer_block (peer_section n pub address)"
proof -
  let ?rest = "''# KDX InfraBox '' @ n @ newline # ''PublicKey = '' @ pub @ newline # ''AllowedIPs = '' @
    address @ [newline]"
  have s: "peer_section n pub address = ''[Peer]'' @ newline # ?rest"
    by (simp add: peer_section_def)
  have "CHR ''['' \<notin> set ?rest"
    using assms unfolding peer_text_ok_def by (simp add: word_ok_bracket newline_def)
  then have rest: "cut True ?rest = [?rest]" by (rule cut_free)
  have nb: "\<not> is_blank (CHR ''['')" by (simp add: is_blank_def code_def)
  have "header_with ''[Peer]'' (''[Peer]'' @ newline # ?rest)"
    by (simp add: header_with_def startswith_def header_end_def)
  then have h: "header_at (''[Peer]'' @ newline # ?rest)" "header_at (newline # ''[Peer]'' @ newline # ?rest)"
    using nb by (simp_all add: header_at_def)
  have chars: "CHR ''['' \<noteq> newline" "CHR ''P'' \<noteq> newline" "CHR ''e'' \<noteq> newline" "CHR ''r'' \<noteq> newline"
    "CHR '']'' \<noteq> newline"
    by (simp_all add: newline_def)
  show "cut True (peer_section n pub address) = [[], peer_section n pub address]"
    using h(1) rest chars unfolding s by simp
  show "header_at (newline # peer_section n pub address)" using h(2) unfolding s .
  show "peer_block (peer_section n pub address)"
    using nb by (simp add: peer_block_def s startswith_def)
qed

lemma blocks_append:
  assumes "peer_text_ok n pub address"
  shows "\<exists>bs b. blocks (rstrip is_blank text) = bs @ [b] \<and> solid b \<and>
    blocks (append_peer text n pub address) =
      bs @ (if rstrip is_blank text = [] then [[], [newline]] else [b @ [newline]]) @
      [[newline], peer_section n pub address]"
proof -
  let ?t = "rstrip is_blank text" and ?sec = "peer_section n pub address"
  define bs b where "bs = butlast (blocks ?t)" and "b = last (blocks ?t)"
  have "blocks ?t \<noteq> []" by (simp add: blocks_def)
  then have t: "blocks ?t = bs @ [b]" by (simp add: bs_def b_def)
  then have "?t = concat bs @ b" using concat_blocks [of ?t] by simp
  then have b: "solid b" using solid_rstrip [of "text"] solid_suffix by metis
  have second: "cut True (newline # ?sec) = [[], [newline], ?sec]"
    using section_block [OF assms] by simp
  have first: "cut False (newline # newline # ?sec) = [[newline], [newline], ?sec]"
    using second by simp
  have "blocks (append_peer text n pub address) =
      bs @ (if ?t = [] then [[], [newline]] else [b @ [newline]]) @ [[newline], ?sec]"
  proof (cases "?t = []")
    case True
    have "header_at (newline # newline # ?sec)"
      using section_block(2) [OF assms] by (simp add: header_at_def)
    then show ?thesis
      using True second by (simp add: append_peer_def blocks_def bs_def)
  next
    case False
    show ?thesis
      using cut_append [OF solid_rstrip False, of "newline # newline # ?sec" True] first False
      by (simp add: append_peer_def blocks_def bs_def b_def)
  qed
  with t b show ?thesis by blast
qed

lemma collect_append:
  "collect_peers (xs @ ys) found = (case collect_peers xs found of Inl f \<Rightarrow> Inl f | Inr g \<Rightarrow> collect_peers ys g)"
  by (induction xs arbitrary: found) (auto split: list.split sum.split option.split)

lemma collect_blank_end:
  assumes "solid b" and "list_all is_blank w"
  shows "collect_peers [b @ w] found = collect_peers [b] found"
  by (simp only: collect_peers.simps block_append [OF assms])

lemma peer_block_blank: "list_all is_blank w \<Longrightarrow> \<not> peer_block w"
  using peer_block_append [of "[]" w] by (simp add: solid_def peer_block_def startswith_def)

text \<open>Blanks at the end of the text do not change its peers.\<close>

lemma peers_of_blank_end:
  assumes s: "solid s" and w: "list_all is_blank w"
  shows "peers_of (s @ w) = peers_of s"
proof -
  have free: "CHR ''['' \<notin> set w" using w by (auto simp: list_all_iff is_blank_def code_def)
  show ?thesis
  proof (cases "s = []")
    case True
    then show ?thesis
      using cut_free [OF free] peer_block_blank [OF w]
      by (simp add: peers_of_def blocks_def peer_block_def startswith_def)
  next
    case False
    have "w = [] \<or> is_blank (hd w) \<and> (hd w = newline \<or> (\<forall>c \<in> set w. is_blank c))"
      using w by (cases w) (auto simp: list_all_iff)
    from cut_append [OF s False this, of True]
    have b: "blocks (s @ w) = butlast (blocks s) @ [last (blocks s) @ w]"
      using cut_free [OF free] by (simp add: blocks_def)
    have l: "butlast (blocks s) @ [last (blocks s)] = blocks s" by (simp add: blocks_def)
    then have "concat (butlast (blocks s)) @ last (blocks s) = s"
      using concat_blocks [of s] by (metis concat.simps concat_append append_Nil2)
    then have "solid (last (blocks s))" using s solid_suffix by metis
    then have "collect_peers (butlast (blocks s) @ [last (blocks s) @ w]) []
        = collect_peers (butlast (blocks s) @ [last (blocks s)]) []"
      by (simp only: collect_append collect_blank_end [OF _ w])
    then show ?thesis unfolding peers_of_def b l .
  qed
qed

lemma rstrip_blank_end: "\<exists>w. t = rstrip is_blank t @ w \<and> list_all is_blank w"
proof (intro exI conjI)
  show "t = rstrip is_blank t @ rev (takeWhile is_blank (rev t))"
    unfolding rstrip_def by (metis rev_append rev_rev_ident takeWhile_dropWhile_id)
  have "\<forall>c \<in> set (takeWhile is_blank (rev t)). is_blank c" by (blast dest: set_takeWhileD)
  then show "list_all is_blank (rev (takeWhile is_blank (rev t)))" by (simp add: list_all_iff)
qed

lemma peers_of_rstrip: "peers_of (rstrip is_blank t) = peers_of t"
  using rstrip_blank_end [of t] peers_of_blank_end [OF solid_rstrip] by metis

lemma section_collect:
  assumes ok: "peer_text_ok n pub address" and "wg_key pub = Inr pub" and "pub \<notin> fst ` set found"
    and "ip_network address = Some net" and "CHR '','' \<notin> set address"
  shows "collect_peers [[newline], peer_section n pub address] found = Inr (found @ [(pub, [net])])"
proof -
  have "\<not> peer_block [newline]" by (rule peer_block_blank) simp
  moreover have "field_values ''publickey'' (peer_section n pub address) = [pub]"
    "field_values ''allowedips'' (peer_section n pub address) = [address]"
    by (simp_all add: field_values_def section_fields [OF ok])
  moreover have "block_networks (peer_section n pub address) = Some [net]"
    using assms(4,5) ok calculation(3)
    by (simp add: block_networks_def split_on_free strip_word peer_text_ok_def)
  ultimately show ?thesis
    using section_block(3) [OF ok] assms(2,3) by simp
qed

lemma peers_of_append:
  assumes ok: "peer_text_ok n pub address" and p: "peers_of t = Inr found"
    and "wg_key pub = Inr pub" and "pub \<notin> fst ` set found"
    and "ip_network address = Some net" and "CHR '','' \<notin> set address"
  shows "peers_of (append_peer t n pub address) = Inr (found @ [(pub, [net])])"
proof -
  obtain bs b where b: "blocks (rstrip is_blank t) = bs @ [b]" "solid b"
    "blocks (append_peer t n pub address) =
      bs @ (if rstrip is_blank t = [] then [[], [newline]] else [b @ [newline]]) @
      [[newline], peer_section n pub address]"
    using blocks_append [OF ok] by blast
  let ?mid = "if rstrip is_blank t = [] then [[], [newline]] else [b @ [newline]]"
  have nl: "list_all is_blank [newline]" by simp
  have mid: "collect_peers (bs @ ?mid) [] = collect_peers (bs @ [b]) []"
  proof (cases "rstrip is_blank t = []")
    case True
    with b(1) have "bs = []" "b = []" by (simp_all add: blocks_def)
    with True show ?thesis
      using peer_block_blank [OF nl] by (simp add: peer_block_def startswith_def)
  next
    case False
    then show ?thesis by (simp only: if_False collect_append collect_blank_end [OF b(2) nl])
  qed
  have "collect_peers (bs @ ?mid) [] = Inr found"
    unfolding mid b(1) [symmetric] using p peers_of_rstrip by (simp add: peers_of_def)
  then have "collect_peers ((bs @ ?mid) @ [[newline], peer_section n pub address]) []
      = collect_peers [[newline], peer_section n pub address] found"
    by (simp only: collect_append sum.case)
  then show ?thesis
    unfolding peers_of_def b(3) using section_collect [OF ok assms(3-6)] by simp
qed

lemma without_append:
  assumes ok: "peer_text_ok n pub address"
    and "\<forall>b \<in> set (blocks (rstrip is_blank t)). field_values ''publickey'' b \<noteq> [pub]"
  shows "without_peer pub (append_peer t n pub address) = rstrip is_blank t @ [newline, newline]"
proof -
  obtain bs b where b: "blocks (rstrip is_blank t) = bs @ [b]" "solid b"
    "blocks (append_peer t n pub address) =
      bs @ (if rstrip is_blank t = [] then [[], [newline]] else [b @ [newline]]) @
      [[newline], peer_section n pub address]"
    using blocks_append [OF ok] by blast
  have t: "rstrip is_blank t = concat bs @ b" using concat_blocks [of "rstrip is_blank t"] b(1) by simp
  have nl: "field_values ''publickey'' [newline] = []" "field_values ''publickey'' [] = []"
    by (simp_all add: field_values_def config_fields_def splitlines_simps line_field_blank)
  have sec: "field_values ''publickey'' (peer_section n pub address) = [pub]"
    by (simp add: field_values_def section_fields [OF ok])
  have bs: "filter (\<lambda>b. field_values ''publickey'' b \<noteq> [pub]) bs = bs"
    using assms(2) b(1) by (simp add: filter_id_conv)
  have "field_values ''publickey'' (b @ [newline]) \<noteq> [pub]"
    using assms(2) b(1) block_append(2) [OF b(2), of "[newline]"] by simp
  then show ?thesis
    using nl sec bs by (cases "rstrip is_blank t = []") (simp_all add: without_peer_def b(3) t)
qed

end
