(* ===== verification/Wg_Server.thy ===== *)
theory Wg_Server
  imports Wg_Config
begin

text \<open>
  Peer registration on the VPN server (scripts/kdx-wg-server.py): the checks of a request and of the
  server's settings, the choice of an address, and the transaction that changes the configuration
  file, the registry and the running interface together. The \<open>wg\<close> tool is a parameter: a function of
  its arguments and of the state of the interface.
\<close>

section \<open>Requests\<close>

definition name_char :: "char \<Rightarrow> bool" where
  "name_char c \<longleftrightarrow> is_lower c \<or> is_dec c \<or> c = CHR ''-''"

definition name_ok :: "string \<Rightarrow> bool" where
  "name_ok s \<longleftrightarrow> s \<noteq> [] \<and> length s \<le> 63 \<and> list_all name_char s \<and>
     hd s \<noteq> CHR ''-'' \<and> last s \<noteq> CHR ''-''"

text \<open>The functions \<open>name\<close> and \<open>public_key\<close> on a JSON value; only \<open>public_key\<close> checks its type.\<close>

definition check_name :: "json \<Rightarrow> ('s, wg_fault, unit) prog" where
  "check_name v = (case v of
     JStr s \<Rightarrow> require (name_ok s) (Provision ''Peer name must use lowercase letters, digits and hyphens'')
   | _ \<Rightarrow> raise Reported)"

definition lift :: "'e + 'a \<Rightarrow> ('s, 'e, 'a) prog" where
  "lift x = (case x of Inl f \<Rightarrow> raise f | Inr a \<Rightarrow> ret a)"

definition check_key :: "json \<Rightarrow> ('s, wg_fault, string) prog" where
  "check_key v = (case v of JStr s \<Rightarrow> lift (wg_key s)
     | _ \<Rightarrow> raise (Provision ''Invalid WireGuard public key''))"

definition device_serial :: "json \<Rightarrow> bool" where
  "device_serial v = (case v of
     JStr s \<Rightarrow> length s = 16 \<and> list_all is_lower_hex s \<and> list_ex (\<lambda>c. c \<noteq> CHR ''0'') s | _ \<Rightarrow> False)"

definition check_request_id :: "json \<Rightarrow> ('s, wg_fault, unit) prog" where
  "check_request_id v = (case v of
     JStr s \<Rightarrow> (case uuid_of s of None \<Rightarrow> raise Reported
        | Some u \<Rightarrow> require (u = s) (Provision ''Invalid request identifier''))
   | JNull \<Rightarrow> raise Reported
   | _ \<Rightarrow> raise Unhandled)"

definition request_keys :: "string list" where
  "request_keys = [''version'', ''device_id'', ''hostname'', ''public_key'', ''request_id'']"

definition at_key :: "(string \<times> json) list \<Rightarrow> string \<Rightarrow> json" where
  "at_key kvs k = (case map_of kvs k of None \<Rightarrow> JNull | Some v \<Rightarrow> v)"

definition request_shape :: "json \<Rightarrow> (string \<times> json) list option" where
  "request_shape v = (case v of
     JObj kvs \<Rightarrow> if set (map fst kvs) = set request_keys \<and> at_key kvs ''version'' = JInt 1 then Some kvs else None
   | _ \<Rightarrow> None)"

definition validate_request :: "json \<Rightarrow> ('s, wg_fault, (string \<times> json) list) prog" where
  "validate_request v =
     andThen (need (request_shape v) (Provision ''Invalid public registration request'')) (\<lambda>kvs.
     andThen (check_name (at_key kvs ''hostname'')) (\<lambda>_.
     andThen (check_key (at_key kvs ''public_key'')) (\<lambda>_.
     andThen (require (device_serial (at_key kvs ''device_id'')) (Provision ''Invalid device serial'')) (\<lambda>_.
     andThen (check_request_id (at_key kvs ''request_id'')) (\<lambda>_.
       ret kvs)))))"

section \<open>The server\<close>

record wg_server =
  sv_interface :: string
  sv_network :: "nat \<times> nat"
  sv_start :: nat
  sv_end :: nat
  sv_endpoint :: "string option"

definition interface_ok :: "string \<Rightarrow> bool" where
  "interface_ok s \<longleftrightarrow> s \<noteq> [] \<and> length s \<le> 15 \<and>
     list_all (\<lambda>c. is_alnum c \<or> c = CHR ''_'' \<or> c = CHR ''-'') s"

definition in_network4 :: "nat \<Rightarrow> nat \<times> nat \<Rightarrow> bool" where
  "in_network4 a n \<longleftrightarrow> member (Ip4 a) (Net4 (fst n) (snd n))"

definition make_server ::
    "string \<Rightarrow> string \<Rightarrow> string \<Rightarrow> string \<Rightarrow> string option \<Rightarrow> ('s, wg_fault, wg_server) prog" where
  "make_server interface network start end endpoint =
     andThen (require (interface_ok interface) (Provision ''Invalid interface'')) (\<lambda>_.
     andThen (need (ipv4_network network) Reported) (\<lambda>net.
     andThen (require (private4 net) (Provision ''Use a specific private IPv4 VPN subnet'')) (\<lambda>_.
     andThen (need (ipv4 start) Reported) (\<lambda>a.
     andThen (need (ipv4 end) Reported) (\<lambda>b.
     andThen (require (in_network4 a net \<and> in_network4 b net \<and> a \<le> b \<and> fst net < a \<and> b < broadcast4 net)
                (Provision ''Invalid allocation pool'')) (\<lambda>_.
       ret \<lparr>sv_interface = interface, sv_network = net, sv_start = a, sv_end = b,
            sv_endpoint = endpoint\<rparr>))))))"

text \<open>What the \<open>wg\<close> tool ends in: its output, a return code that is not zero, or an exception.\<close>

datatype tool_result = Tool_output string | Tool_error | Tool_exception

record 'k wg_env =
  wg_tool :: "string list \<Rightarrow> 'k \<Rightarrow> tool_result \<times> 'k"
  disk_fails :: "nat \<Rightarrow> bool"
  lock_busy :: bool
  backup_name :: "nat \<Rightarrow> string"

text \<open>
  The configuration file, the registry file (\<open>None\<close> when it does not exist; its JSON value, or
  \<open>Some None\<close> when it is not JSON), the interface, the backups and the disk operations so far.
\<close>

record 'k wg_host =
  wh_config :: string
  wh_registry :: "json option option"
  wh_kernel :: 'k
  wh_backups :: "(string \<times> string) list list"
  wh_disk :: nat

type_synonym ('k, 'a) wg_prog = "('k wg_host, wg_fault, 'a) prog"

definition wg :: "'k wg_env \<Rightarrow> string list \<Rightarrow> ('k, string) wg_prog" where
  "wg e args = (\<lambda>s. case wg_tool e args (wh_kernel s) of (r, k) \<Rightarrow>
     ((case r of Tool_output out \<Rightarrow> Inr (strip is_blank out)
       | Tool_error \<Rightarrow> Inl (Provision ''WireGuard operation failed; no secret output was printed'')
       | Tool_exception \<Rightarrow> Inl Reported), s\<lparr>wh_kernel := k\<rparr>))"

definition disk :: "'k wg_env \<Rightarrow> ('k wg_host \<Rightarrow> 'k wg_host) \<Rightarrow> ('k, unit) wg_prog" where
  "disk e f = (\<lambda>s. let t = s\<lparr>wh_disk := Suc (wh_disk s)\<rparr>
     in if disk_fails e (wh_disk s) then (Inl Reported, t) else (Inr (), f t))"

definition write_config :: "'k wg_env \<Rightarrow> string \<Rightarrow> ('k, unit) wg_prog" where
  "write_config e t = disk e (\<lambda>s. s\<lparr>wh_config := t\<rparr>)"

definition write_registry :: "'k wg_env \<Rightarrow> (string \<times> json) list \<Rightarrow> ('k, unit) wg_prog" where
  "write_registry e r = disk e (\<lambda>s. s\<lparr>wh_registry := Some (Some (JObj r))\<rparr>)"

definition write_backup :: "'k wg_env \<Rightarrow> string \<Rightarrow> string \<Rightarrow> ('k, unit) wg_prog" where
  "write_backup e file content = disk e (\<lambda>s. s\<lparr>wh_backups :=
     (case wh_backups s of [] \<Rightarrow> [] | b # bs \<Rightarrow> (b @ [(file, content)]) # bs)\<rparr>)"

definition current :: "('k wg_host \<Rightarrow> 'a) \<Rightarrow> ('k, 'a) wg_prog" where
  "current f = (\<lambda>s. (Inr (f s), s))"

definition locked :: "'k wg_env \<Rightarrow> ('k, 'a) wg_prog \<Rightarrow> ('k, 'a) wg_prog" where
  "locked e m = andThen (require (\<not> lock_busy e)
     (Provision ''Another provisioning operation is running'')) (\<lambda>_. m)"

definition records :: "('k, (string \<times> json) list) wg_prog" where
  "records = andThen (current wh_registry) (\<lambda>r. case r of
     None \<Rightarrow> ret []
   | Some None \<Rightarrow> raise Reported
   | Some (Some (JObj kvs)) \<Rightarrow> ret kvs
   | Some (Some _) \<Rightarrow> raise (Provision ''Invalid peer registry''))"

text \<open>A line of \<open>wg show ... allowed-ips\<close>: the networks are read before the key is checked.\<close>

definition runtime_line :: "string \<Rightarrow> wg_fault + (string \<times> network list)" where
  "runtime_line line =
     (let allowed = after (CHR 0x09) line
      in case those (map ip_network (filter (\<lambda>w. w \<noteq> ''(none)'')
           (words_of (map (\<lambda>c. if c = CHR '','' then CHR '' '' else c) allowed)))) of
        None \<Rightarrow> Inl Reported
      | Some nets \<Rightarrow> (case wg_key (before (CHR 0x09) line) of Inl f \<Rightarrow> Inl f | Inr k \<Rightarrow> Inr (k, nets)))"

fun put_peer :: "string \<Rightarrow> network list \<Rightarrow> peer_map \<Rightarrow> peer_map" where
  "put_peer k v [] = [(k, v)]"
| "put_peer k v ((j, w) # ps) = (if j = k then (k, v) # ps else (j, w) # put_peer k v ps)"

fun runtime_lines :: "string list \<Rightarrow> peer_map \<Rightarrow> wg_fault + peer_map" where
  "runtime_lines [] ps = Inr ps"
| "runtime_lines (l # ls) ps = (case runtime_line l of Inl f \<Rightarrow> Inl f
     | Inr (k, nets) \<Rightarrow> runtime_lines ls (put_peer k nets ps))"

definition runtime :: "'k wg_env \<Rightarrow> wg_server \<Rightarrow> ('k, peer_map) wg_prog" where
  "runtime e v = andThen (wg e [''show'', sv_interface v, ''allowed-ips'']) (\<lambda>out.
     lift (runtime_lines (splitlines out) []))"

definition save_config_message :: string where
  "save_config_message = ''SaveConfig=true: refuse mutation; reconcile file/live peers and '' @
     ''set SaveConfig=false under operator approval first''"

definition inventory ::
    "'k wg_env \<Rightarrow> wg_server \<Rightarrow> ('k, string \<times> peer_map \<times> peer_map \<times> (string \<times> json) list) wg_prog" where
  "inventory e v =
     andThen (current wh_config) (\<lambda>t.
     andThen (require (\<not> list_ex (\<lambda>x. lower x = ''true'') (field_values ''saveconfig'' t))
                (Provision save_config_message)) (\<lambda>_.
     andThen (lift (peers_of t)) (\<lambda>file_peers.
     andThen (runtime e v) (\<lambda>live.
     andThen records (\<lambda>rs. ret (t, file_peers, live, rs))))))"

section \<open>Allocation\<close>

text \<open>\<open>record[k]\<close> of a record in the registry.\<close>

definition record_field :: "json \<Rightarrow> string \<Rightarrow> wg_fault + json" where
  "record_field r k = (case r of
     JObj kvs \<Rightarrow> (case map_of kvs k of None \<Rightarrow> Inl Reported | Some v \<Rightarrow> Inr v)
   | _ \<Rightarrow> Inl Reported)"

text \<open>\<open>ip_network\<close> of a JSON value: a number is an address.\<close>

definition number_network :: "int \<Rightarrow> network option" where
  "number_network n = (if n < 0 then None else if n < 2 ^ 32 then Some (Net4 (nat n) 32)
     else if n < 2 ^ 128 then Some (Net6 (nat n) 128) else None)"

fun address_network :: "json \<Rightarrow> wg_fault + network" where
  "address_network (JStr s) = (case strict_network s of None \<Rightarrow> Inl Reported | Some n \<Rightarrow> Inr n)"
| "address_network (JInt n) = (case number_network n of None \<Rightarrow> Inl Reported | Some x \<Rightarrow> Inr x)"
| "address_network (JBool b) = Inr (Net4 (if b then 1 else 0) 32)"
| "address_network _ = Inl Reported"

definition record_network :: "json \<Rightarrow> wg_fault + network" where
  "record_network r = (case record_field r ''address'' of Inl f \<Rightarrow> Inl f | Inr v \<Rightarrow> address_network v)"

fun all_inr :: "('e + 'a) list \<Rightarrow> 'e + 'a list" where
  "all_inr [] = Inr []"
| "all_inr (Inl f # xs) = Inl f"
| "all_inr (Inr a # xs) = (case all_inr xs of Inl f \<Rightarrow> Inl f | Inr as \<Rightarrow> Inr (a # as))"

text \<open>The addresses of the interface itself.\<close>

definition own_networks :: "string \<Rightarrow> network list option" where
  "own_networks t = those (map (\<lambda>a. map_option (\<lambda>i. host_network (fst i)) (ip_interface (strip is_blank a)))
     (concat (map (split_on (CHR '','')) (field_values ''address'' t))))"

definition used_networks ::
    "peer_map \<Rightarrow> peer_map \<Rightarrow> (string \<times> json) list \<Rightarrow> string \<Rightarrow> wg_fault + network list" where
  "used_networks file_peers live rs t =
     (case all_inr (map (record_network \<circ> snd) rs) of Inl f \<Rightarrow> Inl f
      | Inr taken \<Rightarrow> (case own_networks t of None \<Rightarrow> Inl Reported
          | Some own \<Rightarrow> Inr (concat (map snd file_peers) @ concat (map snd live) @ taken @ own)))"

definition free_address :: "network list \<Rightarrow> nat \<Rightarrow> bool" where
  "free_address used a \<longleftrightarrow> \<not> list_ex (member (Ip4 a)) used"

definition address_text :: "nat \<Rightarrow> string" where
  "address_text a = ipv4_text a @ ''/32''"

definition occupied :: wg_fault where
  "occupied = Provision ''Requested IP is occupied or allocation pool is exhausted''"

definition requested_address :: "string option \<Rightarrow> string option" where
  "requested_address x = (case x of None \<Rightarrow> None | Some s \<Rightarrow> if s = [] then None else Some s)"

definition choose_address :: "wg_server \<Rightarrow> network list \<Rightarrow> string option \<Rightarrow> wg_fault + nat" where
  "choose_address v used requested =
     (case requested_address requested of
        None \<Rightarrow> (case find (free_address used) [sv_start v..<Suc (sv_end v)] of
                   None \<Rightarrow> Inl occupied | Some a \<Rightarrow> Inr a)
      | Some s \<Rightarrow> (case ipv4 s of None \<Rightarrow> Inl Reported
          | Some a \<Rightarrow>
              if \<not> (sv_start v \<le> a \<and> a \<le> sv_end v)
              then Inl (Provision ''Requested IP is outside allocation pool'')
              else if free_address used a then Inr a else Inl occupied))"

definition allocate ::
    "wg_server \<Rightarrow> peer_map \<Rightarrow> peer_map \<Rightarrow> (string \<times> json) list \<Rightarrow> string option \<Rightarrow> ('k, nat) wg_prog" where
  "allocate v file_peers live rs requested =
     andThen (current wh_config) (\<lambda>t.
     andThen (lift (used_networks file_peers live rs t)) (\<lambda>used.
       lift (choose_address v used requested)))"

section \<open>The record of a peer\<close>

definition host_char :: "char \<Rightarrow> bool" where
  "host_char c \<longleftrightarrow> is_alnum c \<or> c = CHR ''.'' \<or> c = CHR ''-''"

text \<open>\<open>hostname:port\<close>; \<open>None\<close> when the text has not that form.\<close>

definition endpoint_port :: "string \<Rightarrow> nat option" where
  "endpoint_port s = (case split_on (CHR '':'') s of
     [h, p] \<Rightarrow> if h \<noteq> [] \<and> length h \<le> 253 \<and> is_alnum (hd h) \<and> list_all host_char h \<and>
                  all_dec p \<and> length p \<le> 5 then Some (dec_val p) else None
   | _ \<Rightarrow> None)"

definition metadata ::
    "'k wg_env \<Rightarrow> wg_server \<Rightarrow> (string \<times> json) list \<Rightarrow> string \<Rightarrow> ('k, (string \<times> json) list) wg_prog" where
  "metadata e v request address =
     (let endpoint = (case sv_endpoint v of None \<Rightarrow> [] | Some x \<Rightarrow> x)
      in andThen (need (endpoint_port endpoint) (Provision ''Specify --endpoint hostname:port'')) (\<lambda>port.
         andThen (require (1 \<le> port \<and> port \<le> 65535) (Provision ''Invalid endpoint port'')) (\<lambda>_.
         andThen (wg e [''show'', sv_interface v, ''public-key'']) (\<lambda>out.
         andThen (lift (wg_key out)) (\<lambda>k.
           ret (request @ [(''address'', JStr address), (''endpoint'', JStr endpoint),
             (''server_public_key'', JStr k),
             (''allowed_ips'', JStr (ipv4_text (fst (sv_network v)) @ CHR ''/'' # nat_dec (snd (sv_network v)))),
             (''keepalive'', JInt 25)]))))))"

section \<open>The transaction\<close>

definition peer_command :: "wg_server \<Rightarrow> string \<Rightarrow> string option \<Rightarrow> string list" where
  "peer_command v pub address = [''set'', sv_interface v, ''peer'', pub] @
     (case address of None \<Rightarrow> [''remove''] | Some a \<Rightarrow> [''allowed-ips'', a])"

definition previous_peer :: "string \<Rightarrow> string \<Rightarrow> string" where
  "previous_peer pub conf = concat (filter (\<lambda>b. field_values ''publickey'' b = [pub]) (blocks conf))"

text \<open>The backup, before anything is changed; it returns the backup's directory.\<close>

definition back_up ::
    "'k wg_env \<Rightarrow> wg_server \<Rightarrow> (string \<times> json) list \<Rightarrow> string \<Rightarrow> string option \<Rightarrow> peer_map
      \<Rightarrow> ('k, string) wg_prog" where
  "back_up e v old pub address live =
     andThen (disk e (\<lambda>s. s)) (\<lambda>_.
     andThen (disk e (\<lambda>s. s\<lparr>wh_backups := [] # wh_backups s\<rparr>)) (\<lambda>_.
     andThen (current (\<lambda>s. backup_name e (length (wh_backups s)))) (\<lambda>directory.
     andThen (current wh_config) (\<lambda>t.
     andThen (write_backup e ''interface.conf'' t) (\<lambda>_.
     andThen (write_backup e ''registry.json'' (render (JObj old))) (\<lambda>_.
     andThen (write_backup e ''operation.json'' (render (JObj [(''peer'', JStr pub),
                (''address'', jstr_opt address)]))) (\<lambda>_.
     andThen (wg e [''showconf'', sv_interface v]) (\<lambda>conf.
     andThen (require (\<not> (pub \<in> fst ` set live \<and> previous_peer pub conf = []))
                (Provision ''Could not capture previous peer for rollback'')) (\<lambda>_.
     andThen (write_backup e ''live-peer.conf'' (previous_peer pub conf)) (\<lambda>_.
       ret directory))))))))))"

text \<open>\<open>changed\<close> says whether the change of the interface was tried.\<close>

definition apply_change ::
    "'k wg_env \<Rightarrow> wg_server \<Rightarrow> string \<Rightarrow> (string \<times> json) list \<Rightarrow> string \<Rightarrow> string option
      \<Rightarrow> ('k wg_host, bool, unit) prog" where
  "apply_change e v config new pub address = (\<lambda>s.
     case write_config e config s of (Inl _, s1) \<Rightarrow> (Inl False, s1) | (Inr _, s1) \<Rightarrow>
     (case write_registry e new s1 of (Inl _, s2) \<Rightarrow> (Inl False, s2) | (Inr _, s2) \<Rightarrow>
     (case wg e (peer_command v pub address) s2 of (Inl _, s3) \<Rightarrow> (Inl True, s3) | (Inr _, s3) \<Rightarrow>
        (Inr (), s3))))"

text \<open>The interface is put back only when its change was tried.\<close>

definition undo_live ::
    "'k wg_env \<Rightarrow> wg_server \<Rightarrow> string \<Rightarrow> peer_map \<Rightarrow> string \<Rightarrow> bool \<Rightarrow> ('k, unit) wg_prog" where
  "undo_live e v pub live directory changed =
     (if changed
      then handling (andThen (wg e (if pub \<in> fst ` set live
             then [''addconf'', sv_interface v, directory @ ''/live-peer.conf'']
             else peer_command v pub None)) (\<lambda>_. ret ()))
           (\<lambda>_. raise (Provision (''Rollback needs operator recovery; root-only backup: '' @ directory)))
      else ret ())"

definition restore_registry :: "'k wg_env \<Rightarrow> (string \<times> json) list \<Rightarrow> bool \<Rightarrow> ('k, unit) wg_prog" where
  "restore_registry e old existed =
     (if existed then write_registry e old else disk e (\<lambda>s. s\<lparr>wh_registry := None\<rparr>))"

definition roll_back ::
    "'k wg_env \<Rightarrow> wg_server \<Rightarrow> string \<Rightarrow> (string \<times> json) list \<Rightarrow> bool \<Rightarrow> string \<Rightarrow> peer_map \<Rightarrow> string
      \<Rightarrow> bool \<Rightarrow> ('k, string) wg_prog" where
  "roll_back e v config old existed pub live directory changed =
     andThen (write_config e config) (\<lambda>_.
     andThen (restore_registry e old existed) (\<lambda>_.
     andThen (undo_live e v pub live directory changed) (\<lambda>_.
       raise (Provision (''Peer change failed; previous state restored; backup: '' @ directory)))))"

definition transaction ::
    "'k wg_env \<Rightarrow> wg_server \<Rightarrow> string \<Rightarrow> string \<Rightarrow> (string \<times> json) list \<Rightarrow> (string \<times> json) list
      \<Rightarrow> string \<Rightarrow> string option \<Rightarrow> peer_map \<Rightarrow> ('k, string) wg_prog" where
  "transaction e v old_config new_config old new pub address live =
     andThen (current (\<lambda>s. wh_registry s \<noteq> None)) (\<lambda>existed.
     andThen (back_up e v old pub address live) (\<lambda>directory.
       (\<lambda>s. case apply_change e v new_config new pub address s of
          (Inr (), t) \<Rightarrow> (Inr directory, t)
        | (Inl changed, t) \<Rightarrow> roll_back e v old_config old existed pub live directory changed t)))"

section \<open>Commands\<close>

text \<open>Whether a record has this key, device or request: the fields are read in this order.\<close>

definition same_peer :: "string \<Rightarrow> json \<Rightarrow> json \<Rightarrow> json \<Rightarrow> wg_fault + bool" where
  "same_peer pub dev rid r =
     (case record_field r ''public_key'' of Inl f \<Rightarrow> Inl f | Inr k \<Rightarrow>
      if k = JStr pub then Inr True else
      case record_field r ''device_id'' of Inl f \<Rightarrow> Inl f | Inr d \<Rightarrow>
      if d = dev then Inr True else
      case record_field r ''request_id'' of Inl f \<Rightarrow> Inl f | Inr i \<Rightarrow> Inr (i = rid))"

fun any_inr :: "('a \<Rightarrow> 'e + bool) \<Rightarrow> 'a list \<Rightarrow> 'e + bool" where
  "any_inr p [] = Inr False"
| "any_inr p (x # xs) = (case p x of Inl f \<Rightarrow> Inl f | Inr b \<Rightarrow> if b then Inr True else any_inr p xs)"

definition duplicate ::
    "string \<Rightarrow> string \<Rightarrow> json \<Rightarrow> json \<Rightarrow> peer_map \<Rightarrow> peer_map \<Rightarrow> (string \<times> json) list \<Rightarrow> wg_fault + bool" where
  "duplicate peer_name pub dev rid file_peers live rs =
     (if peer_name \<in> fst ` set rs \<or> pub \<in> fst ` set file_peers \<or> pub \<in> fst ` set live then Inr True
      else any_inr (same_peer pub dev rid) (map snd rs))"

definition text_at :: "(string \<times> json) list \<Rightarrow> string \<Rightarrow> string" where
  "text_at kvs k = (case at_key kvs k of JStr s \<Rightarrow> s | _ \<Rightarrow> [])"

text \<open>\<open>Server.add\<close>: the part under the lock, and the whole.\<close>

definition register_peer ::
    "'k wg_env \<Rightarrow> wg_server \<Rightarrow> (string \<times> json) list \<Rightarrow> string \<Rightarrow> string \<Rightarrow> string option
      \<Rightarrow> ('k, (string \<times> json) list) wg_prog" where
  "register_peer e v rq peer_name pub requested =
     andThen (inventory e v) (\<lambda>(t, file_peers, live, rs).
     andThen (lift (duplicate peer_name pub (at_key rq ''device_id'') (at_key rq ''request_id'')
                file_peers live rs)) (\<lambda>dup.
     andThen (require (\<not> dup)
                (Provision ''Duplicate name, device, public key or registration request'')) (\<lambda>_.
     andThen (allocate v file_peers live rs requested) (\<lambda>a.
     andThen (metadata e v rq (address_text a)) (\<lambda>m.
     andThen (transaction e v t (append_peer t peer_name pub (address_text a)) rs
                (rs @ [(peer_name, JObj m)]) pub (Some (address_text a)) live) (\<lambda>_.
       ret m))))))"

definition add_peer ::
    "'k wg_env \<Rightarrow> wg_server \<Rightarrow> json \<Rightarrow> string option \<Rightarrow> ('k, (string \<times> json) list) wg_prog" where
  "add_peer e v request requested =
     andThen (validate_request request) (\<lambda>rq.
       locked e (register_peer e v rq (text_at rq ''hostname'') (text_at rq ''public_key'') requested))"

text \<open>\<open>peers.get(pub)\<close> and \<open>pub in peers\<close> for a key read from the registry.\<close>

definition peer_at :: "peer_map \<Rightarrow> json \<Rightarrow> wg_fault + network list option" where
  "peer_at ps k = (case k of JStr s \<Rightarrow> Inr (map_of ps s) | JArr _ \<Rightarrow> Inl Reported
     | JObj _ \<Rightarrow> Inl Reported | _ \<Rightarrow> Inr None)"

definition withdraw_peer :: "'k wg_env \<Rightarrow> wg_server \<Rightarrow> string \<Rightarrow> ('k, string) wg_prog" where
  "withdraw_peer e v peer_name =
     andThen (inventory e v) (\<lambda>(t, file_peers, live, rs).
     andThen (need (map_of rs peer_name)
                (Provision ''Only peers registered by this tool can be removed'')) (\<lambda>r.
     andThen (lift (record_field r ''public_key'')) (\<lambda>k.
     andThen (lift (record_network r)) (\<lambda>net.
     andThen (lift (peer_at file_peers k)) (\<lambda>in_file.
     andThen (lift (peer_at live k)) (\<lambda>running.
     andThen (require (in_file = Some [net] \<and> running \<in> {None, Some [net]})
                (Provision ''Peer changed outside provisioning; reconcile before removal'')) (\<lambda>_.
     let pub = (case k of JStr s \<Rightarrow> s | _ \<Rightarrow> [])
     in transaction e v t (without_peer pub t) rs (filter (\<lambda>x. fst x \<noteq> peer_name) rs)
          pub None live)))))))"

definition remove_peer :: "'k wg_env \<Rightarrow> wg_server \<Rightarrow> string \<Rightarrow> ('k, string) wg_prog" where
  "remove_peer e v peer_name =
     andThen (check_name (JStr peer_name)) (\<lambda>_. locked e (withdraw_peer e v peer_name))"

text \<open>\<open>main\<close>: the commands, and the exit code with what is printed.\<close>

datatype wg_command = Add "(nat \<times> json option) option" "string option" | Remove string | Listing
  | Show_status | Export "string option"

datatype wg_output = Json json | Interface_status string peer_map string string

definition run_command :: "'k wg_env \<Rightarrow> wg_server \<Rightarrow> wg_command \<Rightarrow> ('k, wg_output) wg_prog" where
  "run_command e v c = (case c of
     Add file requested \<Rightarrow> (case file of
         None \<Rightarrow> raise (Provision ''Specify --request with public registration JSON under 4 KiB'')
       | Some (bytes, parsed) \<Rightarrow>
           if 4096 < bytes then raise (Provision ''Specify --request with public registration JSON under 4 KiB'')
           else andThen (need parsed Reported) (\<lambda>j.
                andThen (add_peer e v j requested) (\<lambda>m. ret (Json (JObj m)))))
   | Remove n \<Rightarrow> andThen (remove_peer e v n) (\<lambda>b.
        ret (Json (JObj [(''removed'', JStr n), (''backup'', JStr b)])))
   | Listing \<Rightarrow> locked e (andThen records (\<lambda>rs. ret (Json (JArr (map snd rs)))))
   | Export n \<Rightarrow> locked e (andThen records (\<lambda>rs.
        andThen (need (Option.bind n (map_of rs)) (Provision ''Unknown registered peer'')) (\<lambda>r. ret (Json r))))
   | Show_status \<Rightarrow> locked e (andThen records (\<lambda>rs. andThen (runtime e v) (\<lambda>ps.
        andThen (wg e [''show'', sv_interface v, ''latest-handshakes'']) (\<lambda>h.
        andThen (wg e [''show'', sv_interface v, ''transfer'']) (\<lambda>x.
          ret (Interface_status (sv_interface v) ps h x)))))))"

text \<open>The arguments of the command line that make the server, and a run.\<close>

record wg_args =
  wa_interface :: string
  wa_network :: string
  wa_start :: string
  wa_end :: string
  wa_endpoint :: "string option"

definition wg_main :: "'k wg_env \<Rightarrow> wg_args \<Rightarrow> wg_command \<Rightarrow> ('k, wg_output) wg_prog" where
  "wg_main e x c = andThen (make_server (wa_interface x) (wa_network x) (wa_start x) (wa_end x) (wa_endpoint x))
     (\<lambda>v. run_command e v c)"

definition exit_of :: "wg_fault + wg_output \<Rightarrow> int option" where
  "exit_of r = (case r of Inr _ \<Rightarrow> Some 0 | Inl Unhandled \<Rightarrow> None | Inl _ \<Rightarrow> Some 1)"

end
