(* ===== verification/Wg_Safety.thy ===== *)
theory Wg_Safety
  imports Wg_Server
begin

text \<open>
  What the provisioning of peers guarantees: the choice of an address, the invariant of the registry
  over every run and failure, that a failed command changes nothing, and what adding and removing a
  peer do to the configuration.
\<close>

section \<open>Steps\<close>

lemma wp_lift [wp_simps]: "wp (lift x) Q R s = (case x of Inl f \<Rightarrow> R f s | Inr a \<Rightarrow> Q a s)"
  by (simp add: lift_def wp_simps split: sum.split)

lemma wp_current [wp_simps]: "wp (current f) Q R s = Q (f s) s"
  by (simp add: wp_def current_def)

lemma wp_disk [wp_simps]:
  "wp (disk e f) Q R s = (if disk_fails e (wh_disk s) then R Reported (s\<lparr>wh_disk := Suc (wh_disk s)\<rparr>)
     else Q () (f (s\<lparr>wh_disk := Suc (wh_disk s)\<rparr>)))"
  by (simp add: wp_def disk_def Let_def)

lemma wp_wg:
  assumes "\<And>out k. Q out (s\<lparr>wh_kernel := k\<rparr>)" and "\<And>f k. R f (s\<lparr>wh_kernel := k\<rparr>)"
  shows "wp (wg e args) Q R s"
  using assms by (auto simp: wp_def wg_def split: prod.split tool_result.split)

lemma safe_lift [safe_rules]: "safe I (lift x)"
  by (simp add: safe_def wp_simps split: sum.split)

lemma safe_current [safe_rules]: "safe I (current f)"
  by (simp add: safe_def wp_simps)

text \<open>The two files the server keeps.\<close>

definition files :: "'k wg_host \<Rightarrow> string \<times> json option option" where
  "files s = (wh_config s, wh_registry s)"

lemma files_update [simp]:
  "files (s\<lparr>wh_kernel := k\<rparr>) = files s" "files (s\<lparr>wh_disk := n\<rparr>) = files s"
  "files (s\<lparr>wh_backups := b\<rparr>) = files s"
  "files (s\<lparr>wh_config := t\<rparr>) = (t, wh_registry s)" "files (s\<lparr>wh_registry := r\<rparr>) = (wh_config s, r)"
  by (simp_all add: files_def)

text \<open>A condition on the files is kept by what writes neither.\<close>

lemma safe_wg [safe_rules]: "safe (\<lambda>s. P (files s)) (wg e args)"
  unfolding safe_def by (auto intro!: wp_wg)

lemma safe_disk: "(\<And>s. files (f s) = files s) \<Longrightarrow> safe (\<lambda>s. P (files s)) (disk e f)"
  by (simp add: safe_def wp_simps)

lemma safe_write_backup [safe_rules]: "safe (\<lambda>s. P (files s)) (write_backup e file content)"
  unfolding write_backup_def by (rule safe_disk) simp

lemma safe_back_up: "safe (\<lambda>s. P (files s)) (back_up e v old pub address live)"
  unfolding back_up_def by (intro safe_rules safe_disk) simp_all

lemma safe_read [safe_rules]:
  "safe (\<lambda>s. P (files s)) records" "safe (\<lambda>s. P (files s)) (runtime e v)"
  unfolding records_def runtime_def
  by (intro safe_rules; auto intro!: safe_rules split: json.split)+

lemma safe_inventory [safe_rules]: "safe (\<lambda>s. P (files s)) (inventory e v)"
  unfolding inventory_def by (intro safe_rules)

lemma safe_allocate [safe_rules]: "safe (\<lambda>s. P (files s)) (allocate v file_peers live rs requested)"
  unfolding allocate_def by (intro safe_rules)

lemma safe_metadata [safe_rules]: "safe (\<lambda>s. P (files s)) (metadata e v request address)"
  unfolding metadata_def Let_def by (intro safe_rules)

lemma safe_checks [safe_rules]:
  "safe I (check_name x)" "safe I (check_key x)" "safe I (check_request_id x)"
  unfolding check_name_def check_key_def check_request_id_def
  by (cases x; auto intro!: safe_rules)+

lemma safe_validate [safe_rules]: "safe I (validate_request x)"
  unfolding validate_request_def by (intro safe_rules)

lemma safe_make_server [safe_rules]: "safe I (make_server i n a b x)"
  unfolding make_server_def by (intro safe_rules)

text \<open>What reading the files yields.\<close>

definition registry_records :: "json option option \<Rightarrow> (string \<times> json) list option" where
  "registry_records r = (case r of None \<Rightarrow> Some [] | Some (Some (JObj kvs)) \<Rightarrow> Some kvs | _ \<Rightarrow> None)"

lemma records_result:
  "wp records (\<lambda>rs t. t = s \<and> registry_records (wh_registry s) = Some rs) (\<lambda>_ t. t = s) s"
  by (simp add: records_def wp_simps registry_records_def split: option.split json.split)

lemma inventory_result:
  "wp (inventory e v) (\<lambda>(t, fp, live, rs) u. files u = files s \<and> t = wh_config s \<and> peers_of t = Inr fp \<and>
     registry_records (wh_registry s) = Some rs) (\<lambda>_ u. files u = files s) s"
proof -
  have "wp records (\<lambda>rs u. files u = files s \<and> registry_records (wh_registry s) = Some rs)
      (\<lambda>_ u. files u = files s) t" if "files t = files s" for t
    using that by (intro wp_mono [OF records_result [of t]]) (auto simp: files_def)
  then have "wp (runtime e v) (\<lambda>live. wp records (\<lambda>rs u. files u = files s \<and>
      registry_records (wh_registry s) = Some rs) (\<lambda>_ u. files u = files s)) (\<lambda>_ u. files u = files s) s"
    using safe_read(2) [of "\<lambda>x. x = files s" e v] unfolding safe_def by (blast intro: wp_mono)
  then show ?thesis
    unfolding inventory_def by (simp add: wp_simps wp_fun split: sum.split)
qed

section \<open>The transaction\<close>

lemma wp_apply_change [wp_simps]:
  "wp (apply_change e v config new pub address) Q R s =
     wp (write_config e config) (\<lambda>_. wp (write_registry e new)
       (\<lambda>_. wp (wg e (peer_command v pub address)) (\<lambda>_. Q ()) (\<lambda>_. R True)) (\<lambda>_. R False)) (\<lambda>_. R False) s"
  by (simp add: wp_def apply_change_def split: prod.split sum.split)

lemma wp_recover:
  "wp (\<lambda>s. case m s of (Inr (), t) \<Rightarrow> (Inr d, t) | (Inl c, t) \<Rightarrow> h c t) Q R s
     = wp m (\<lambda>_. Q d) (\<lambda>c. wp (h c) Q R) s"
  by (auto simp: wp_def split: prod.split sum.split unit.split)

text \<open>Where a command that failed can leave the two files.\<close>

definition failed_in ::
    "'k wg_env \<Rightarrow> string \<Rightarrow> (string \<times> json) list \<Rightarrow> (string \<times> json) list \<Rightarrow> 'k wg_host \<Rightarrow> 'k wg_host \<Rightarrow> bool" where
  "failed_in e t old new s u \<longleftrightarrow>
     wh_registry u \<in> {wh_registry s, None, Some (Some (JObj old)), Some (Some (JObj new))} \<and>
     ((\<forall>n. \<not> disk_fails e n) \<and> t = wh_config s \<and> registry_records (wh_registry s) = Some old \<longrightarrow>
        files u = files s)"

lemma failed_same: "files u = files s \<Longrightarrow> failed_in e t old new s u"
  by (simp add: failed_in_def files_def)

lemma registry_recordsD:
  "registry_records r = Some old \<Longrightarrow> r = None \<or> r = Some (Some (JObj old))"
  by (auto simp: registry_records_def split: option.splits json.splits)

lemma safe_undo_live: "safe (\<lambda>s. P (files s)) (undo_live e v pub live d changed)"
  unfolding undo_live_def by (intro safe_rules)

lemma wp_roll_back:
  assumes "wh_registry w \<in> {wh_registry s, Some (Some (JObj new))}"
  shows "wp (roll_back e v t old (wh_registry s \<noteq> None) pub live d changed) Q (\<lambda>_. failed_in e t old new s) w"
proof -
  define I where "I = (\<lambda>f :: string \<times> json option option.
      snd f \<in> {None, Some (Some (JObj old))} \<and>
      (t = wh_config s \<and> registry_records (wh_registry s) = Some old \<longrightarrow> f = files s))"
  have I: "I (files u) \<Longrightarrow> failed_in e t old new s u" for u :: "'a wg_host"
    by (auto simp: I_def failed_in_def files_def)
  have tail: "wp (andThen (undo_live e v pub live d changed) (\<lambda>_. raise f)) Q (\<lambda>_. failed_in e t old new s) u"
    if "I (files u)" for u f
    using that by (rule wp_prefix [OF safe_undo_live]) (simp_all add: wp_simps I)
  have put: "I (t, if wh_registry s = None then None else Some (Some (JObj old)))"
    by (auto simp: I_def files_def dest: registry_recordsD)
  have fail: "failed_in e x old new s u"
    if "disk_fails e n" "wh_registry u = wh_registry w" for u :: "'a wg_host" and n x
    using that assms by (auto simp: failed_in_def)
  have "wp (restore_registry e old (wh_registry s \<noteq> None)) (\<lambda>_ x. I (files x)) (\<lambda>_. failed_in e t old new s) u"
    if "files u = (t, wh_registry w)" for u
    using that put by (auto simp: restore_registry_def write_registry_def wp_simps files_def intro: fail)
  then have "wp (andThen (restore_registry e old (wh_registry s \<noteq> None))
      (\<lambda>_. andThen (undo_live e v pub live d changed) (\<lambda>_. raise f))) Q (\<lambda>_. failed_in e t old new s) u"
    if "files u = (t, wh_registry w)" for u f
    unfolding wp_andThen [of "restore_registry _ _ _"] using that by (blast intro: wp_mono tail)
  then show ?thesis
    unfolding roll_back_def write_config_def
    by (simp only: wp_andThen [of "disk _ _"] wp_disk) (auto simp: files_def intro: fail)
qed

lemma transaction_outcome:
  "wp (transaction e v t t' old new pub address live)
     (\<lambda>_ u. files u = (t', Some (Some (JObj new)))) (\<lambda>_. failed_in e t old new s) s"
proof -
  let ?Q = "\<lambda>_ u. files u = (t', Some (Some (JObj new)))" and ?R = "\<lambda>_. failed_in e t old new s"
  have "wp (\<lambda>w. case apply_change e v t' new pub address w of
          (Inr (), u) \<Rightarrow> (Inr d, u)
        | (Inl changed, u) \<Rightarrow> roll_back e v t old (wh_registry s \<noteq> None) pub live d changed u) ?Q ?R w"
    if "files w = files s" for d w
  proof -
    have "wh_registry w = wh_registry s" using that by (simp add: files_def)
    then show ?thesis
      by (auto simp: wp_recover wp_simps write_config_def write_registry_def files_def
          simp del: not_None_eq intro!: wp_wg wp_roll_back)
  qed
  moreover have "wp (back_up e v old pub address live) (\<lambda>_ w. files w = files s) ?R s"
    using safe_back_up [of "\<lambda>x. x = files s" e v old pub address live]
    unfolding safe_def by (blast intro: wp_mono failed_same)
  ultimately show ?thesis
    unfolding transaction_def wp_andThen wp_current by (blast intro: wp_mono)
qed

section \<open>Adding a peer\<close>

definition request_ok :: "(string \<times> json) list \<Rightarrow> bool" where
  "request_ok rq \<longleftrightarrow> set (map fst rq) = set request_keys \<and>
     (\<exists>n. at_key rq ''hostname'' = JStr n \<and> name_ok n) \<and>
     (\<exists>k. at_key rq ''public_key'' = JStr k \<and> wg_key k = Inr k) \<and>
     device_serial (at_key rq ''device_id'') \<and>
     (\<exists>i. at_key rq ''request_id'' = JStr i \<and> uuid_of i = Some i)"

lemma wg_keyD: "wg_key k = Inr k' \<Longrightarrow> k' = k"
  by (auto simp: wg_key_def split: option.splits if_splits)

lemma wp_check_name [wp_simps]:
  "wp (check_name x) Q R s = (case x of JStr n \<Rightarrow> if name_ok n then Q () s
     else R (Provision ''Peer name must use lowercase letters, digits and hyphens'') s | _ \<Rightarrow> R Reported s)"
  by (cases x) (simp_all add: check_name_def wp_simps)

lemma validate_result:
  "wp (validate_request x) (\<lambda>rq t. t = s \<and> request_ok rq) (\<lambda>_ t. t = s) s"
proof -
  have key: "wp (check_key k) (\<lambda>_ t. t = s \<and> (\<exists>p. k = JStr p \<and> wg_key p = Inr p)) (\<lambda>_ t. t = s) s" for k
    by (cases k) (auto simp: check_key_def wp_simps split: sum.split dest: wg_keyD)
  have rid: "wp (check_request_id k) (\<lambda>_ t. t = s \<and> (\<exists>i. k = JStr i \<and> uuid_of i = Some i)) (\<lambda>_ t. t = s) s" for k
    by (cases k) (auto simp: check_request_id_def wp_simps split: option.split)
  have shape: "request_shape x = Some rq \<Longrightarrow> set (map fst rq) = set request_keys" for rq
    by (auto simp: request_shape_def split: json.splits if_splits)
  have name: "wp (check_name k) (\<lambda>_ t. t = s \<and> (\<exists>n. k = JStr n \<and> name_ok n)) (\<lambda>_ t. t = s) s" for k
    by (cases k) (simp_all add: wp_simps)
  have "wp (validate_request x) (\<lambda>rq t. t = s \<and> request_ok rq) (\<lambda>_ t. t = s) s"
    if "request_shape x = Some rq" for rq
    unfolding validate_request_def that need_def option.case andThen_ret
    by (rule wp_then [OF name], rule wp_then, (elim conjE, hypsubst, rule key))
       (auto simp: wp_simps wp_fun request_ok_def shape [OF that, simplified] intro!: wp_mono [OF rid])
  then show ?thesis
    by (cases "request_shape x") (simp_all add: validate_request_def wp_simps)
qed

lemma any_inr_False: "any_inr p xs = Inr False \<longleftrightarrow> (\<forall>x \<in> set xs. p x = Inr False)"
  by (induction xs) (auto split: sum.split)

lemma all_inr_Inr: "all_inr xs = Inr ys \<longleftrightarrow> xs = map Inr ys"
proof (induction xs arbitrary: ys)
  case (Cons x xs)
  show ?case
  proof (cases x)
    case (Inr b)
    have "(case all_inr xs of Inl f \<Rightarrow> Inl f | Inr as \<Rightarrow> Inr (b # as)) = Inr ys \<longleftrightarrow> Inr b # xs = map Inr ys"
    proof (cases ys)
      case (Cons z zs)
      then show ?thesis using Cons.IH [of zs] by (auto split: sum.split)
    qed (auto split: sum.split)
    with Inr show ?thesis by simp
  qed auto
qed auto

text \<open>A record that has another key, device and request.\<close>

definition differs :: "string \<Rightarrow> json \<Rightarrow> json \<Rightarrow> json \<Rightarrow> bool" where
  "differs pub dev rid r \<longleftrightarrow>
     (\<exists>x. record_field r ''public_key'' = Inr x \<and> x \<noteq> JStr pub) \<and>
     (\<exists>x. record_field r ''device_id'' = Inr x \<and> x \<noteq> dev) \<and>
     (\<exists>x. record_field r ''request_id'' = Inr x \<and> x \<noteq> rid)"

lemma same_peer_False: "same_peer pub dev rid r = Inr False \<longleftrightarrow> differs pub dev rid r"
  by (auto simp: same_peer_def differs_def split: sum.split)

lemma duplicate_False:
  "duplicate n pub dev rid fp live rs = Inr False \<longleftrightarrow>
     n \<notin> fst ` set rs \<and> pub \<notin> fst ` set fp \<and> pub \<notin> fst ` set live \<and>
     (\<forall>r \<in> snd ` set rs. differs pub dev rid r)"
  by (auto simp: duplicate_def any_inr_False same_peer_False)

text \<open>An address of the pool that no network in use has.\<close>

lemma choose_free:
  assumes "choose_address v used requested = Inr a"
  shows "sv_start v \<le> a \<and> a \<le> sv_end v \<and> (\<forall>n \<in> set used. \<not> member (Ip4 a) n)"
  using assms
  by (auto simp: choose_address_def free_address_def list_ex_iff find_Some_iff simp del: upt_Suc
      split: option.splits if_splits dest!: nth_mem)

lemma used_networks_set:
  assumes "used_networks fp live rs t = Inr used"
  shows "\<forall>r \<in> snd ` set rs. \<exists>n \<in> set used. record_network r = Inr n"
    and "\<forall>ps \<in> {fp, live}. \<forall>nets \<in> snd ` set ps. set nets \<subseteq> set used"
proof -
  obtain taken own where all: "all_inr (map (record_network \<circ> snd) rs) = Inr taken"
    and used: "used = concat (map snd fp) @ concat (map snd live) @ taken @ own"
    using assms by (auto simp: used_networks_def split: sum.splits option.splits)
  from all have "map (record_network \<circ> snd) rs = map Inr taken" by (simp add: all_inr_Inr)
  then have "set (map (record_network \<circ> snd) rs) = set (map Inr taken)" by (rule arg_cong)
  then have "\<forall>r \<in> snd ` set rs. \<exists>n \<in> set taken. record_network r = Inr n"
    unfolding set_map image_comp [symmetric] by blast
  then show "\<forall>r \<in> snd ` set rs. \<exists>n \<in> set used. record_network r = Inr n" by (auto simp: used)
  show "\<forall>ps \<in> {fp, live}. \<forall>nets \<in> snd ` set ps. set nets \<subseteq> set used" by (auto simp: used)
qed

text \<open>
  What a successful \<open>add\<close> makes of the configuration \<open>t\<close> and the records \<open>old\<close>: the record \<open>m\<close> it
  returns, the text \<open>t'\<close> and the records \<open>new\<close>.
\<close>

definition added ::
    "wg_server \<Rightarrow> string \<Rightarrow> (string \<times> json) list \<Rightarrow> (string \<times> json) list \<Rightarrow> string \<Rightarrow>
      (string \<times> json) list \<Rightarrow> bool" where
  "added v t old m t' new \<longleftrightarrow> (\<exists>rq n pub a fp rest.
     request_ok rq \<and> at_key rq ''hostname'' = JStr n \<and> at_key rq ''public_key'' = JStr pub \<and>
     m = rq @ (''address'', JStr (address_text a)) # rest \<and> new = old @ [(n, JObj m)] \<and>
     t' = append_peer t n pub (address_text a) \<and> peers_of t = Inr fp \<and>
     n \<notin> fst ` set old \<and> pub \<notin> fst ` set fp \<and>
     (\<forall>r \<in> snd ` set old. differs pub (at_key rq ''device_id'') (at_key rq ''request_id'') r \<and>
        (\<exists>net. record_network r = Inr net \<and> \<not> member (Ip4 a) net)) \<and>
     (\<forall>nets \<in> snd ` set fp. \<forall>net \<in> set nets. \<not> member (Ip4 a) net) \<and>
     sv_start v \<le> a \<and> a \<le> sv_end v)"

text \<open>What a command may leave behind when it fails.\<close>

definition undone ::
    "'k wg_env \<Rightarrow> (string \<Rightarrow> (string \<times> json) list \<Rightarrow> (string \<times> json) list \<Rightarrow> bool) \<Rightarrow> 'k wg_host \<Rightarrow> 'k wg_host
      \<Rightarrow> bool" where
  "undone e P s u \<longleftrightarrow> files u = files s \<or>
     (\<exists>old new. registry_records (wh_registry s) = Some old \<and> P (wh_config s) old new \<and>
        failed_in e (wh_config s) old new s u)"

text \<open>What it leaves when it succeeds.\<close>

definition done_by ::
    "(string \<Rightarrow> (string \<times> json) list \<Rightarrow> string \<Rightarrow> (string \<times> json) list \<Rightarrow> bool) \<Rightarrow> 'k wg_host \<Rightarrow> 'k wg_host
      \<Rightarrow> bool" where
  "done_by P s u \<longleftrightarrow> (\<exists>old t' new. registry_records (wh_registry s) = Some old \<and>
     P (wh_config s) old t' new \<and> files u = (t', Some (Some (JObj new))))"

lemma allocate_result:
  "wp (allocate v fp live rs requested)
     (\<lambda>a t. t = s \<and> sv_start v \<le> a \<and> a \<le> sv_end v \<and>
        (\<forall>r \<in> snd ` set rs. \<exists>net. record_network r = Inr net \<and> \<not> member (Ip4 a) net) \<and>
        (\<forall>nets \<in> snd ` set fp. \<forall>net \<in> set nets. \<not> member (Ip4 a) net)) (\<lambda>_ t. t = s) s"
proof -
  have "(\<forall>r \<in> snd ` set rs. \<exists>net. record_network r = Inr net \<and> \<not> member (Ip4 a) net) \<and>
      (\<forall>nets \<in> snd ` set fp. \<forall>net \<in> set nets. \<not> member (Ip4 a) net)"
    if "used_networks fp live rs t = Inr used" "choose_address v used requested = Inr a" for used a t
    using used_networks_set [OF that(1)] choose_free [OF that(2)] by blast
  then show ?thesis
    unfolding allocate_def using choose_free by (auto simp: wp_simps wp_fun split: sum.split)
qed

lemma metadata_result:
  "wp (metadata e v rq address) (\<lambda>m t. files t = files s \<and> (\<exists>rest. m = rq @ (''address'', JStr address) # rest))
     (\<lambda>_ t. files t = files s) s"
  by (auto simp: metadata_def Let_def wp_simps split: option.split sum.split intro!: wp_wg)

lemma transaction_step:
  fixes s w :: "'k wg_host"
  assumes "files w = files s" and "registry_records (wh_registry s) = Some old" and "P (wh_config s) old t' new"
  shows "wp (transaction e v (wh_config s) t' old new pub address live)
     (\<lambda>_. done_by P s) (\<lambda>_. undone e (\<lambda>t old new. \<exists>t'. P t old t' new) s) w"
proof (rule wp_mono [OF transaction_outcome])
  fix u :: "'k wg_host" assume "files u = (t', Some (Some (JObj new)))"
  with assms show "done_by P s u" by (auto simp: done_by_def)
next
  fix u :: "'k wg_host" assume "failed_in e (wh_config s) old new w u"
  moreover have "wh_registry w = wh_registry s" "wh_config w = wh_config s"
    using assms(1) by (simp_all add: files_def)
  ultimately have "failed_in e (wh_config s) old new s u" using assms(1) by (simp add: failed_in_def)
  with assms show "undone e (\<lambda>t old new. \<exists>t'. P t old t' new) s u" by (auto simp: undone_def)
qed

lemma undone_same: "files u = files s \<Longrightarrow> undone e P s u"
  by (simp add: undone_def)

lemma done_same: "files w = files s \<Longrightarrow> done_by P w = done_by P s"
  by (auto simp: done_by_def files_def fun_eq_iff)

lemma undone_from: "files w = files s \<Longrightarrow> undone e P w = undone e P s"
  by (auto simp: undone_def failed_in_def files_def fun_eq_iff)

lemma register_outcome:
  assumes rq: "request_ok rq" "at_key rq ''hostname'' = JStr n" "at_key rq ''public_key'' = JStr pub"
  shows "wp (register_peer e v rq n pub requested)
     (\<lambda>m. done_by (\<lambda>t old t' new. added v t old m t' new) s)
     (\<lambda>_. undone e (\<lambda>t old new. \<exists>m t'. added v t old m t' new) s) s"
proof -
  let ?R = "\<lambda>_ :: wg_fault. undone e (\<lambda>t old new. \<exists>m t'. added v t old m t' new) s"
  let ?Q = "\<lambda>m. done_by (\<lambda>t old t' new. added v t old m t' new) s"
  let ?new = "\<lambda>a. append_peer (wh_config s) n pub (address_text a)"
  have finish: "wp (andThen (transaction e v (wh_config s) (?new a) rs (rs @ [(n, JObj m)]) pub x live) (\<lambda>_. ret m)) ?Q ?R u"
    if "files u = files s" "registry_records (wh_registry s) = Some rs"
      and P: "added v (wh_config s) rs m (?new a) (rs @ [(n, JObj m)])" for u rs m a x live
    by (rule wp_then [OF transaction_step [where P = "\<lambda>t old t' new. added v t old m t' new", OF that]])
       (auto simp: wp_simps undone_def)
  have tail: "wp (andThen (allocate v fp live rs requested) (\<lambda>a. andThen (metadata e v rq (address_text a)) (\<lambda>m.
       andThen (transaction e v (wh_config s) (?new a) rs (rs @ [(n, JObj m)]) pub (Some (address_text a)) live)
         (\<lambda>_. ret m)))) ?Q ?R w"
    if w: "files w = files s" "registry_records (wh_registry s) = Some rs" "peers_of (wh_config s) = Inr fp"
      and dup: "duplicate n pub (at_key rq ''device_id'') (at_key rq ''request_id'') fp live rs = Inr False"
    for fp live rs w
  proof (rule wp_then [OF allocate_result], goal_cases)
    case (1 a t)
    note a = 1
    show ?case
    proof (rule wp_then [OF metadata_result], goal_cases)
      case (1 m u)
      then obtain rest where rest: "m = rq @ (''address'', JStr (address_text a)) # rest" by blast
      note no_dup = dup [unfolded duplicate_False]
      have "added v (wh_config s) rs m (?new a) (rs @ [(n, JObj m)])"
        unfolding added_def
        by (rule exI [of _ rq], rule exI [of _ n], rule exI [of _ pub], rule exI [of _ a],
            rule exI [of _ fp], rule exI [of _ rest])
          (use rq w(3) a no_dup rest in \<open>simp only: ball_conj_distrib simp_thms, meson\<close>)
      then show ?case using 1 a w by (intro finish) simp_all
    qed (use w a in \<open>simp add: undone_same\<close>)
  qed (use w in \<open>simp add: undone_same\<close>)
  show ?thesis
    unfolding register_peer_def
  proof (rule wp_then [OF inventory_result], clarify, goal_cases)
    case (1 t fp live rs w)
    then have w: "files w = files s" by simp
    show ?case
    proof (cases "duplicate n pub (at_key rq ''device_id'') (at_key rq ''request_id'') fp live rs")
      case (Inl f)
      with w show ?thesis by (simp add: wp_andThen [of "lift _"] wp_lift undone_same)
    next
      case (Inr dup)
      with 1 w tail [of w rs fp live] show ?thesis
        unfolding wp_andThen [of "lift _"] wp_andThen [of "require _ _"] wp_lift wp_require
        by (cases dup) (simp_all add: undone_same)
    qed
  qed (simp add: undone_same)
qed

lemma locked_outcome:
  assumes "wp m Q (\<lambda>_. undone e P s) s"
  shows "wp (locked e m) Q (\<lambda>_. undone e P s) s"
  using assms by (simp add: locked_def wp_simps undone_same)

lemma add_outcome:
  "wp (add_peer e v request requested)
     (\<lambda>m. done_by (\<lambda>t old t' new. added v t old m t' new) s)
     (\<lambda>_. undone e (\<lambda>t old new. \<exists>m t'. added v t old m t' new) s) s"
  unfolding add_peer_def
proof (rule wp_then [OF validate_result], goal_cases)
  case (1 rq t)
  then obtain n pub where "at_key rq ''hostname'' = JStr n" "at_key rq ''public_key'' = JStr pub"
    unfolding request_ok_def by blast
  with 1 register_outcome [of rq n pub] show ?case
    by (auto simp: text_at_def intro!: locked_outcome)
qed (simp add: undone_same)

section \<open>Removing a peer\<close>

text \<open>What a successful \<open>remove\<close> of the name \<open>n\<close> makes of the text and the records.\<close>

definition removed ::
    "string \<Rightarrow> string \<Rightarrow> (string \<times> json) list \<Rightarrow> string \<Rightarrow> (string \<times> json) list \<Rightarrow> bool" where
  "removed n t old t' new \<longleftrightarrow> (\<exists>r pub net fp.
     map_of old n = Some r \<and> record_field r ''public_key'' = Inr (JStr pub) \<and> record_network r = Inr net \<and>
     peers_of t = Inr fp \<and> map_of fp pub = Some [net] \<and>
     t' = without_peer pub t \<and> new = filter (\<lambda>x. fst x \<noteq> n) old)"

lemma withdraw_outcome:
  "wp (withdraw_peer e v n) (\<lambda>_. done_by (removed n) s)
     (\<lambda>_. undone e (\<lambda>t old new. \<exists>t'. removed n t old t' new) s) s"
  unfolding withdraw_peer_def
proof (rule wp_then [OF inventory_result], clarify, goal_cases)
  case (1 t fp live rs w)
  let ?R = "\<lambda>_ :: wg_fault. undone e (\<lambda>t old new. \<exists>t'. removed n t old t' new) s"
  let ?pub = "\<lambda>k. case k of JStr s \<Rightarrow> s | _ \<Rightarrow> []"
  from 1 have w: "files w = files s" and R: "?R f w" for f by (simp_all add: undone_same)
  have finish: "wp (transaction e v (wh_config s) (without_peer (?pub k) (wh_config s)) rs
         (filter (\<lambda>x. fst x \<noteq> n) rs) (?pub k) None live) (\<lambda>_. done_by (removed n) s) ?R w"
    if "map_of rs n = Some r" "record_field r ''public_key'' = Inr k" "record_network r = Inr net"
      "peer_at fp k = Inr (Some [net])" for r k net
  proof (rule transaction_step [where P = "removed n", OF w])
    show "registry_records (wh_registry s) = Some rs" using 1 by simp
    have "\<exists>pub. k = JStr pub \<and> map_of fp pub = Some [net]"
      using that(4) by (cases k) (simp_all add: peer_at_def)
    with that 1 show "removed n (wh_config s) rs (without_peer (?pub k) (wh_config s))
        (filter (\<lambda>x. fst x \<noteq> n) rs)"
      by (auto simp: removed_def)
  qed
  show ?case
    unfolding Let_def wp_andThen wp_need wp_lift wp_require
    by (auto simp: R finish split: option.split sum.split)
qed (simp add: undone_same)

lemma remove_outcome:
  "wp (remove_peer e v n) (\<lambda>_ u. name_ok n \<and> done_by (removed n) s u)
     (\<lambda>_. undone e (\<lambda>t old new. \<exists>t'. removed n t old t' new) s) s"
proof -
  have "wp (locked e (withdraw_peer e v n)) (\<lambda>_. done_by (removed n) s)
      (\<lambda>_. undone e (\<lambda>t old new. \<exists>t'. removed n t old t' new) s) s"
    by (rule locked_outcome [OF withdraw_outcome])
  then show ?thesis
    by (auto simp: remove_peer_def wp_simps undone_same elim!: wp_mono)
qed

section \<open>A run of the program\<close>

text \<open>What a command makes of the files, as a relation of the text and records before and after.\<close>

fun effect :: "wg_server \<Rightarrow> wg_command \<Rightarrow> string \<Rightarrow> (string \<times> json) list \<Rightarrow> string \<Rightarrow> (string \<times> json) list \<Rightarrow> bool" where
  "effect v (Add req requested) t old t' new = (\<exists>m. added v t old m t' new)"
| "effect v (Remove n) t old t' new = removed n t old t' new"
| "effect v c t old t' new = False"

lemma safe_reading:
  "c \<in> {Listing, Show_status, Export x} \<Longrightarrow> safe (\<lambda>u. P (files u)) (run_command e v c)"
  unfolding run_command_def locked_def by (elim insertE emptyE; simp; intro safe_rules)

lemma run_outcome:
  "wp (run_command e v c) (\<lambda>_ u. files u = files s \<or> done_by (effect v c) s u)
     (\<lambda>_. undone e (\<lambda>t old new. \<exists>t'. effect v c t old t' new) s) s"
proof -
  have reading: "safe (\<lambda>u. files u = files s) (run_command e v c)" if "c \<in> {Listing, Show_status, Export x}" for x
    by (rule safe_reading [OF that])
  show ?thesis
  proof (cases c)
    case (Add req requested)
    have "wp (add_peer e v j requested) (\<lambda>m u. files u = files s \<or> done_by (effect v c) s u)
       (\<lambda>_. undone e (\<lambda>t old new. \<exists>t'. effect v c t old t' new) s) s" for j
      by (rule wp_mono [OF add_outcome]) (auto simp: Add done_by_def undone_def)
    then show ?thesis
      using Add by (auto simp: run_command_def wp_simps wp_fun undone_same split: option.split)
  next
    case (Remove n)
    have "wp (remove_peer e v n) (\<lambda>_. done_by (effect v c) s)
       (\<lambda>_. undone e (\<lambda>t old new. \<exists>t'. effect v c t old t' new) s) s"
      by (rule wp_mono [OF remove_outcome]) (auto simp: Remove done_by_def undone_def)
    then show ?thesis
      using Remove by (auto simp: run_command_def wp_simps wp_fun elim!: wp_mono)
  qed (use reading in \<open>auto simp: safe_def undone_same elim!: wp_mono\<close>)
qed

section \<open>The registry\<close>

text \<open>An entry of the registry: the record of a request, under its name, with one address.\<close>

definition entry_ok :: "string \<times> json \<Rightarrow> bool" where
  "entry_ok x \<longleftrightarrow> (\<exists>pub i a d.
     name_ok (fst x) \<and> record_field (snd x) ''hostname'' = Inr (JStr (fst x)) \<and>
     record_field (snd x) ''public_key'' = Inr (JStr pub) \<and> wg_key pub = Inr pub \<and>
     record_field (snd x) ''device_id'' = Inr d \<and> device_serial d \<and>
     record_field (snd x) ''request_id'' = Inr (JStr i) \<and> uuid_of i = Some i \<and>
     record_field (snd x) ''address'' = Inr (JStr (address_text a)) \<and> a < 2 ^ 32)"

definition registry_ok :: "(string \<times> json) list \<Rightarrow> bool" where
  "registry_ok rs \<longleftrightarrow> list_all entry_ok rs \<and> distinct (map fst rs) \<and>
     (\<forall>k \<in> {''public_key'', ''device_id'', ''request_id'', ''address''}.
        distinct (map (\<lambda>x. record_field (snd x) k) rs))"

lemma request_field:
  assumes "request_ok rq" and "k \<in> set request_keys"
  shows "map_of (rq @ xs) k = Some (at_key rq k)"
proof -
  have "k \<in> fst ` set rq" using assms by (simp add: request_ok_def)
  then obtain x where "map_of rq k = Some x" by (metis map_of_eq_None_iff not_None_eq)
  then show ?thesis by (simp add: at_key_def)
qed

lemma added_fields:
  assumes "request_ok rq"
  shows "record_field (JObj (rq @ (''address'', x) # rest)) ''address'' = Inr x"
    and "k \<in> set request_keys \<Longrightarrow> record_field (JObj (rq @ (''address'', x) # rest)) k = Inr (at_key rq k)"
proof -
  have "''address'' \<notin> fst ` set rq" using assms by (simp add: request_ok_def request_keys_def)
  then have "map_of rq ''address'' = None" by (simp add: map_of_eq_None_iff)
  then show "record_field (JObj (rq @ (''address'', x) # rest)) ''address'' = Inr x"
    by (simp add: record_field_def map_add_def)
  show "k \<in> set request_keys \<Longrightarrow> record_field (JObj (rq @ (''address'', x) # rest)) k = Inr (at_key rq k)"
    by (simp only: record_field_def json.case request_field [OF assms] option.case)
qed

lemma record_network_host:
  assumes "record_field r ''address'' = Inr (JStr (address_text a))" and "a < 2 ^ 32"
  shows "record_network r = Inr (Net4 a 32)"
  using assms network_host(2) [OF assms(2)] by (simp add: record_network_def address_text_def)

lemma added_registry_ok:
  assumes "added v t old m t' new" and old: "registry_ok old" and v: "sv_end v < 2 ^ 32"
  shows "registry_ok new"
proof -
  obtain rq n pub a fp rest where rq: "request_ok rq" and n: "at_key rq ''hostname'' = JStr n"
    and pub: "at_key rq ''public_key'' = JStr pub" and m: "m = rq @ (''address'', JStr (address_text a)) # rest"
    and new: "new = old @ [(n, JObj m)]" and fresh: "n \<notin> fst ` set old"
    and free: "\<forall>r \<in> snd ` set old. differs pub (at_key rq ''device_id'') (at_key rq ''request_id'') r \<and>
        (\<exists>net. record_network r = Inr net \<and> \<not> member (Ip4 a) net)"
    and a: "a \<le> sv_end v"
    using assms(1) unfolding added_def by (elim exE conjE) (rule that)
  note fields = added_fields [OF rq, where x = "JStr (address_text a)" and rest = rest, folded m]
  have keys: "record_field (JObj m) k = Inr (at_key rq k)"
    if "k \<in> {''hostname'', ''public_key'', ''device_id'', ''request_id''}" for k
    by (rule fields(2)) (use that in \<open>auto simp: request_keys_def\<close>)
  have "a < 2 ^ 32" using a v by linarith
  obtain i where i: "at_key rq ''request_id'' = JStr i" "uuid_of i = Some i"
    using rq unfolding request_ok_def by blast
  have "name_ok n" "wg_key pub = Inr pub" "device_serial (at_key rq ''device_id'')"
    using rq n pub by (simp_all add: request_ok_def)
  then have entry: "entry_ok (n, JObj m)"
    unfolding entry_ok_def fst_conv snd_conv
    by (intro exI [of _ pub] exI [of _ i] exI [of _ a] exI [of _ "at_key rq ''device_id''"])
      (simp add: keys n pub i fields(1) \<open>a < 2 ^ 32\<close> [simplified])
  have "record_field r ''address'' \<noteq> Inr (JStr (address_text a))" if "r \<in> snd ` set old" for r
  proof
    assume "record_field r ''address'' = Inr (JStr (address_text a))"
    then have "record_network r = Inr (Net4 a 32)" using \<open>a < 2 ^ 32\<close> by (rule record_network_host)
    with free that show False by (fastforce simp: floor_to_def)
  qed
  then have "\<forall>r \<in> snd ` set old. record_field r ''address'' \<noteq> record_field (JObj m) ''address''"
    by (simp only: fields(1)) blast
  moreover have "record_field r k \<noteq> record_field (JObj m) k"
    if "r \<in> snd ` set old" "k \<in> {''public_key'', ''device_id'', ''request_id''}" for r k
    using free that pub by (auto simp: differs_def keys)
  ultimately have "\<forall>r \<in> snd ` set old. \<forall>k \<in> {''public_key'', ''device_id'', ''request_id'', ''address''}.
      record_field r k \<noteq> record_field (JObj m) k"
    by blast
  then show ?thesis
    using old entry fresh by (auto simp: registry_ok_def new)
qed

lemma removed_registry_ok: "removed n t old t' new \<Longrightarrow> registry_ok old \<Longrightarrow> registry_ok new"
  by (auto simp: removed_def registry_ok_def list_all_iff intro: distinct_map_filter)

lemma effect_registry_ok:
  "effect v c t old t' new \<Longrightarrow> registry_ok old \<Longrightarrow> sv_end v < 2 ^ 32 \<Longrightarrow> registry_ok new"
  using added_registry_ok removed_registry_ok by (cases c) auto

text \<open>A registry file that holds records holds good ones.\<close>

definition registry_sound :: "'k wg_host \<Rightarrow> bool" where
  "registry_sound s \<longleftrightarrow> (\<forall>rs. registry_records (wh_registry s) = Some rs \<longrightarrow> registry_ok rs)"

lemma registry_ok_Nil: "registry_ok []"
  by (simp add: registry_ok_def)

lemma make_server_result:
  "wp (make_server i n a b x) (\<lambda>v t. t = s \<and> sv_end v < 2 ^ 32 \<and> sv_endpoint v = x) (\<lambda>_ t. t = s) s"
  unfolding make_server_def using ipv4_less by (auto simp: wp_simps split: option.split)

lemma undone_sound:
  assumes "undone e P s u" and "registry_sound s"
    and "\<And>t old new. P t old new \<Longrightarrow> registry_ok old \<Longrightarrow> registry_ok new"
  shows "registry_sound u"
  using assms(1) unfolding undone_def
proof (elim disjE exE conjE)
  assume "files u = files s"
  with assms(2) show ?thesis by (simp add: registry_sound_def files_def)
next
  fix old new
  assume old: "registry_records (wh_registry s) = Some old" and P: "P (wh_config s) old new"
    and f: "failed_in e (wh_config s) old new s u"
  from old assms(2) have "registry_ok old" by (simp add: registry_sound_def)
  moreover from this have "registry_ok new" using P by (rule assms(3) [rotated])
  ultimately show ?thesis
    using f assms(2) registry_ok_Nil
    by (auto simp: failed_in_def registry_sound_def registry_records_def)
qed

lemma done_sound:
  assumes "done_by P s u" and "registry_sound s"
    and "\<And>t old t' new. P t old t' new \<Longrightarrow> registry_ok old \<Longrightarrow> registry_ok new"
  shows "registry_sound u"
proof -
  obtain old t' new where "registry_records (wh_registry s) = Some old" "P (wh_config s) old t' new"
    "files u = (t', Some (Some (JObj new)))"
    using assms(1) by (auto simp: done_by_def)
  then show ?thesis
    using assms(2,3) by (auto simp: registry_sound_def files_def registry_records_def)
qed

lemma main_sound: "registry_sound s \<Longrightarrow> wp (wg_main e x c) (\<lambda>_. registry_sound) (\<lambda>_. registry_sound) s"
  unfolding wg_main_def
proof (rule wp_then [OF make_server_result], goal_cases)
  case (1 v t)
  then have v: "sv_end v < 2 ^ 32" "t = s" "registry_sound s" by simp_all
  show ?case
    unfolding v(2)
  proof (rule wp_mono [OF run_outcome])
    fix u :: "'a wg_host"
    assume "files u = files s \<or> done_by (effect v c) s u"
    then show "registry_sound u"
    proof
      assume "done_by (effect v c) s u"
      then show ?thesis using v(3) by (rule done_sound) (rule effect_registry_ok [OF _ _ v(1)])
    qed (use v(3) in \<open>simp add: registry_sound_def files_def\<close>)
  next
    fix u :: "'a wg_host"
    assume "undone e (\<lambda>t old new. \<exists>t'. effect v c t old t' new) s u"
    then show "registry_sound u"
      using v(3) by (rule undone_sound) (use effect_registry_ok v(1) in blast)
  qed
qed simp

text \<open>Runs of the program, each with its own settings and failures, and anything else that leaves the registry.\<close>

inductive provisioned :: "'k wg_host \<Rightarrow> 'k wg_host \<Rightarrow> bool" for s where
  start: "provisioned s s"
| run: "provisioned s t \<Longrightarrow> provisioned s (snd (wg_main e x c t))"
| operator: "provisioned s t \<Longrightarrow> wh_registry u = wh_registry t \<Longrightarrow> provisioned s u"

lemma provisioned_sound:
  assumes "provisioned s t" and "registry_sound s"
  shows "registry_sound t"
  using assms
proof (induction rule: provisioned.induct)
  case (run t e x c)
  then have "wp (wg_main e x c) (\<lambda>_. registry_sound) (\<lambda>_. registry_sound) t" by (intro main_sound)
  then show ?case by (auto simp: wp_def split: prod.splits sum.splits)
next
  case (operator t u)
  then show ?case unfolding registry_sound_def by metis
qed

lemma main_failure:
  assumes "\<forall>n. \<not> disk_fails e n"
  shows "wp (wg_main e x c) (\<lambda>_ _. True) (\<lambda>_ u. files u = files s) s"
  unfolding wg_main_def
proof (rule wp_then [OF make_server_result], goal_cases)
  case (1 v t)
  then show ?case
    using assms by (auto simp: undone_def failed_in_def intro!: wp_mono [OF run_outcome])
qed simp

end
