(* ===== verification/Wg_Guarantees.thy ===== *)
theory Wg_Guarantees
  imports Wg_Safety "HOL-Library.Code_Target_Nat"
begin

text \<open>
  What holds of every run of the peer provisioning: the address it hands out, the registry it keeps,
  the files after a failure, the configuration after an \<open>add\<close>, and \<open>remove\<close> as its inverse.
\<close>

section \<open>A server to run\<close>

definition demo_key :: string where
  "demo_key = b64encode (replicate 32 CHR ''k'')"

definition demo_tool :: "bool \<Rightarrow> string list \<Rightarrow> unit \<Rightarrow> tool_result \<times> unit" where
  "demo_tool broken args k = (if last args = ''public-key'' then Tool_output demo_key
     else if broken \<and> hd args = ''set'' then Tool_error else Tool_output '''', k)"

definition demo_wg :: "bool \<Rightarrow> unit wg_env" where
  "demo_wg broken = \<lparr>wg_tool = demo_tool broken, disk_fails = (\<lambda>_. False), lock_busy = False,
     backup_name = (\<lambda>_. ''b'')\<rparr>"

definition demo_host :: "unit wg_host" where
  "demo_host = \<lparr>wh_config = ''[Interface]'' @ newline # ''Address = 10.77.0.1/24'' @ [newline],
     wh_registry = None, wh_kernel = (), wh_backups = [], wh_disk = 0\<rparr>"

definition demo_args :: wg_args where
  "demo_args = \<lparr>wa_interface = ''wg0'', wa_network = ''10.77.0.0/24'', wa_start = ''10.77.0.11'',
     wa_end = ''10.77.0.254'', wa_endpoint = Some ''vpn:51820''\<rparr>"

definition demo_peer :: json where
  "demo_peer = JObj [(''version'', JInt 1), (''device_id'', JStr ''000000000000000a''),
     (''hostname'', JStr ''kvm-1''), (''public_key'', JStr (b64encode (replicate 32 CHR ''p''))),
     (''request_id'', JStr ''00000000-0000-0000-0000-000000000000'')]"

text \<open>The steps of these runs.\<close>

definition demo_request :: "(string \<times> json) list" where
  "demo_request = (case demo_peer of JObj kvs \<Rightarrow> kvs | _ \<Rightarrow> [])"

definition demo_settings :: wg_server where
  "demo_settings = \<lparr>sv_interface = ''wg0'', sv_network = (172818432, 24), sv_start = 172818443,
     sv_end = 172818686, sv_endpoint = Some ''vpn:51820''\<rparr>"

lemma demo_make:
  "wp (make_server ''wg0'' ''10.77.0.0/24'' ''10.77.0.11'' ''10.77.0.254'' (Some ''vpn:51820'')) Q R s = Q demo_settings s"
proof -
  have "make_server ''wg0'' ''10.77.0.0/24'' ''10.77.0.11'' ''10.77.0.254'' (Some ''vpn:51820'') ()
      = (Inr demo_settings :: wg_fault + wg_server, ())" 
    by code_simp
  then show ?thesis
    by (auto simp: make_server_def wp_def andThen_def require_def need_def ret_def raise_def fun_eq_iff split: option.splits if_splits)
qed

lemma demo_valid: "wp (validate_request demo_peer) Q R s = Q demo_request s"
proof -
  have "request_shape demo_peer = Some demo_request" "name_ok ''kvm-1''" 
    "wg_key (b64encode (replicate 32 CHR ''p'')) = Inr (b64encode (replicate 32 CHR ''p''))"
    "device_serial (JStr ''000000000000000a'')"
    "uuid_of ''00000000-0000-0000-0000-000000000000'' = Some ''00000000-0000-0000-0000-000000000000''"
    by code_simp+
  note facts = this
  have "at_key demo_request ''hostname'' = JStr ''kvm-1''" 
    "at_key demo_request ''public_key'' = JStr (b64encode (replicate 32 CHR ''p''))"
    "at_key demo_request ''device_id'' = JStr ''000000000000000a''" 
    "at_key demo_request ''request_id'' = JStr ''00000000-0000-0000-0000-000000000000''"
    by (simp_all add: demo_request_def demo_peer_def at_key_def)
  note vals = this
  show ?thesis
    unfolding validate_request_def facts(1)
    by (simp add: wp_simps vals facts check_key_def check_request_id_def)
qed

lemma demo_inventory:
  "peers_of (wh_config demo_host) = Inr []" "field_values ''saveconfig'' (wh_config demo_host) = []"
  "own_networks (wh_config demo_host) = Some [Net4 172818433 32]"
  "wg_key demo_key = Inr demo_key" "endpoint_port ''vpn:51820'' = Some 51820"
  by code_simp+

lemma demo_choice: "choose_address demo_settings [Net4 172818433 32] None = Inr 172818443"
  by (simp add: choose_address_def requested_address_def demo_settings_def upt_conv_Cons free_address_def
      floor_to_def)

definition demo_command :: wg_command where
  "demo_command = Add (Some (400, Some demo_peer)) None"

lemma demo_wg_simps [simp]:
  "lock_busy (demo_wg b) = False" "disk_fails (demo_wg b) n = False" "backup_name (demo_wg b) k = ''b''"
  "wg_tool (demo_wg b) = demo_tool b"
  by (simp_all add: demo_wg_def)

lemma wp_demo_tool:
  "wp (wg (demo_wg b) args) Q R s = (if last args = ''public-key'' then Q demo_key s
     else if b \<and> hd args = ''set'' then R (Provision ''WireGuard operation failed; no secret output was printed'') s
     else Q [] s)"
proof -
  have "strip is_blank demo_key = demo_key" by code_simp
  then show ?thesis
    by (cases s) (simp add: wp_def wg_def demo_tool_def strip_def rstrip_def)
qed

lemma demo_peer_names:
  "text_at demo_request ''hostname'' = ''kvm-1''" 
  "text_at demo_request ''public_key'' = b64encode (replicate 32 CHR ''p'')"
  by (simp_all add: demo_request_def demo_peer_def at_key_def text_at_def)

definition demo_record :: "(string \<times> json) list" where
  "demo_record = demo_request @ [(''address'', JStr (address_text 172818443)), (''endpoint'', JStr ''vpn:51820''),
     (''server_public_key'', JStr demo_key),
     (''allowed_ips'', JStr (ipv4_text 172818432 @ CHR ''/'' # nat_dec 24)), (''keepalive'', JInt 25)]"

definition demo_files :: "string \<times> json option option" where
  "demo_files = (append_peer (wh_config demo_host) ''kvm-1'' (b64encode (replicate 32 CHR ''p''))
     (address_text 172818443), Some (Some (JObj [(''kvm-1'', JObj demo_record)])))"

lemma demo_runs:
  "wp (wg_main (demo_wg b) demo_args demo_command)
     (\<lambda>out u. \<not> b \<and> out = Json (JObj demo_record) \<and> files u = demo_files) (\<lambda>f _. b \<and> f \<noteq> Unhandled) demo_host"
proof -
  have reg: "wh_registry demo_host = None" by (simp add: demo_host_def)
  have live: "wp (runtime (demo_wg b) demo_settings) Q R s = Q [] s" for Q R s
    by (simp add: runtime_def wp_simps wp_demo_tool splitlines_simps demo_settings_def)
  have dup: "duplicate n pub d i [] [] [] = Inr False" for n pub d i by (simp add: duplicate_False)
  have used: "used_networks [] [] [] (wh_config demo_host) = Inr [Net4 172818433 32]"
    by (simp add: used_networks_def demo_inventory(3))
  have set: "sv_interface demo_settings = ''wg0''" "sv_endpoint demo_settings = Some ''vpn:51820''"
    "sv_network demo_settings = (172818432, 24)"
    by (simp_all add: demo_settings_def)
  have other: "address_text 172818443 \<noteq> ''public-key''" by code_simp
  show ?thesis
    by (simp add: wg_main_def demo_command_def run_command_def demo_args_def demo_make wp_simps wp_fun
        add_peer_def demo_valid locked_def register_peer_def inventory_def demo_inventory demo_choice live records_def reg dup
        allocate_def used metadata_def wp_demo_tool set transaction_def back_up_def wp_recover write_config_def
        write_registry_def write_backup_def peer_command_def roll_back_def undo_live_def restore_registry_def
        demo_peer_names other demo_record_def demo_files_def)
qed

lemma demo_added: "\<exists>u. wg_main (demo_wg False) demo_args demo_command demo_host = (Inr (Json (JObj demo_record)), u) \<and>
    files u = demo_files"
  using demo_runs [of False] by (auto simp: wp_def split: prod.splits sum.splits)

lemma demo_rejected: "\<exists>f u. wg_main (demo_wg True) demo_args demo_command demo_host = (Inl f, u)"
  using demo_runs [of True] by (auto simp: wp_def split: prod.splits sum.splits)

section \<open>The text of a peer\<close>

lemma key_word:
  assumes "wg_key k = Inr k'"
  shows "word_ok k"
proof -
  obtain raw where raw: "b64decode k = Some raw" "length raw = 32"
    using assms by (auto simp: wg_key_def split: option.splits if_splits)
  have "list_all (\<lambda>c. \<not> is_blank c \<and> c \<noteq> CHR ''#'' \<and> c \<noteq> CHR ''['') (pad # b64_alphabet)"
    by code_simp
  moreover have "x \<in> set (pad # b64_alphabet)" if "x \<in> set k" for x
    using b64_chars [OF raw(1)] that
    by (auto simp: b64_val_def dest: map_of_SomeD set_zip_leftD)
  ultimately have "list_all (\<lambda>c. \<not> is_blank c \<and> c \<noteq> CHR ''#'' \<and> c \<noteq> CHR ''['') k"
    by (auto simp only: list_all_iff)
  moreover have "k \<noteq> []" using raw by auto
  ultimately show ?thesis by (simp add: word_ok_def)
qed

lemma name_word: "name_ok n \<Longrightarrow> word_ok n"
  by (auto simp: name_ok_def word_ok_def list_all_iff name_char_def is_lower_def is_dec_def is_blank_def code_def)

lemma address_chars: "c \<in> set (address_text a) \<Longrightarrow> is_digit c \<or> c = CHR ''.'' \<or> c = CHR ''/''"
  using ipv4_text_free [of c a] by (auto simp: address_text_def is_digit_def)

lemma address_word: "word_ok (address_text a)" "CHR '','' \<notin> set (address_text a)"
proof -
  have "\<not> is_blank c \<and> c \<noteq> CHR ''#'' \<and> c \<noteq> CHR ''['' \<and> c \<noteq> CHR '',''" if "c \<in> set (address_text a)" for c
    using address_chars [OF that] by (auto simp: is_digit_def is_blank_def code_def)
  note chars = this
  then show "CHR '','' \<notin> set (address_text a)" by blast
  have "address_text a \<noteq> []" by (simp add: address_text_def)
  with chars show "word_ok (address_text a)" by (simp add: word_ok_def list_all_iff)
qed

text \<open>The configuration after a peer was added.\<close>

lemma added_peers:
  assumes "added v t old m t' new" and "sv_end v < 2 ^ 32"
  shows "\<exists>n pub a fp. peers_of t = Inr fp \<and> pub \<notin> fst ` set fp \<and> peers_of t' = Inr (fp @ [(pub, [Net4 a 32])]) \<and>
    new = old @ [(n, JObj m)] \<and> text_at m ''hostname'' = n \<and> text_at m ''public_key'' = pub \<and>
    text_at m ''address'' = address_text a \<and> sv_start v \<le> a \<and> a \<le> sv_end v \<and>
    peer_text_ok n pub (address_text a) \<and> t' = append_peer t n pub (address_text a) \<and> n \<notin> fst ` set old"
proof -
  obtain rq n pub a fp rest where rq: "request_ok rq" and n: "at_key rq ''hostname'' = JStr n"
    and pub: "at_key rq ''public_key'' = JStr pub" and m: "m = rq @ (''address'', JStr (address_text a)) # rest"
    and new: "new = old @ [(n, JObj m)]" and t': "t' = append_peer t n pub (address_text a)"
    and fp: "peers_of t = Inr fp" "n \<notin> fst ` set old" "pub \<notin> fst ` set fp"
    and a: "sv_start v \<le> a" "a \<le> sv_end v"
    using assms(1) unfolding added_def by (elim exE conjE) (rule that)
  have "name_ok n" and key: "wg_key pub = Inr pub" using rq n pub by (simp_all add: request_ok_def)
  then have ok: "peer_text_ok n pub (address_text a)"
    using name_word key_word address_word by (simp add: peer_text_ok_def)
  have "a < 2 ^ 32" using a(2) assms(2) by linarith
  then have net: "ip_network (address_text a) = Some (Net4 a 32)"
    using network_host by (simp add: address_text_def)
  have "peers_of t' = Inr (fp @ [(pub, [Net4 a 32])])"
    unfolding t' by (rule peers_of_append [OF ok fp(1) key fp(3) net address_word(2)])
  moreover have "text_at m ''hostname'' = n" "text_at m ''public_key'' = pub"
    using request_field [OF rq, of "''hostname''" "(''address'', JStr (address_text a)) # rest"]
      request_field [OF rq, of "''public_key''" "(''address'', JStr (address_text a)) # rest"]
    by (simp_all add: m request_keys_def text_at_def at_key_def [of "rq @ _"] n pub)
  moreover have "text_at m ''address'' = address_text a"
    using added_fields(1) [OF rq, of "JStr (address_text a)" rest]
    by (auto simp: m record_field_def text_at_def at_key_def split: option.splits)
  ultimately show ?thesis using fp new t' a ok by blast
qed

lemma collect_step:
  assumes "collect_peers (b # bs) found = Inr fp"
  shows "\<exists>next. collect_peers bs next = Inr fp \<and> set found \<subseteq> set next \<and>
    (peer_block b \<longrightarrow> (\<exists>k. field_values ''publickey'' b = [k] \<and> k \<in> fst ` set next))"
proof (cases "peer_block b")
  case True
  obtain k where k: "field_values ''publickey'' b = [k]"
    using assms True by (cases "field_values ''publickey'' b" rule: remdups_adj.cases) simp_all
  obtain pub where pub: "wg_key k = Inr pub"
    using assms True k by (cases "wg_key k") (simp_all split: if_splits)
  obtain nets where "block_networks b = Some nets"
    using assms True k pub by (cases "block_networks b") (simp_all split: if_splits)
  with assms True k pub have "collect_peers bs (found @ [(k, nets)]) = Inr fp"
    using wg_keyD [OF pub] by (simp split: if_splits)
  with k show ?thesis by (intro exI [of _ "found @ [(k, nets)]"]) auto
qed (use assms in auto)

lemma collected_keys:
  assumes "collect_peers bs found = Inr fp"
  shows "set found \<subseteq> set fp" and "b \<in> set bs \<Longrightarrow> peer_block b \<Longrightarrow>
    \<exists>k. field_values ''publickey'' b = [k] \<and> k \<in> fst ` set fp"
proof -
  have "set found \<subseteq> set fp \<and> (\<forall>b \<in> set bs. peer_block b \<longrightarrow>
      (\<exists>k. field_values ''publickey'' b = [k] \<and> k \<in> fst ` set fp))"
    using assms
  proof (induction bs arbitrary: found)
    case (Cons c bs)
    from collect_step [OF Cons.prems] obtain g where g: "collect_peers bs g = Inr fp"
      "set found \<subseteq> set g" "peer_block c \<longrightarrow> (\<exists>k. field_values ''publickey'' c = [k] \<and> k \<in> fst ` set g)"
      by blast
    from Cons.IH [OF g(1)] g(2,3) show ?case by (auto dest: image_mono)
  qed simp
  then show "set found \<subseteq> set fp" "b \<in> set bs \<Longrightarrow> peer_block b \<Longrightarrow>
    \<exists>k. field_values ''publickey'' b = [k] \<and> k \<in> fst ` set fp" by blast+
qed

lemma added_removed:
  assumes add: "added v t old m t' new" and v: "sv_end v < 2 ^ 32"
    and remove: "removed (text_at m ''hostname'') t' new t'' newer"
    and free: "\<forall>b \<in> set (blocks (rstrip is_blank t)).
      \<not> peer_block b \<longrightarrow> field_values ''publickey'' b \<noteq> [text_at m ''public_key'']"
  shows "t'' = rstrip is_blank t @ [newline, newline] \<and> peers_of t'' = peers_of t \<and> newer = old"
proof -
  obtain n pub a fp where fp: "peers_of t = Inr fp" "pub \<notin> fst ` set fp"
    and new: "new = old @ [(n, JObj m)]" "n \<notin> fst ` set old"
    and texts: "text_at m ''hostname'' = n" "text_at m ''public_key'' = pub"
    and ok: "peer_text_ok n pub (address_text a)" and t': "t' = append_peer t n pub (address_text a)"
    using added_peers [OF add v] by (elim exE conjE) (rule that)
  from new(2) have "map_of old n = None" by (simp add: map_of_eq_None_iff)
  then have "map_of new n = Some (JObj m)" by (simp add: new(1) map_add_def)
  moreover have "record_field (JObj m) ''public_key'' = Inr (JStr x) \<Longrightarrow> x = pub" for x
    using texts by (auto simp: record_field_def text_at_def at_key_def split: option.splits)
  ultimately have t'': "t'' = without_peer pub t'" and newer: "newer = filter (\<lambda>x. fst x \<noteq> n) new"
    using remove texts by (auto simp: removed_def)
  have "\<forall>b \<in> set (blocks (rstrip is_blank t)). peer_block b \<longrightarrow> field_values ''publickey'' b \<noteq> [pub]"
  proof (intro ballI impI notI)
    fix b assume b: "b \<in> set (blocks (rstrip is_blank t))" "peer_block b" "field_values ''publickey'' b = [pub]"
    have "collect_peers (blocks (rstrip is_blank t)) [] = Inr fp"
      using fp(1) peers_of_rstrip [of t] by (simp add: peers_of_def)
    from collected_keys(2) [OF this b(1,2)] b(3) fp(2) show False by simp
  qed
  with free texts have "\<forall>b \<in> set (blocks (rstrip is_blank t)). field_values ''publickey'' b \<noteq> [pub]"
    by blast
  from without_append [OF ok this] have "t'' = rstrip is_blank t @ [newline, newline]"
    by (simp add: t'' t')
  moreover have "peers_of (rstrip is_blank t @ [newline, newline]) = peers_of t"
    using peers_of_blank_end [OF solid_rstrip, of "[newline, newline]"] peers_of_rstrip by simp
  moreover have "newer = old"
    using new(2) by (auto simp: newer new(1) filter_id_conv)
  ultimately show ?thesis by simp
qed


lemma main_added:
  assumes "wg_main e x (Add file requested) s = (Inr out, t)"
  shows "\<exists>v old t' new m. sv_end v < 2 ^ 32 \<and> out = Json (JObj m) \<and>
    registry_records (wh_registry s) = Some old \<and> added v (wh_config s) old m t' new \<and>
    files t = (t', Some (Some (JObj new)))"
proof -
  let ?Q = "\<lambda>out t. \<exists>v old t' new m. sv_end v < 2 ^ 32 \<and> out = Json (JObj m) \<and>
    registry_records (wh_registry s) = Some old \<and> added v (wh_config s) old m t' new \<and>
    files t = (t', Some (Some (JObj new)))"
  have "wp (run_command e v (Add file requested)) ?Q (\<lambda>_ _. True) s" if v: "sv_end v < 2 ^ 32" for v
  proof -
    have "wp (add_peer e v j requested) (\<lambda>m. ?Q (Json (JObj m))) (\<lambda>_ _. True) s" for j
      by (rule wp_mono [OF add_outcome]) (use v in \<open>auto simp: done_by_def\<close>)
    then show ?thesis
      by (auto simp: run_command_def wp_simps wp_fun split: option.split)
  qed
  then have "wp (wg_main e x (Add file requested)) ?Q (\<lambda>_ _. True) s"
    unfolding wg_main_def by (intro wp_then [OF make_server_result]) auto
  from wp_Inr [OF this assms] show ?thesis .
qed

lemma main_removed:
  assumes "wg_main e x (Remove n) s = (Inr out, t)"
  shows "\<exists>old t' new. registry_records (wh_registry s) = Some old \<and> removed n (wh_config s) old t' new \<and>
    files t = (t', Some (Some (JObj new)))"
proof -
  have "wp (remove_peer e v n) (\<lambda>_. done_by (removed n) s) (\<lambda>_ _. True) s" for v
    by (rule wp_mono [OF remove_outcome]) auto
  then have "wp (run_command e v (Remove n)) (\<lambda>_. done_by (removed n) s) (\<lambda>_ _. True) s" for v
    by (simp add: run_command_def wp_simps wp_fun)
  then have "wp (wg_main e x (Remove n)) (\<lambda>_. done_by (removed n) s) (\<lambda>_ _. True) s"
    unfolding wg_main_def by (intro wp_then [OF make_server_result]) auto
  from wp_Inr [OF this assms] show ?thesis by (simp add: done_by_def)
qed

text \<open>The removal of the peer that was added.\<close>

lemma demo_withdrawn:
  assumes u: "files u = demo_files"
  shows "wp (wg_main (demo_wg False) demo_args (Remove ''kvm-1'')) (\<lambda>_ _. True) (\<lambda>_ _. False) u"
proof -
  let ?key = "b64encode (replicate 32 CHR ''p'')"
  have reg: "wh_registry w = Some (Some (JObj [(''kvm-1'', JObj demo_record)]))"
    and conf: "wh_config w = append_peer (wh_config demo_host) ''kvm-1'' ?key (address_text 172818443)"
    if "files w = demo_files" for w :: "unit wg_host" using that by (simp_all add: files_def demo_files_def)
  have live: "wp (runtime (demo_wg False) demo_settings) Q R s = Q [] s" for Q R s
    by (simp add: runtime_def wp_simps wp_demo_tool splitlines_simps demo_settings_def)
  have fields: "record_field (JObj demo_record) ''public_key'' = Inr (JStr ?key)"
    "record_field (JObj demo_record) ''address'' = Inr (JStr (address_text 172818443))"
    by (simp_all add: record_field_def demo_record_def demo_request_def demo_peer_def)
  have net: "record_network (JObj demo_record) = Inr (Net4 172818443 32)"
    by (rule record_network_host [OF fields(2)]) simp
  have save: "field_values ''saveconfig'' (append_peer (wh_config demo_host) ''kvm-1'' ?key (address_text 172818443)) = []"
    by code_simp
  have "name_ok ''kvm-1''" and key: "wg_key ?key = Inr ?key" by code_simp+
  note name = this(1)
  have "peer_text_ok ''kvm-1'' ?key (address_text 172818443)"
    using name_word [OF name] key_word [OF key] address_word by (simp add: peer_text_ok_def)
  then have peers: "peers_of (append_peer (wh_config demo_host) ''kvm-1'' ?key (address_text 172818443))
      = Inr [(?key, [Net4 172818443 32])]"
    using peers_of_append [where found = "[]" and t = "wh_config demo_host" and pub = ?key
      and address = "address_text 172818443" and net = "Net4 172818443 32" and n = "''kvm-1''"]
      network_host(1) [of 172818443] address_word(2) key demo_inventory(1)
    by (simp add: address_text_def)
  show ?thesis
    using u reg conf
    by (simp add: wg_main_def run_command_def demo_args_def demo_make wp_simps wp_fun remove_peer_def
        name locked_def withdraw_peer_def inventory_def save peers live records_def fields net
        peer_at_def Let_def wp_demo_tool transaction_def back_up_def wp_recover write_config_def
        write_registry_def write_backup_def peer_command_def)
qed

section \<open>Properties\<close>

text \<open>
  C32: The allocation takes the lowest address of the pool that no network in use contains, and fails
  only when every address of the pool is in use; a requested address is granted exactly when it is
  one of the pool and in no network in use.
\<close>

theorem lowest_free_address:
  "(requested_address requested = None \<longrightarrow>
      (case choose_address v used requested of
         Inr a \<Rightarrow> sv_start v \<le> a \<and> a \<le> sv_end v \<and> (\<forall>n \<in> set used. \<not> member (Ip4 a) n) \<and>
           (\<forall>b. sv_start v \<le> b \<and> b < a \<longrightarrow> (\<exists>n \<in> set used. member (Ip4 b) n))
       | Inl f \<Rightarrow> f = occupied \<and>
           (\<forall>b. sv_start v \<le> b \<and> b \<le> sv_end v \<longrightarrow> (\<exists>n \<in> set used. member (Ip4 b) n)))) \<and>
   (\<forall>s a. requested_address requested = Some s \<longrightarrow>
      (choose_address v used requested = Inr a \<longleftrightarrow> ipv4 s = Some a \<and> sv_start v \<le> a \<and> a \<le> sv_end v \<and>
         (\<forall>n \<in> set used. \<not> member (Ip4 a) n)))"
proof (intro conjI impI allI)
  assume none: "requested_address requested = None"
  let ?pool = "[sv_start v..<Suc (sv_end v)]"
  show "case choose_address v used requested of
         Inr a \<Rightarrow> sv_start v \<le> a \<and> a \<le> sv_end v \<and> (\<forall>n \<in> set used. \<not> member (Ip4 a) n) \<and>
           (\<forall>b. sv_start v \<le> b \<and> b < a \<longrightarrow> (\<exists>n \<in> set used. member (Ip4 b) n))
       | Inl f \<Rightarrow> f = occupied \<and>
           (\<forall>b. sv_start v \<le> b \<and> b \<le> sv_end v \<longrightarrow> (\<exists>n \<in> set used. member (Ip4 b) n))"
  proof (cases "find (free_address used) ?pool")
    case None
    then have "\<forall>b \<in> set ?pool. \<not> free_address used b" unfolding find_None_iff by blast
    with None none show ?thesis
      by (auto simp: choose_address_def free_address_def list_ex_iff simp del: upt_Suc)
  next
    case (Some a)
    then obtain i where i: "i < length ?pool" "free_address used (?pool ! i)" "a = ?pool ! i"
      "\<forall>j < i. \<not> free_address used (?pool ! j)"
      by (auto simp: find_Some_iff)
    then have a: "a = sv_start v + i" "a \<le> sv_end v" by (simp_all del: upt_Suc)
    have "\<not> free_address used b" if "sv_start v \<le> b" "b < a" for b
      using i(4) [rule_format, of "b - sv_start v"] that a by (simp del: upt_Suc)
    with Some none i(2,3) a show ?thesis
      by (auto simp: choose_address_def free_address_def list_ex_iff simp del: upt_Suc)
  qed
qed (auto simp: choose_address_def free_address_def list_ex_iff split: option.split)

theorem lowest_free_address_witness:
  "choose_address demo_settings [Net4 172818443 32] None = Inr 172818444 \<and>
   (\<exists>n \<in> set [Net4 172818443 32]. member (Ip4 172818443) n) \<and> ipv4 ''10.77.0.12'' = Some 172818444 \<and>
   choose_address demo_settings [Net4 172818443 32] (Some ''10.77.0.12'') = Inr 172818444"
proof -
  have run: "choose_address demo_settings [Net4 172818443 32] None = Inr 172818444"
    by (simp add: choose_address_def requested_address_def demo_settings_def upt_conv_Cons free_address_def
        floor_to_def)
  have addr: "ipv4 ''10.77.0.12'' = Some 172818444" by code_simp
  have "\<forall>b. sv_start demo_settings \<le> b \<and> b < 172818444 \<longrightarrow> (\<exists>n \<in> set [Net4 172818443 32]. member (Ip4 b) n)"
    using lowest_free_address [of None demo_settings "[Net4 172818443 32]"] run
    by (simp add: requested_address_def)
  then have "\<exists>n \<in> set [Net4 172818443 32]. member (Ip4 172818443) n"
    by (simp add: demo_settings_def)
  moreover have "choose_address demo_settings [Net4 172818443 32] (Some ''10.77.0.12'') = Inr 172818444"
    using lowest_free_address [of "Some ''10.77.0.12''" demo_settings "[Net4 172818443 32]"] addr
    by (simp add: requested_address_def demo_settings_def floor_to_def)
  ultimately show ?thesis using run addr by simp
qed

text \<open>
  C12: Whatever runs of the program come one after the other, with whatever settings, requests and
  failures of the disk and of the tool, and whatever the operator does between them to anything but
  the registry: the registry holds valid records with different names, keys, devices, requests and
  addresses.
\<close>

theorem registry_stays_sound:
  assumes "provisioned s t" and "wh_registry s = None" and "registry_records (wh_registry t) = Some rs"
  shows "registry_ok rs"
  using provisioned_sound [OF assms(1)] assms(2,3)
  by (simp add: registry_sound_def registry_records_def registry_ok_Nil split: option.splits)

theorem registry_stays_sound_witness: "registry_ok [(''kvm-1'', JObj demo_record)]"
proof -
  obtain u where u: "wg_main (demo_wg False) demo_args demo_command demo_host = (Inr (Json (JObj demo_record)), u)"
    "files u = demo_files" using demo_added by blast
  then have "provisioned demo_host u"
    using provisioned.run [OF provisioned.start, of demo_host "demo_wg False" demo_args demo_command] by simp
  moreover have "wh_registry demo_host = None" by (simp add: demo_host_def)
  moreover have "registry_records (wh_registry u) = Some [(''kvm-1'', JObj demo_record)]"
    using u(2) by (simp add: files_def demo_files_def registry_records_def)
  ultimately show ?thesis by (rule registry_stays_sound)
qed

text \<open>
  C26: When no write fails, a run that reports an error leaves the configuration and the registry as
  they were, also when the tool failed after both files had been written.
\<close>

theorem failure_changes_nothing:
  assumes "wg_main e x c s = (Inl f, t)" and "\<forall>n. \<not> disk_fails e n"
  shows "wh_config t = wh_config s \<and> wh_registry t = wh_registry s"
  using wp_Inl [OF main_failure [OF assms(2)] assms(1)] by (simp add: files_def)

theorem failure_changes_nothing_witness:
  "\<exists>f t. wg_main (demo_wg True) demo_args demo_command demo_host = (Inl f, t) \<and> wh_registry t = None"
proof -
  obtain f t where "wg_main (demo_wg True) demo_args demo_command demo_host = (Inl f, t)"
    using demo_rejected by blast
  moreover from this have "wh_registry t = wh_registry demo_host"
    using failure_changes_nothing by fastforce
  ultimately show ?thesis by (auto simp: demo_host_def)
qed

text \<open>
  C29: After a successful \<open>add\<close> the configuration parses to the peers it had and one more, with the
  key of the request and the single address of the record that is returned; the registry is the one
  before with that record under its new name.
\<close>

theorem added_peer_configured:
  assumes "wg_main e x (Add file requested) s = (Inr out, t)"
  shows "\<exists>m pub a old fp. out = Json (JObj m) \<and> registry_records (wh_registry s) = Some old \<and>
    peers_of (wh_config s) = Inr fp \<and> pub \<notin> fst ` set fp \<and>
    peers_of (wh_config t) = Inr (fp @ [(pub, [Net4 a 32])]) \<and>
    text_at m ''public_key'' = pub \<and> text_at m ''address'' = address_text a \<and>
    text_at m ''hostname'' \<notin> fst ` set old \<and>
    registry_records (wh_registry t) = Some (old @ [(text_at m ''hostname'', JObj m)])"
proof -
  obtain v old t' new m where v: "sv_end v < 2 ^ 32" and out: "out = Json (JObj m)"
    and old: "registry_records (wh_registry s) = Some old" and add: "added v (wh_config s) old m t' new"
    and t: "files t = (t', Some (Some (JObj new)))"
    using main_added [OF assms] by blast
  from added_peers [OF add v] obtain n pub a fp where "peers_of (wh_config s) = Inr fp" "pub \<notin> fst ` set fp"
    "peers_of t' = Inr (fp @ [(pub, [Net4 a 32])])" "new = old @ [(n, JObj m)]" "text_at m ''hostname'' = n"
    "text_at m ''public_key'' = pub" "text_at m ''address'' = address_text a" "n \<notin> fst ` set old"
    by (elim exE conjE) (rule that)
  with out old t show ?thesis by (auto simp: files_def registry_records_def)
qed

theorem added_peer_configured_witness:
  "\<exists>out t a. wg_main (demo_wg False) demo_args demo_command demo_host = (Inr out, t) \<and>
     peers_of (wh_config t) = Inr [(b64encode (replicate 32 CHR ''p''), [Net4 a 32])]"
proof -
  obtain u where u: "wg_main (demo_wg False) demo_args demo_command demo_host = (Inr (Json (JObj demo_record)), u)"
    using demo_added by blast
  have "text_at demo_record ''public_key'' = b64encode (replicate 32 CHR ''p'')"
    by (simp add: demo_record_def demo_request_def demo_peer_def text_at_def at_key_def)
  then show ?thesis
    using added_peer_configured [OF u [unfolded demo_command_def]] demo_inventory(1) u by auto
qed

text \<open>
  C31: Removing a peer right after it was added gives back the peers of the configuration and the
  records of the registry; of the text only the blanks at the end are changed. The one condition is
  that no other section of the configuration names the key.
\<close>

theorem remove_undoes_add:
  assumes add: "wg_main e x (Add file requested) s = (Inr (Json (JObj m)), t)"
    and remove: "wg_main e' x' (Remove (text_at m ''hostname'')) t = (Inr out, u)"
    and other: "\<forall>b \<in> set (blocks (rstrip is_blank (wh_config s))).
      \<not> peer_block b \<longrightarrow> field_values ''publickey'' b \<noteq> [text_at m ''public_key'']"
  shows "wh_config u = rstrip is_blank (wh_config s) @ [newline, newline] \<and>
    peers_of (wh_config u) = peers_of (wh_config s) \<and>
    registry_records (wh_registry u) = registry_records (wh_registry s)"
proof -
  obtain v old t' new where v: "sv_end v < 2 ^ 32"
    and old: "registry_records (wh_registry s) = Some old" and added: "added v (wh_config s) old m t' new"
    and t: "files t = (t', Some (Some (JObj new)))"
    using main_added [OF add] by auto
  obtain t'' newer where rem: "removed (text_at m ''hostname'') t' new t'' newer"
    and u: "files u = (t'', Some (Some (JObj newer)))"
    using main_removed [OF remove] t by (auto simp: files_def registry_records_def)
  from added_removed [OF added v rem other] u
  have "wh_config u = t''" "wh_registry u = Some (Some (JObj old))" by (simp_all add: files_def)
  moreover from this(2) have "registry_records (wh_registry u) = Some old" by (simp add: registry_records_def)
  ultimately show ?thesis using added_removed [OF added v rem other] old by auto
qed

theorem remove_undoes_add_witness:
  "\<exists>t u out. wg_main (demo_wg False) demo_args demo_command demo_host = (Inr (Json (JObj demo_record)), t) \<and>
     wg_main (demo_wg False) demo_args (Remove ''kvm-1'') t = (Inr out, u) \<and>
     peers_of (wh_config u) = Inr [] \<and> registry_records (wh_registry u) = Some []"
proof -
  obtain t where t: "wg_main (demo_wg False) demo_args demo_command demo_host = (Inr (Json (JObj demo_record)), t)"
    "files t = demo_files" using demo_added by blast
  obtain out u where u: "wg_main (demo_wg False) demo_args (Remove ''kvm-1'') t = (Inr out, u)"
    using demo_withdrawn [OF t(2)] by (auto simp: wp_def split: prod.splits sum.splits)
  have "list_all (\<lambda>b. field_values ''publickey'' b = []) (blocks (rstrip is_blank (wh_config demo_host)))"
    by code_simp
  then have other: "\<forall>b \<in> set (blocks (rstrip is_blank (wh_config demo_host))).
      \<not> peer_block b \<longrightarrow> field_values ''publickey'' b \<noteq> [text_at demo_record ''public_key'']"
    by (simp add: list_all_iff)
  have "text_at demo_record ''hostname'' = ''kvm-1''"
    by (simp add: demo_record_def demo_request_def demo_peer_def text_at_def at_key_def)
  with u have "wg_main (demo_wg False) demo_args (Remove (text_at demo_record ''hostname'')) t = (Inr out, u)"
    by simp
  from remove_undoes_add [OF t(1) [unfolded demo_command_def] this other] t(1) u demo_inventory(1)
  show ?thesis by (auto simp: registry_records_def demo_host_def)
qed

end
