(* ===== verification/Keypad.thy ===== *)
theory Keypad
  imports Text
begin

text \<open>
  The four keys of the enclosure and the power button (backend/app/hardware/keypad.py,
  backend/app/hardware/power_button.py and the loop of scripts/power-button.py): debouncing, the keys
  released and the gestures of the power button. The clock counts milliseconds. What is emitted is
  compared with a reference that looks at the whole history of samples.
\<close>

section \<open>Keys\<close>

datatype key = Down | Up | Ok | Back

text \<open>\<open>PINS\<close>: the names of the keys and their pins.\<close>

fun key_name :: "key \<Rightarrow> string" where
  "key_name Down = ''down''"
| "key_name Up = ''up''"
| "key_name Ok = ''ok''"
| "key_name Back = ''back''"

fun key_pin :: "key \<Rightarrow> nat" where
  "key_pin Down = 5"
| "key_pin Up = 6"
| "key_pin Ok = 19"
| "key_pin Back = 13"

definition key_of_name :: "string \<Rightarrow> key option" where
  "key_of_name s = find (\<lambda>k. key_name k = s) [Down, Up, Ok, Back]"

lemma UNIV_key: "UNIV = {Down, Up, Ok, Back}"
  using key.exhaust by blast

instantiation key :: finite
begin

instance
  by standard (simp add: UNIV_key)

end

section \<open>The key scanner\<close>

record scanner =
  sc_armed :: bool
  sc_candidate :: "key option"
  sc_chord :: bool
  sc_last :: "key set option"
  sc_changed :: int

definition scanner_start :: scanner where
  "scanner_start = \<lparr>sc_armed = False, sc_candidate = None, sc_chord = False, sc_last = None, sc_changed = 0\<rparr>"

text \<open>\<open>KeyScanner.update\<close>: the key that was released, and the next state.\<close>

definition note_active :: "key set \<Rightarrow> int \<Rightarrow> scanner \<Rightarrow> scanner" where
  "note_active active t s = (if Some active \<noteq> sc_last s then s\<lparr>sc_last := Some active, sc_changed := t\<rparr> else s)"

definition release :: "scanner \<Rightarrow> key option \<times> scanner" where
  "release s = (if sc_armed s \<and> \<not> sc_chord s then sc_candidate s else None,
     s\<lparr>sc_armed := True, sc_candidate := None, sc_chord := False\<rparr>)"

definition hold :: "key set \<Rightarrow> scanner \<Rightarrow> scanner" where
  "hold active s =
     (if \<not> sc_armed s then s
      else if 1 < card active \<or> (case sc_candidate s of None \<Rightarrow> False | Some k \<Rightarrow> k \<notin> active)
      then s\<lparr>sc_chord := True\<rparr>
      else if \<not> sc_chord s then s\<lparr>sc_candidate := Some (the_elem active)\<rparr> else s)"

definition update_keys :: "key set \<Rightarrow> int \<Rightarrow> scanner \<Rightarrow> key option \<times> scanner" where
  "update_keys active t s0 =
     (let s = note_active active t s0
      in if t - sc_changed s < 80 then (None, s)
         else if active = {} then release s
         else (None, hold active s))"

section \<open>The history of samples\<close>

text \<open>
  A history lists the samples, newest first. The current value began with the oldest sample of the
  run of equal values the history starts with; it is settled when that was long enough ago.
\<close>

fun since :: "('a \<times> int) list \<Rightarrow> int" where
  "since [] = 0"
| "since [(a, t)] = t"
| "since ((a, t) # (b, u) # h) = (if a = b then since ((b, u) # h) else t)"

definition settled :: "int \<Rightarrow> ('a \<times> int) list \<Rightarrow> bool" where
  "settled d h \<longleftrightarrow> d \<le> snd (hd h) - since h"

text \<open>The settled sets since all keys were last up, newest first; \<open>None\<close> when they never were.\<close>

fun held :: "(key set \<times> int) list \<Rightarrow> key set list option" where
  "held [] = None"
| "held ((a, t) # h) =
     (if \<not> settled 80 ((a, t) # h) then held h
      else if a = {} then Some [] else map_option (\<lambda>as. a # as) (held h))"

text \<open>One key was down the whole time, alone.\<close>

definition single :: "key set list \<Rightarrow> key option" where
  "single as = (case as of [] \<Rightarrow> None
     | a # _ \<Rightarrow> if card a = 1 \<and> list_all (\<lambda>b. b = a) as then Some (the_elem a) else None)"

text \<open>The reference: all keys are up, and since they last were, one key was down alone.\<close>

definition released_key :: "(key set \<times> int) list \<Rightarrow> key option" where
  "released_key h = (case h of [] \<Rightarrow> None
     | (a, t) # past \<Rightarrow> if settled 80 h \<and> a = {} then Option.bind (held past) single else None)"

fun scanner_after :: "(key set \<times> int) list \<Rightarrow> scanner" where
  "scanner_after [] = scanner_start"
| "scanner_after ((a, t) # h) = snd (update_keys a t (scanner_after h))"

definition emitted :: "(key set \<times> int) list \<Rightarrow> key option" where
  "emitted h = (case h of [] \<Rightarrow> None | (a, t) # past \<Rightarrow> fst (update_keys a t (scanner_after past)))"

text \<open>What the scanner's state says of the history.\<close>

fun fits :: "key set list option \<Rightarrow> scanner \<Rightarrow> bool" where
  "fits None s \<longleftrightarrow> \<not> sc_armed s"
| "fits (Some []) s \<longleftrightarrow> sc_armed s \<and> sc_candidate s = None \<and> \<not> sc_chord s"
| "fits (Some (a # as)) s \<longleftrightarrow> sc_armed s \<and>
     (case single (a # as) of None \<Rightarrow> sc_chord s | Some k \<Rightarrow> \<not> sc_chord s \<and> sc_candidate s = Some k)"

definition follows :: "(key set \<times> int) list \<Rightarrow> scanner \<Rightarrow> bool" where
  "follows h s \<longleftrightarrow>
     sc_last s = (case h of [] \<Rightarrow> None | x # _ \<Rightarrow> Some (fst x)) \<and> (h \<noteq> [] \<longrightarrow> sc_changed s = since h) \<and>
     fits (held h) s"

lemma fits_note: "fits x (note_active a t s) = fits x s"
  by (cases "(x, s)" rule: fits.cases) (simp_all add: note_active_def split: option.split)

lemma note_follows:
  assumes "follows h s"
  shows "sc_last (note_active a t s) = Some a" and "sc_changed (note_active a t s) = since ((a, t) # h)"
    and "fits (held h) (note_active a t s)"
proof -
  show "sc_last (note_active a t s) = Some a" by (simp add: note_active_def)
  show "sc_changed (note_active a t s) = since ((a, t) # h)"
  proof (cases h)
    case (Cons x h')
    then show ?thesis using assms by (cases x; cases "a = fst x") (simp_all add: note_active_def follows_def)
  qed (use assms in \<open>simp add: note_active_def follows_def\<close>)
  show "fits (held h) (note_active a t s)" using assms by (simp add: fits_note follows_def)
qed

lemma card_one_elem: "card a = 1 \<Longrightarrow> a = {the_elem a}"
  by (metis card_1_singletonE the_elem_eq)

lemma single_Cons:
  "single (a # as) = (if card a = 1 \<and> (\<forall>b \<in> set as. b = a) then Some (the_elem a) else None)"
  by (auto simp: single_def list_all_iff)

lemma release_fits:
  assumes "fits x s"
  shows "fits (Some []) (snd (release s)) \<and> fst (release s) = Option.bind x single"
  using assms by (cases "(x, s)" rule: fits.cases) (auto simp: release_def single_def [of "[]"] split: option.splits)

lemma hold_fits:
  assumes "fits x s" and "a \<noteq> {}"
  shows "fits (map_option ((#) a) x) (hold a s)"
proof (cases "(x, s)" rule: fits.cases)
  case (2 s')
  have "\<not> 1 < card a \<Longrightarrow> card a = 1" using assms(2) card_gt_0_iff [of a] by simp
  with 2 assms show ?thesis by (auto simp: hold_def single_Cons)
next
  case (3 b bs s')
  have one: "\<not> 1 < card a \<Longrightarrow> card a = 1" using assms(2) card_gt_0_iff [of a] by simp
  show ?thesis
  proof (cases "single (b # bs)")
    case None
    then have "single (a # b # bs) = None" by (auto simp: single_Cons split: if_splits)
    with None 3 assms show ?thesis by (auto simp: hold_def)
  next
    case (Some k)
    then have b: "card b = 1" "b = {k}" "\<forall>c \<in> set bs. c = b"
      using card_one_elem [of b] by (auto simp: single_Cons split: if_splits)
    have "single (a # b # bs) = (if a = {k} then Some k else None)"
      using b by (auto simp: single_Cons)
    moreover have "1 < card a \<or> k \<notin> a" if "a \<noteq> {k}"
      using that one card_one_elem [of a] by (metis singletonD)
    ultimately show ?thesis using Some 3 assms by (auto simp: hold_def)
  qed
qed (use assms in \<open>auto simp: hold_def\<close>)

lemma hold_last: "sc_last (hold a s) = sc_last s" "sc_changed (hold a s) = sc_changed s"
  by (simp_all add: hold_def)

lemma release_last: "sc_last (snd (release s)) = sc_last s" "sc_changed (snd (release s)) = sc_changed s"
  by (simp_all add: release_def)

lemma update_follows:
  assumes "follows h s"
  shows "follows ((a, t) # h) (snd (update_keys a t s)) \<and> fst (update_keys a t s) = released_key ((a, t) # h)"
proof -
  let ?n = "note_active a t s"
  note n = note_follows [OF assms, of a t]
  have set: "settled 80 ((a, t) # h) \<longleftrightarrow> \<not> t - sc_changed ?n < 80"
    by (simp add: settled_def n not_less)
  consider "\<not> settled 80 ((a, t) # h)" | "settled 80 ((a, t) # h)" "a = {}" | "settled 80 ((a, t) # h)" "a \<noteq> {}"
    by blast
  then show ?thesis
  proof cases
    case 1
    with set n show ?thesis by (simp add: update_keys_def Let_def released_key_def follows_def)
  next
    case 2
    with set n release_fits [OF n(3)] show ?thesis
      by (simp add: update_keys_def Let_def released_key_def follows_def release_last)
  next
    case 3
    with set n hold_fits [OF n(3) 3(2)] show ?thesis
      by (simp add: update_keys_def Let_def released_key_def follows_def hold_last)
  qed
qed

lemma follows_after: "follows h (scanner_after h)"
proof (induction h)
  case Nil
  show ?case by (simp add: follows_def scanner_start_def)
next
  case (Cons x h)
  then show ?case using update_follows [of h "scanner_after h" "fst x" "snd x"] by (cases x) simp
qed

section \<open>The power button\<close>

record power_button =
  pb_debounce :: int
  pb_candidate :: "bool option"
  pb_changed :: int
  pb_stable :: "bool option"
  pb_armed :: bool
  pb_started :: "int option"

definition power_start :: power_button where
  "power_start = \<lparr>pb_debounce = 50, pb_candidate = None, pb_changed = 0, pb_stable = None,
     pb_armed = False, pb_started = None\<rparr>"

definition power_action :: "int \<Rightarrow> string option" where
  "power_action duration = (if 5000 \<le> duration then Some ''poweroff''
     else if 2000 \<le> duration then Some ''reboot'' else None)"

text \<open>\<open>PowerButton.update\<close>.\<close>

definition note_pressed :: "bool \<Rightarrow> int \<Rightarrow> power_button \<Rightarrow> power_button" where
  "note_pressed pressed t b =
     (if Some pressed \<noteq> pb_candidate b then b\<lparr>pb_candidate := Some pressed, pb_changed := t\<rparr> else b)"

definition settle :: "bool \<Rightarrow> power_button \<Rightarrow> string option \<times> power_button" where
  "settle pressed b =
     (if Some pressed = pb_stable b then (None, b)
      else if pressed
      then (None, b\<lparr>pb_stable := Some True,
               pb_started := (if pb_armed b then Some (pb_changed b) else pb_started b)\<rparr>)
      else (case pb_started b of None \<Rightarrow> None | Some u \<Rightarrow> power_action (pb_changed b - u),
            b\<lparr>pb_stable := Some False, pb_started := None, pb_armed := True\<rparr>))"

definition update_button :: "bool \<Rightarrow> int \<Rightarrow> power_button \<Rightarrow> string option \<times> power_button" where
  "update_button pressed t b0 =
     (let b = note_pressed pressed t b0
      in if t - pb_changed b < pb_debounce b then (None, b) else settle pressed b)"

record feedback =
  fb_pressed :: bool
  fb_held :: int
  fb_action :: "string option"
  fb_message :: string

definition button_feedback :: "int \<Rightarrow> power_button \<Rightarrow> feedback" where
  "button_feedback t b =
     (let duration = (case pb_started b of None \<Rightarrow> 0 | Some u \<Rightarrow> max 0 (t - u)); action = power_action duration
      in \<lparr>fb_pressed = (pb_started b \<noteq> None), fb_held = duration, fb_action = action,
          fb_message = (if action = None then ''Keep holding...''
            else if action = Some ''reboot'' then ''Release to restart'' else ''Release to shut down'')\<rparr>)"

subsection \<open>The loop of the service\<close>

definition reserved_pins :: "int list" where
  "reserved_pins = [0, 1, 2, 3, 4, 5, 6, 7, 8, 9, 10, 11, 13, 17, 19, 24, 25, 27]"

definition pin_ok :: "int \<Rightarrow> bool" where
  "pin_ok pin \<longleftrightarrow> 0 \<le> pin \<and> pin \<le> 27 \<and> pin \<notin> set reserved_pins"

text \<open>
  The samples the loop reads until it is stopped; \<open>works\<close> tells whether \<open>systemctl\<close> succeeds. The
  result is the list of the \<open>systemctl\<close> calls; a success ends the loop.
\<close>

fun power_loop :: "bool \<Rightarrow> (string \<Rightarrow> bool) \<Rightarrow> (bool \<times> int) list \<Rightarrow> power_button \<Rightarrow> string list" where
  "power_loop dry works [] b = []"
| "power_loop dry works ((pressed, t) # rest) b =
     (case update_button pressed t b of
        (None, b') \<Rightarrow> power_loop dry works rest b'
      | (Some a, b') \<Rightarrow>
          if dry then power_loop dry works rest b'
          else if works a then [a] else a # power_loop dry works rest b')"

definition power_main :: "int \<Rightarrow> bool \<Rightarrow> bool \<Rightarrow> (string \<Rightarrow> bool) \<Rightarrow> (bool \<times> int) list \<Rightarrow> string list option" where
  "power_main pin dry root works samples =
     (if \<not> pin_ok pin \<or> (\<not> dry \<and> \<not> root) then None else Some (power_loop dry works samples power_start))"

subsection \<open>Its gestures\<close>

text \<open>The settled values of the button, each with the time it began, newest first; neighbours differ.\<close>

definition push :: "bool \<Rightarrow> int \<Rightarrow> (bool \<times> int) list \<Rightarrow> (bool \<times> int) list" where
  "push p w es = (if es = [] \<or> fst (hd es) \<noteq> p then (p, w) # es else es)"

fun edges :: "(bool \<times> int) list \<Rightarrow> (bool \<times> int) list" where
  "edges [] = []"
| "edges ((p, t) # h) =
     (if settled 50 ((p, t) # h) then push p (since ((p, t) # h)) (edges h) else edges h)"

text \<open>The reference: a release that settles now ends a press that began after an earlier release.\<close>

definition gesture :: "(bool \<times> int) list \<Rightarrow> string option" where
  "gesture h = (case h of [] \<Rightarrow> None | (p, t) # past \<Rightarrow>
     if \<not> p \<and> settled 50 h
     then (case edges past of (True, u) # (False, _) # _ \<Rightarrow> power_action (since h - u) | _ \<Rightarrow> None)
     else None)"

fun button_after :: "(bool \<times> int) list \<Rightarrow> power_button" where
  "button_after [] = power_start"
| "button_after ((p, t) # h) = snd (update_button p t (button_after h))"

definition button_emits :: "(bool \<times> int) list \<Rightarrow> string option" where
  "button_emits h = (case h of [] \<Rightarrow> None | (p, t) # past \<Rightarrow> fst (update_button p t (button_after past)))"

text \<open>What the button's state says of the settled values.\<close>

definition recalls :: "(bool \<times> int) list \<Rightarrow> power_button \<Rightarrow> bool" where
  "recalls es b \<longleftrightarrow>
     pb_stable b = (case es of [] \<Rightarrow> None | x # _ \<Rightarrow> Some (fst x)) \<and>
     pb_armed b = (\<exists>u. (False, u) \<in> set es) \<and>
     pb_started b = (case es of (True, u) # _ # _ \<Rightarrow> Some u | _ \<Rightarrow> None)"

definition ended :: "bool \<Rightarrow> int \<Rightarrow> (bool \<times> int) list \<Rightarrow> string option" where
  "ended p w es = (if p then None
     else case es of (True, u) # (False, _) # _ \<Rightarrow> power_action (w - u) | _ \<Rightarrow> None)"

lemma settle_recalls:
  assumes r: "recalls es b" and alt: "\<And>p u q v r. es = (p, u) # (q, v) # r \<Longrightarrow> p \<noteq> q" and w: "pb_changed b = w"
  shows "recalls (push p w es) (snd (settle p b)) \<and> fst (settle p b) = ended p w es"
proof (cases es)
  case Nil
  with r w show ?thesis by (cases p) (auto simp: recalls_def settle_def push_def ended_def)
next
  case (Cons e r')
  obtain q u where e: "e = (q, u)" by (cases e)
  show ?thesis
  proof (cases "q = p")
    case True
    with r Cons e show ?thesis by (cases p) (auto simp: recalls_def settle_def push_def ended_def)
  next
    case False
    show ?thesis
    proof (cases r')
      case Nil
      with False r w Cons e show ?thesis
        by (cases p; cases q) (auto simp: recalls_def settle_def push_def ended_def)
    next
      case (Cons f r'')
      obtain v where "f = (\<not> q, v)" using alt [of q u] Cons \<open>es = e # r'\<close> e by (cases f) auto
      with False r w Cons \<open>es = e # r'\<close> e show ?thesis
        by (cases p; cases q) (auto simp: recalls_def settle_def push_def ended_def)
    qed
  qed
qed

lemma edges_alternate: "edges h = (p, t) # (q, u) # r \<Longrightarrow> p \<noteq> q"
  by (induction h rule: edges.induct) (auto simp: push_def split: if_splits)

definition tracks :: "(bool \<times> int) list \<Rightarrow> power_button \<Rightarrow> bool" where
  "tracks h b \<longleftrightarrow> pb_debounce b = 50 \<and>
     pb_candidate b = (case h of [] \<Rightarrow> None | x # _ \<Rightarrow> Some (fst x)) \<and> (h \<noteq> [] \<longrightarrow> pb_changed b = since h) \<and>
     recalls (edges h) b"

lemma note_tracks:
  assumes "tracks h b"
  shows "pb_changed (note_pressed p t b) = since ((p, t) # h)" "pb_candidate (note_pressed p t b) = Some p"
    "pb_debounce (note_pressed p t b) = 50" "recalls (edges h) (note_pressed p t b)"
  using assms by (cases h; auto simp: note_pressed_def tracks_def recalls_def)+

lemma settle_keeps:
  "pb_debounce (snd (settle p b)) = pb_debounce b" "pb_candidate (snd (settle p b)) = pb_candidate b"
  "pb_changed (snd (settle p b)) = pb_changed b"
  by (simp_all add: settle_def)

lemma update_tracks:
  assumes "tracks h b"
  shows "tracks ((p, t) # h) (snd (update_button p t b)) \<and> fst (update_button p t b) = gesture ((p, t) # h)"
proof -
  let ?n = "note_pressed p t b"
  note n = note_tracks [OF assms, of p t]
  have set: "settled 50 ((p, t) # h) \<longleftrightarrow> \<not> t - pb_changed ?n < pb_debounce ?n"
    by (simp add: settled_def not_less n)
  have s: "recalls (push p (since ((p, t) # h)) (edges h)) (snd (settle p ?n)) \<and>
      fst (settle p ?n) = ended p (since ((p, t) # h)) (edges h)"
    by (rule settle_recalls [OF n(4) edges_alternate n(1)])
  show ?thesis
  proof (cases "settled 50 ((p, t) # h)")
    case False
    with set have "update_button p t b = (None, ?n)" by (simp add: update_button_def Let_def)
    with False n show ?thesis by (simp add: tracks_def gesture_def)
  next
    case True
    with set have "update_button p t b = settle p ?n" by (simp add: update_button_def Let_def)
    with True n s show ?thesis by (simp add: tracks_def gesture_def ended_def settle_keeps)
  qed
qed

lemma tracks_after: "tracks h (button_after h)"
proof (induction h)
  case Nil
  show ?case by (simp add: tracks_def recalls_def power_start_def)
next
  case (Cons x h)
  then show ?case using update_tracks [of h "button_after h" "fst x" "snd x"] by (cases x) simp
qed

end
