(* ===== verification/Lcd_Menu.thy ===== *)
theory Lcd_Menu
  imports Keypad Values
begin

text \<open>
  The menus of the enclosure's display (backend/app/hardware/keypad.py): the remote-assist menu and
  the main menu, each a state machine over key presses, and what they draw. The service on the other
  side and the clock are parameters; a program's state holds the menu and the world they act on. The
  clock counts milliseconds.
\<close>

section \<open>The remote-assist client\<close>

text \<open>What a request to the local service ends in: its JSON, an \<open>OSError\<close> or \<open>ValueError\<close>, or another exception.\<close>

datatype client_reply = Reply json | Client_fault | Client_crash string

record 'w assist_env =
  as_request :: "string \<Rightarrow> string \<Rightarrow> 'w \<Rightarrow> client_reply \<times> 'w"
  as_clock :: "'w \<Rightarrow> int \<times> 'w"

definition menu_items :: "(string \<times> string) list" where
  "menu_items = [(''Destegi ac'', ''enable''), (''Destegi kapat'', ''disable''),
     (''Acilista ac'', ''boot-on''), (''Acilista kapat'', ''boot-off'')]"

definition assist_url :: "string \<Rightarrow> string" where
  "assist_url base = rstrip (\<lambda>c. c = CHR ''/'') base @ ''/api/v1''"

definition assist_status :: "'w assist_env \<Rightarrow> 'w \<Rightarrow> client_reply \<times> 'w" where
  "assist_status e w = as_request e ''/remote-assist'' ''GET'' w"

definition assist_action :: "'w assist_env \<Rightarrow> string \<Rightarrow> 'w \<Rightarrow> client_reply \<times> 'w" where
  "assist_action e action w =
     (if action \<notin> snd ` set menu_items then (Client_fault, w)
      else as_request e (''/remote-assist/'' @ action) ''POST'' w)"

section \<open>The remote-assist menu\<close>

record 'w menu =
  mn_selected :: int
  mn_in_menu :: bool
  mn_confirm :: "string option"
  mn_until :: int
  mn_pending :: json
  mn_since :: int
  mn_status :: json
  mn_message :: string
  mn_world :: 'w
  mn_sent :: "string list"

definition menu_start :: "'w \<Rightarrow> 'w menu" where
  "menu_start w = \<lparr>mn_selected = 0, mn_in_menu = False, mn_confirm = None, mn_until = 0, mn_pending = JNull,
     mn_since = 0, mn_status = JObj [], mn_message = [], mn_world = w, mn_sent = []\<rparr>"

type_synonym ('w, 'a) menu_prog = "('w menu, 'a) handler"

definition menu_clock :: "'w assist_env \<Rightarrow> ('w, int) menu_prog" where
  "menu_clock e = (\<lambda>s. case as_clock e (mn_world s) of (t, w) \<Rightarrow> (Inr t, s\<lparr>mn_world := w\<rparr>))"

definition menu_call :: "('w \<Rightarrow> client_reply \<times> 'w) \<Rightarrow> ('w, client_reply) menu_prog" where
  "menu_call f = (\<lambda>s. case f (mn_world s) of (r, w) \<Rightarrow> (Inr r, s\<lparr>mn_world := w\<rparr>))"

definition status_key :: "string \<Rightarrow> json \<Rightarrow> ('w, json) menu_prog" where
  "status_key k x = andThen (get_state mn_status) (\<lambda>st. get_or st k x)"

definition fetch_status :: "'w assist_env \<Rightarrow> ('w, unit) menu_prog" where
  "fetch_status e = andThen (menu_call (assist_status e)) (\<lambda>r. case r of
     Reply j \<Rightarrow> modify (mn_status_update (\<lambda>_. j))
   | Client_fault \<Rightarrow> modify (mn_status_update (\<lambda>_. JObj []))
   | Client_crash x \<Rightarrow> raise (Crash x))"

definition expire_confirm :: "'w assist_env \<Rightarrow> ('w, unit) menu_prog" where
  "expire_confirm e = andThen (get_state mn_confirm) (\<lambda>c. if c = None then ret ()
     else andThen (menu_clock e) (\<lambda>t. andThen (get_state mn_until) (\<lambda>u.
       if u \<le> t then modify (mn_confirm_update (\<lambda>_. None)) else ret ())))"

definition settle_pending :: "'w assist_env \<Rightarrow> ('w, unit) menu_prog" where
  "settle_pending e = andThen (get_state mn_pending) (\<lambda>p. if \<not> truthy p then ret ()
     else andThen (status_key ''last_result'' JNull) (\<lambda>r.
          let result = (if truthy r then r else JObj [])
          in andThen (get_or result ''request_id'' JNull) (\<lambda>i.
             if py_eq i p
             then andThen (get_or result ''ok'' JNull) (\<lambda>ok. modify (\<lambda>s. s\<lparr>mn_pending := JNull,
                    mn_message := (if truthy ok then ''Tamamlandi'' else ''Islem basarisiz'')\<rparr>))
             else andThen (menu_clock e) (\<lambda>t. andThen (get_state mn_since) (\<lambda>u.
                    if 90000 \<le> t - u
                    then modify (\<lambda>s. s\<lparr>mn_pending := JNull, mn_message := ''Sonuc belirsiz''\<rparr>) else ret ())))))"

definition menu_refresh :: "'w assist_env \<Rightarrow> ('w, unit) menu_prog" where
  "menu_refresh e = andThen (fetch_status e) (\<lambda>_. andThen (expire_confirm e) (\<lambda>_. settle_pending e))"

definition menu_ready :: "('w, bool) menu_prog" where
  "menu_ready =
     andThen (status_key ''installed'' JNull) (\<lambda>i. if \<not> truthy i then ret False else
     andThen (status_key ''stale'' (JBool True)) (\<lambda>st. if truthy st then ret False else
     andThen (status_key ''pending'' JNull) (\<lambda>p. if truthy p then ret False else
     andThen (get_state mn_pending) (\<lambda>q. ret (\<not> truthy q)))))"

definition step_in :: "key \<Rightarrow> int \<Rightarrow> nat \<Rightarrow> int" where
  "step_in k i n = (i + (if k = Down then 1 else -1)) mod int n"

definition selected_action :: "int \<Rightarrow> string" where
  "selected_action i = snd (menu_items ! nat i)"

text \<open>The second confirmation sends the action; a call that failed may have reached the service.\<close>

definition send_action :: "'w assist_env \<Rightarrow> string \<Rightarrow> ('w, unit) menu_prog" where
  "send_action e action =
     andThen (modify (\<lambda>s. s\<lparr>mn_confirm := None, mn_sent := mn_sent s @ [action]\<rparr>)) (\<lambda>_.
     andThen (menu_call (assist_action e action)) (\<lambda>r.
       let unsure = modify (mn_message_update (\<lambda>_. ''Sonuc belirsiz''))
       in case r of
          Client_fault \<Rightarrow> unsure
        | Client_crash x \<Rightarrow> raise (Crash x)
        | Reply (JObj kvs) \<Rightarrow> (case map_of kvs ''request_id'' of
              None \<Rightarrow> unsure
            | Some i \<Rightarrow> andThen (modify (mn_pending_update (\<lambda>_. i))) (\<lambda>_.
                andThen (menu_clock e) (\<lambda>t. modify (\<lambda>s. s\<lparr>mn_since := t, mn_message := []\<rparr>))))
        | Reply _ \<Rightarrow> raise (Crash ''TypeError'')))"

text \<open>The key that selects, inside the menu.\<close>

definition menu_ok :: "'w assist_env \<Rightarrow> ('w, unit) menu_prog" where
  "menu_ok e =
     andThen menu_ready (\<lambda>rdy.
     if \<not> rdy then modify (\<lambda>s. s\<lparr>mn_confirm := None, mn_message := ''Servis hazir degil''\<rparr>) else
     andThen (get_state (\<lambda>s. selected_action (mn_selected s))) (\<lambda>action.
     andThen (if action = ''enable'' then status_key ''profile'' JNull else ret (JBool True)) (\<lambda>profile.
     if \<not> truthy profile then modify (\<lambda>s. s\<lparr>mn_confirm := None, mn_message := ''Once VPN profili''\<rparr>) else
     andThen (get_state mn_confirm) (\<lambda>c.
     if c \<noteq> Some action
     then andThen (modify (mn_confirm_update (\<lambda>_. Some action))) (\<lambda>_. andThen (menu_clock e) (\<lambda>t.
            modify (\<lambda>s. s\<lparr>mn_until := t + 10000, mn_message := []\<rparr>)))
     else send_action e action))))"

definition menu_press :: "'w assist_env \<Rightarrow> string \<Rightarrow> ('w, unit) menu_prog" where
  "menu_press e name = (case key_of_name name of None \<Rightarrow> ret () | Some k \<Rightarrow>
     andThen (menu_refresh e) (\<lambda>_.
     if k = Back then modify (\<lambda>s. s\<lparr>mn_confirm := None, mn_in_menu := False, mn_message := []\<rparr>) else
     andThen (get_state mn_pending) (\<lambda>p.
     if truthy p then ret ()
     else if k \<in> {Up, Down}
     then modify (\<lambda>s. s\<lparr>mn_in_menu := True, mn_confirm := None, mn_message := [],
            mn_selected := step_in k (mn_selected s) (length menu_items)\<rparr>)
     else andThen (get_state mn_in_menu) (\<lambda>inside.
            if \<not> inside then modify (mn_in_menu_update (\<lambda>_. True)) else menu_ok e))))"

definition state_texts :: "(string \<times> string) list" where
  "state_texts = [(''off'', ''Kapali''), (''connected'', ''VPN bagli''), (''waiting_handshake'', ''VPN bekleniyor''),
     (''disconnected'', ''VPN bagli degil''), (''setup_required'', ''Profil gerekli''), (''stop_failed'', ''Kapatma hatasi'')]"

definition state_text :: "json \<Rightarrow> ('s, string) handler" where
  "state_text v = (case v of
     JStr s \<Rightarrow> ret (case map_of state_texts s of None \<Rightarrow> ''Durum bilinmiyor'' | Some t \<Rightarrow> t)
   | JArr _ \<Rightarrow> raise (Crash ''TypeError'')
   | JObj _ \<Rightarrow> raise (Crash ''TypeError'')
   | _ \<Rightarrow> ret ''Durum bilinmiyor'')"

definition menu_lines :: "('w, string \<times> string) menu_prog" where
  "menu_lines =
     andThen (status_key ''installed'' JNull) (\<lambda>i.
     andThen (if truthy i then status_key ''stale'' (JBool True) else ret (JBool True)) (\<lambda>st.
     if truthy st then ret (''Remote Assist'', ''Durum alinamiyor'') else
     andThen (status_key ''pending'' JNull) (\<lambda>p.
     andThen (get_state (\<lambda>s. s)) (\<lambda>s.
     if truthy (mn_pending s) \<or> truthy p then ret (''Remote Assist'', ''Uygulaniyor...'')
     else if mn_message s \<noteq> [] then ret (''Remote Assist'', mn_message s)
     else if mn_confirm s \<noteq> None then ret (fst (menu_items ! nat (mn_selected s)) @ ''?'', ''OK:Onay BACK:Iptal'')
     else if mn_in_menu s then ret (''Remote Assist'', fst (menu_items ! nat (mn_selected s)))
     else andThen (status_key ''state'' JNull) (\<lambda>x. andThen (state_text x) (\<lambda>t. ret (''Remote Assist'', t)))))))"

section \<open>The main menu\<close>

text \<open>The client's snapshot: the values it has, \<open>None\<close> for a key that is not there yet.\<close>

record snapshot =
  sn_info :: "json option"
  sn_vpn :: "json option"
  sn_access :: "json option"
  sn_ethernet :: "string option"
  sn_ap :: "bool option"
  sn_services :: "string list option"
  sn_diagnostics :: "string list option"
  sn_errors :: "string list option"
  sn_ready :: "bool option"
  sn_release :: "string option"
  sn_result :: "(string \<times> bool \<times> string) option"

definition snapshot_empty :: snapshot where
  "snapshot_empty = \<lparr>sn_info = None, sn_vpn = None, sn_access = None, sn_ethernet = None, sn_ap = None,
     sn_services = None, sn_diagnostics = None, sn_errors = None, sn_ready = None, sn_release = None,
     sn_result = None\<rparr>"

text \<open>\<open>control\<close> returns the identifier of the request, or the text of its exception.\<close>

record 'w lcd_env =
  lc_snapshot :: "'w \<Rightarrow> snapshot \<times> 'w"
  lc_control :: "string \<Rightarrow> 'w \<Rightarrow> (string + string) \<times> 'w"
  lc_clock :: "'w \<Rightarrow> int \<times> 'w"

definition sections :: "string list" where
  "sections = [''Status'', ''Network'', ''Remote Assist'', ''System'']"

record 'w main_menu =
  mm_selected :: int
  mm_section :: "string option"
  mm_page :: "string option"
  mm_offset :: int
  mm_details :: "string list"
  mm_data :: snapshot
  mm_confirm :: "string option"
  mm_confirm_selected :: int
  mm_until :: int
  mm_pending :: "string option"
  mm_message :: string
  mm_last_input :: int
  mm_world :: 'w
  mm_sent :: "string list"

type_synonym ('w, 'a) lcd_prog = "('w main_menu, 'a) handler"

definition lcd_clock :: "'w lcd_env \<Rightarrow> ('w, int) lcd_prog" where
  "lcd_clock e = (\<lambda>s. case lc_clock e (mm_world s) of (t, w) \<Rightarrow> (Inr t, s\<lparr>mm_world := w\<rparr>))"

definition main_start :: "'w lcd_env \<Rightarrow> 'w \<Rightarrow> 'w main_menu" where
  "main_start e w = (case lc_clock e w of (t, w') \<Rightarrow>
     \<lparr>mm_selected = 0, mm_section = Some ''Status'', mm_page = None, mm_offset = 0, mm_details = [],
      mm_data = snapshot_empty, mm_confirm = None, mm_confirm_selected = 0, mm_until = 0, mm_pending = None,
      mm_message = [], mm_last_input = t, mm_world = w', mm_sent = []\<rparr>)"

definition or_empty :: "json option \<Rightarrow> json" where
  "or_empty x = (case x of None \<Rightarrow> JObj [] | Some v \<Rightarrow> v)"

definition text_or :: "string \<Rightarrow> string option \<Rightarrow> string" where
  "text_or d x = (case x of None \<Rightarrow> d | Some t \<Rightarrow> t)"

definition truth :: "bool option \<Rightarrow> bool" where
  "truth x \<longleftrightarrow> x = Some True"

subsection \<open>Options and rows\<close>

definition network_options :: "snapshot \<Rightarrow> ('s, (string \<times> string) list) handler" where
  "network_options d = andThen (get_or (or_empty (sn_access d)) ''enabled'' JNull) (\<lambda>en.
     ret [(''Network Diagnostics'', ''diagnostics''),
          (''Wi-Fi AP: '' @ (if truth (sn_ap d) then ''Disable'' else ''Enable''),
           if truth (sn_ap d) then ''ap-off'' else ''ap-on''),
          (''Customer: '' @ (if truthy en then ''Disable'' else ''Enable''),
           if truthy en then ''access-off'' else ''access-on'')])"

definition assist_options :: "snapshot \<Rightarrow> ('s, (string \<times> string) list) handler" where
  "assist_options d = andThen (get_or (or_empty (sn_vpn d)) ''enabled'' (JBool False)) (\<lambda>active.
     ret [(''VPN Status'', ''vpn-status''),
          (if truthy active then ''Disconnect'' else ''Connect'', if truthy active then ''disconnect'' else ''connect'')])"

definition options :: "string option \<Rightarrow> snapshot \<Rightarrow> ('s, (string \<times> string) list) handler" where
  "options sec d =
     (if sec = Some ''Network'' then network_options d
      else if sec = Some ''Remote Assist'' then assist_options d
      else if sec = Some ''System''
      then ret [(''Device Information'', ''device''), (''Service Health'', ''services''), (''Restart'', ''reboot''),
                (''Shutdown'', ''poweroff'')]
      else ret [])"

definition vpn_rows :: "json \<Rightarrow> ('s, string list) handler" where
  "vpn_rows vpn =
     andThen (get_or vpn ''state'' (JStr ''unavailable'')) (\<lambda>st.
     andThen (get_or vpn ''profile'' JNull) (\<lambda>p.
     let profile = (if truthy p then p else JObj [])
     in andThen (get_or profile ''address'' JNull) (\<lambda>a.
        andThen (get_or profile ''name'' (JStr ''Missing'')) (\<lambda>n.
          ret [''VPN: '' @ py_str st, ''IP: '' @ py_str (if truthy a then a else JStr ''--''),
               ''Profile: '' @ py_str n]))))"

definition device_rows :: "json \<Rightarrow> string \<Rightarrow> ('s, string list) handler" where
  "device_rows info rel =
     andThen (get_or info ''hostname'' (JStr ''Unavailable'')) (\<lambda>h.
     andThen (get_or info ''model'' (JStr ''--'')) (\<lambda>m.
     andThen (get_or info ''serial'' (JStr ''--'')) (\<lambda>sn.
     andThen (get_or info ''uptime_seconds'' (JInt 0)) (\<lambda>u.
     andThen (lifted (py_int u)) (\<lambda>secs.
       ret [py_str h, ''Model: '' @ py_str m, ''S/N: '' @ py_str sn,
            ''Uptime: '' @ int_dec (secs div 60) @ '' min'', ''Release: '' @ rel])))))"

definition status_rows :: "snapshot \<Rightarrow> ('s, string list) handler" where
  "status_rows d =
     (let errors = (case sn_errors d of None \<Rightarrow> [] | Some es \<Rightarrow> es)
      in andThen (get_or (or_empty (sn_access d)) ''state'' (JStr ''Unavailable'')) (\<lambda>a.
         andThen (get_or (or_empty (sn_vpn d)) ''state'' (JStr ''Unavailable'')) (\<lambda>v.
           ret [if errors \<noteq> [] then ''Error: '' @ hd errors
                else if truth (sn_ready d) then ''System Ready'' else ''Starting / Unavailable'',
                ''ETH: '' @ text_or ''No IP'' (sn_ethernet d),
                ''Wi-Fi AP: '' @ (if truth (sn_ap d) then ''ON'' else ''OFF''),
                ''Customer Access: '' @ py_str a, ''VPN: '' @ py_str v])))"

definition rows :: "string option \<Rightarrow> snapshot \<Rightarrow> ('s, string list) handler" where
  "rows page d =
     (if page = Some ''diagnostics''
      then ret (case sn_diagnostics d of None \<Rightarrow> [''OK: Run diagnostics''] | Some r \<Rightarrow> r)
      else if page = Some ''vpn-status'' then vpn_rows (or_empty (sn_vpn d))
      else if page = Some ''device'' then device_rows (or_empty (sn_info d)) (text_or ''--'' (sn_release d))
      else if page = Some ''services'' then ret (case sn_services d of None \<Rightarrow> [''Unavailable''] | Some r \<Rightarrow> r)
      else status_rows d)"

subsection \<open>Refresh\<close>

definition last_offset :: "'a list \<Rightarrow> int" where
  "last_offset xs = max 0 (int (length xs) - 4)"

text \<open>A text or \<open>None\<close> in a condition.\<close>

definition given :: "string option \<Rightarrow> bool" where
  "given x \<longleftrightarrow> x \<noteq> None \<and> x \<noteq> Some []"

definition take_snapshot :: "'w lcd_env \<Rightarrow> ('w, unit) lcd_prog" where
  "take_snapshot e = (\<lambda>s. case lc_snapshot e (mm_world s) of (d, w) \<Rightarrow> (Inr (), s\<lparr>mm_data := d, mm_world := w\<rparr>))"

definition expire :: "int \<Rightarrow> 'w main_menu \<Rightarrow> 'w main_menu" where
  "expire t s = (if given (mm_confirm s) \<and> mm_until s \<le> t then s\<lparr>mm_confirm := None\<rparr> else s)"

definition take_result :: "'w main_menu \<Rightarrow> 'w main_menu" where
  "take_result s = (case sn_result (mm_data s) of None \<Rightarrow> s
     | Some (i, ok, text) \<Rightarrow>
         if given (mm_pending s) \<and> mm_pending s = Some i then s\<lparr>mm_message := text, mm_pending := None\<rparr> else s)"

definition go_idle :: "int \<Rightarrow> 'w main_menu \<Rightarrow> 'w main_menu" where
  "go_idle t s = (if 30000 \<le> t - mm_last_input s \<and> \<not> given (mm_pending s)
     then s\<lparr>mm_section := Some ''Status'', mm_page := None, mm_offset := 0, mm_confirm := None, mm_message := []\<rparr>
     else s)"

definition main_refresh :: "'w lcd_env \<Rightarrow> ('w, unit) lcd_prog" where
  "main_refresh e =
     andThen (take_snapshot e) (\<lambda>_.
     andThen (lcd_clock e) (\<lambda>t.
     andThen (modify (\<lambda>s. go_idle t (take_result (expire t s)))) (\<lambda>_.
     andThen (get_state (\<lambda>s. s)) (\<lambda>s.
     andThen (rows (mm_page s) (mm_data s)) (\<lambda>r.
       modify (\<lambda>s. s\<lparr>mm_details := r, mm_offset := min (mm_offset s) (last_offset r)\<rparr>))))))"

subsection \<open>Keys\<close>

definition index_of :: "string \<Rightarrow> string list \<Rightarrow> nat" where
  "index_of x xs = length (takeWhile (\<lambda>y. y \<noteq> x) xs)"

definition press_back :: "'w main_menu \<Rightarrow> 'w main_menu" where
  "press_back s =
     (let i = (case mm_section s of None \<Rightarrow> mm_selected s
                | Some x \<Rightarrow> if x \<in> set sections then int (index_of x sections) else mm_selected s)
      in s\<lparr>mm_selected := i, mm_section := None, mm_page := None, mm_offset := 0, mm_confirm := None,
           mm_message := []\<rparr>)"

definition start_confirmation :: "'w lcd_env \<Rightarrow> string \<Rightarrow> ('w, unit) lcd_prog" where
  "start_confirmation e action =
     andThen (modify (\<lambda>s. s\<lparr>mm_confirm := Some action, mm_confirm_selected := 0\<rparr>)) (\<lambda>_.
     andThen (lcd_clock e) (\<lambda>t. modify (mm_until_update (\<lambda>_. t + 15000))))"

definition send_control :: "'w lcd_env \<Rightarrow> string \<Rightarrow> ('w, unit) lcd_prog" where
  "send_control e action = (\<lambda>s. case lc_control e action (mm_world s) of
     (Inr i, w) \<Rightarrow> (Inr (), s\<lparr>mm_world := w, mm_sent := mm_sent s @ [action], mm_pending := Some i,
         mm_message := ''Working...'',
         mm_page := (if action = ''diagnostics'' then Some ''diagnostics'' else mm_page s)\<rparr>)
   | (Inl text, w) \<Rightarrow> (Inr (), s\<lparr>mm_world := w, mm_sent := mm_sent s @ [action], mm_message := text\<rparr>))"

definition press_confirm :: "'w lcd_env \<Rightarrow> key \<Rightarrow> string \<Rightarrow> ('w, unit) lcd_prog" where
  "press_confirm e k action =
     (if k \<in> {Up, Down} then modify (\<lambda>s. s\<lparr>mm_confirm_selected := 1 - mm_confirm_selected s\<rparr>)
      else andThen (modify (mm_confirm_update (\<lambda>_. None))) (\<lambda>_.
           andThen (get_state mm_confirm_selected) (\<lambda>c.
             if c = 1 then send_control e action else ret ())))"

definition press_root :: "key \<Rightarrow> ('w, unit) lcd_prog" where
  "press_root k =
     (if k \<in> {Up, Down} then modify (\<lambda>s. s\<lparr>mm_selected := step_in k (mm_selected s) (length sections)\<rparr>)
      else andThen (get_state mm_selected) (\<lambda>i.
           if nat i < length sections
           then modify (\<lambda>s. s\<lparr>mm_section := Some (sections ! nat i), mm_selected := 0, mm_offset := 0\<rparr>)
           else raise (Crash ''IndexError'')))"

definition press_page :: "'w lcd_env \<Rightarrow> key \<Rightarrow> ('w, unit) lcd_prog" where
  "press_page e k = andThen (get_state (\<lambda>s. s)) (\<lambda>s.
     if k \<in> {Up, Down}
     then andThen (rows (mm_page s) (mm_data s)) (\<lambda>r.
            modify (\<lambda>s. s\<lparr>mm_offset := max 0 (min (last_offset r) (mm_offset s + (if k = Down then 1 else -1)))\<rparr>))
     else if mm_section s = Some ''Status'' then modify (\<lambda>s. s\<lparr>mm_section := None, mm_selected := 0\<rparr>)
     else if mm_page s = Some ''diagnostics'' then start_confirmation e ''diagnostics'' else ret ())"

definition press_option :: "'w lcd_env \<Rightarrow> key \<Rightarrow> ('w, unit) lcd_prog" where
  "press_option e k = andThen (get_state (\<lambda>s. s)) (\<lambda>s.
     andThen (options (mm_section s) (mm_data s)) (\<lambda>opts.
     if k \<in> {Up, Down}
     then (if opts = [] then raise (Crash ''ZeroDivisionError'')
           else modify (\<lambda>s. s\<lparr>mm_selected := step_in k (mm_selected s) (length opts)\<rparr>))
     else if \<not> nat (mm_selected s) < length opts then raise (Crash ''IndexError'')
     else let action = snd (opts ! nat (mm_selected s))
          in if action \<in> {''device'', ''services'', ''vpn-status''}
             then modify (\<lambda>s. s\<lparr>mm_page := Some action, mm_offset := 0\<rparr>)
             else start_confirmation e action))"

definition press_key :: "'w lcd_env \<Rightarrow> key \<Rightarrow> ('w, unit) lcd_prog" where
  "press_key e k =
     andThen (main_refresh e) (\<lambda>_.
     andThen (lcd_clock e) (\<lambda>t.
     andThen (modify (mm_last_input_update (\<lambda>_. t))) (\<lambda>_.
     if k = Back then modify press_back else
     andThen (get_state (\<lambda>s. s)) (\<lambda>s.
     if given (mm_confirm s) then press_confirm e k (the (mm_confirm s))
     else if given (mm_pending s) then ret ()
     else if mm_message s \<noteq> [] then (if k = Ok then modify (mm_message_update (\<lambda>_. [])) else ret ())
     else if mm_section s = None then press_root k
     else if mm_section s = Some ''Status'' \<or> given (mm_page s) then press_page e k
     else press_option e k))))"

definition main_press :: "'w lcd_env \<Rightarrow> string \<Rightarrow> ('w, unit) lcd_prog" where
  "main_press e name = (case key_of_name name of None \<Rightarrow> ret () | Some k \<Rightarrow> press_key e k)"

subsection \<open>What is drawn\<close>

record view =
  vw_title :: string
  vw_items :: "string list option"
  vw_rows :: "string list option"
  vw_selected :: "int option"
  vw_offset :: "int option"
  vw_subtitle :: "string option"

definition hints :: "(string \<times> string) list" where
  "hints = [(''ap-off'', ''Wi-Fi will disconnect''), (''access-on'', ''Wi-Fi to customer LAN''),
     (''poweroff'', ''Power will turn off''), (''reboot'', ''Device will restart'')]"

definition main_view :: "('w, view) lcd_prog" where
  "main_view = andThen (get_state (\<lambda>s. s)) (\<lambda>s.
     if given (mm_confirm s)
     then ret \<lparr>vw_title = ''Confirm '' @ the (mm_confirm s), vw_items = Some [''Cancel'', ''Confirm''], vw_rows = None,
            vw_selected = Some (mm_confirm_selected s), vw_offset = None,
            vw_subtitle = Some (text_or ''Apply this action?'' (map_of hints (the (mm_confirm s))))\<rparr>
     else if given (mm_pending s) \<or> mm_message s \<noteq> []
     then ret \<lparr>vw_title = (if given (mm_section s) then the (mm_section s) else ''LCD''), vw_items = None,
            vw_rows = Some [if mm_message s \<noteq> [] then mm_message s else ''Working...''], vw_selected = None,
            vw_offset = None,
            vw_subtitle = Some (if given (mm_pending s) then ''Please wait'' else ''Action result'')\<rparr>
     else if mm_section s = None
     then ret \<lparr>vw_title = ''InfraBox / Menu'', vw_items = Some sections, vw_rows = None,
            vw_selected = Some (mm_selected s), vw_offset = None, vw_subtitle = None\<rparr>
     else if mm_section s \<noteq> Some ''Status'' \<and> \<not> given (mm_page s)
     then andThen (options (mm_section s) (mm_data s)) (\<lambda>opts.
            ret \<lparr>vw_title = the (mm_section s), vw_items = Some (map fst opts), vw_rows = None,
              vw_selected = Some (mm_selected s), vw_offset = None, vw_subtitle = None\<rparr>)
     else andThen (rows (mm_page s) (mm_data s)) (\<lambda>r.
            ret \<lparr>vw_title = (if given (mm_page s) then the (mm_page s) else the (mm_section s)), vw_items = None,
              vw_rows = Some r, vw_selected = None, vw_offset = Some (mm_offset s), vw_subtitle = None\<rparr>))"

definition view_rows :: "view \<Rightarrow> string list" where
  "view_rows v = (case vw_items v of Some xs \<Rightarrow> xs | None \<Rightarrow> (case vw_rows v of Some xs \<Rightarrow> xs | None \<Rightarrow> []))"

definition view_index :: "view \<Rightarrow> int" where
  "view_index v = (case vw_selected v of Some i \<Rightarrow> i | None \<Rightarrow> (case vw_offset v of Some i \<Rightarrow> i | None \<Rightarrow> 0))"

definition main_lines :: "('w, string \<times> string) lcd_prog" where
  "main_lines = andThen main_view (\<lambda>v.
     if view_rows v = [] then ret (vw_title v, ''Unavailable'')
     else if nat (view_index v) < length (view_rows v) then ret (vw_title v, view_rows v ! nat (view_index v))
     else raise (Crash ''IndexError''))"

text \<open>The rows the panel shows, and where the window starts (lcd_panel.py).\<close>

definition window_start :: "view \<Rightarrow> int" where
  "window_start v = (case vw_selected v of
     Some i \<Rightarrow> max 0 (min (i - 1) (int (length (view_rows v)) - 4))
   | None \<Rightarrow> (case vw_offset v of Some i \<Rightarrow> i | None \<Rightarrow> 0))"

definition window_rows :: "view \<Rightarrow> string list" where
  "window_rows v = take 4 (drop (nat (window_start v)) (view_rows v))"

subsection \<open>The loop\<close>

text \<open>One turn of scripts/keypad-panel.py: a key is pressed, or the screen is refreshed when it is due.\<close>

definition panel_turn :: "'w lcd_env \<Rightarrow> key option \<Rightarrow> bool \<Rightarrow> ('w, (string \<times> string) option) lcd_prog" where
  "panel_turn e key due = (case key of
     Some k \<Rightarrow> andThen main_view (\<lambda>_. andThen (main_press e (key_name k)) (\<lambda>_. andThen main_view (\<lambda>_.
        andThen main_lines (\<lambda>l. ret (Some l)))))
   | None \<Rightarrow> if due then andThen (main_refresh e) (\<lambda>_. andThen main_lines (\<lambda>l. ret (Some l))) else ret None)"

end
