(* ===== verification/Lcd_Safety.thy ===== *)
theory Lcd_Safety
  imports Lcd_Menu
begin

text \<open>
  The main menu over any sequence of keys and refreshes: its state stays well formed, an action is
  sent only by confirming it, and every action costs three keys.
\<close>

section \<open>What reading the snapshot can end in\<close>

definition data_fault :: "failure \<Rightarrow> bool" where
  "data_fault f \<longleftrightarrow> f \<in> {Crash ''AttributeError'', Crash ''TypeError'', Crash ''ValueError''}"

definition reads :: "('a \<Rightarrow> bool) \<Rightarrow> ('s, 'a) handler \<Rightarrow> bool" where
  "reads P m \<longleftrightarrow> (\<forall>s. wp m (\<lambda>a t. t = s \<and> P a) (\<lambda>f t. t = s \<and> data_fault f) s)"

named_theorems read_rules "introduction rules of the judgement reads"

lemma reads_ret [read_rules]: "P a \<Longrightarrow> reads P (ret a)"
  by (simp add: reads_def wp_simps)

lemma reads_get_or: "reads (\<lambda>_. True) (get_or v k x)"
  by (cases v) (simp_all add: reads_def wp_simps data_fault_def)

lemma reads_lifted_int: "reads (\<lambda>_. True) (lifted (py_int v))"
  by (cases v) (simp_all add: reads_def wp_simps data_fault_def split: option.split)

lemma reads_then: "reads A m \<Longrightarrow> (\<And>a. A a \<Longrightarrow> reads P (f a)) \<Longrightarrow> reads P (andThen m f)"
  unfolding reads_def by (blast intro: wp_then)

lemmas reads_get [read_rules] = reads_then [OF reads_get_or]
lemmas reads_int [read_rules] = reads_then [OF reads_lifted_int]

lemma readsD:
  assumes "reads P m" and "\<And>a. P a \<Longrightarrow> Q a s" and "\<And>f. data_fault f \<Longrightarrow> R f s"
  shows "wp m Q R s"
  using assms(1) [unfolded reads_def, rule_format, of s] assms(2,3) by (auto elim!: wp_mono)

lemma reads_rows: "reads (\<lambda>_. True) (rows page d)"
  unfolding rows_def vpn_rows_def device_rows_def status_rows_def Let_def
  by (auto intro!: read_rules)

definition option_count :: "string option \<Rightarrow> int" where
  "option_count sec = (if sec = Some ''Network'' then 3 else if sec = Some ''Remote Assist'' then 2 else 4)"

text \<open>The actions of the menu's client (ACTIONS of lcd_control.py), and the pages.\<close>

definition menu_actions :: "string set" where
  "menu_actions = {''diagnostics'', ''ap-on'', ''ap-off'', ''access-on'', ''access-off'', ''connect'', ''disconnect'',
     ''reboot'', ''poweroff''}"

definition menu_pages :: "string set" where
  "menu_pages = {''device'', ''services'', ''vpn-status''}"

lemma reads_options:
  assumes "sec \<in> {Some ''Network'', Some ''Remote Assist'', Some ''System''}"
  shows "reads (\<lambda>opts. int (length opts) = option_count sec \<and> snd ` set opts \<subseteq> menu_actions \<union> menu_pages)
     (options sec d)"
proof -
  let ?P = "\<lambda>n opts. int (length opts) = n \<and> snd ` set opts \<subseteq> menu_actions \<union> menu_pages"
  have "reads (?P 3) (network_options d)" "reads (?P 2) (assist_options d)"
    unfolding network_options_def assist_options_def
    by (rule reads_get, rule reads_ret, simp add: menu_actions_def menu_pages_def split: if_split)+
  moreover have "reads (?P 4) (options (Some ''System'') d)"
    unfolding options_def by (simp, rule reads_ret) (simp add: menu_actions_def menu_pages_def)
  ultimately show ?thesis
    using assms by (elim insertE emptyE) (simp_all add: options_def option_count_def)
qed

section \<open>The invariant\<close>

definition menu_ok_state :: "'w main_menu \<Rightarrow> bool" where
  "menu_ok_state s \<longleftrightarrow>
     mm_section s \<in> insert None (Some ` set sections) \<and>
     0 \<le> mm_selected s \<and> mm_selected s < option_count (mm_section s) \<and>
     mm_page s \<in> insert None (Some ` insert ''diagnostics'' menu_pages) \<and>
     0 \<le> mm_offset s \<and>
     mm_confirm s \<in> insert None (Some ` menu_actions) \<and>
     mm_confirm_selected s \<in> {0, 1} \<and>
     (mm_confirm s \<noteq> None \<longrightarrow> \<not> given (mm_pending s)) \<and>
     set (mm_sent s) \<subseteq> menu_actions"

text \<open>The keys an action has cost so far, and those of one that is being confirmed.\<close>

definition cost :: "'w main_menu \<Rightarrow> nat" where
  "cost s = 3 * length (mm_sent s) + (if mm_confirm s = None then 0 else Suc (nat (mm_confirm_selected s)))"

definition kept :: "nat \<Rightarrow> 'w main_menu \<Rightarrow> bool" where
  "kept n s \<longleftrightarrow> menu_ok_state s \<and> cost s \<le> n"

definition bounded_fault :: "failure \<Rightarrow> bool" where
  "bounded_fault f \<longleftrightarrow> f \<notin> {Crash ''IndexError'', Crash ''ZeroDivisionError''}"

lemma data_fault_bounded: "data_fault f \<Longrightarrow> bounded_fault f"
  by (auto simp: data_fault_def bounded_fault_def)

lemma kept_mono: "kept m s \<Longrightarrow> m \<le> n \<Longrightarrow> kept n s"
  by (simp add: kept_def)

lemma action_texts: "a \<in> menu_actions \<Longrightarrow> a \<noteq> []"
  by (auto simp: menu_actions_def)

lemma given_confirm: "menu_ok_state s \<Longrightarrow> given (mm_confirm s) \<longleftrightarrow> mm_confirm s \<noteq> None"
  by (auto simp: menu_ok_state_def given_def dest: action_texts)

subsection \<open>Refreshing\<close>

lemma kept_world [simp]:
  "kept n (s\<lparr>mm_world := w\<rparr>) = kept n s" "kept n (s\<lparr>mm_data := d\<rparr>) = kept n s"
  "kept n (s\<lparr>mm_last_input := t\<rparr>) = kept n s" "kept n (s\<lparr>mm_details := r\<rparr>) = kept n s"
  "kept n (s\<lparr>mm_message := x\<rparr>) = kept n s" "kept n (s\<lparr>mm_until := t\<rparr>) = kept n s"
  by (simp_all add: kept_def menu_ok_state_def cost_def)

lemma wp_lcd_clock [wp_simps]:
  "wp (lcd_clock e) Q R s = (case lc_clock e (mm_world s) of (t, w) \<Rightarrow> Q t (s\<lparr>mm_world := w\<rparr>))"
  by (simp add: wp_def lcd_clock_def split: prod.split)

lemma wp_take_snapshot [wp_simps]:
  "wp (take_snapshot e) Q R s = (case lc_snapshot e (mm_world s) of (d, w) \<Rightarrow> Q () (s\<lparr>mm_data := d, mm_world := w\<rparr>))"
  by (simp add: wp_def take_snapshot_def split: prod.split)

lemma settle_kept:
  assumes "kept n s"
  shows "kept n (go_idle t (take_result (expire t s)))"
proof -
  have e: "kept n (expire t s)" using assms by (auto simp: expire_def kept_def menu_ok_state_def cost_def)
  have "kept n (take_result u)" if "kept n u" for u :: "'a main_menu"
    using that by (auto simp: take_result_def kept_def menu_ok_state_def cost_def given_def split: option.split)
  moreover have "kept n (go_idle t u)" if "kept n u" for u :: "'a main_menu"
    using that by (auto simp: go_idle_def kept_def menu_ok_state_def cost_def sections_def option_count_def
        split: if_splits)
  ultimately show ?thesis using e by blast
qed

text \<open>What a refresh leaves of a confirmation: it is gone, or it has not expired.\<close>

definition settled_from :: "'w lcd_env \<Rightarrow> 'w main_menu \<Rightarrow> 'w main_menu \<Rightarrow> bool" where
  "settled_from e s t \<longleftrightarrow> mm_sent t = mm_sent s \<and> mm_confirm_selected t = mm_confirm_selected s \<and>
     (mm_confirm t \<noteq> None \<longrightarrow> mm_confirm t = mm_confirm s \<and> mm_until t = mm_until s \<and>
        fst (lc_clock e (snd (lc_snapshot e (mm_world s)))) < mm_until s)"

lemma settle_from:
  assumes "menu_ok_state s" and "t = fst (lc_clock e (snd (lc_snapshot e (mm_world s))))"
    and "u = go_idle t (take_result (expire t (s\<lparr>mm_data := d, mm_world := w\<rparr>)))"
  shows "settled_from e s u"
  using assms given_confirm [OF assms(1)]
  by (auto simp: settled_from_def go_idle_def take_result_def expire_def split: option.split)

lemma refresh_kept:
  assumes s: "kept n s"
  shows "wp (main_refresh e) (\<lambda>_ t. kept n t \<and> settled_from e s t) (\<lambda>f t. kept n t \<and> mm_sent t = mm_sent s \<and> bounded_fault f) s"
proof -
  obtain d w t w' where d: "lc_snapshot e (mm_world s) = (d, w)" and t: "lc_clock e w = (t, w')"
    by (metis surj_pair)
  let ?u = "go_idle t (take_result (expire t (s\<lparr>mm_data := d, mm_world := w'\<rparr>)))"
  have k: "kept n ?u" by (rule settle_kept) (simp add: s)
  have f: "settled_from e s ?u"
    by (rule settle_from) (use s d t in \<open>simp_all add: kept_def\<close>)
  have "kept n (v\<lparr>mm_details := r, mm_offset := min (mm_offset v) (last_offset r)\<rparr>)"
    if "kept n v" for r :: "string list" and v :: "'a main_menu"
    using that by (auto simp: kept_def menu_ok_state_def cost_def last_offset_def)
  note offset = this [OF k]
  have sent: "mm_sent ?u = mm_sent s" using f by (simp add: settled_from_def)
  have sf: "settled_from e s (?u\<lparr>mm_details := r, mm_offset := x\<rparr>)" for r x
    using f by (simp add: settled_from_def)
  show ?thesis
    unfolding main_refresh_def
    by (simp add: wp_simps d t)
      (rule readsD [OF reads_rows], auto simp: wp_simps offset sf sent k data_fault_bounded)
qed

subsection \<open>Keys\<close>

lemma option_count_pos: "0 < option_count sec" "option_count sec \<le> 4"
  by (simp_all add: option_count_def)

lemma step_in_bounds:
  assumes "0 < n"
  shows "0 \<le> step_in k i n \<and> step_in k i n < int n"
  using assms by (simp add: step_in_def)

lemma back_kept: "kept n s \<Longrightarrow> kept n (press_back s)"
  by (auto simp: kept_def menu_ok_state_def cost_def press_back_def Let_def option_count_def sections_def index_of_def
      split: option.splits if_splits)

lemma start_kept:
  assumes "kept n s" and "mm_confirm s = None" "\<not> given (mm_pending s)" and "a \<in> menu_actions"
  shows "wp (start_confirmation e a) (\<lambda>_ t. kept (Suc n) t \<and> mm_sent t = mm_sent s)
    (\<lambda>f t. kept (Suc n) t \<and> mm_sent t = mm_sent s \<and> bounded_fault f) s"
  using assms
  by (auto simp: start_confirmation_def wp_simps kept_def menu_ok_state_def cost_def split: prod.split)

lemma wp_send_control [wp_simps]:
  "wp (send_control e a) Q R s = (case lc_control e a (mm_world s) of
     (Inr i, w) \<Rightarrow> Q () (s\<lparr>mm_world := w, mm_sent := mm_sent s @ [a], mm_pending := Some i,
         mm_message := ''Working...'', mm_page := (if a = ''diagnostics'' then Some ''diagnostics'' else mm_page s)\<rparr>)
   | (Inl text, w) \<Rightarrow> Q () (s\<lparr>mm_world := w, mm_sent := mm_sent s @ [a], mm_message := text\<rparr>))"
  by (simp add: wp_def send_control_def split: prod.split sum.split)

lemma cancel_kept: "kept n s \<Longrightarrow> kept n (s\<lparr>mm_confirm := None\<rparr>)"
  by (simp add: kept_def menu_ok_state_def cost_def)

lemma sent_kept:
  assumes "kept n s" and "mm_confirm s = Some a" and "mm_confirm_selected s = 1"
    and "mm_confirm t = None" "mm_sent t = mm_sent s @ [a]" "mm_section t = mm_section s"
    "mm_selected t = mm_selected s" "mm_page t \<in> {mm_page s, Some ''diagnostics''}" "mm_offset t = mm_offset s"
    "mm_confirm_selected t = mm_confirm_selected s"
  shows "kept (Suc n) t"
  using assms by (auto simp: kept_def menu_ok_state_def cost_def)

lemma confirm_kept:
  assumes s: "kept n s" and a: "mm_confirm s = Some a" and k: "k \<noteq> Back"
  shows "wp (press_confirm e k a)
    (\<lambda>_ t. kept (Suc n) t \<and> (mm_sent t = mm_sent s \<or> (k = Ok \<and> mm_confirm_selected s = 1 \<and> mm_sent t = mm_sent s @ [a])))
    (\<lambda>f t. kept (Suc n) t \<and> mm_sent t = mm_sent s \<and> bounded_fault f) s"
proof (cases "k = Ok")
  case True
  have c: "kept (Suc n) (s\<lparr>mm_confirm := None\<rparr>)" by (rule kept_mono [OF cancel_kept [OF s]]) simp
  obtain r w where r: "lc_control e a (mm_world s) = (r, w)" by (metis surj_pair)
  show ?thesis
    unfolding press_confirm_def True using c
    by (cases r) (auto simp: wp_simps r intro!: sent_kept [OF s a])
next
  case False
  have "kept (Suc n) (s\<lparr>mm_confirm_selected := 1 - mm_confirm_selected s\<rparr>)"
    using s a by (auto simp: kept_def menu_ok_state_def cost_def)
  moreover have "k \<in> {Up, Down}" using False k by (cases k) auto
  ultimately show ?thesis by (simp add: press_confirm_def wp_simps)
qed

lemma root_kept:
  assumes "kept n s" and "mm_section s = None" and "k \<noteq> Back"
  shows "wp (press_root k) (\<lambda>_ t. kept n t \<and> mm_sent t = mm_sent s) (\<lambda>f t. kept n t \<and> mm_sent t = mm_sent s \<and> bounded_fault f) s"
proof -
  have i: "0 \<le> mm_selected s" "mm_selected s < 4"
    using assms by (auto simp: kept_def menu_ok_state_def option_count_def)
  then have n: "nat (mm_selected s) < length sections" by (simp add: sections_def)
  then have sec: "sections ! nat (mm_selected s) \<in> set sections" by (rule nth_mem)
  have step: "0 \<le> step_in k (mm_selected s) (length sections) \<and> step_in k (mm_selected s) (length sections) < 4"
    using step_in_bounds [of "length sections" k "mm_selected s"] by (simp add: sections_def)
  have move: "kept n (s\<lparr>mm_selected := j\<rparr>)" if "0 \<le> j" "j < 4" for j
    using assms(1,2) that by (auto simp: kept_def menu_ok_state_def cost_def option_count_def)
  have enter: "kept n (s\<lparr>mm_section := Some x, mm_selected := 0, mm_offset := 0\<rparr>)" if "x \<in> set sections" for x
    using assms(1) that option_count_pos by (auto simp: kept_def menu_ok_state_def cost_def)
  show ?thesis
    using n step by (auto simp: press_root_def wp_simps intro!: move enter sec)
qed

lemma page_kept:
  assumes "kept n s" and "k \<noteq> Back" and "mm_confirm s = None" "\<not> given (mm_pending s)"
  shows "wp (press_page e k) (\<lambda>_ t. kept (Suc n) t \<and> mm_sent t = mm_sent s)
    (\<lambda>f t. kept (Suc n) t \<and> mm_sent t = mm_sent s \<and> bounded_fault f) s"
proof -
  have k: "kept (Suc n) s" using assms(1) by (rule kept_mono) simp
  have off: "kept (Suc n) (s\<lparr>mm_offset := max 0 x\<rparr>)" for x
    using k by (auto simp: kept_def menu_ok_state_def cost_def)
  have up: "kept (Suc n) (s\<lparr>mm_section := None, mm_selected := 0\<rparr>)"
    using k by (auto simp: kept_def menu_ok_state_def cost_def option_count_def)
  have "''diagnostics'' \<in> menu_actions" by (simp add: menu_actions_def)
  note start = start_kept [OF assms(1,3,4) this, of e]
  show ?thesis
    using assms(2) k off up start
    by (auto simp: press_page_def wp_simps data_fault_bounded intro!: readsD [OF reads_rows])
qed

lemma option_kept:
  assumes s: "kept n s" and "k \<noteq> Back" and c: "mm_confirm s = None" "\<not> given (mm_pending s)"
    and sec: "mm_section s \<noteq> None" "mm_section s \<noteq> Some ''Status''"
  shows "wp (press_option e k) (\<lambda>_ t. kept (Suc n) t \<and> mm_sent t = mm_sent s)
    (\<lambda>f t. kept (Suc n) t \<and> mm_sent t = mm_sent s \<and> bounded_fault f) s"
proof -
  have k: "kept (Suc n) s" using s by (rule kept_mono) simp
  have i: "0 \<le> mm_selected s" "mm_selected s < option_count (mm_section s)"
    using s by (auto simp: kept_def menu_ok_state_def)
  have "mm_section s \<in> {Some ''Network'', Some ''Remote Assist'', Some ''System''}"
    using s sec by (auto simp: kept_def menu_ok_state_def sections_def)
  note opts = reads_options [OF this]
  have sel: "kept (Suc n) (s\<lparr>mm_selected := j\<rparr>)" if "0 \<le> j" "j < option_count (mm_section s)" for j
    using k that by (auto simp: kept_def menu_ok_state_def cost_def)
  have page: "kept (Suc n) (s\<lparr>mm_page := Some a, mm_offset := 0\<rparr>)" if "a \<in> menu_pages" for a
    using k that by (auto simp: kept_def menu_ok_state_def cost_def)
  have "wp (if k \<in> {Up, Down}
     then (if xs = [] then raise (Crash ''ZeroDivisionError'')
           else modify (\<lambda>s. s\<lparr>mm_selected := step_in k (mm_selected s) (length xs)\<rparr>))
     else if \<not> nat (mm_selected s) < length xs then raise (Crash ''IndexError'')
     else let action = snd (xs ! nat (mm_selected s))
          in if action \<in> {''device'', ''services'', ''vpn-status''}
             then modify (\<lambda>s. s\<lparr>mm_page := Some action, mm_offset := 0\<rparr>)
             else start_confirmation e action) (\<lambda>_ t. kept (Suc n) t \<and> mm_sent t = mm_sent s)
    (\<lambda>f t. kept (Suc n) t \<and> mm_sent t = mm_sent s \<and> bounded_fault f) s"
    if xs: "int (length xs) = option_count (mm_section s)" "snd ` set xs \<subseteq> menu_actions \<union> menu_pages"
    for xs :: "(string \<times> string) list"
  proof (cases "k \<in> {Up, Down}")
    case True
    have "0 < length xs" using xs option_count_pos(1) [of "mm_section s"] by linarith
    with True xs step_in_bounds [of "length xs" k "mm_selected s"] show ?thesis
      by (auto simp: wp_simps intro!: sel)
  next
    case False
    have n: "nat (mm_selected s) < length xs" using i xs by linarith
    let ?a = "snd (xs ! nat (mm_selected s))"
    have "?a \<in> snd ` set xs" using n by simp
    then have "?a \<in> menu_actions \<union> menu_pages" using xs(2) by blast
    then have a: "?a \<in> menu_pages \<or> ?a \<in> menu_actions" by blast
    show ?thesis
    proof (cases "?a \<in> menu_pages")
      case True
      with False n page [of ?a] show ?thesis by (auto simp: wp_simps Let_def menu_pages_def)
    next
      case other: False
      with a have "?a \<in> menu_actions" by blast
      from start_kept [OF s c this, of e] other False n show ?thesis
        by (simp add: Let_def menu_pages_def)
    qed
  qed
  then show ?thesis
    unfolding press_option_def
    by (simp add: wp_andThen wp_get_state)
       (rule readsD [OF opts], auto simp: k data_fault_bounded)
qed

text \<open>One key: the invariant, the cost of one more key, and when an action is sent.\<close>

definition sent_by :: "'w lcd_env \<Rightarrow> key \<Rightarrow> 'w main_menu \<Rightarrow> 'w main_menu \<Rightarrow> bool" where
  "sent_by e k s t \<longleftrightarrow> mm_sent t = mm_sent s \<or>
     (\<exists>a. k = Ok \<and> mm_confirm s = Some a \<and> mm_confirm_selected s = 1 \<and> mm_sent t = mm_sent s @ [a] \<and>
        fst (lc_clock e (snd (lc_snapshot e (mm_world s)))) < mm_until s)"

lemma press_kept:
  assumes s: "kept n s"
  shows "wp (press_key e k) (\<lambda>_ t. kept (Suc n) t \<and> sent_by e k s t) (\<lambda>f t. kept (Suc n) t \<and> sent_by e k s t \<and> bounded_fault f) s"
  unfolding press_key_def
proof (rule wp_then [OF refresh_kept [OF s]], goal_cases)
  case (1 _ u)
  then have u: "kept n u" and from_s: "settled_from e s u" by simp_all
  obtain t w where t: "lc_clock e (mm_world u) = (t, w)" by (metis surj_pair)
  let ?v = "u\<lparr>mm_world := w, mm_last_input := t\<rparr>"
  have v: "kept n ?v" using u by simp
  then have v': "kept (Suc n) ?v" by (rule kept_mono) simp
  have same: "sent_by e k s x" if "mm_sent x = mm_sent ?v" for x
    using that from_s by (simp add: sent_by_def settled_from_def)
  have confirm: "sent_by e k s x"
    if "mm_confirm ?v = Some a" "mm_sent x = mm_sent ?v \<or>
      (k = Ok \<and> mm_confirm_selected ?v = 1 \<and> mm_sent x = mm_sent ?v @ [a])" for x a
    using that from_s by (auto simp: sent_by_def settled_from_def)
  have "menu_ok_state ?v" using v unfolding kept_def by blast
  then have g: "given (mm_confirm ?v) \<longleftrightarrow> mm_confirm ?v \<noteq> None" by (rule given_confirm)
  have "wp (if k = Back then modify press_back else
     andThen (get_state (\<lambda>s. s)) (\<lambda>s.
     if given (mm_confirm s) then press_confirm e k (the (mm_confirm s))
     else if given (mm_pending s) then ret ()
     else if mm_message s \<noteq> [] then (if k = Ok then modify (mm_message_update (\<lambda>_. [])) else ret ())
     else if mm_section s = None then press_root k
     else if mm_section s = Some ''Status'' \<or> given (mm_page s) then press_page e k
     else press_option e k)) (\<lambda>_ t. kept (Suc n) t \<and> sent_by e k s t)
     (\<lambda>f t. kept (Suc n) t \<and> sent_by e k s t \<and> bounded_fault f) ?v"
  proof -
    consider "k = Back" | "k \<noteq> Back" "mm_confirm ?v \<noteq> None" | "k \<noteq> Back" "mm_confirm ?v = None" by blast
    then show ?thesis
    proof cases
      case 1
      with back_kept [OF v'] same [of "press_back ?v"] show ?thesis
        by (simp add: wp_modify) (simp add: press_back_def Let_def)
    next
      case 2
      then obtain a where a: "mm_confirm ?v = Some a" by blast
      with g have "given (mm_confirm ?v)" by simp
      with 2 a confirm [OF a] show ?thesis
        by (simp add: wp_andThen wp_get_state del: Product_Type.prod.case)
           (rule wp_mono [OF confirm_kept [OF v a 2(1)]], auto)
    next
      case 3
      with g have "\<not> given (mm_confirm ?v)" by simp
      note none = this 3
      show ?thesis
      proof (cases "given (mm_pending ?v)")
        case True
        with none v' same show ?thesis by (simp add: wp_simps)
      next
        case idle: False
        note keep = wp_mono [where Q' = "\<lambda>_ t. kept (Suc n) t \<and> sent_by e k s t"
            and R' = "\<lambda>f t. kept (Suc n) t \<and> sent_by e k s t \<and> bounded_fault f"]
        have sec: "mm_section ?v \<noteq> Some ''Status'' \<Longrightarrow> mm_section ?v \<noteq> None \<Longrightarrow>
            wp (press_option e k) (\<lambda>_ t. kept (Suc n) t \<and> sent_by e k s t) (\<lambda>f t. kept (Suc n) t \<and> sent_by e k s t \<and> bounded_fault f) ?v"
          by (rule keep [OF option_kept [OF v 3 idle]]) (use same in auto)
        have page: "wp (press_page e k) (\<lambda>_ t. kept (Suc n) t \<and> sent_by e k s t)
            (\<lambda>f t. kept (Suc n) t \<and> sent_by e k s t \<and> bounded_fault f) ?v"
          by (rule keep [OF page_kept [OF v 3 idle]]) (use same in auto)
        have root: "mm_section ?v = None \<Longrightarrow> wp (press_root k) (\<lambda>_ t. kept (Suc n) t \<and> sent_by e k s t)
            (\<lambda>f t. kept (Suc n) t \<and> sent_by e k s t \<and> bounded_fault f) ?v"
          by (rule keep [OF root_kept [OF v _ 3(1)]]) (use same kept_mono [of n _ "Suc n"] in auto)
        show ?thesis
        proof (cases "mm_message ?v = []")
          case True
          with none idle sec page root show ?thesis
            by (simp only: wp_andThen wp_get_state wp_if if_False simp_thms) (auto simp del: Product_Type.prod.case)
        next
          case False
          have "kept (Suc n) (?v\<lparr>mm_message := []\<rparr>)" "sent_by e k s (?v\<lparr>mm_message := []\<rparr>)"
            using v' same [of "?v\<lparr>mm_message := []\<rparr>"] by simp_all
          with False none idle v' same [of ?v] show ?thesis
            unfolding wp_andThen wp_get_state wp_if wp_modify wp_ret by (cases "k = Ok") simp_all
        qed
      qed
    qed
  qed
  with t show ?case by (simp add: wp_andThen wp_modify wp_lcd_clock)
qed (use kept_mono [of n _ "Suc n"] in \<open>auto simp: sent_by_def\<close>)

section \<open>Sequences of keys\<close>

text \<open>The menu after some keys, with refreshes between them; \<open>n\<close> counts the keys.\<close>

inductive panel_reach :: "'w lcd_env \<Rightarrow> 'w \<Rightarrow> nat \<Rightarrow> 'w main_menu \<Rightarrow> bool" for e w where
  start: "panel_reach e w 0 (main_start e w)"
| press: "panel_reach e w n s \<Longrightarrow> panel_reach e w (Suc n) (snd (main_press e name s))"
| refresh: "panel_reach e w n s \<Longrightarrow> panel_reach e w n (snd (main_refresh e s))"

lemma wp_state: "wp m (\<lambda>_. P) (\<lambda>_. P) s \<Longrightarrow> P (snd (m s))"
  by (auto simp: wp_def split: prod.splits sum.splits)

lemma start_state: "kept 0 (main_start e w)"
  by (simp add: main_start_def kept_def menu_ok_state_def cost_def option_count_def sections_def split: prod.split)

lemma main_press_kept:
  assumes "kept n s"
  shows "wp (main_press e name) (\<lambda>_. kept (Suc n)) (\<lambda>f t. kept (Suc n) t \<and> bounded_fault f) s"
  using kept_mono [OF assms, of "Suc n"]
  by (auto simp: main_press_def wp_simps split: option.split intro!: wp_mono [OF press_kept [OF assms]])

lemma reach_kept: "panel_reach e w n s \<Longrightarrow> kept n s"
proof (induction rule: panel_reach.induct)
  case (press n s name)
  then show ?case
    by (intro wp_state) (auto intro!: wp_mono [OF main_press_kept])
next
  case (refresh n s)
  then show ?case by (intro wp_state) (auto intro!: wp_mono [OF refresh_kept])
qed (rule start_state)

lemma main_press_sent:
  assumes "kept n s" and "main_press e name s = (r, t)" 
  shows "mm_sent t = mm_sent s \<or> (\<exists>a. name = ''ok'' \<and> mm_confirm s = Some a \<and> mm_confirm_selected s = 1 \<and>
    mm_sent t = mm_sent s @ [a] \<and> fst (lc_clock e (snd (lc_snapshot e (mm_world s)))) < mm_until s)"
proof (cases "key_of_name name")
  case None
  with assms(2) show ?thesis by (simp add: main_press_def ret_def)
next
  case (Some k)
  then have name: "key_name k = name" unfolding key_of_name_def find_Some_iff by auto
  from assms(2) Some have "press_key e k s = (r, t)" by (simp add: main_press_def)
  with press_kept [OF assms(1), of e k] name show ?thesis
    by (auto simp: wp_def sent_by_def split: sum.splits)
qed

section \<open>The remote-assist menu\<close>

text \<open>A status the menu acts on.\<close>

definition usable :: "json \<Rightarrow> bool" where
  "usable v \<longleftrightarrow> (\<exists>kvs. v = JObj kvs \<and> truthy (dget kvs ''installed'' JNull) \<and>
     \<not> truthy (dget kvs ''stale'' (JBool True)) \<and> \<not> truthy (dget kvs ''pending'' JNull))"

definition asked :: "string \<Rightarrow> 'w menu \<Rightarrow> 'w menu \<Rightarrow> bool" where
  "asked name s t \<longleftrightarrow> mn_sent t = mn_sent s \<or>
     (\<exists>a. name = ''ok'' \<and> mn_in_menu s \<and> mn_confirm s = Some a \<and> a = selected_action (mn_selected s) \<and>
        usable (mn_status t) \<and> mn_sent t = mn_sent s @ [a])"

lemma wp_menu_clock:
  assumes "\<And>x w. Q x (s\<lparr>mn_world := w\<rparr>)"
  shows "wp (menu_clock e) Q R s"
  using assms by (simp add: wp_def menu_clock_def split: prod.split)

lemma wp_menu_call:
  assumes "\<And>x w. Q x (s\<lparr>mn_world := w\<rparr>)"
  shows "wp (menu_call f) Q R s"
  using assms by (simp add: wp_def menu_call_def split: prod.split)

text \<open>Refreshing sends nothing, keeps the selection, and a confirmation only goes away.\<close>

definition refreshed :: "'w menu \<Rightarrow> 'w menu \<Rightarrow> bool" where
  "refreshed s t \<longleftrightarrow> mn_sent t = mn_sent s \<and> mn_selected t = mn_selected s \<and> mn_in_menu t = mn_in_menu s \<and>
     mn_confirm t \<in> {None, mn_confirm s}"

lemma menu_refresh_from: "wp (menu_refresh e) (\<lambda>_. refreshed s) (\<lambda>_. refreshed s) s"
proof -
  let ?I = "refreshed s"
  have upd: "?I t \<Longrightarrow> ?I (t\<lparr>mn_world := w\<rparr>)" "?I t \<Longrightarrow> ?I (t\<lparr>mn_status := j\<rparr>)" "?I t \<Longrightarrow> ?I (t\<lparr>mn_confirm := None\<rparr>)"
    "?I t \<Longrightarrow> ?I (t\<lparr>mn_pending := p, mn_message := m\<rparr>)" for t w j p m
    by (auto simp: refreshed_def)
  have clock: "safe ?I (menu_clock e)" and call: "safe ?I (menu_call f)" for f
    unfolding safe_def by (auto intro!: wp_menu_clock wp_menu_call upd)
  have key: "safe ?I (status_key k x)" for k x
    unfolding status_key_def by (intro safe_rules)
  have "safe ?I (fetch_status e)"
    unfolding fetch_status_def
    by (rule safe_andThen [OF call]) (auto intro!: safe_modify safe_rules upd split: client_reply.split)
  moreover have "safe ?I (expire_confirm e)"
    unfolding expire_confirm_def by (intro safe_rules clock safe_modify upd)
  moreover have "safe ?I (settle_pending e)"
    unfolding settle_pending_def Let_def by (intro safe_rules clock key safe_modify upd)
  ultimately have "safe ?I (menu_refresh e)" unfolding menu_refresh_def by (intro safe_rules)
  then show ?thesis unfolding safe_def by (simp add: refreshed_def)
qed

lemma send_asked:
  "wp (send_action e a) (\<lambda>_ t. mn_sent t = mn_sent s @ [a] \<and> mn_status t = mn_status s)
     (\<lambda>_ t. mn_sent t = mn_sent s @ [a] \<and> mn_status t = mn_status s) s"
  unfolding send_action_def Let_def
  by (auto simp: wp_simps wp_fun split: client_reply.split json.split option.split
      intro!: wp_menu_call wp_menu_clock)

lemma ready_usable:
  "wp menu_ready (\<lambda>r t. t = s \<and> (r \<longrightarrow> usable (mn_status s))) (\<lambda>_ t. t = s) s"
  unfolding menu_ready_def status_key_def
  by (cases "mn_status s") (auto simp: wp_simps usable_def)

lemma menu_ok_asked:
  assumes "mn_in_menu s"
  shows "wp (menu_ok e) (\<lambda>_. asked ''ok'' s) (\<lambda>_. asked ''ok'' s) s"
  unfolding menu_ok_def
proof (rule wp_then [OF ready_usable], goal_cases)
  case (1 r t)
  then have t: "t = s" and u: "r \<longrightarrow> usable (mn_status s)" by simp_all
  have same: "asked ''ok'' s x" if "mn_sent x = mn_sent s" for x using that by (simp add: asked_def)
  have send: "wp (send_action e a) (\<lambda>_. asked ''ok'' s) (\<lambda>_. asked ''ok'' s) s"
    if "mn_confirm s = Some a" "a = selected_action (mn_selected s)" r for a
    by (rule wp_mono [OF send_asked]) (use that u assms in \<open>auto simp: asked_def\<close>)
  show ?case
    unfolding t status_key_def
    by (cases "mn_status s"; auto simp: wp_simps wp_fun intro!: same wp_menu_clock send)
qed (simp add: asked_def)

lemma menu_press_asked: "wp (menu_press e name) (\<lambda>_. asked name s) (\<lambda>_. asked name s) s"
proof (cases "key_of_name name")
  case None
  then show ?thesis by (simp add: menu_press_def wp_simps asked_def)
next
  case (Some k)
  then have name: "key_name k = name" unfolding key_of_name_def find_Some_iff by auto
  have same: "asked name s x" if "mn_sent x = mn_sent s" for x using that by (simp add: asked_def)
  have ok: "wp (menu_ok e) (\<lambda>_. asked name s) (\<lambda>_. asked name s) u"
    if u: "refreshed s u" "mn_in_menu u" and k: "k = Ok" for u
  proof (rule wp_mono [OF menu_ok_asked [OF u(2)]])
    fix t assume "asked ''ok'' u t"
    with u k name show "asked name s t" by (auto simp: asked_def refreshed_def)
  next
    fix t assume "asked ''ok'' u t"
    with u k name show "asked name s t" by (auto simp: asked_def refreshed_def)
  qed
  have Ok: "k = Ok" if "k \<noteq> Back" "k \<notin> {Up, Down}" using that by (cases k) auto
  show ?thesis
    unfolding menu_press_def Some option.case
  proof (rule wp_then [OF menu_refresh_from], goal_cases)
    case (1 _ u)
    then have "mn_sent u = mn_sent s" by (simp add: refreshed_def)
    with 1 Ok show ?case by (auto simp: wp_simps intro!: same ok)
  qed (auto simp: refreshed_def asked_def)
qed

section \<open>The panel's window\<close>

lemma window_bounds:
  assumes "vw_selected v = Some i" and "0 \<le> i" "i < int (length (view_rows v))"
  shows "0 \<le> window_start v \<and> window_start v \<le> i \<and> i < window_start v + 4"
  using assms by (simp add: window_start_def) linarith

end
