(* ===== verification/Lcd_Guarantees.thy ===== *)
theory Lcd_Guarantees
  imports Lcd_Safety
begin

text \<open>
  What holds of the enclosure's controls: the keys and gestures recognized are those of the history of
  samples, an action needs a confirmation that has not expired, and the menus never index outside
  their lists.
\<close>

section \<open>A panel to run\<close>

definition demo_lcd :: "unit lcd_env" where
  "demo_lcd = \<lparr>lc_snapshot = (\<lambda>w. (snapshot_empty, w)), lc_control = (\<lambda>a w. (Inr ''r'', w)),
     lc_clock = (\<lambda>w. (0, w))\<rparr>"

text \<open>The keys from the status page to the restart's confirmation, and the confirmation itself.\<close>

definition demo_keys :: "string list" where
  "demo_keys = [''ok'', ''up'', ''ok'', ''down'', ''down'', ''ok'', ''down'']"

definition demo_panel :: "unit main_menu" where
  "demo_panel = foldl (\<lambda>s k. snd (main_press demo_lcd k s)) (main_start demo_lcd ()) demo_keys"

definition demo_sent :: "unit main_menu" where
  "demo_sent = snd (main_press demo_lcd ''ok'' demo_panel)"

definition demo_rows :: "string list" where
  "demo_rows = [''Starting / Unavailable'', ''ETH: No IP'', ''Wi-Fi AP: OFF'', ''Customer Access: Unavailable'',
     ''VPN: Unavailable'']"

definition demo_state ::
    "string list \<Rightarrow> string option \<Rightarrow> int \<Rightarrow> string option \<Rightarrow> int \<Rightarrow> int \<Rightarrow> unit main_menu" where
  "demo_state d sec sel conf csel deadline = \<lparr>mm_selected = sel, mm_section = sec, mm_page = None, mm_offset = 0,
     mm_details = d, mm_data = snapshot_empty, mm_confirm = conf, mm_confirm_selected = csel, mm_until = deadline,
     mm_pending = None, mm_message = [], mm_last_input = 0, mm_world = (), mm_sent = []\<rparr>"

lemma demo_state_fields:
  "mm_confirm (demo_state d sec sel conf csel deadline) = conf" "mm_pending (demo_state d sec sel conf csel deadline) = None"
  "mm_message (demo_state d sec sel conf csel deadline) = []" "mm_section (demo_state d sec sel conf csel deadline) = sec"
  "mm_page (demo_state d sec sel conf csel deadline) = None" "mm_selected (demo_state d sec sel conf csel deadline) = sel"
  "mm_confirm_selected (demo_state d sec sel conf csel deadline) = csel"
  "mm_world (demo_state d sec sel conf csel deadline) = ()" "mm_sent (demo_state d sec sel conf csel deadline) = []"
  "(demo_state d sec sel conf csel deadline)\<lparr>mm_last_input := 0\<rparr> = demo_state d sec sel conf csel deadline"
  "(demo_state d sec sel conf csel deadline)\<lparr>mm_world := ()\<rparr> = demo_state d sec sel conf csel deadline"
  "(demo_state d sec sel conf csel deadline)\<lparr>mm_selected := j\<rparr> = demo_state d sec j conf csel deadline"
  "(demo_state d sec sel conf csel deadline)\<lparr>mm_section := x\<rparr> = demo_state d x sel conf csel deadline"
  "(demo_state d sec sel conf csel deadline)\<lparr>mm_offset := 0\<rparr> = demo_state d sec sel conf csel deadline"
  "(demo_state d sec sel conf csel deadline)\<lparr>mm_confirm := y\<rparr> = demo_state d sec sel y csel deadline"
  "(demo_state d sec sel conf csel deadline)\<lparr>mm_confirm_selected := z\<rparr> = demo_state d sec sel conf z deadline"
  "(demo_state d sec sel conf csel deadline)\<lparr>mm_until := t\<rparr> = demo_state d sec sel conf csel t"
  by (simp_all add: demo_state_def)

lemma demo_clock: "lc_clock demo_lcd w = (0, w)"
  by (simp add: demo_lcd_def)

lemma demo_refresh:
  assumes "conf = None \<or> 0 < deadline"
  shows "main_refresh demo_lcd (demo_state d sec sel conf csel deadline)
    = (Inr (), demo_state demo_rows sec sel conf csel deadline)"
proof -
  have "rows None snapshot_empty s = (Inr demo_rows, s)" for s :: "unit main_menu"
    by (simp add: rows_def status_rows_def snapshot_empty_def get_or_def or_empty_def dget_def demo_rows_def text_or_def
        truth_def py_str_def ret_def andThen_def)
  then show ?thesis
    using assms
    by (auto simp: main_refresh_def andThen_def take_snapshot_def lcd_clock_def demo_lcd_def modify_def get_state_def
        expire_def take_result_def go_idle_def demo_state_def snapshot_empty_def given_def last_offset_def demo_rows_def)
qed

lemma demo_press:
  assumes "conf = None \<or> 0 < deadline" and "key_of_name name = Some k" "k \<noteq> Back"
  shows "main_press demo_lcd name (demo_state d sec sel conf csel deadline) =
    (if given conf then press_confirm demo_lcd k (the conf) (demo_state demo_rows sec sel conf csel deadline)
     else if sec = None then press_root k (demo_state demo_rows sec sel conf csel deadline)
     else if sec = Some ''Status'' then press_page demo_lcd k (demo_state demo_rows sec sel conf csel deadline)
     else press_option demo_lcd k (demo_state demo_rows sec sel conf csel deadline))"
proof -
  let ?s = "demo_state demo_rows sec sel conf csel deadline"
  have ref: "main_refresh demo_lcd (demo_state d sec sel conf csel deadline) = (Inr (), ?s)"
    using assms(1) by (rule demo_refresh)
  have "\<not> given (None :: string option)" by (simp add: given_def)
  with assms(2,3) show ?thesis
    by (simp add: main_press_def press_key_def andThen_def ref lcd_clock_def demo_clock modify_def get_state_def demo_state_fields)
qed

lemma demo_names: "key_of_name ''ok'' = Some Ok" "key_of_name ''up'' = Some Up" "key_of_name ''down'' = Some Down"
  by code_simp+

lemma demo_system: "options (Some ''System'') d s = (Inr [(''Device Information'', ''device''),
    (''Service Health'', ''services''), (''Restart'', ''reboot''), (''Shutdown'', ''poweroff'')], s)"
  by (simp add: options_def ret_def)

lemmas demo_steps = demo_press demo_names press_confirm_def press_root_def press_page_def press_option_def
  start_confirmation_def andThen_def get_state_def modify_def lcd_clock_def step_in_def sections_def given_def
  demo_state_fields demo_clock demo_system

lemma demo_walk:
  "snd (main_press demo_lcd ''ok'' (demo_state [] (Some ''Status'') 0 None 0 0)) = demo_state demo_rows None 0 None 0 0"
  "snd (main_press demo_lcd ''up'' (demo_state demo_rows None 0 None 0 0)) = demo_state demo_rows None 3 None 0 0"
  "snd (main_press demo_lcd ''ok'' (demo_state demo_rows None 3 None 0 0))
     = demo_state demo_rows (Some ''System'') 0 None 0 0"
  "snd (main_press demo_lcd ''down'' (demo_state demo_rows (Some ''System'') 0 None 0 0))
     = demo_state demo_rows (Some ''System'') 1 None 0 0"
  "snd (main_press demo_lcd ''down'' (demo_state demo_rows (Some ''System'') 1 None 0 0))
     = demo_state demo_rows (Some ''System'') 2 None 0 0"
  "snd (main_press demo_lcd ''ok'' (demo_state demo_rows (Some ''System'') 2 None 0 0))
     = demo_state demo_rows (Some ''System'') 2 (Some ''reboot'') 0 15000"
  "snd (main_press demo_lcd ''down'' (demo_state demo_rows (Some ''System'') 2 (Some ''reboot'') 0 15000))
     = demo_state demo_rows (Some ''System'') 2 (Some ''reboot'') 1 15000"
  by (simp_all add: demo_steps)

lemma demo_panel_is: "demo_panel = demo_state demo_rows (Some ''System'') 2 (Some ''reboot'') 1 15000"
proof -
  have "main_start demo_lcd () = demo_state [] (Some ''Status'') 0 None 0 0"
    by (simp add: main_start_def demo_lcd_def demo_state_def)
  then show ?thesis by (simp add: demo_panel_def demo_keys_def demo_walk)
qed

lemma demo_panel_state:
  "mm_confirm demo_panel = Some ''reboot''" "mm_sent demo_panel = []" "mm_pending demo_panel = None"
  "mm_last_input demo_panel = 0" "mm_sent demo_sent = [''reboot'']"
proof -
  show "mm_sent demo_sent = [''reboot'']"
    by (simp add: demo_sent_def demo_panel_is demo_steps)
       (simp add: demo_state_def send_control_def demo_lcd_def)
qed (simp_all add: demo_panel_is demo_state_def)

lemma demo_reach: "panel_reach demo_lcd () 7 demo_panel"
proof -
  have "panel_reach demo_lcd () (n + length ks) (foldl (\<lambda>s k. snd (main_press demo_lcd k s)) s ks)"
    if "panel_reach demo_lcd () n s" for ks n s
    using that
  proof (induction ks arbitrary: n s)
    case (Cons k ks)
    from Cons.IH [OF panel_reach.press [OF Cons.prems, of k]] show ?case by simp
  qed simp
  from this [OF panel_reach.start, of demo_keys] show ?thesis by (simp add: demo_panel_def demo_keys_def eval_nat_numeral)
qed

section \<open>Properties\<close>

text \<open>
  C36: The scanner emits exactly the key of the reference: when all keys have settled up and, since
  they were last settled up, one key was down the whole time and no other.
\<close>

theorem scanner_matches_history: "emitted h = released_key h"
  using update_follows [OF follows_after] by (cases h) (auto simp: emitted_def released_key_def)

text \<open>
  C37: The power button acts exactly on the gestures of the reference: a release that settles now, of a
  press that settled after an earlier release, decided by the time between their beginnings.
\<close>

theorem button_matches_history: "button_emits h = gesture h"
  using update_tracks [OF tracks_after] by (cases h) (auto simp: button_emits_def gesture_def)

text \<open>
  The main menu sends at most one action per key, only on the key that selects while \<open>Confirm\<close> is
  chosen, the action that is being confirmed, and only before the confirmation has expired.
\<close>

theorem action_needs_confirmation:
  assumes "panel_reach e w n s" and "main_press e name s = (r, t)" and "mm_sent t \<noteq> mm_sent s"
  shows "\<exists>a. name = ''ok'' \<and> mm_confirm s = Some a \<and> mm_confirm_selected s = 1 \<and>
    mm_sent t = mm_sent s @ [a] \<and> fst (lc_clock e (snd (lc_snapshot e (mm_world s)))) < mm_until s"
  using main_press_sent [OF reach_kept [OF assms(1)] assms(2)] assms(3) by blast

theorem action_needs_confirmation_witness:
  "mm_confirm_selected demo_panel = 1 \<and> mm_until demo_panel > fst (lc_clock demo_lcd (mm_world demo_panel))"
proof -
  have "mm_sent (snd (main_press demo_lcd ''ok'' demo_panel)) \<noteq> mm_sent demo_panel"
    using demo_panel_state by (simp add: demo_sent_def)
  from action_needs_confirmation [OF demo_reach _ this, of "''ok''" "fst (main_press demo_lcd ''ok'' demo_panel)"]
  show ?thesis by (auto simp: demo_lcd_def)
qed

text \<open>
  C35: Over any keys and refreshes, with any answers of the service, every action sent is one of the
  actions the service supports, each has cost at least three keys, and no action is confirmed while
  another one is pending.
\<close>

theorem actions_cost_three_keys:
  assumes "panel_reach e w n s"
  shows "set (mm_sent s) \<subseteq> menu_actions \<and> 3 * length (mm_sent s) \<le> n \<and>
    (mm_confirm s \<noteq> None \<longrightarrow> \<not> given (mm_pending s))"
  using reach_kept [OF assms] by (simp add: kept_def cost_def menu_ok_state_def)

theorem actions_cost_three_keys_witness:
  "set (mm_sent demo_sent) \<subseteq> menu_actions \<and> mm_sent demo_sent = [''reboot'']"
  using actions_cost_three_keys [OF panel_reach.press [OF demo_reach, of "''ok''"]] demo_panel_state
  by (simp add: demo_sent_def)

text \<open>
  C39: A key or a refresh of a reachable menu never ends in an \<open>IndexError\<close> or a \<open>ZeroDivisionError\<close>,
  whatever the snapshot holds.
\<close>

theorem menu_never_out_of_range:
  assumes "panel_reach e w n s"
  shows "fst (main_press e name s) \<notin> {Inl (Crash ''IndexError''), Inl (Crash ''ZeroDivisionError'')} \<and>
    fst (main_refresh e s) \<notin> {Inl (Crash ''IndexError''), Inl (Crash ''ZeroDivisionError'')}"
proof -
  have "wp (main_press e name) (\<lambda>_ _. True) (\<lambda>f _. bounded_fault f) s" "wp (main_refresh e) (\<lambda>_ _. True) (\<lambda>f _. bounded_fault f) s"
    by (rule wp_mono [OF main_press_kept [OF reach_kept [OF assms]]]; simp)
       (rule wp_mono [OF refresh_kept [OF reach_kept [OF assms]]]; simp)
  then show ?thesis by (auto simp: wp_def bounded_fault_def split: prod.splits sum.splits)
qed

theorem menu_never_out_of_range_witness:
  "fst (main_press demo_lcd ''down'' demo_panel) \<noteq> Inl (Crash ''IndexError'')"
  using menu_never_out_of_range [OF demo_reach, of "''down''"] by simp

text \<open>
  After thirty seconds without a key, and with no action pending, a refresh shows the status page
  and forgets what was being confirmed.
\<close>

theorem idle_returns_to_status:
  assumes "main_refresh e s = (r, t)" and "\<not> given (mm_pending s)"
    and "30000 \<le> fst (lc_clock e (snd (lc_snapshot e (mm_world s)))) - mm_last_input s"
  shows "mm_section t = Some ''Status'' \<and> mm_page t = None \<and> mm_confirm t = None \<and> mm_message t = []"
proof -
  let ?P = "\<lambda>t. mm_section t = Some ''Status'' \<and> mm_page t = None \<and> mm_confirm t = None \<and> mm_message t = []"
  obtain d w x w' where d: "lc_snapshot e (mm_world s) = (d, w)" and x: "lc_clock e w = (x, w')"
    by (metis surj_pair)
  have "?P (go_idle x (take_result (expire x (s\<lparr>mm_data := d, mm_world := w'\<rparr>))))"
    using assms(2,3) d x by (auto simp: go_idle_def take_result_def expire_def split: option.split)
  then have "wp (main_refresh e) (\<lambda>_. ?P) (\<lambda>_. ?P) s"
    unfolding main_refresh_def by (simp add: wp_simps d x) (rule readsD [OF reads_rows], auto simp: wp_simps)
  then show ?thesis using assms(1) by (auto simp: wp_def split: sum.splits)
qed

theorem idle_returns_to_status_witness:
  "mm_confirm (snd (main_refresh (demo_lcd\<lparr>lc_clock := (\<lambda>w. (30000, w))\<rparr>) demo_panel)) = None"
proof -
  have "\<not> given (mm_pending demo_panel)" by (simp add: demo_panel_state given_def)
  then show ?thesis
    using idle_returns_to_status [of "demo_lcd\<lparr>lc_clock := (\<lambda>w. (30000, w))\<rparr>" demo_panel]
    by (cases "main_refresh (demo_lcd\<lparr>lc_clock := (\<lambda>w. (30000, w))\<rparr>) demo_panel") (simp add: demo_panel_state)
qed

text \<open>
  The remote-assist menu sends an action only on the key that selects, inside the menu, when the
  same action was selected before and waits for its confirmation, and the status read for this key
  says the service is installed, fresh and free.
\<close>

theorem assist_confirmed_when_ready:
  assumes "menu_press e name s = (r, t)" and "mn_sent t \<noteq> mn_sent s"
  shows "name = ''ok'' \<and> mn_in_menu s \<and> usable (mn_status t) \<and>
    mn_confirm s = Some (selected_action (mn_selected s)) \<and>
    mn_sent t = mn_sent s @ [selected_action (mn_selected s)]"
  using menu_press_asked [of e name s] assms by (auto simp: wp_def asked_def split: sum.splits)

definition demo_reply :: json where
  "demo_reply = JObj [(''installed'', JBool True), (''stale'', JBool False), (''profile'', JStr ''p''),
     (''request_id'', JStr ''r'')]"

definition demo_assist :: "unit assist_env" where
  "demo_assist = \<lparr>as_request = (\<lambda>p m w. (Reply demo_reply, w)), as_clock = (\<lambda>w. (0, w))\<rparr>"

definition demo_menu :: "unit menu" where
  "demo_menu = (menu_start ())\<lparr>mn_in_menu := True, mn_confirm := Some ''enable'', mn_until := 10\<rparr>"

theorem assist_confirmed_when_ready_witness:
  "mn_sent demo_menu = [] \<and> mn_sent (snd (menu_press demo_assist ''ok'' demo_menu)) = [''enable'']"
proof -
  have first: "mn_sent demo_menu = []" by (simp add: demo_menu_def menu_start_def)
  have sent: "mn_sent (snd (menu_press demo_assist ''ok'' demo_menu)) \<noteq> []" by code_simp
  obtain r t where rt: "menu_press demo_assist ''ok'' demo_menu = (r, t)" by (metis surj_pair)
  have "selected_action (mn_selected demo_menu) = ''enable''"
    by (simp add: demo_menu_def menu_start_def selected_action_def menu_items_def)
  with assist_confirmed_when_ready [OF rt] sent first rt show ?thesis by simp
qed

end
