(* ===== verification/Windows.thy ===== *)
theory Windows
  imports Main "HOL-Library.Sublist"
begin

text \<open>
  A sliding window of times: a queue that drops what is older than the window before it is read. What
  the queue holds of a growing log, and how many entries of the log one window can have.
\<close>

definition fresh_part :: "int \<Rightarrow> int \<Rightarrow> int list \<Rightarrow> int list" where
  "fresh_part w t q = dropWhile (\<lambda>u. w \<le> t - u) q"

text \<open>The queue is the end of the log, and the rest of the log is older than the window at \<open>tick\<close>.\<close>

definition covers :: "int \<Rightarrow> int list \<Rightarrow> int list \<Rightarrow> int \<Rightarrow> bool" where
  "covers w q log tick \<longleftrightarrow> sorted log \<and> (\<forall>u \<in> set log. u \<le> tick) \<and>
     (\<exists>old. log = old @ q \<and> (\<forall>u \<in> set old. w \<le> tick - u))"

definition in_window :: "int \<Rightarrow> int \<Rightarrow> int list \<Rightarrow> int list" where
  "in_window w t log = filter (\<lambda>u. t - w < u \<and> u \<le> t) log"

locale sliding_window =
  fixes w :: int and limit :: nat
  assumes width: "0 < w"
begin

definition bounded :: "int list \<Rightarrow> bool" where
  "bounded log \<longleftrightarrow> (\<forall>t. length (in_window w t log) \<le> limit)"

lemma covers_later: "covers w q log tick \<Longrightarrow> tick \<le> t \<Longrightarrow> covers w q log t"
  unfolding covers_def by force

lemma covers_fresh:
  assumes "covers w q log tick"
  shows "covers w (fresh_part w tick q) log tick"
proof -
  obtain old where old: "log = old @ q" "\<forall>u \<in> set old. w \<le> tick - u"
    using assms by (auto simp: covers_def)
  have "q = takeWhile (\<lambda>u. w \<le> tick - u) q @ fresh_part w tick q" by (simp add: fresh_part_def)
  then have "log = (old @ takeWhile (\<lambda>u. w \<le> tick - u) q) @ fresh_part w tick q"
    using old(1) by simp
  moreover have "\<forall>u \<in> set (old @ takeWhile (\<lambda>u. w \<le> tick - u) q). w \<le> tick - u"
    using old(2) by (auto dest: set_takeWhileD)
  ultimately show ?thesis using assms unfolding covers_def by blast
qed

lemma covers_none:
  assumes "covers w q log tick" and "q = [] \<or> w \<le> tick - last q"
  shows "covers w [] log tick"
proof -
  obtain old where old: "log = old @ q" "\<forall>u \<in> set old. w \<le> tick - u" "sorted log"
    using assms by (auto simp: covers_def)
  have "w \<le> tick - u" if "u \<in> set q" for u
  proof -
    have "sorted q" using old by (simp add: sorted_append)
    then have "u \<le> last q" using that by (induction q) (auto split: if_splits)
    then show ?thesis using assms(2) that by force
  qed
  then have "log = log @ [] \<and> (\<forall>u \<in> set log. w \<le> tick - u)" using old by auto
  then show ?thesis using assms(1) unfolding covers_def by blast
qed

lemma covers_add:
  assumes "covers w q log tick"
  shows "covers w (q @ [tick]) (log @ [tick]) tick"
  using assms by (auto simp: covers_def sorted_append)

lemma bounded_add:
  assumes q: "covers w q log tick" and b: "bounded log" and room: "length q < limit"
  shows "bounded (log @ [tick])"
  unfolding bounded_def
proof
  fix t
  show "length (in_window w t (log @ [tick])) \<le> limit"
  proof (cases "tick \<le> t \<and> t - w < tick")
    case True
    obtain old where old: "log = old @ q" "\<forall>u \<in> set old. w \<le> tick - u"
      using q by (auto simp: covers_def)
    have "in_window w t old = []"
      using old(2) True by (force simp: in_window_def filter_empty_conv)
    then have "length (in_window w t log) \<le> length q" by (simp add: old(1) in_window_def)
    with room show ?thesis by (simp add: in_window_def)
  next
    case False
    with b show ?thesis by (auto simp: bounded_def in_window_def)
  qed
qed

lemma bounded_Nil: "bounded []"
  by (simp add: bounded_def in_window_def)

lemma bounded_subseq:
  assumes "bounded log" and "subseq xs log"
  shows "length (in_window w t xs) \<le> limit"
proof -
  have "subseq (in_window w t xs) (in_window w t log)"
    unfolding in_window_def using assms(2) by (rule subseq_filter)
  then have "length (in_window w t xs) \<le> length (in_window w t log)" by (rule list_emb_length)
  then show ?thesis using assms(1) unfolding bounded_def by (meson order_trans)
qed

end

end
