(* ===== verification/Auth.thy ===== *)
theory Auth
  imports Values Windows
begin

text \<open>
  The sign-in of the appliance (backend/app/security/auth.py, backend/app/security/lcd_access.py,
  backend/app/api/auth.py): the store of credentials, sessions and attempts, the routes, and the
  middleware in front of every request and socket. The clock counts milliseconds; the password hash,
  the secrets and the clock are parameters.
\<close>

section \<open>The store\<close>

record credentials =
  cr_salt :: string
  cr_hash :: string
  cr_must_change :: bool

text \<open>The credentials file: absent, not readable, or its JSON value (\<open>None\<close> when it is not JSON).\<close>

datatype cred_file = No_file | Unreadable | Content "json option"

record session =
  se_expires :: int
  se_last_seen :: int

record auth =
  au_credentials :: "credentials option"
  au_file :: cred_file
  au_sessions :: "(string \<times> session) list"
  au_attempts :: "(string \<times> int list) list"
  au_global :: "int list"
  au_reads :: nat
  au_secrets :: nat
  au_checked :: "(string \<times> int) list"

text \<open>How writing the file ends: it fails before or after the new file is in place.\<close>

datatype write_end = Written | Not_written | Not_synced

record auth_env =
  ae_time :: "nat \<Rightarrow> int"
  ae_salt :: "nat \<Rightarrow> string"
  ae_token :: "nat \<Rightarrow> string"
  ae_scrypt :: "string \<Rightarrow> string \<Rightarrow> string"
  ae_write :: "nat \<Rightarrow> write_end"

definition auth_start :: "cred_file \<Rightarrow> auth" where
  "auth_start f = \<lparr>au_credentials = None, au_file = f, au_sessions = [], au_attempts = [], au_global = [],
     au_reads = 0, au_secrets = 0, au_checked = []\<rparr>"

type_synonym 'a auth_prog = "(auth, 'a) handler"

definition session_ms :: int where
  "session_ms = 8 * 3600 * 1000"

definition idle_ms :: int where
  "idle_ms = 30 * 60 * 1000"

definition auth_clock :: "auth_env \<Rightarrow> int auth_prog" where
  "auth_clock e = (\<lambda>s. (Inr (ae_time e (au_reads s)), s\<lparr>au_reads := Suc (au_reads s)\<rparr>))"

definition secret :: "(nat \<Rightarrow> string) \<Rightarrow> string auth_prog" where
  "secret f = (\<lambda>s. (Inr (f (au_secrets s)), s\<lparr>au_secrets := Suc (au_secrets s)\<rparr>))"

subsection \<open>Credentials\<close>

definition unavailable :: failure where
  "unavailable = Http 503 ''Authentication storage is unavailable''"

text \<open>\<open>bytes.fromhex\<close>: pairs of digits, with blanks between them.\<close>

fun from_hex :: "string \<Rightarrow> nat list option" where
  "from_hex [] = Some []"
| "from_hex [c] = (if code c \<in> {9, 10, 11, 12, 13, 32} then Some [] else None)"
| "from_hex (c # d # cs) =
     (if code c \<in> {9, 10, 11, 12, 13, 32} then from_hex (d # cs)
      else if is_hex c \<and> is_hex d
      then map_option (\<lambda>bs. (16 * hex_val (lower_char c) + hex_val (lower_char d)) # bs) (from_hex cs) else None)"

definition hex_of_length :: "nat \<Rightarrow> json option \<Rightarrow> string option" where
  "hex_of_length n v = (case v of
     Some (JStr s) \<Rightarrow> (case from_hex s of Some bs \<Rightarrow> if length bs = n then Some s else None | None \<Rightarrow> None)
   | _ \<Rightarrow> None)"

definition read_credentials :: "json option \<Rightarrow> credentials option" where
  "read_credentials v = (case v of
     Some (JObj kvs) \<Rightarrow>
       if map_of kvs ''username'' \<noteq> Some (JStr ''admin'') then None
       else (case map_of kvs ''must_change_password'' of
          Some (JBool b) \<Rightarrow> (case (hex_of_length 16 (map_of kvs ''salt''), hex_of_length 64 (map_of kvs ''hash'')) of
             (Some s, Some h) \<Rightarrow> Some \<lparr>cr_salt = s, cr_hash = h, cr_must_change = b\<rparr> | _ \<Rightarrow> None)
        | _ \<Rightarrow> None)
   | _ \<Rightarrow> None)"

definition credentials_json :: "credentials \<Rightarrow> json" where
  "credentials_json c = JObj [(''username'', JStr ''admin''), (''salt'', JStr (cr_salt c)),
     (''hash'', JStr (cr_hash c)), (''must_change_password'', JBool (cr_must_change c))]"

definition load_file :: "auth_env \<Rightarrow> credentials auth_prog" where
  "load_file e = andThen (get_state au_file) (\<lambda>f. case f of
     No_file \<Rightarrow> andThen (secret (ae_salt e)) (\<lambda>salt.
       ret \<lparr>cr_salt = salt, cr_hash = ae_scrypt e ''ChangeMe'' salt, cr_must_change = False\<rparr>)
   | Unreadable \<Rightarrow> raise unavailable
   | Content v \<Rightarrow> need (read_credentials v) unavailable)"

definition load :: "auth_env \<Rightarrow> credentials auth_prog" where
  "load e = andThen (get_state au_credentials) (\<lambda>c. case c of
     Some v \<Rightarrow> ret v
   | None \<Rightarrow> andThen (load_file e) (\<lambda>v. andThen (modify (au_credentials_update (\<lambda>_. Some v))) (\<lambda>_. ret v)))"

definition save :: "auth_env \<Rightarrow> credentials \<Rightarrow> unit auth_prog" where
  "save e v = andThen (get_state au_secrets) (\<lambda>n. case ae_write e n of
     Written \<Rightarrow> modify (\<lambda>s. s\<lparr>au_file := Content (Some (credentials_json v)), au_credentials := Some v\<rparr>)
   | Not_written \<Rightarrow> raise unavailable
   | Not_synced \<Rightarrow> andThen (modify (\<lambda>s. s\<lparr>au_file := Content (Some (credentials_json v))\<rparr>)) (\<lambda>_. raise unavailable))"

subsection \<open>Sessions\<close>

definition live :: "int \<Rightarrow> session \<Rightarrow> bool" where
  "live t v \<longleftrightarrow> t < se_expires v \<and> t - se_last_seen v < idle_ms"

text \<open>The first of the sessions that were seen the longest time ago.\<close>

fun oldest :: "(string \<times> session) list \<Rightarrow> string option" where
  "oldest [] = None"
| "oldest ((k, v) # ss) = (case ss of [] \<Rightarrow> Some k
     | _ \<Rightarrow> if \<forall>x \<in> set ss. se_last_seen v \<le> se_last_seen (snd x) then Some k else oldest ss)"

definition drop_oldest :: "(string \<times> session) list \<Rightarrow> (string \<times> session) list" where
  "drop_oldest ss = (if 32 \<le> length ss then filter (\<lambda>x. Some (fst x) \<noteq> oldest ss) ss else ss)"

fun put_session :: "string \<Rightarrow> session \<Rightarrow> (string \<times> session) list \<Rightarrow> (string \<times> session) list" where
  "put_session k v [] = [(k, v)]"
| "put_session k v ((j, w) # ss) = (if j = k then (k, v) # ss else (j, w) # put_session k v ss)"

definition new_session :: "auth_env \<Rightarrow> string auth_prog" where
  "new_session e = andThen (auth_clock e) (\<lambda>t.
     andThen (modify (\<lambda>s. s\<lparr>au_sessions := drop_oldest (filter (\<lambda>x. live t (snd x)) (au_sessions s))\<rparr>)) (\<lambda>_.
     andThen (secret (ae_token e)) (\<lambda>token.
     andThen (modify (\<lambda>s. s\<lparr>au_sessions := put_session token \<lparr>se_expires = t + session_ms, se_last_seen = t\<rparr>
                (au_sessions s)\<rparr>)) (\<lambda>_. ret token))))"

definition pop_session :: "string option \<Rightarrow> auth \<Rightarrow> auth" where
  "pop_session token s = s\<lparr>au_sessions := filter (\<lambda>x. Some (fst x) \<noteq> token) (au_sessions s)\<rparr>"

text \<open>\<open>session(token, touch)\<close>: whether there is one.\<close>

definition session :: "auth_env \<Rightarrow> string option \<Rightarrow> bool \<Rightarrow> bool auth_prog" where
  "session e token touch = andThen (get_state (\<lambda>s. Option.bind token (map_of (au_sessions s)))) (\<lambda>v.
     andThen (auth_clock e) (\<lambda>t. case v of
       None \<Rightarrow> andThen (modify (pop_session token)) (\<lambda>_. ret False)
     | Some x \<Rightarrow>
         if \<not> live t x then andThen (modify (pop_session token)) (\<lambda>_. ret False)
         else andThen (if touch then modify (\<lambda>s. s\<lparr>au_sessions := put_session (the token) (x\<lparr>se_last_seen := t\<rparr>)
                  (au_sessions s)\<rparr>) else ret ()) (\<lambda>_. ret True)))"

definition logout :: "string option \<Rightarrow> unit auth_prog" where
  "logout token = modify (pop_session token)"

subsection \<open>Signing in\<close>

definition window_ms :: int where
  "window_ms = 60000"

definition recent_attempts :: "int \<Rightarrow> (string \<times> int list) list \<Rightarrow> (string \<times> int list) list" where
  "recent_attempts t as = filter (\<lambda>(k, v). v \<noteq> [] \<and> t - last v < window_ms) as"

definition attempts_of :: "(string \<times> int list) list \<Rightarrow> string \<Rightarrow> int list" where
  "attempts_of as k = (case map_of as k of None \<Rightarrow> [] | Some v \<Rightarrow> v)"

fun put_attempts :: "string \<Rightarrow> int list \<Rightarrow> (string \<times> int list) list \<Rightarrow> (string \<times> int list) list" where
  "put_attempts k v [] = [(k, v)]"
| "put_attempts k v ((j, w) # as) = (if j = k then (k, v) # as else (j, w) # put_attempts k v as)"

definition too_many :: failure where
  "too_many = Http 429 ''Too many login attempts. Try again in a minute.''"

text \<open>The window of attempts: the queues are purged, then a full one refuses.\<close>

definition purge_attempts :: "string \<Rightarrow> int \<Rightarrow> auth \<Rightarrow> auth" where
  "purge_attempts client t s =
     (let as = recent_attempts t (au_attempts s)
      in s\<lparr>au_attempts := put_attempts client (fresh_part window_ms t (attempts_of as client)) as,
           au_global := fresh_part window_ms t (au_global s)\<rparr>)"

definition note_attempt :: "string \<Rightarrow> int \<Rightarrow> auth \<Rightarrow> auth" where
  "note_attempt client t s =
     s\<lparr>au_attempts := put_attempts client (attempts_of (au_attempts s) client @ [t]) (au_attempts s),
       au_global := au_global s @ [t]\<rparr>"

definition admit_attempt :: "auth_env \<Rightarrow> string \<Rightarrow> int auth_prog" where
  "admit_attempt e client = andThen (auth_clock e) (\<lambda>t.
     andThen (modify (purge_attempts client t)) (\<lambda>_.
     andThen (get_state (\<lambda>s. 5 \<le> length (attempts_of (au_attempts s) client) \<or> 30 \<le> length (au_global s))) (\<lambda>full.
     andThen (require (\<not> full) too_many) (\<lambda>_.
     andThen (modify (note_attempt client t)) (\<lambda>_. ret t)))))"

text \<open>The comparison of a password in a login; the check is recorded with its client and time.\<close>

definition check_password :: "auth_env \<Rightarrow> string \<Rightarrow> int \<Rightarrow> string \<Rightarrow> credentials \<Rightarrow> bool auth_prog" where
  "check_password e client t password v =
     andThen (modify (\<lambda>s. s\<lparr>au_checked := au_checked s @ [(client, t)]\<rparr>)) (\<lambda>_.
       ret (ae_scrypt e password (cr_salt v) = cr_hash v))"

definition login :: "auth_env \<Rightarrow> string \<Rightarrow> string \<Rightarrow> string \<Rightarrow> string auth_prog" where
  "login e username password client =
     andThen (admit_attempt e client) (\<lambda>t.
     andThen (load e) (\<lambda>v.
     andThen (check_password e client t password v) (\<lambda>matches.
     andThen (require (username = ''admin'' \<and> matches) (Http 401 ''Invalid username or password'')) (\<lambda>_.
     andThen (get_state au_file) (\<lambda>f.
     andThen (if f = No_file then save e v else ret ()) (\<lambda>_.
       new_session e))))))"

definition change_password :: "auth_env \<Rightarrow> string option \<Rightarrow> string \<Rightarrow> string \<Rightarrow> string auth_prog" where
  "change_password e token current new =
     andThen (session e token True) (\<lambda>ok.
     andThen (require ok (Http 401 ''Sign in required'')) (\<lambda>_.
     andThen (load e) (\<lambda>v.
     andThen (require (ae_scrypt e current (cr_salt v) = cr_hash v) (Http 400 ''Current password is incorrect'')) (\<lambda>_.
     andThen (require (\<not> (length new < 12 \<or> new = ''ChangeMe'' \<or> new = current))
                (Http 400 ''Choose a different password with at least 12 characters'')) (\<lambda>_.
     andThen (secret (ae_salt e)) (\<lambda>salt.
     andThen (save e \<lparr>cr_salt = salt, cr_hash = ae_scrypt e new salt, cr_must_change = False\<rparr>) (\<lambda>_.
     andThen (modify (au_sessions_update (\<lambda>_. []))) (\<lambda>_.
       new_session e))))))))"

section \<open>The routes\<close>

definition fits :: "nat \<Rightarrow> nat \<Rightarrow> string \<Rightarrow> bool" where
  "fits least most s \<longleftrightarrow> least \<le> length s \<and> length s \<le> most"

definition invalid_body :: failure where
  "invalid_body = Http 422 ''Unprocessable Entity''"

text \<open>The answer of a route: the session cookie it sets (\<open>Some None\<close> deletes it) and its body.\<close>

record answer =
  an_cookie :: "string option option"
  an_body :: json

definition signed_in_body :: json where
  "signed_in_body = JObj [(''authenticated'', JBool True), (''username'', JStr ''admin''),
     (''must_change_password'', JBool False)]"

definition login_route :: "auth_env \<Rightarrow> string \<Rightarrow> string \<Rightarrow> string option \<Rightarrow> string option \<Rightarrow> answer auth_prog" where
  "login_route e username password cookie client =
     andThen (require (fits 0 80 username \<and> fits 0 256 password) invalid_body) (\<lambda>_.
     andThen (login e username password (case client of None \<Rightarrow> ''unknown'' | Some c \<Rightarrow> c)) (\<lambda>token.
     andThen (logout cookie) (\<lambda>_.
       ret \<lparr>an_cookie = Some (Some token), an_body = signed_in_body\<rparr>)))"

definition session_route :: "auth_env \<Rightarrow> string option \<Rightarrow> answer auth_prog" where
  "session_route e cookie = andThen (session e cookie True) (\<lambda>ok.
     ret \<lparr>an_cookie = None,
       an_body = (if ok then signed_in_body else JObj [(''authenticated'', JBool False)])\<rparr>)"

definition password_route :: "auth_env \<Rightarrow> string \<Rightarrow> string \<Rightarrow> string option \<Rightarrow> answer auth_prog" where
  "password_route e current new cookie =
     andThen (require (fits 0 256 current \<and> fits 12 256 new) invalid_body) (\<lambda>_.
     andThen (change_password e cookie current new) (\<lambda>token.
       ret \<lparr>an_cookie = Some (Some token), an_body = signed_in_body\<rparr>))"

definition logout_route :: "string option \<Rightarrow> answer auth_prog" where
  "logout_route cookie = andThen (logout cookie) (\<lambda>_.
     ret \<lparr>an_cookie = Some None, an_body = JObj [(''authenticated'', JBool False)]\<rparr>)"

text \<open>\<open>require_admin\<close>: the session's user is always the administrator.\<close>

definition require_admin :: "auth_env \<Rightarrow> string option \<Rightarrow> unit auth_prog" where
  "require_admin e cookie = andThen (session e cookie True) (\<lambda>ok. require ok (Http 401 ''Sign in required''))"

section \<open>The local display's identity\<close>

record scope =
  sc_type :: string
  sc_path :: string
  sc_method :: "string option"
  sc_scheme :: string
  sc_headers :: "(string \<times> string) list"
  sc_client :: "string option"
  sc_cookie :: "string option"

definition header :: "scope \<Rightarrow> string \<Rightarrow> string option" where
  "header r k = map_of (sc_headers r) k"

definition read_paths :: "string list" where
  "read_paths = [''/api/v1/system/info'', ''/api/v1/system/network'', ''/api/v1/system/registration'',
     ''/api/v1/connections'', ''/api/v1/storage'', ''/api/v1/recovery'', ''/api/v1/tasks'', ''/api/v1/services'',
     ''/api/v1/logs'', ''/api/v1/remote-assist'']"

definition action_paths :: "string list" where
  "action_paths = map (\<lambda>a. ''/api/v1/remote-assist/'' @ a) [''enable'', ''disable'', ''boot-on'', ''boot-off'']"

definition named :: "string option \<Rightarrow> bool" where
  "named x \<longleftrightarrow> x \<noteq> None \<and> x \<noteq> Some []"

text \<open>\<open>stored\<close> is the text of the token file, \<open>None\<close> when it cannot be read.\<close>

definition lcd_authenticated :: "string option \<Rightarrow> scope \<Rightarrow> bool" where
  "lcd_authenticated stored r =
     (sc_type r = ''http'' \<and> sc_client r \<in> {Some ''127.0.0.1'', Some ''::1''} \<and>
      \<not> named (header r ''x-forwarded-for'') \<and> \<not> named (header r ''x-real-ip'') \<and>
      (sc_method r = Some ''GET'' \<and> sc_path r \<in> set read_paths \<or>
       sc_method r = Some ''POST'' \<and> sc_path r \<in> set action_paths) \<and>
      (let supplied = (case header r ''x-kdx-lcd-token'' of None \<Rightarrow> [] | Some t \<Rightarrow> t)
       in length supplied = 64 \<and> list_all is_lower_hex supplied \<and>
          (case stored of None \<Rightarrow> False
           | Some f \<Rightarrow> let expected = strip is_blank f in length expected = 64 \<and> supplied = expected)))"

section \<open>The middleware\<close>

definition public_paths :: "string list" where
  "public_paths = [''/api/v1/health'', ''/api/v1/auth/login'', ''/api/v1/auth/session'']"

text \<open>What the middleware does with a connection.\<close>

datatype gate =
    Untouched
  | Local
  | Refused nat string
  | Closed nat
  | Served
  | Guarded

definition same_origin :: "scope \<Rightarrow> bool" where
  "same_origin r \<longleftrightarrow>
     (let origin = header r ''origin''; socket = (sc_type r = ''websocket'');
          expected = ''https://'' @ (case header r ''host'' of None \<Rightarrow> [] | Some h \<Rightarrow> h)
      in \<not> (named origin \<and> origin \<noteq> Some expected) \<and> \<not> (socket \<and> \<not> named origin) \<and>
         \<not> (\<not> socket \<and> header r ''x-infrabox-request'' \<noteq> Some ''1''))"

definition mutation :: "scope \<Rightarrow> bool" where
  "mutation r \<longleftrightarrow> sc_method r \<notin> {Some ''GET'', Some ''HEAD'', Some ''OPTIONS''}"

text \<open>The error of a request; a later test overrides an earlier one.\<close>

definition gate_error :: "scope \<Rightarrow> bool \<Rightarrow> (string \<times> nat) option" where
  "gate_error r signed_in =
     (let e1 = (if sc_path r \<noteq> ''/api/v1/health'' \<and> sc_scheme r \<notin> {''https'', ''wss''}
                then Some (''HTTPS is required'', 403) else None);
          e2 = (if (sc_type r = ''websocket'' \<or> mutation r) \<and> \<not> same_origin r
                then Some (''Same-origin request required'', 403) else e1)
      in if sc_path r \<notin> set public_paths \<and> \<not> signed_in then Some (''Sign in required'', 401) else e2)"

definition pass_gate :: "auth_env \<Rightarrow> string option \<Rightarrow> scope \<Rightarrow> gate auth_prog" where
  "pass_gate e stored r =
     (if sc_type r \<notin> {''http'', ''websocket''} then ret Untouched
      else if lcd_authenticated stored r then ret Local
      else andThen (session e (sc_cookie r) True) (\<lambda>ok. ret (case gate_error r ok of
          Some (detail, status) \<Rightarrow>
            if sc_type r = ''websocket'' then Closed (if status = 401 then 4401 else 4403) else Refused status detail
        | None \<Rightarrow> if sc_type r = ''websocket'' then Guarded else Served)))"

section \<open>An open socket\<close>

text \<open>
  The guard of a socket: whether it sent its close, and what it sent to the browser. The application
  gets a message or ends with \<open>WebSocketDisconnect\<close>.
\<close>

datatype message = Accept | Send string | Close nat | Receive string | Disconnect nat

record socket =
  so_auth :: auth
  so_closed :: bool
  so_out :: "message list"

type_synonym 'a socket_prog = "(socket, 'a) handler"

definition on_store :: "'a auth_prog \<Rightarrow> 'a socket_prog" where
  "on_store m = (\<lambda>s. case m (so_auth s) of (r, a) \<Rightarrow> (r, s\<lparr>so_auth := a\<rparr>))"

definition revoke :: "unit socket_prog" where
  "revoke = modify (\<lambda>s. if so_closed s then s else s\<lparr>so_closed := True, so_out := so_out s @ [Close 4401]\<rparr>)"

definition send_message :: "message \<Rightarrow> unit socket_prog" where
  "send_message m = modify (\<lambda>s. s\<lparr>so_out := so_out s @ [m]\<rparr>)"

definition gone :: failure where
  "gone = Crash ''WebSocketDisconnect''"

definition is_close :: "message \<Rightarrow> bool" where
  "is_close m = (case m of Close _ \<Rightarrow> True | _ \<Rightarrow> False)"

definition is_output :: "message \<Rightarrow> bool" where
  "is_output m = (case m of Accept \<Rightarrow> True | Send _ \<Rightarrow> True | _ \<Rightarrow> False)"

definition guarded_send :: "auth_env \<Rightarrow> string option \<Rightarrow> message \<Rightarrow> unit socket_prog" where
  "guarded_send e token m = andThen (get_state so_closed) (\<lambda>closed.
     if closed then (if is_close m then ret () else raise gone)
     else andThen (if is_output m
              then andThen (on_store (session e token False)) (\<lambda>ok.
                     if ok then ret () else andThen revoke (\<lambda>_. raise gone))
              else ret ()) (\<lambda>_.
          andThen (if is_close m then modify (so_closed_update (\<lambda>_. True)) else ret ()) (\<lambda>_.
            send_message m)))"

text \<open>What the browser's side does next: nothing for five seconds, or a message. \<open>None\<close> waits for more.\<close>

fun guarded_receive :: "auth_env \<Rightarrow> string option \<Rightarrow> message option list \<Rightarrow> message option socket_prog" where
  "guarded_receive e token [] = andThen (on_store (session e token False)) (\<lambda>ok.
     if ok then ret None else andThen revoke (\<lambda>_. ret (Some (Disconnect 4401))))"
| "guarded_receive e token (x # xs) = andThen (on_store (session e token False)) (\<lambda>ok.
     if \<not> ok then andThen revoke (\<lambda>_. ret (Some (Disconnect 4401)))
     else case x of None \<Rightarrow> guarded_receive e token xs
        | Some (Receive t) \<Rightarrow> andThen (on_store (session e token True)) (\<lambda>ok.
            if ok then ret (Some (Receive t)) else andThen revoke (\<lambda>_. ret (Some (Disconnect 4401))))
        | Some m \<Rightarrow> ret (Some m))"

end
