(* ===== verification/Auth_Safety.thy ===== *)
theory Auth_Safety
  imports Auth
begin

text \<open>
  What the sign-in guarantees: the number of passwords tried in a minute, who has a session and for how
  long, what passes the middleware, and that a socket ends with the session.
\<close>

section \<open>Steps\<close>

lemma wp_auth_clock [wp_simps]:
  "wp (auth_clock e) Q R s = Q (ae_time e (au_reads s)) (s\<lparr>au_reads := Suc (au_reads s)\<rparr>)"
  by (simp add: wp_def auth_clock_def)

lemma wp_secret [wp_simps]:
  "wp (secret f) Q R s = Q (f (au_secrets s)) (s\<lparr>au_secrets := Suc (au_secrets s)\<rparr>)"
  by (simp add: wp_def secret_def)

section \<open>Attempts\<close>

interpretation per_client: sliding_window window_ms 5
  by standard (simp add: window_ms_def)

interpretation overall: sliding_window window_ms 30
  by standard (simp add: window_ms_def)

definition client_times :: "(string \<times> int) list \<Rightarrow> string \<Rightarrow> int list" where
  "client_times log k = map snd (filter (\<lambda>x. fst x = k) log)"

lemma client_times_snoc: "client_times (log @ [(k, t)]) j = client_times log j @ (if j = k then [t] else [])"
  by (simp add: client_times_def)

text \<open>The queues at \<open>tick\<close> are the ends of a log of attempts that obeys both limits.\<close>

definition queues :: "auth \<Rightarrow> (string \<times> int) list \<Rightarrow> int \<Rightarrow> bool" where
  "queues s log tick \<longleftrightarrow> distinct (map fst (au_attempts s)) \<and>
     (\<forall>k. covers window_ms (attempts_of (au_attempts s) k) (client_times log k) tick \<and> per_client.bounded (client_times log k)) \<and>
     covers window_ms (au_global s) (map snd log) tick \<and> overall.bounded (map snd log)"

definition attempts_ok :: "auth_env \<Rightarrow> auth \<Rightarrow> bool" where
  "attempts_ok e s \<longleftrightarrow> (\<exists>log tick. queues s log tick \<and> tick \<le> ae_time e (au_reads s) \<and> subseq (au_checked s) log)"

definition admitted :: "auth_env \<Rightarrow> string \<Rightarrow> int \<Rightarrow> auth \<Rightarrow> bool" where
  "admitted e client t s \<longleftrightarrow> (\<exists>log tick. queues s (log @ [(client, t)]) tick \<and> tick \<le> ae_time e (au_reads s) \<and>
     subseq (au_checked s) log)"

lemma attempts_of_put: "attempts_of (put_attempts k v as) j = (if j = k then v else attempts_of as j)"
  by (induction k v as rule: put_attempts.induct) (auto simp: attempts_of_def)

lemma attempts_recent:
  assumes "distinct (map fst as)"
  shows "attempts_of (recent_attempts t as) k = attempts_of as k \<or>
    (attempts_of (recent_attempts t as) k = [] \<and> (attempts_of as k = [] \<or> window_ms \<le> t - last (attempts_of as k)))"
  using assms
proof (induction as)
  case (Cons x as)
  obtain j v where x: "x = (j, v)" by (cases x)
  have "j \<notin> fst ` set as" using Cons.prems x by simp
  then have "map_of (filter (\<lambda>(k, v). v \<noteq> [] \<and> t - last v < window_ms) as) j = None"
    by (auto simp: map_of_eq_None_iff)
  then show ?case
    using Cons x by (auto simp: attempts_of_def recent_attempts_def)
qed (simp add: attempts_of_def recent_attempts_def)

lemma put_attempts_distinct: "distinct (map fst as) \<Longrightarrow> distinct (map fst (put_attempts k v as))"
proof -
  have "fst ` set (put_attempts k v as) = insert k (fst ` set as)" for k v as
    by (induction k v as rule: put_attempts.induct) auto
  then show "distinct (map fst as) \<Longrightarrow> distinct (map fst (put_attempts k v as))"
    by (induction k v as rule: put_attempts.induct) auto
qed

lemma recent_distinct: "distinct (map fst as) \<Longrightarrow> distinct (map fst (recent_attempts t as))"
  unfolding recent_attempts_def by (rule distinct_map_filter)

lemma queues_later: "queues s log tick \<Longrightarrow> tick \<le> t \<Longrightarrow> queues s log t"
  unfolding queues_def using per_client.covers_later by blast

lemma queues_purged:
  assumes q: "queues s log t"
  shows "queues (purge_attempts client t s) log t"
proof -
  let ?as = "recent_attempts t (au_attempts s)"
  have d: "distinct (map fst (au_attempts s))" using q by (simp add: queues_def)
  have c: "covers window_ms (attempts_of ?as k) (client_times log k) t" for k
    using q attempts_recent [OF d, of t k] per_client.covers_none [of "attempts_of (au_attempts s) k" "client_times log k" t]
    by (auto simp: queues_def)
  show ?thesis
    using q c per_client.covers_fresh [OF c [of client]] overall.covers_fresh
    by (auto simp: queues_def purge_attempts_def Let_def attempts_of_put put_attempts_distinct recent_distinct)
qed

lemma queues_noted:
  assumes "queues s log t" and "length (attempts_of (au_attempts s) client) < 5" "length (au_global s) < 30"
  shows "queues (note_attempt client t s) (log @ [(client, t)]) t"
  using assms per_client.covers_add overall.covers_add put_attempts_distinct
    per_client.bounded_add [of "attempts_of (au_attempts s) client" "client_times log client" t]
    overall.bounded_add [of "au_global s" "map snd log" t]
  by (simp add: queues_def note_attempt_def attempts_of_put client_times_snoc)

text \<open>The parts of the store that the attempts do not depend on.\<close>

lemma attempts_ok_update [simp]:
  "attempts_ok e (s\<lparr>au_sessions := x\<rparr>) = attempts_ok e s" "attempts_ok e (s\<lparr>au_secrets := n\<rparr>) = attempts_ok e s"
  "attempts_ok e (s\<lparr>au_credentials := c\<rparr>) = attempts_ok e s" "attempts_ok e (s\<lparr>au_file := f\<rparr>) = attempts_ok e s"
  "admitted e k t (s\<lparr>au_sessions := x\<rparr>) = admitted e k t s" "admitted e k t (s\<lparr>au_secrets := n\<rparr>) = admitted e k t s"
  "admitted e k t (s\<lparr>au_credentials := c\<rparr>) = admitted e k t s" "admitted e k t (s\<lparr>au_file := f\<rparr>) = admitted e k t s"
  by (simp_all add: attempts_ok_def admitted_def queues_def)

lemma attempts_ok_read:
  assumes "mono (ae_time e)" and "attempts_ok e s"
  shows "attempts_ok e (s\<lparr>au_reads := Suc (au_reads s)\<rparr>)"
proof -
  have "ae_time e (au_reads s) \<le> ae_time e (Suc (au_reads s))" using assms(1) by (simp add: monoD)
  with assms(2) show ?thesis unfolding attempts_ok_def by (fastforce simp: queues_def)
qed

lemma admitted_read:
  assumes "mono (ae_time e)" and "admitted e k t s"
  shows "admitted e k t (s\<lparr>au_reads := Suc (au_reads s)\<rparr>)"
proof -
  have "ae_time e (au_reads s) \<le> ae_time e (Suc (au_reads s))" using assms(1) by (simp add: monoD)
  with assms(2) show ?thesis unfolding admitted_def by (fastforce simp: queues_def)
qed

lemma subseq_appended: "subseq xs ys \<Longrightarrow> subseq xs (ys @ zs)"
  by (induction ys arbitrary: xs) (auto elim: list_emb.cases)

lemma admitted_ok: "admitted e k t s \<Longrightarrow> attempts_ok e s"
  unfolding admitted_def attempts_ok_def
  by (elim exE conjE) (rule exI, rule exI, intro conjI, assumption, assumption, erule subseq_appended)

lemma admit_admitted:
  assumes "mono (ae_time e)" and "attempts_ok e s"
  shows "wp (admit_attempt e k) (\<lambda>t u. admitted e k t u) (\<lambda>_. attempts_ok e) s"
proof -
  let ?t = "ae_time e (au_reads s)" and ?s = "s\<lparr>au_reads := Suc (au_reads s)\<rparr>"
  have le: "?t \<le> ae_time e (Suc (au_reads s))" using assms(1) by (simp add: monoD)
  obtain log tick where log: "queues s log tick" "tick \<le> ?t" "subseq (au_checked s) log"
    using assms(2) by (auto simp: attempts_ok_def)
  then have "queues ?s log ?t" using queues_later [of s log tick ?t] by (simp add: queues_def)
  then have q: "queues (purge_attempts k ?t ?s) log ?t" by (rule queues_purged)
  have same: "au_reads (purge_attempts k ?t ?s) = Suc (au_reads s)" "au_checked (purge_attempts k ?t ?s) = au_checked s"
    "au_reads (note_attempt k ?t x) = au_reads x" "au_checked (note_attempt k ?t x) = au_checked x" for x
    by (simp_all add: purge_attempts_def note_attempt_def Let_def)
  have refused: "attempts_ok e (purge_attempts k ?t ?s)"
    unfolding attempts_ok_def using q le log(3) by (metis same(1,2))
  have "admitted e k ?t (note_attempt k ?t (purge_attempts k ?t ?s))"
    if "\<not> 5 \<le> length (attempts_of (au_attempts (purge_attempts k ?t ?s)) k)"
      "\<not> 30 \<le> length (au_global (purge_attempts k ?t ?s))"
    unfolding admitted_def using queues_noted [OF q, of k] that le log(3)
    by (metis not_le same)
  with refused show ?thesis by (simp add: admit_attempt_def wp_simps)
qed

text \<open>What leaves the attempts alone keeps both conditions.\<close>

definition calm :: "auth_env \<Rightarrow> (auth \<Rightarrow> bool) \<Rightarrow> bool" where
  "calm e I \<longleftrightarrow> (\<forall>s x n c f. I s \<longrightarrow> I (s\<lparr>au_sessions := x\<rparr>) \<and> I (s\<lparr>au_secrets := n\<rparr>) \<and>
     I (s\<lparr>au_credentials := c\<rparr>) \<and> I (s\<lparr>au_file := f\<rparr>) \<and> I (s\<lparr>au_reads := Suc (au_reads s)\<rparr>))"

lemma calm_attempts: "mono (ae_time e) \<Longrightarrow> calm e (attempts_ok e)"
  by (simp add: calm_def attempts_ok_read)

lemma calm_admitted: "mono (ae_time e) \<Longrightarrow> calm e (admitted e k t)"
  by (simp add: calm_def admitted_read)

lemma calm_modify:
  assumes "calm e I"
  shows "safe I (modify (\<lambda>s. s\<lparr>au_sessions := f s\<rparr>))" "safe I (modify (au_sessions_update g))"
    "safe I (modify (au_credentials_update h))" "safe I (modify (\<lambda>s. s\<lparr>au_file := c\<rparr>))"
    "safe I (modify (\<lambda>s. s\<lparr>au_file := c, au_credentials := d\<rparr>))" "safe I (modify (pop_session token))"
    "safe I (auth_clock e)" "safe I (secret n)"
proof -
  have u: "I s \<Longrightarrow> I (s\<lparr>au_sessions := x\<rparr>)" "I s \<Longrightarrow> I (s\<lparr>au_secrets := m\<rparr>)" "I s \<Longrightarrow> I (s\<lparr>au_credentials := d\<rparr>)"
    "I s \<Longrightarrow> I (s\<lparr>au_file := c\<rparr>)" "I s \<Longrightarrow> I (s\<lparr>au_reads := Suc (au_reads s)\<rparr>)" for s x m d c
    using assms by (auto simp: calm_def)
  have v: "au_sessions_update g s = s\<lparr>au_sessions := g (au_sessions s)\<rparr>"
    "au_credentials_update h s = s\<lparr>au_credentials := h (au_credentials s)\<rparr>" for s
    by simp_all
  show "safe I (modify (\<lambda>s. s\<lparr>au_sessions := f s\<rparr>))" "safe I (modify (au_sessions_update g))"
    "safe I (modify (au_credentials_update h))" "safe I (modify (\<lambda>s. s\<lparr>au_file := c\<rparr>))"
    "safe I (modify (\<lambda>s. s\<lparr>au_file := c, au_credentials := d\<rparr>))" "safe I (modify (pop_session token))"
    "safe I (auth_clock e)" "safe I (secret n)"
    unfolding v by (simp_all add: safe_def wp_def modify_def auth_clock_def secret_def pop_session_def u u(3) [OF u(4)])
qed

text \<open>The operations other than an attempt.\<close>

lemma calm_operations:
  assumes "calm e I"
  shows "safe I (load e)" "safe I (save e v)" "safe I (new_session e)" "safe I (session e token touch)"
    "safe I (logout token)"
  unfolding load_def load_file_def save_def new_session_def session_def logout_def
  by (auto intro!: safe_rules calm_modify [OF assms] split: cred_file.split write_end.split option.split)

lemma change_password_ok: "mono (ae_time e) \<Longrightarrow> safe (attempts_ok e) (change_password e token current new)"
  unfolding change_password_def
  by (intro safe_rules calm_modify [OF calm_attempts] calm_operations [OF calm_attempts])

lemma check_password_ok:
  assumes "admitted e k t s"
  shows "wp (check_password e k t password v) (\<lambda>_. attempts_ok e) (\<lambda>_. attempts_ok e) s"
proof -
  have "attempts_ok e (s\<lparr>au_checked := au_checked s @ [(k, t)]\<rparr>)"
    using assms unfolding admitted_def attempts_ok_def
    by (elim exE conjE, rule_tac x = "log @ [(k, t)]" in exI, rule_tac x = tick in exI)
      (simp add: queues_def list_emb_append_mono)
  then show ?thesis by (simp add: check_password_def wp_simps)
qed

lemma login_ok:
  assumes "mono (ae_time e)"
  shows "safe (attempts_ok e) (login e username password client)"
  unfolding safe_def login_def
proof (intro allI impI)
  fix s assume "attempts_ok e s"
  note calm = calm_operations [OF calm_attempts [OF assms]]
  have rest: "wp (andThen (check_password e client t password v) f) (\<lambda>_. attempts_ok e) (\<lambda>_. attempts_ok e) u"
    if "admitted e client t u" and "\<And>b. safe (attempts_ok e) (f b)" for t v f u
    using check_password_ok [OF that(1)] by (rule wp_then) (use that(2) in \<open>simp_all add: safe_def\<close>)
  show "wp (andThen (admit_attempt e client) (\<lambda>t. andThen (load e) (\<lambda>v.
     andThen (check_password e client t password v) (\<lambda>matches.
     andThen (require (username = ''admin'' \<and> matches) (Http 401 ''Invalid username or password'')) (\<lambda>_.
     andThen (get_state au_file) (\<lambda>f.
     andThen (if f = No_file then save e v else ret ()) (\<lambda>_. new_session e))))))) (\<lambda>_. attempts_ok e) (\<lambda>_. attempts_ok e) s"
    using admit_admitted [OF assms \<open>attempts_ok e s\<close>]
  proof (rule wp_then)
    fix t u assume "admitted e client t u"
    with calm_operations(1) [OF calm_admitted [OF assms]]
    have "wp (load e) (\<lambda>_. admitted e client t) (\<lambda>_. admitted e client t) u" by (simp add: safe_def)
    then show "wp (andThen (load e) (\<lambda>v.
       andThen (check_password e client t password v) (\<lambda>matches.
       andThen (require (username = ''admin'' \<and> matches) (Http 401 ''Invalid username or password'')) (\<lambda>_.
       andThen (get_state au_file) (\<lambda>f.
       andThen (if f = No_file then save e v else ret ()) (\<lambda>_. new_session e)))))) (\<lambda>_. attempts_ok e) (\<lambda>_. attempts_ok e) u"
      by (rule wp_then) (auto intro!: rest safe_rules calm intro: admitted_ok safe_get_state)
  qed simp
qed

end
