(* ===== verification/Auth_Guarantees.thy ===== *)
theory Auth_Guarantees
  imports Auth_Safety
begin

text \<open>
  What the sign-in guarantees over any sequence of requests: the rate of the password checks, the
  sessions it accepts, a changed password, the gate in front of the routes, and the open sockets.
\<close>

section \<open>Sequences of requests\<close>

text \<open>The requests that reach the store. The file can change in between: a reset, a restored backup.\<close>

datatype auth_op =
    Sign_in string string "string option" "string option"
  | See_session "string option"
  | New_password string string "string option"
  | Sign_out "string option"
  | Pass "string option" scope
  | Glance "string option"

definition silent :: "'a auth_prog \<Rightarrow> string option option auth_prog" where
  "silent m = andThen m (\<lambda>_. ret None)"

definition answered :: "answer auth_prog \<Rightarrow> string option option auth_prog" where
  "answered m = andThen m (\<lambda>a. ret (an_cookie a))"

fun serve_op :: "auth_env \<Rightarrow> auth_op \<Rightarrow> string option option auth_prog" where
  "serve_op e (Sign_in u p cookie client) = answered (login_route e u p cookie client)"
| "serve_op e (See_session cookie) = answered (session_route e cookie)"
| "serve_op e (New_password p q cookie) = answered (password_route e p q cookie)"
| "serve_op e (Sign_out cookie) = answered (logout_route cookie)"
| "serve_op e (Pass stored r) = silent (pass_gate e stored r)"
| "serve_op e (Glance cookie) = silent (session e cookie False)"

text \<open>The tokens the answers carried, with the time of the last reading of the clock.\<close>

definition issue :: "auth_env \<Rightarrow> (string \<times> int) list \<Rightarrow> (failure + string option option) \<times> auth \<Rightarrow> (string \<times> int) list" where
  "issue e log x = (case x of (Inr (Some (Some k)), s) \<Rightarrow> log @ [(k, ae_time e (au_reads s - 1))] | _ \<Rightarrow> log)"

inductive auth_reach :: "auth_env \<Rightarrow> cred_file \<Rightarrow> (string \<times> int) list \<Rightarrow> auth \<Rightarrow> bool" for e f where
  reach_start: "auth_reach e f [] (auth_start f)"
| reach_op: "auth_reach e f log s \<Longrightarrow> auth_reach e f (issue e log (serve_op e x s)) (snd (serve_op e x s))"
| reach_file: "auth_reach e f log s \<Longrightarrow> auth_reach e f log (s\<lparr>au_file := c\<rparr>)"

lemma safe_silent: "safe I m \<Longrightarrow> safe I (silent m)" "safe I n \<Longrightarrow> safe I (answered n)"
  by (simp_all add: silent_def answered_def safe_rules)

lemma safe_snd: "safe I m \<Longrightarrow> I s \<Longrightarrow> I (snd (m s))" for m :: "('s, 'e, 'a) prog"
  by (cases "m s"; cases "fst (m s)") (auto simp: safe_def wp_def)

lemma calm_pass: "calm e I \<Longrightarrow> safe I (pass_gate e stored r)"
  unfolding pass_gate_def by (intro safe_rules calm_operations)

lemma serve_op_ok:
  assumes "mono (ae_time e)"
  shows "safe (attempts_ok e) (serve_op e x)"
proof (cases x)
  case Sign_in
  then show ?thesis
    by (auto simp: login_route_def intro!: safe_silent safe_rules login_ok assms calm_operations [OF calm_attempts])
next
  case New_password
  then show ?thesis by (auto simp: password_route_def intro!: safe_silent safe_rules change_password_ok assms)
qed (auto simp: session_route_def logout_route_def
  intro!: safe_silent safe_rules calm_pass calm_operations [OF calm_attempts] calm_attempts assms)

lemma attempts_ok_start: "attempts_ok e (auth_start f)"
proof -
  have "queues (auth_start f) [] (ae_time e 0)"
    by (simp add: queues_def auth_start_def attempts_of_def client_times_def covers_def
        per_client.bounded_Nil overall.bounded_Nil)
  then show ?thesis unfolding attempts_ok_def by (force simp: auth_start_def)
qed

lemma reach_attempts: "auth_reach e f log s \<Longrightarrow> mono (ae_time e) \<Longrightarrow> attempts_ok e s"
proof (induction rule: auth_reach.induct)
  case (reach_op log s x)
  then show ?case by (simp add: safe_snd [OF serve_op_ok])
qed (simp_all add: attempts_ok_start)

text \<open>
  C15: However the requests come, the sign-in checks at most five passwords of a client and at most
  thirty passwords of all clients in any minute. The check of the current password when a session changes
  it is neither limited nor counted.
\<close>

theorem sign_in_rate:
  assumes "auth_reach e f log s" and "mono (ae_time e)"
  shows "length (in_window 60000 t (client_times (au_checked s) client)) \<le> 5 \<and>
    length (in_window 60000 t (map snd (au_checked s))) \<le> 30"
proof -
  obtain full tick where q: "queues s full tick" "subseq (au_checked s) full"
    using reach_attempts [OF assms] by (auto simp: attempts_ok_def)
  then have "per_client.bounded (client_times full client)" "overall.bounded (map snd full)"
    by (simp_all add: queues_def)
  moreover have "subseq (client_times (au_checked s) client) (client_times full client)"
    unfolding client_times_def by (intro subseq_map subseq_filter q)
  moreover have "subseq (map snd (au_checked s)) (map snd full)" by (intro subseq_map q)
  ultimately show ?thesis
    using per_client.bounded_subseq overall.bounded_subseq by (simp add: window_ms_def)
qed

section \<open>Sessions\<close>

text \<open>Every session is one that an answer handed out, with the hour it was issued in.\<close>

definition issued_at :: "(string \<times> int) list \<Rightarrow> string \<times> session \<Rightarrow> bool" where
  "issued_at log x \<longleftrightarrow> (\<exists>t. (fst x, t) \<in> set log \<and> se_expires (snd x) = t + session_ms)"

definition held :: "(string \<times> int) list \<Rightarrow> (string \<times> session) list \<Rightarrow> bool" where
  "held log ss \<longleftrightarrow> length ss \<le> 32 \<and> (\<forall>x \<in> set ss. issued_at log x)"

abbreviation sessions_ok :: "(string \<times> int) list \<Rightarrow> auth \<Rightarrow> bool" where
  "sessions_ok log s \<equiv> held log (au_sessions s)"

lemma issued_more: "issued_at log x \<Longrightarrow> set log \<subseteq> set log' \<Longrightarrow> issued_at log' x"
  by (auto simp: issued_at_def)

lemma set_put_session: "x \<in> set (put_session k v ss) \<Longrightarrow> x = (k, v) \<or> x \<in> set ss"
  by (induction k v ss rule: put_session.induct) (auto split: if_splits)

lemma length_put_session: "length (put_session k v ss) \<le> Suc (length ss)"
  "k \<in> fst ` set ss \<Longrightarrow> length (put_session k v ss) = length ss"
  by (induction k v ss rule: put_session.induct) auto

lemma oldest_in: "ss \<noteq> [] \<Longrightarrow> \<exists>k \<in> fst ` set ss. oldest ss = Some k"
  by (induction ss rule: oldest.induct) (auto split: list.splits)

lemma length_drop_oldest: "length ss \<le> 32 \<Longrightarrow> length (drop_oldest ss) < 32"
proof (cases "32 \<le> length ss")
  case True
  then obtain k v where "(k, v) \<in> set ss" "oldest ss = Some k" using oldest_in [of ss] by force
  then have "length (filter (\<lambda>x. Some (fst x) \<noteq> oldest ss) ss) < length ss"
    by (intro length_filter_less) auto
  moreover assume "length ss \<le> 32"
  ultimately show ?thesis by (simp add: drop_oldest_def)
qed (simp add: drop_oldest_def)

lemma held_filter: "held log ss \<Longrightarrow> held log (filter P ss)"
  using length_filter_le [of P ss] by (auto simp: held_def simp del: length_filter_le)

lemma held_more: "held log ss \<Longrightarrow> set log \<subseteq> set log' \<Longrightarrow> held log' ss"
  unfolding held_def by (blast intro: issued_more)

lemma held_put:
  assumes "held log ss" and "map_of ss k = Some v"
  shows "held log (put_session k (v\<lparr>se_last_seen := t\<rparr>) ss)"
proof -
  have kv: "(k, v) \<in> set ss" using assms(2) by (rule map_of_SomeD)
  then have "k \<in> fst ` set ss" by force
  then have "length (put_session k (v\<lparr>se_last_seen := t\<rparr>) ss) \<le> 32"
    using assms(1) by (simp add: held_def length_put_session(2))
  moreover have "issued_at log (k, v)" using assms(1) kv unfolding held_def by blast
  then have "issued_at log (k, v\<lparr>se_last_seen := t\<rparr>)" by (simp add: issued_at_def)
  then have "issued_at log x" if "x \<in> set (put_session k (v\<lparr>se_last_seen := t\<rparr>) ss)" for x
    using set_put_session [OF that] assms(1) by (elim disjE) (simp_all add: held_def)
  ultimately show ?thesis by (simp add: held_def)
qed

text \<open>A store with a session that the next answer hands out.\<close>

definition handed :: "auth_env \<Rightarrow> (string \<times> int) list \<Rightarrow> string \<Rightarrow> auth \<Rightarrow> bool" where
  "handed e log k s \<longleftrightarrow> sessions_ok (log @ [(k, ae_time e (au_reads s - 1))]) s"

lemma new_session_ok:
  assumes "sessions_ok log s"
  shows "wp (new_session e) (\<lambda>k. handed e log k) (\<lambda>_. sessions_ok log) s"
proof -
  let ?t = "ae_time e (au_reads s)" and ?ss = "drop_oldest (filter (\<lambda>x. live (ae_time e (au_reads s)) (snd x)) (au_sessions s))"
  let ?k = "ae_token e (au_secrets s)" and ?v = "\<lparr>se_expires = ?t + session_ms, se_last_seen = ?t\<rparr>"
  have short: "length ?ss < 32"
    using held_filter [OF assms] unfolding held_def by (intro length_drop_oldest) blast
  have sub: "set ?ss \<subseteq> set (au_sessions s)" by (auto simp: drop_oldest_def)
  have "length (put_session ?k ?v ?ss) \<le> 32" using short length_put_session(1) [of ?k ?v ?ss] by linarith
  moreover have "issued_at (log @ [(?k, ?t)]) x" if x: "x \<in> set (put_session ?k ?v ?ss)" for x
    using set_put_session [OF x]
  proof
    assume "x \<in> set ?ss"
    then have "issued_at log x" using assms sub unfolding held_def by blast
    then show ?thesis by (rule issued_more) auto
  qed (simp add: issued_at_def)
  ultimately show ?thesis by (simp add: new_session_def wp_simps handed_def held_def)
qed

lemma steps_keep: "safe (sessions_ok log) (auth_clock e)" "safe (sessions_ok log) (secret f)"
  "safe (sessions_ok log) (modify (pop_session token))"
  by (simp_all add: safe_def wp_simps pop_session_def held_filter)

lemma touch_keeps:
  assumes "sessions_ok log s" and "Option.bind token (map_of (au_sessions s)) = Some v"
  shows "held log (put_session (the token) (v\<lparr>se_last_seen := t\<rparr>) (au_sessions s))"
  using assms by (cases token) (simp_all add: held_put)

lemma session_keeps: "safe (sessions_ok log) (session e token touch)"
  unfolding safe_def session_def
proof (intro allI impI)
  fix s assume "sessions_ok log s"
  then show "wp (andThen (get_state (\<lambda>s. Option.bind token (map_of (au_sessions s)))) (\<lambda>v.
     andThen (auth_clock e) (\<lambda>t. case v of
       None \<Rightarrow> andThen (modify (pop_session token)) (\<lambda>_. ret False)
     | Some x \<Rightarrow>
         if \<not> live t x then andThen (modify (pop_session token)) (\<lambda>_. ret False)
         else andThen (if touch then modify (\<lambda>s. s\<lparr>au_sessions := put_session (the token) (x\<lparr>se_last_seen := t\<rparr>)
                  (au_sessions s)\<rparr>) else ret ()) (\<lambda>_. ret True)))) (\<lambda>_. sessions_ok log) (\<lambda>_. sessions_ok log) s"
    using touch_keeps [of log s token]
    by (cases "Option.bind token (map_of (au_sessions s))") (simp_all add: wp_simps pop_session_def held_filter)
qed

lemma logout_keeps: "safe (sessions_ok log) (logout token)" "safe (handed e log k) (logout token)"
  by (simp_all add: logout_def safe_def wp_simps handed_def pop_session_def held_filter)

lemma store_keeps: "safe (sessions_ok log) (load e)" "safe (sessions_ok log) (save e v)"
  "safe (sessions_ok log) (admit_attempt e client)" "safe (sessions_ok log) (check_password e client t p v)"
  unfolding load_def load_file_def save_def admit_attempt_def check_password_def
  by (auto intro!: safe_rules steps_keep safe_modify simp: purge_attempts_def note_attempt_def Let_def
      split: cred_file.split write_end.split)

text \<open>\<open>hands e m\<close>: a program that ends with a token has added its session.\<close>

definition hands :: "auth_env \<Rightarrow> string auth_prog \<Rightarrow> bool" where
  "hands e m \<longleftrightarrow> (\<forall>log s. sessions_ok log s \<longrightarrow> wp m (\<lambda>k. handed e log k) (\<lambda>_. sessions_ok log) s)"

lemma hands_then: "(\<And>log. safe (sessions_ok log) m) \<Longrightarrow> (\<And>a. hands e (f a)) \<Longrightarrow> hands e (andThen m f)"
  unfolding hands_def safe_def by (blast intro: wp_then)

lemma hands_new: "hands e (new_session e)"
  by (simp add: hands_def new_session_ok)

lemma hands_login: "hands e (login e u p client)" "hands e (change_password e token current new)"
  unfolding login_def change_password_def
  by (intro hands_then hands_new store_keeps session_keeps safe_rules steps_keep safe_modify; simp add: held_def)+

lemma hands_logout:
  assumes "hands e m" and "sessions_ok log s"
  shows "wp (andThen m (\<lambda>k. andThen (logout token) (\<lambda>_. ret (f k)))) (\<lambda>a s. \<exists>k. a = f k \<and> handed e log k s)
    (\<lambda>_. sessions_ok log) s"
proof -
  have "wp m (\<lambda>k. handed e log k) (\<lambda>_. sessions_ok log) s" using assms by (simp add: hands_def)
  then show ?thesis
  proof (rule wp_then)
    fix k u assume "handed e log k u"
    then have "wp (logout token) (\<lambda>_. handed e log k) (\<lambda>_. handed e log k) u"
      using logout_keeps(2) by (simp add: safe_def)
    then show "wp (andThen (logout token) (\<lambda>_. ret (f k))) (\<lambda>a s. \<exists>k. a = f k \<and> handed e log k s) (\<lambda>_. sessions_ok log) u"
      by (simp add: logout_def wp_simps) blast
  qed
qed

text \<open>One request keeps the sessions within what the answers handed out, its own answer included.\<close>

definition serves_ok :: "auth_env \<Rightarrow> string option option auth_prog \<Rightarrow> bool" where
  "serves_ok e m \<longleftrightarrow> (\<forall>log s. sessions_ok log s \<longrightarrow>
     wp m (\<lambda>a t. sessions_ok (issue e log (Inr a, t)) t) (\<lambda>_. sessions_ok log) s)"

lemma serves_plain:
  assumes "\<And>log. safe (sessions_ok log) m"
  shows "serves_ok e (andThen m (\<lambda>_. ret None))" "serves_ok e (andThen m (\<lambda>_. ret (Some None)))"
  using assms unfolding serves_ok_def safe_def wp_andThen wp_ret by (auto simp: issue_def)

lemma serves_token:
  assumes "hands e m"
  shows "serves_ok e (andThen m (\<lambda>k. ret (Some (Some k))))"
    "serves_ok e (andThen m (\<lambda>k. andThen (logout token) (\<lambda>_. ret (Some (Some k)))))"
proof -
  show "serves_ok e (andThen m (\<lambda>k. ret (Some (Some k))))"
    using assms unfolding serves_ok_def hands_def wp_andThen wp_ret by (simp add: issue_def handed_def [abs_def])
  show "serves_ok e (andThen m (\<lambda>k. andThen (logout token) (\<lambda>_. ret (Some (Some k)))))"
    unfolding serves_ok_def
  proof (intro allI impI)
    fix log s assume "sessions_ok log s"
    from hands_logout [OF assms this, of token "\<lambda>k. Some (Some k)"]
    show "wp (andThen m (\<lambda>k. andThen (logout token) (\<lambda>_. ret (Some (Some k)))))
      (\<lambda>a t. sessions_ok (issue e log (Inr a, t)) t) (\<lambda>_. sessions_ok log) s"
      by (rule wp_mono) (auto simp: issue_def handed_def)
  qed
qed

lemma serves_require: "serves_ok e m \<Longrightarrow> serves_ok e (andThen (require b x) (\<lambda>_. m))"
  by (simp add: serves_ok_def wp_simps)

lemma pass_keeps: "safe (sessions_ok log) (pass_gate e stored r)"
  unfolding pass_gate_def by (intro safe_rules session_keeps)

lemma serve_op_serves: "serves_ok e (serve_op e x)"
  by (cases x)
    (simp_all add: answered_def silent_def login_route_def session_route_def password_route_def logout_route_def
      serves_require serves_token hands_login serves_plain session_keeps logout_keeps(1) pass_keeps)

lemma serve_op_issues:
  assumes "sessions_ok log s"
  shows "sessions_ok (issue e log (serve_op e x s)) (snd (serve_op e x s))"
proof -
  obtain r t where o: "serve_op e x s = (r, t)" by fastforce
  have "wp (serve_op e x) (\<lambda>a t. sessions_ok (issue e log (Inr a, t)) t) (\<lambda>_. sessions_ok log) s"
    using serve_op_serves assms unfolding serves_ok_def by blast
  with o show ?thesis by (cases r) (auto simp: wp_def issue_def)
qed

lemma reach_sessions: "auth_reach e f log s \<Longrightarrow> sessions_ok log s"
  by (induction rule: auth_reach.induct) (simp_all add: serve_op_issues, simp add: auth_start_def held_def)

lemma session_True:
  assumes "session e token touch s = (Inr True, s')"
  obtains k v where "token = Some k" "map_of (au_sessions s) k = Some v" "live (ae_time e (au_reads s)) v"
proof -
  have "wp (session e token touch) (\<lambda>ok _. ok \<longrightarrow>
    (\<exists>v. Option.bind token (map_of (au_sessions s)) = Some v \<and> live (ae_time e (au_reads s)) v)) (\<lambda>_ _. False) s"
    by (cases "Option.bind token (map_of (au_sessions s))") (simp_all add: session_def wp_simps)
  with assms have "\<exists>v. Option.bind token (map_of (au_sessions s)) = Some v \<and> live (ae_time e (au_reads s)) v"
    by (simp add: wp_def)
  then show ?thesis by (cases token) (auto intro: that)
qed

text \<open>
  C17: A session that the store accepts belongs to a token that an earlier answer handed out less than
  eight hours ago, and that was seen in the last half hour; the store never has more than 32 sessions.
\<close>

theorem session_was_issued:
  assumes "auth_reach e f log s" and "session e token touch s = (Inr True, s')"
  shows "length (au_sessions s) \<le> 32 \<and> (\<exists>k v t. token = Some k \<and> map_of (au_sessions s) k = Some v \<and>
    (k, t) \<in> set log \<and> ae_time e (au_reads s) < t + 28800000 \<and> ae_time e (au_reads s) - se_last_seen v < 1800000)"
proof -
  obtain k v where kv: "token = Some k" "map_of (au_sessions s) k = Some v" "live (ae_time e (au_reads s)) v"
    using assms(2) by (rule session_True)
  have ok: "sessions_ok log s" using assms(1) by (rule reach_sessions)
  then have "issued_at log (k, v)" using map_of_SomeD [OF kv(2)] unfolding held_def by blast
  then show ?thesis using kv ok by (auto simp: held_def issued_at_def live_def session_ms_def idle_ms_def)
qed

section \<open>A new password\<close>

text \<open>
  C18: A changed password leaves one session, the one its answer hands out: every other token is
  refused from then on. The store has the new password under a new salt, in memory and in the file, and
  the new password is at least twelve characters, not the initial one and not the old one.
\<close>

theorem new_password_revokes:
  assumes "change_password e token current new s = (Inr k, s')"
  shows "map fst (au_sessions s') = [k] \<and>
    (\<forall>other touch. other \<noteq> Some k \<longrightarrow> fst (session e other touch s') = Inr False) \<and>
    (\<exists>c n. c = \<lparr>cr_salt = ae_salt e n, cr_hash = ae_scrypt e new (ae_salt e n), cr_must_change = False\<rparr> \<and>
       au_credentials s' = Some c \<and> au_file s' = Content (Some (credentials_json c))) \<and>
    12 \<le> length new \<and> new \<noteq> ''ChangeMe'' \<and> new \<noteq> current"
proof -
  let ?c = "\<lambda>n. \<lparr>cr_salt = ae_salt e n, cr_hash = ae_scrypt e new (ae_salt e n), cr_must_change = False\<rparr>"
  let ?Q = "\<lambda>k s'. map fst (au_sessions s') = [k] \<and> (\<exists>n. au_credentials s' = Some (?c n) \<and>
    au_file s' = Content (Some (credentials_json (?c n)))) \<and> 12 \<le> length new \<and> new \<noteq> ''ChangeMe'' \<and> new \<noteq> current"
  have "wp (change_password e token current new) ?Q (\<lambda>_ _. True) s"
    unfolding change_password_def
    by (rule wp_skip, rule wp_skip, rule wp_skip, rule wp_skip)
      (auto simp: wp_simps save_def new_session_def drop_oldest_def split: write_end.split)
  from wp_Inr [OF this assms] have q: "?Q k s'" .
  have "fst (session e other touch s') = Inr False" if "other \<noteq> Some k" for other touch
  proof -
    have "Option.bind other (map_of (au_sessions s')) = None"
      using q that by (cases other) (auto simp: map_of_eq_None_iff simp flip: set_map)
    then show ?thesis by (simp add: session_def andThen_def get_state_def auth_clock_def modify_def ret_def)
  qed
  with q show ?thesis by blast
qed

section \<open>The gate\<close>

lemma named_Some: "named x \<Longrightarrow> \<exists>c cs. x = Some (c # cs)"
  by (cases x; cases "the x") (auto simp: named_def)

lemma session_never_fails: "\<exists>ok. fst (session e token touch s) = Inr ok"
proof -
  have "wp (session e token touch) (\<lambda>_ _. True) (\<lambda>_ _. False) s"
    by (cases "Option.bind token (map_of (au_sessions s))") (simp_all add: session_def wp_simps)
  then show ?thesis by (cases "session e token touch s"; cases "fst (session e token touch s)") (auto simp: wp_def)
qed

lemma gate_open:
  assumes "gate_error r ok = None"
  shows "(sc_path r \<in> set public_paths \<or> ok) \<and> (sc_path r = ''/api/v1/health'' \<or> sc_scheme r \<in> {''https'', ''wss''}) \<and>
    (sc_type r = ''websocket'' \<or> mutation r \<longrightarrow> same_origin r)"
  using assms by (auto simp: gate_error_def Let_def split: if_splits)

text \<open>
  C16: A request that reaches a route, and a socket that reaches its handler, is for a public path or has
  a live session; it came over TLS or is the health check; a mutation has the request header that forms
  cannot set and no foreign origin; a socket names exactly the appliance's own origin. Only the two
  other answers come without a session: a refusal, or the local display, from a loopback address, with
  its token, for an allowed path and without a proxy's header.
\<close>

theorem gate_is_sound:
  "case fst (pass_gate e stored r s) of
     Inl x \<Rightarrow> False
   | Inr Untouched \<Rightarrow> sc_type r \<notin> {''http'', ''websocket''}
   | Inr Local \<Rightarrow> sc_type r = ''http'' \<and> sc_client r \<in> {Some ''127.0.0.1'', Some ''::1''} \<and>
       header r ''x-forwarded-for'' \<in> {None, Some []} \<and> header r ''x-real-ip'' \<in> {None, Some []} \<and>
       (if sc_method r = Some ''GET'' then sc_path r \<in> set read_paths
        else sc_method r = Some ''POST'' \<and> sc_path r \<in> set action_paths) \<and>
       (\<exists>f. stored = Some f \<and> header r ''x-kdx-lcd-token'' = Some (strip is_blank f) \<and> length (strip is_blank f) = 64)
   | Inr Served \<Rightarrow> sc_type r = ''http'' \<and>
       (sc_path r \<in> set public_paths \<or> (\<exists>k v. sc_cookie r = Some k \<and> map_of (au_sessions s) k = Some v \<and> live (ae_time e (au_reads s)) v)) \<and>
       (sc_path r = ''/api/v1/health'' \<or> sc_scheme r \<in> {''https'', ''wss''}) \<and>
       (mutation r \<longrightarrow> header r ''x-infrabox-request'' = Some ''1'' \<and>
          header r ''origin'' \<in> {None, Some [], Some (''https://'' @ (case header r ''host'' of None \<Rightarrow> [] | Some h \<Rightarrow> h))})
   | Inr Guarded \<Rightarrow> sc_type r = ''websocket'' \<and>
       (sc_path r \<in> set public_paths \<or> (\<exists>k v. sc_cookie r = Some k \<and> map_of (au_sessions s) k = Some v \<and> live (ae_time e (au_reads s)) v)) \<and>
       (sc_path r = ''/api/v1/health'' \<or> sc_scheme r \<in> {''https'', ''wss''}) \<and>
       header r ''origin'' = Some (''https://'' @ (case header r ''host'' of None \<Rightarrow> [] | Some h \<Rightarrow> h))
   | Inr (Refused status detail) \<Rightarrow> status \<in> {401, 403}
   | Inr (Closed c) \<Rightarrow> c \<in> {4401, 4403}"
proof -
  let ?t = "sc_type r"
  consider (other) "?t \<notin> {''http'', ''websocket''}" | (local) "?t \<in> {''http'', ''websocket''}" "lcd_authenticated stored r"
    | (remote) "?t \<in> {''http'', ''websocket''}" "\<not> lcd_authenticated stored r" by blast
  then show ?thesis
  proof cases
    case other
    then show ?thesis by (simp add: pass_gate_def ret_def)
  next
    case local
    then have "pass_gate e stored r s = (Inr Local, s)" by (simp add: pass_gate_def ret_def)
    with local(2) show ?thesis
      by (auto simp: lcd_authenticated_def named_def Let_def split: option.splits)
  next
    case remote
    obtain x s' where o: "session e (sc_cookie r) True s = (x, s')" by fastforce
    then obtain ok where ok: "x = Inr ok" using session_never_fails by (metis fst_conv)
    have live: "\<exists>k v. sc_cookie r = Some k \<and> map_of (au_sessions s) k = Some v \<and> live (ae_time e (au_reads s)) v" if ok
    proof -
      have "session e (sc_cookie r) True s = (Inr True, s')" using o ok that by simp
      then show ?thesis by (rule session_True) blast
    qed
    have gate: "fst (pass_gate e stored r s) = Inr (case gate_error r ok of
          Some (detail, status) \<Rightarrow> if ?t = ''websocket'' then Closed (if status = 401 then 4401 else 4403) else Refused status detail
        | None \<Rightarrow> if ?t = ''websocket'' then Guarded else Served)"
      using remote o ok by (simp add: pass_gate_def andThen_def ret_def)
    show ?thesis
    proof (cases "gate_error r ok")
      case None
      from gate_open [OF this] live None remote(1) show ?thesis
        by (auto simp: gate same_origin_def named_def Let_def)
    next
      case (Some x)
      then have "snd x \<in> {401, 403}" by (auto simp: gate_error_def Let_def split: if_splits)
      with Some show ?thesis by (cases x) (simp add: gate)
    qed
  qed
qed

section \<open>Open sockets\<close>

text \<open>The guard of one socket, while other requests change the store.\<close>

inductive socket_reach :: "auth_env \<Rightarrow> string option \<Rightarrow> socket \<Rightarrow> bool" for e token where
  socket_open: "socket_reach e token \<lparr>so_auth = a, so_closed = False, so_out = []\<rparr>"
| socket_send: "socket_reach e token s \<Longrightarrow> socket_reach e token (snd (guarded_send e token m s))"
| socket_receive: "socket_reach e token s \<Longrightarrow> socket_reach e token (snd (guarded_receive e token xs s))"
| socket_store: "socket_reach e token s \<Longrightarrow> socket_reach e token (s\<lparr>so_auth := a\<rparr>)"

definition closed_once :: "socket \<Rightarrow> bool" where
  "closed_once s \<longleftrightarrow> (if so_closed s
     then \<exists>out c. so_out s = out @ [Close c] \<and> (\<forall>m \<in> set out. \<not> is_close m)
     else \<forall>m \<in> set (so_out s). \<not> is_close m)"

lemma wp_on_store [wp_simps]:
  "wp (on_store m) Q R s = wp m (\<lambda>x a. Q x (s\<lparr>so_auth := a\<rparr>)) (\<lambda>x a. R x (s\<lparr>so_auth := a\<rparr>)) (so_auth s)"
  by (simp add: wp_def on_store_def split: prod.split)

lemma closed_once_store [simp]: "closed_once (s\<lparr>so_auth := a\<rparr>) = closed_once s"
  by (simp add: closed_once_def)

lemma store_once: "safe closed_once (on_store m)"
  unfolding safe_def wp_on_store by (simp add: wp_def split: prod.split sum.split)

lemma revoke_once: "safe closed_once revoke"
  by (auto simp: safe_def revoke_def wp_simps closed_once_def is_close_def)

lemma receive_once: "safe closed_once (guarded_receive e token xs)"
proof (induction xs)
  case Nil
  then show ?case by (auto intro!: safe_rules store_once revoke_once)
next
  case (Cons x xs)
  then show ?case
    by (auto intro!: safe_rules store_once revoke_once split: option.split message.split)
qed


lemma session_step:
  obtains ok a' where "session e token touch a = (Inr ok, a')"
    and "\<And>Q R. wp (session e token touch) Q R a = Q ok a'"
proof -
  obtain ok a' where "session e token touch a = (Inr ok, a')"
    using session_never_fails [of e token touch a] by (metis surj_pair fst_conv)
  then show ?thesis by (intro that [of ok a']) (simp_all add: wp_def)
qed

lemma send_once: "safe closed_once (guarded_send e token m)"
  unfolding safe_def
proof (intro allI impI)
  fix s assume s: "closed_once s"
  obtain ok a where step: "\<And>Q R. wp (session e token False) Q R (so_auth s) = Q ok a"
    using session_step by metis
  show "wp (guarded_send e token m) (\<lambda>_. closed_once) (\<lambda>_. closed_once) s"
    using s by (cases "is_close m")
      (auto simp: guarded_send_def wp_simps step send_message_def revoke_def closed_once_def is_close_def is_output_def
        split: message.splits if_splits)
qed

text \<open>
  C38: Whatever the application sends and receives and whatever other requests do to the store, a socket
  gets at most one close, and nothing after it.
\<close>

theorem socket_closes_once:
  assumes "socket_reach e token s"
  shows "if so_closed s then \<exists>out c. so_out s = out @ [Close c] \<and> (\<forall>m \<in> set out. \<not> is_close m)
    else \<forall>m \<in> set (so_out s). \<not> is_close m"
proof -
  from assms have "closed_once s"
  proof induction
    case (socket_open a)
    then show ?case by (simp add: closed_once_def)
  qed (simp_all add: safe_snd send_once receive_once)
  then show ?thesis by (simp add: closed_once_def)
qed

definition has_session :: "auth_env \<Rightarrow> string option \<Rightarrow> auth \<Rightarrow> bool" where
  "has_session e token a \<longleftrightarrow> (\<exists>k v. token = Some k \<and> map_of (au_sessions a) k = Some v \<and> live (ae_time e (au_reads a)) v)"

lemma session_has: "session e token touch a = (Inr ok, a') \<Longrightarrow> ok = has_session e token a"
  by (cases token; cases "Option.bind token (map_of (au_sessions a))")
    (auto simp: session_def has_session_def andThen_def get_state_def auth_clock_def modify_def ret_def split: if_splits)

text \<open>
  Without a live session nothing more reaches the browser: an accept or a message is not sent and
  ends the handler, and the next look at the browser, at most one wait of five seconds later, closes the
  socket with 4401 and gives the handler a disconnect.
\<close>

theorem socket_needs_session:
  assumes "\<not> has_session e token (so_auth s)"
  shows "(is_output m \<longrightarrow> fst (guarded_send e token m s) = Inl gone \<and>
       so_out (snd (guarded_send e token m s)) = so_out s @ (if so_closed s then [] else [Close 4401])) \<and>
     fst (guarded_receive e token xs s) = Inr (Some (Disconnect 4401)) \<and> so_closed (snd (guarded_receive e token xs s)) \<and>
     so_out (snd (guarded_receive e token xs s)) = so_out s @ (if so_closed s then [] else [Close 4401])"
proof -
  obtain ok a where o: "session e token False (so_auth s) = (Inr ok, a)" using session_step by metis
  with session_has [OF o] assms have "session e token False (so_auth s) = (Inr False, a)" by simp
  then show ?thesis
    by (cases xs) (auto simp: guarded_send_def andThen_def get_state_def on_store_def revoke_def modify_def raise_def
        ret_def is_output_def is_close_def split: message.splits)
qed

section \<open>A run\<close>

definition demo_auth :: auth_env where
  "demo_auth = \<lparr>ae_time = (\<lambda>n. 1000 * int n), ae_salt = (\<lambda>n. replicate 31 (CHR ''0'') @ nat_dec n),
     ae_token = (\<lambda>n. ''token'' @ nat_dec n), ae_scrypt = (\<lambda>p s. p @ s), ae_write = (\<lambda>_. Written)\<rparr>"

definition demo_signed_in :: auth where
  "demo_signed_in = snd (serve_op demo_auth (Sign_in ''admin'' ''ChangeMe'' None (Some ''10.0.0.2'')) (auth_start No_file))"

definition demo_log :: "(string \<times> int) list" where
  "demo_log = issue demo_auth [] (serve_op demo_auth (Sign_in ''admin'' ''ChangeMe'' None (Some ''10.0.0.2'')) (auth_start No_file))"

lemma demo_auth_reach: "auth_reach demo_auth No_file demo_log demo_signed_in"
  unfolding demo_log_def demo_signed_in_def by (intro reach_op reach_start)

lemma demo_clock_mono: "mono (ae_time demo_auth)"
  by (simp add: mono_def demo_auth_def)

lemma demo_signed_in_value:
  "au_sessions demo_signed_in = [(''token1'', \<lparr>se_expires = 28801000, se_last_seen = 1000\<rparr>)] \<and>
   au_checked demo_signed_in = [(''10.0.0.2'', 0)] \<and> au_reads demo_signed_in = 2 \<and> demo_log = [(''token1'', 1000)]"
  by code_simp

text \<open>A sixth wrong password in the same minute is not checked.\<close>

definition demo_guess :: "auth \<Rightarrow> auth" where
  "demo_guess s = snd (serve_op demo_auth (Sign_in ''admin'' ''guess'' None (Some ''10.0.0.3'')) s)"

definition demo_guessed :: auth where
  "demo_guessed = demo_guess (demo_guess (demo_guess (demo_guess (demo_guess (demo_guess (auth_start No_file))))))"

lemma reach_guess: "\<exists>log. auth_reach demo_auth No_file log s \<Longrightarrow> \<exists>log. auth_reach demo_auth No_file log (demo_guess s)"
  unfolding demo_guess_def by (blast intro: reach_op)

theorem sign_in_rate_witness:
  "au_checked demo_guessed = map (\<lambda>n. (''10.0.0.3'', 1000 * n)) [0, 1, 2, 3, 4] \<and>
   length (in_window 60000 4000 (client_times (au_checked demo_guessed) ''10.0.0.3'')) \<le> 5"
proof
  show "au_checked demo_guessed = map (\<lambda>n. (''10.0.0.3'', 1000 * n)) [0, 1, 2, 3, 4]" by code_simp
  have "\<exists>log. auth_reach demo_auth No_file log demo_guessed"
    unfolding demo_guessed_def by (intro reach_guess exI) (rule reach_start)
  then obtain log where log: "auth_reach demo_auth No_file log demo_guessed" ..
  show "length (in_window 60000 4000 (client_times (au_checked demo_guessed) ''10.0.0.3'')) \<le> 5"
    using sign_in_rate [OF log demo_clock_mono, of 4000 "''10.0.0.3''"] by (rule conjunct1)
qed

theorem session_was_issued_witness:
  "\<exists>k v t. Some ''token1'' = Some k \<and> map_of (au_sessions demo_signed_in) k = Some v \<and>
    (k, t) \<in> set demo_log \<and> ae_time demo_auth (au_reads demo_signed_in) < t + 28800000"
proof -
  have "fst (session demo_auth (Some ''token1'') True demo_signed_in) = Inr True"
    using demo_signed_in_value by code_simp
  then obtain s' where "session demo_auth (Some ''token1'') True demo_signed_in = (Inr True, s')" by (metis surj_pair fst_conv)
  from session_was_issued [OF demo_auth_reach this] show ?thesis by blast
qed

theorem new_password_revokes_witness:
  "\<exists>k s'. change_password demo_auth (Some ''token1'') ''ChangeMe'' ''correct horse'' demo_signed_in = (Inr k, s') \<and>
     map fst (au_sessions s') = [k] \<and> fst (session demo_auth (Some ''token1'') True s') = Inr False"
proof -
  have v: "fst (change_password demo_auth (Some ''token1'') ''ChangeMe'' ''correct horse'' demo_signed_in) = Inr ''token3''"
    by code_simp
  then obtain s' where s': "change_password demo_auth (Some ''token1'') ''ChangeMe'' ''correct horse'' demo_signed_in = (Inr ''token3'', s')"
    by (metis surj_pair fst_conv)
  from new_password_revokes [OF this] s' show ?thesis by (intro exI [of _ "''token3''"] exI [of _ s']) simp
qed

definition demo_socket :: socket where
  "demo_socket = snd (guarded_receive demo_auth (Some ''token1'') [None, Some (Receive ''key'')]
     \<lparr>so_auth = demo_signed_in, so_closed = False, so_out = []\<rparr>)"

lemma demo_socket_reach: "socket_reach demo_auth (Some ''token1'') (demo_socket\<lparr>so_auth := auth_start No_file\<rparr>)"
  unfolding demo_socket_def by (intro socket_store socket_receive socket_open)

theorem socket_closes_once_witness:
  "\<not> so_closed demo_socket \<and> (let s = snd (guarded_send demo_auth (Some ''token1'') (Send ''frame'') (demo_socket\<lparr>so_auth := auth_start No_file\<rparr>))
    in so_closed s \<and> (\<exists>out c. so_out s = out @ [Close c] \<and> (\<forall>m \<in> set out. \<not> is_close m)))"
proof -
  let ?s = "snd (guarded_send demo_auth (Some ''token1'') (Send ''frame'') (demo_socket\<lparr>so_auth := auth_start No_file\<rparr>))"
  have "\<not> so_closed demo_socket \<and> so_closed ?s" by code_simp
  then show ?thesis using socket_closes_once [OF socket_send [OF demo_socket_reach], of "Send ''frame''"] by (simp add: Let_def)
qed

theorem socket_needs_session_witness:
  "fst (guarded_send demo_auth (Some ''token1'') (Send ''frame'') (demo_socket\<lparr>so_auth := auth_start No_file\<rparr>)) = Inl gone"
proof -
  have "\<not> has_session demo_auth (Some ''token1'') (so_auth (demo_socket\<lparr>so_auth := auth_start No_file\<rparr>))"
    by (simp add: has_session_def auth_start_def)
  from socket_needs_session [OF this, of "Send ''frame''"] show ?thesis by (simp add: is_output_def)
qed

definition demo_request :: scope where
  "demo_request = \<lparr>sc_type = ''http'', sc_path = ''/api/v1/storage'', sc_method = Some ''POST'', sc_scheme = ''https'',
     sc_headers = [(''host'', ''kvm.local''), (''origin'', ''https://kvm.local''), (''x-infrabox-request'', ''1'')],
     sc_client = Some ''10.0.0.2'', sc_cookie = Some ''token1''\<rparr>"

theorem gate_is_sound_witness:
  "fst (pass_gate demo_auth None demo_request demo_signed_in) = Inr Served \<and>
   (\<exists>k v. map_of (au_sessions demo_signed_in) k = Some v \<and> live (ae_time demo_auth (au_reads demo_signed_in)) v) \<and>
   header demo_request ''x-infrabox-request'' = Some ''1''"
proof -
  have served: "fst (pass_gate demo_auth None demo_request demo_signed_in) = Inr Served" by code_simp
  have "mutation demo_request" "sc_path demo_request \<notin> set public_paths" by code_simp+
  with gate_is_sound [where e = demo_auth and stored = None and r = demo_request and s = demo_signed_in] served show ?thesis by auto
qed

end
