(* ===== verification/Assist_Profile.thy ===== *)
theory Assist_Profile
  imports Values Wg_Server
begin

text \<open>
  VPN profiles on the device (backend/app/services/remote_assist_config.py) and the public messages of an
  enrolment (backend/app/services/wireguard_provisioning.py, wireguard_auto.py, device_identity.py). The
  programs are checks of JSON values that end in a value or in a fault; they hold in any state.
\<close>

section \<open>Faults\<close>

text \<open>\<open>ProfileError\<close>, a \<open>RuntimeError\<close>, and any other exception by its name.\<close>

datatype host_fault = Profile string | Runtime string | Raised string

text \<open>What \<open>except (ValueError, TypeError, AttributeError)\<close> catches.\<close>

definition bad_value :: "host_fault \<Rightarrow> bool" where
  "bad_value f = (case f of Profile _ \<Rightarrow> True | Runtime _ \<Rightarrow> False
     | Raised x \<Rightarrow> x \<in> {''ValueError'', ''TypeError'', ''AttributeError''})"

text \<open>A value that must be text, where a method of \<open>str\<close> is called on it.\<close>

definition text_value :: "json \<Rightarrow> ('s, host_fault, string) prog" where
  "text_value v = (case v of JStr s \<Rightarrow> ret s | _ \<Rightarrow> raise (Raised ''AttributeError''))"

definition text_field :: "(string \<times> json) list \<Rightarrow> string \<Rightarrow> ('s, host_fault, string) prog" where
  "text_field kvs k = andThen (text_value (dget kvs k (JStr []))) (\<lambda>s. ret (strip is_blank s))"

section \<open>Keys, addresses and endpoints\<close>

definition profile_key :: "json \<Rightarrow> string \<Rightarrow> ('s, host_fault, string) prog" where
  "profile_key v label = (case v of
     JStr s \<Rightarrow> (case b64decode s of
        Some raw \<Rightarrow> if length raw = 32 then ret s else raise (Profile (label @ '' must be a base64 WireGuard key''))
      | None \<Rightarrow> raise (Profile (label @ '' must be a base64 WireGuard key'')))
   | _ \<Rightarrow> raise (Profile (label @ '' must be a base64 WireGuard key'')))"

text \<open>\<open>IPv4Interface(v)\<close> takes a number, or the text of any other value.\<close>

definition interface4 :: "json \<Rightarrow> (nat \<times> nat) option" where
  "interface4 v = (case v of
     JInt n \<Rightarrow> if 0 \<le> n \<and> n < 2 ^ 32 then Some (nat n, 32) else None
   | JBool b \<Rightarrow> Some (if b then 1 else 0, 32)
   | _ \<Rightarrow> interface_with ipv4 prefix4 32 (py_str v))"

definition interface4_text :: "nat \<times> nat \<Rightarrow> string" where
  "interface4_text i = ipv4_text (fst i) @ CHR ''/'' # nat_dec (snd i)"

text \<open>\<open>IPv4Network(s, strict=False)\<close>, and the networks of a list separated by commas.\<close>

definition loose_network4 :: "string \<Rightarrow> (nat \<times> nat) option" where
  "loose_network4 s = map_option (\<lambda>(n, p). (floor_to (2 ^ (32 - p)) n, p)) (interface_with ipv4 prefix4 32 s)"

definition network_list :: "string \<Rightarrow> (nat \<times> nat) list option" where
  "network_list s = those (map (\<lambda>x. loose_network4 (strip is_blank x)) (split_on (CHR '','') s))"

definition private_address :: "nat \<Rightarrow> bool" where
  "private_address n = private4 (n, 32)"

definition bad_networks :: host_fault where
  "bad_networks = Profile (''Use a private IPv4 VPN address and specific private IPv4 peer networks; '' @
     ''full-tunnel and IPv6 profiles are not supported in this version'')"

definition vpn_address :: "json \<Rightarrow> ('s, host_fault, nat \<times> nat) prog" where
  "vpn_address v = andThen (need (interface4 v) bad_networks) (\<lambda>i.
     andThen (require (private_address (fst i)) bad_networks) (\<lambda>_. ret i))"

definition peer_networks :: "json \<Rightarrow> ('s, host_fault, (nat \<times> nat) list) prog" where
  "peer_networks v = andThen (text_value v) (\<lambda>s.
     andThen (need (network_list s) bad_networks) (\<lambda>ns.
     andThen (require (length ns \<le> 16 \<and> list_all private4 ns) bad_networks) (\<lambda>_. ret ns)))"

definition endpoint_value :: "(string \<times> json) list \<Rightarrow> ('s, host_fault, string) prog" where
  "endpoint_value kvs = andThen (text_field kvs ''endpoint'') (\<lambda>s.
     andThen (need (endpoint_port s) (Profile ''Endpoint must be a hostname or IPv4 address followed by :port'')) (\<lambda>port.
     andThen (require (1 \<le> port \<and> port \<le> 65535) (Profile ''Endpoint port is invalid'')) (\<lambda>_. ret s)))"

definition keepalive_value :: "json \<Rightarrow> ('s, host_fault, int) prog" where
  "keepalive_value v = (case py_int v of
     Inr n \<Rightarrow> if 0 \<le> n \<and> n \<le> 65535 then ret n
               else raise (Profile ''Keepalive must be between 0 and 65535 seconds'')
   | Inl _ \<Rightarrow> raise (Profile ''Keepalive must be between 0 and 65535 seconds''))"

section \<open>A profile\<close>

text \<open>\<open>validate_profile\<close>: the checked profile as the dictionary that is stored.\<close>

definition validate_profile :: "json \<Rightarrow> ('s, host_fault, (string \<times> json) list) prog" where
  "validate_profile v = (case v of JObj kvs \<Rightarrow>
     andThen (text_field kvs ''name'') (\<lambda>profile_name.
     andThen (require (profile_name \<noteq> [] \<and> length profile_name \<le> 80 \<and> list_all (\<lambda>c. 32 \<le> code c) profile_name)
       (Profile ''Profile name is required (maximum 80 characters)'')) (\<lambda>_.
     andThen (vpn_address (dget kvs ''address'' (JStr []))) (\<lambda>addr.
     andThen (peer_networks (dget kvs ''allowed_ips'' (JStr []))) (\<lambda>routes.
     andThen (endpoint_value kvs) (\<lambda>endpoint.
     andThen (keepalive_value (dget kvs ''keepalive'' (JInt 25))) (\<lambda>keepalive.
     andThen (text_field kvs ''preshared_key'') (\<lambda>psk.
     andThen (andThen (text_field kvs ''private_key'') (\<lambda>k. profile_key (JStr k) ''Private key'')) (\<lambda>private.
     andThen (andThen (text_field kvs ''public_key'') (\<lambda>k. profile_key (JStr k) ''Server public key'')) (\<lambda>public.
     andThen (if psk \<noteq> [] then profile_key (JStr psk) ''Preshared key'' else ret []) (\<lambda>shared.
       ret [(''name'', JStr profile_name), (''address'', JStr (interface4_text addr)), (''endpoint'', JStr endpoint),
            (''allowed_ips'', JStr (comma_list (map interface4_text routes))), (''keepalive'', JInt keepalive),
            (''private_key'', JStr private), (''public_key'', JStr public), (''preshared_key'', JStr shared)]))))))))))
   | _ \<Rightarrow> raise (Profile ''Invalid profile''))"

definition secret_fields :: "string list" where
  "secret_fields = [''private_key'', ''preshared_key'']"

definition public_profile :: "(string \<times> json) list \<Rightarrow> (string \<times> json) list" where
  "public_profile p = filter (\<lambda>x. fst x \<notin> set secret_fields) p"

section \<open>Enrolment messages\<close>

text \<open>\<open>value[k]\<close> of a dictionary.\<close>

definition at_item :: "(string \<times> json) list \<Rightarrow> string \<Rightarrow> ('s, host_fault, json) prog" where
  "at_item kvs k = need (map_of kvs k) (Raised ''KeyError'')"

text \<open>\<open>{k: value[k] for k in keys}\<close>.\<close>

definition picked :: "string list \<Rightarrow> (string \<times> json) list \<Rightarrow> ('s, host_fault, (string \<times> json) list) prog" where
  "picked ks kvs = mapM (\<lambda>k. andThen (at_item kvs k) (\<lambda>v. ret (k, v))) ks"

definition request_id_ok :: "json \<Rightarrow> bool" where
  "request_id_ok v = (case v of JStr s \<Rightarrow> uuid_of s = Some s | _ \<Rightarrow> False)"

definition hostname_ok :: "json \<Rightarrow> bool" where
  "hostname_ok v = (case v of JStr s \<Rightarrow> name_ok s | _ \<Rightarrow> False)"

definition registration_request :: "json \<Rightarrow> ('s, host_fault, (string \<times> json) list) prog" where
  "registration_request v = (case v of JObj kvs \<Rightarrow>
     andThen (require (set (map fst kvs) = set request_keys \<and> py_eq (at_key kvs ''version'') (JInt 1))
       (Profile ''Invalid public registration request'')) (\<lambda>_.
     andThen (require (device_serial (at_key kvs ''device_id'')) (Profile ''Invalid device serial'')) (\<lambda>_.
     andThen (require (hostname_ok (at_key kvs ''hostname'')) (Profile ''Invalid device hostname'')) (\<lambda>_.
     andThen (profile_key (at_key kvs ''public_key'') ''Device public key'') (\<lambda>_.
     andThen (require (request_id_ok (at_key kvs ''request_id'')) (Profile ''Invalid registration request identifier'')) (\<lambda>_.
       ret kvs)))))
   | _ \<Rightarrow> raise (Profile ''Invalid public registration request''))"

definition response_keys :: "string list" where
  "response_keys = request_keys @ [''address'', ''server_public_key'', ''endpoint'', ''allowed_ips'', ''keepalive'']"

definition response_profile :: "(string \<times> json) list \<Rightarrow> (string \<times> json) list \<Rightarrow> json" where
  "response_profile request kvs = JObj [(''name'', at_key request ''hostname''), (''private_key'', at_key request ''public_key''),
     (''public_key'', at_key kvs ''server_public_key''), (''address'', at_key kvs ''address''),
     (''endpoint'', at_key kvs ''endpoint''), (''allowed_ips'', at_key kvs ''allowed_ips''),
     (''keepalive'', at_key kvs ''keepalive'')]"

text \<open>The networks of a checked profile, and its address; \<open>IPv4Network(x)\<close> refuses host bits.\<close>

definition checked_networks :: "(string \<times> json) list \<Rightarrow> ('s, host_fault, (nat \<times> nat) list) prog" where
  "checked_networks p = andThen (andThen (at_item p ''allowed_ips'') text_value) (\<lambda>s.
     need (those (map (\<lambda>x. ipv4_network (strip is_blank x)) (split_on (CHR '','') s))) (Raised ''ValueError''))"

definition checked_address :: "(string \<times> json) list \<Rightarrow> ('s, host_fault, nat \<times> nat) prog" where
  "checked_address p = andThen (at_item p ''address'') (\<lambda>v. need (interface4 v) (Raised ''ValueError''))"

definition registration_response :: "json \<Rightarrow> ('s, host_fault, (string \<times> json) list) prog" where
  "registration_response v = (case v of JObj kvs \<Rightarrow>
     andThen (require (set (map fst kvs) = set response_keys)
       (Profile ''Registration response must contain public metadata only'')) (\<lambda>_.
     andThen (andThen (picked request_keys kvs) (\<lambda>r. registration_request (JObj r))) (\<lambda>request.
     andThen (validate_profile (response_profile request kvs)) (\<lambda>profile.
     andThen (checked_address profile) (\<lambda>addr.
     andThen (require (snd addr = 32) (Profile ''Assigned device address must use /32'')) (\<lambda>_.
     andThen (checked_networks profile) (\<lambda>networks.
     andThen (require (list_ex (in_network4 (fst addr)) networks)
       (Profile ''Assigned address must belong to the permitted VPN routes'')) (\<lambda>_.
       ret (dputs [(''address'', at_key profile ''address''), (''server_public_key'', at_key profile ''public_key''),
                   (''endpoint'', at_key profile ''endpoint''), (''allowed_ips'', at_key profile ''allowed_ips''),
                   (''keepalive'', at_key profile ''keepalive'')] request))))))))
   | _ \<Rightarrow> raise (Profile ''Registration response must contain public metadata only''))"

text \<open>\<open>any(response[k] != public[k] for k in public)\<close> is false.\<close>

definition answers :: "(string \<times> json) list \<Rightarrow> (string \<times> json) list \<Rightarrow> bool" where
  "answers response public \<longleftrightarrow> list_all (\<lambda>(k, v). py_eq (at_key response k) v) public"

section \<open>The hardware serial\<close>

definition serial_padding :: "char \<Rightarrow> bool" where
  "serial_padding c \<longleftrightarrow> code c \<in> {0, 10, 13, 32}"

definition identity_from_serial :: "string \<Rightarrow> string option" where
  "identity_from_serial raw =
     (let s = lower (strip serial_padding raw)
      in if length s = 16 \<and> list_all is_lower_hex s \<and> s \<noteq> replicate 16 (CHR ''0'') \<and> s \<noteq> replicate 16 (CHR ''f'')
         then Some s else None)"

definition identity_hostname :: "string \<Rightarrow> string" where
  "identity_hostname s = ''infrabox-'' @ drop 8 s"

text \<open>
  The number that the pattern \<open>^Serial\s*:\s*([0-9a-fA-F]{16})\s*$\<close> finds at the start of a line.
\<close>

definition serial_at :: "string \<Rightarrow> string option" where
  "serial_at s =
     (let r = dropWhile is_blank (drop 6 s); d = dropWhile is_blank (tl r); rest = drop 16 d
      in if startswith s ''Serial'' \<and> r \<noteq> [] \<and> hd r = CHR '':'' \<and> 16 \<le> length d \<and> list_all is_hex (take 16 d) \<and>
            (newline \<in> set (takeWhile is_blank rest) \<or> dropWhile is_blank rest = [])
         then Some (take 16 d) else None)"

fun serial_search :: "bool \<Rightarrow> string \<Rightarrow> string option" where
  "serial_search line_start [] = None"
| "serial_search line_start (c # cs) =
     (if line_start \<and> serial_at (c # cs) \<noteq> None then serial_at (c # cs) else serial_search (c = newline) cs)"

fun first_serial :: "string option list \<Rightarrow> string option" where
  "first_serial [] = None"
| "first_serial (x # xs) = (case Option.bind x identity_from_serial of Some s \<Rightarrow> Some s | None \<Rightarrow> first_serial xs)"

text \<open>\<open>paths\<close> holds what the files of the serial read as, in order, and \<open>cpuinfo\<close> what /proc/cpuinfo reads as.\<close>

definition read_identity :: "string option list \<Rightarrow> string option \<Rightarrow> ('s, host_fault, string) prog" where
  "read_identity paths cpuinfo =
     need (first_serial (paths @ [Option.bind cpuinfo (serial_search True)])) (Raised ''ValueError'')"

end
