(* ===== verification/Assist_Host.thy ===== *)
theory Assist_Host
  imports Assist_Profile
begin

text \<open>
  The host side of remote assistance (scripts/remote-assist-host.py, with the enrolment of
  backend/app/services/wireguard_auto.py): it owns the VPN's files and interface, takes one request at a
  time, and restores its files when a step fails. The commands, the disk and the clock are parameters.
\<close>

section \<open>The host\<close>

datatype host_file = Config_file | Keyfile | Wg_file | Reply_file | Identity_file | Public_file | Status_file
  | Request_file | Transport_file | Ssh_key_file | Known_hosts_file

text \<open>What a file holds: a JSON value, or a text that is not JSON.\<close>

datatype host_content = Data json | Bytes string

text \<open>How a command ends: its exit code and output, or an exception.\<close>

datatype command_end = Exit int string | Command_raises string

text \<open>How a write ends; one that fails in place may leave anything.\<close>

datatype disk_end = Disk_ok | Disk_fails "host_content option"

text \<open>A network interface with the names above its device, and its driver.\<close>

record net_device =
  nd_name :: string
  nd_parents :: "string list"
  nd_driver :: string

record host_env =
  he_run :: "nat \<Rightarrow> string list \<Rightarrow> string \<Rightarrow> command_end"
  he_disk :: "nat \<Rightarrow> disk_end"
  he_loads :: "string \<Rightarrow> json option"
  he_time :: "nat \<Rightarrow> int"
  he_backup :: "nat \<Rightarrow> string"
  he_serials :: "string option list"
  he_cpuinfo :: "string option"
  he_hostname :: string
  he_uuid :: string
  he_wg :: bool
  he_nets :: "net_device list"
  he_request_size :: nat

record host =
  ho_files :: "host_file \<Rightarrow> host_content option"
  ho_steps :: nat
  ho_commands :: "string list list"
  ho_backups :: "(string \<times> (host_file \<times> host_content) list) list"

type_synonym 'a host_prog = "(host, host_fault, 'a) prog"

section \<open>Commands and files\<close>

definition interface_name :: string where
  "interface_name = ''wg-kdx''"

definition profile_name :: string where
  "profile_name = ''KDX-Remote-Assist''"

definition profile_uuid :: string where
  "profile_uuid = ''8547c45f-759e-4f75-9f6e-1fb1f452c59e''"

definition keyfile_path :: string where
  "keyfile_path = ''/etc/NetworkManager/system-connections/kdx-remote-assist.nmconnection''"

definition run_tool :: "host_env \<Rightarrow> string list \<Rightarrow> string \<Rightarrow> (int \<times> string) host_prog" where
  "run_tool e args input = (\<lambda>s.
     ((case he_run e (ho_steps s) args input of Command_raises x \<Rightarrow> Inl (Raised x) | Exit c out \<Rightarrow> Inr (c, out)),
      s\<lparr>ho_steps := Suc (ho_steps s), ho_commands := ho_commands s @ [args]\<rparr>))"

definition run :: "host_env \<Rightarrow> bool \<Rightarrow> string list \<Rightarrow> string host_prog" where
  "run e required args = andThen (run_tool e args []) (\<lambda>r.
     if required \<and> fst r \<noteq> 0 then raise (Runtime ''Host network command failed; check the VPN profile and uplink'')
     else ret (strip is_blank (snd r)))"

definition host_read :: "host_file \<Rightarrow> host_content option host_prog" where
  "host_read f = (\<lambda>s. (Inr (ho_files s f), s))"

definition exists_file :: "host_file \<Rightarrow> bool host_prog" where
  "exists_file f = andThen (host_read f) (\<lambda>c. ret (c \<noteq> None))"

text \<open>\<open>json.loads(path.read_text())\<close>.\<close>

definition load_json :: "host_file \<Rightarrow> json host_prog" where
  "load_json f = andThen (host_read f) (\<lambda>c. case c of
     None \<Rightarrow> raise (Raised ''FileNotFoundError'')
   | Some (Bytes _) \<Rightarrow> raise (Raised ''ValueError'')
   | Some (Data v) \<Rightarrow> ret v)"

text \<open>A new file in place of the old one, a write in place, and a removal.\<close>

definition replace_file :: "host_env \<Rightarrow> host_file \<Rightarrow> host_content \<Rightarrow> unit host_prog" where
  "replace_file e f c = (\<lambda>s. let t = s\<lparr>ho_steps := Suc (ho_steps s)\<rparr> in case he_disk e (ho_steps s) of
     Disk_ok \<Rightarrow> (Inr (), t\<lparr>ho_files := (ho_files s)(f := Some c)\<rparr>)
   | Disk_fails _ \<Rightarrow> (Inl (Raised ''OSError''), t))"

definition put_bytes :: "host_env \<Rightarrow> host_file \<Rightarrow> host_content \<Rightarrow> unit host_prog" where
  "put_bytes e f c = (\<lambda>s. let t = s\<lparr>ho_steps := Suc (ho_steps s)\<rparr> in case he_disk e (ho_steps s) of
     Disk_ok \<Rightarrow> (Inr (), t\<lparr>ho_files := (ho_files s)(f := Some c)\<rparr>)
   | Disk_fails x \<Rightarrow> (Inl (Raised ''OSError''), t\<lparr>ho_files := (ho_files s)(f := x)\<rparr>))"

definition unlink_file :: "host_env \<Rightarrow> host_file \<Rightarrow> unit host_prog" where
  "unlink_file e f = (\<lambda>s. let t = s\<lparr>ho_steps := Suc (ho_steps s)\<rparr> in
     if ho_files s f = None then (Inr (), t)
     else case he_disk e (ho_steps s) of
       Disk_ok \<Rightarrow> (Inr (), t\<lparr>ho_files := (ho_files s)(f := None)\<rparr>)
     | Disk_fails _ \<Rightarrow> (Inl (Raised ''OSError''), t))"

definition restore_file :: "host_env \<Rightarrow> host_file \<times> host_content option \<Rightarrow> unit host_prog" where
  "restore_file e x = (case snd x of None \<Rightarrow> unlink_file e (fst x) | Some c \<Rightarrow> put_bytes e (fst x) c)"

fun restore_files :: "host_env \<Rightarrow> (host_file \<times> host_content option) list \<Rightarrow> unit host_prog" where
  "restore_files e [] = ret ()"
| "restore_files e (x # xs) = andThen (restore_file e x) (\<lambda>_. restore_files e xs)"

text \<open>\<open>INTERFACE in run(["wg", "show", "interfaces"]).split()\<close>.\<close>

definition tunnel_active :: "host_env \<Rightarrow> bool \<Rightarrow> bool host_prog" where
  "tunnel_active e required = andThen (run e required [''wg'', ''show'', ''interfaces'']) (\<lambda>out.
     ret (interface_name \<in> set (words_of out)))"

text \<open>A key of a value, and the text of one where a \<open>str\<close> is added to it.\<close>

definition item_of :: "json \<Rightarrow> string \<Rightarrow> ('s, host_fault, json) prog" where
  "item_of v k = (case v of JObj kvs \<Rightarrow> at_item kvs k | _ \<Rightarrow> raise (Raised ''TypeError''))"

definition added_text :: "json \<Rightarrow> string \<Rightarrow> ('s, host_fault, string) prog" where
  "added_text v k = andThen (item_of v k) (\<lambda>x. case x of JStr s \<Rightarrow> ret s | _ \<Rightarrow> raise (Raised ''TypeError''))"

text \<open>\<open>config.get("profile")\<close>.\<close>

definition config_profile :: "(string \<times> json) list \<Rightarrow> json" where
  "config_profile config = dget config ''profile'' JNull"

definition read_config :: "(string \<times> json) list host_prog" where
  "read_config = andThen (host_read Config_file) (\<lambda>c. case c of
     None \<Rightarrow> ret [(''enabled'', JBool False), (''autostart'', JBool False), (''profile'', JNull)]
   | Some (Data (JObj kvs)) \<Rightarrow> ret kvs
   | Some (Data _) \<Rightarrow> raise (Raised ''TypeError'')
   | Some (Bytes _) \<Rightarrow> raise (Raised ''ValueError''))"

section \<open>Routes\<close>

text \<open>\<open>str\<close> of an IPv6 address: the first of the longest runs of zero groups is left out.\<close>

fun hex_number :: "nat \<Rightarrow> string" where
  "hex_number n = (if n < 16 then [hex_digit n] else hex_number (n div 16) @ [hex_digit (n mod 16)])"

definition ipv6_text :: "nat \<Rightarrow> string" where
  "ipv6_text n =
     (let ws = map (\<lambda>i. hex_number (n div 65536 ^ (7 - i) mod 65536)) [0..<8];
          runs = map (\<lambda>i. length (takeWhile (\<lambda>w. w = ''0'') (drop i ws))) [0..<8];
          best = foldl max 0 runs; i = length (takeWhile (\<lambda>r. r \<noteq> best) runs)
      in if best \<le> 1 then join_with (CHR '':'') ws
         else join_with (CHR '':'') (take i ws) @ ''::'' @ join_with (CHR '':'') (drop (i + best) ws))"

fun address_text6 :: "address \<Rightarrow> string" where
  "address_text6 (Ip4 n) = ipv4_text n"
| "address_text6 (Ip6 n) = ipv6_text n"

text \<open>\<open>ipaddress.ip_interface(v)\<close> and \<open>ip_address(s)\<close>.\<close>

definition any_interface :: "json \<Rightarrow> (address \<times> nat) option" where
  "any_interface v = (case v of
     JInt n \<Rightarrow> if 0 \<le> n \<and> n < 2 ^ 32 then Some (Ip4 (nat n), 32)
               else if 0 \<le> n \<and> n < 2 ^ 128 then Some (Ip6 (nat n), 128) else None
   | JBool b \<Rightarrow> Some (Ip4 (if b then 1 else 0), 32)
   | _ \<Rightarrow> ip_interface (py_str v))"

definition any_address :: "string \<Rightarrow> address option" where
  "any_address s = (case ipv4 s of Some n \<Rightarrow> Some (Ip4 n) | None \<Rightarrow> map_option Ip6 (ipv6 s))"

definition profile_ip :: "json \<Rightarrow> ('s, host_fault, address) prog" where
  "profile_ip profile = andThen (item_of profile ''address'') (\<lambda>v.
     andThen (need (any_interface v) (Raised ''ValueError'')) (\<lambda>i. ret (fst i)))"

definition split_field :: "json \<Rightarrow> string \<Rightarrow> ('s, host_fault, string list) prog" where
  "split_field profile k = andThen (andThen (item_of profile k) text_value) (\<lambda>s.
     ret (map (strip is_blank) (split_on (CHR '','') s)))"

fun lowest :: "network \<Rightarrow> address" where
  "lowest (Net4 n p) = Ip4 n"
| "lowest (Net6 n p) = Ip6 n"

fun highest :: "network \<Rightarrow> address" where
  "highest (Net4 n p) = Ip4 (n + 2 ^ (32 - p) - 1)"
| "highest (Net6 n p) = Ip6 (n + 2 ^ (128 - p) - 1)"

definition overlapping :: "network \<Rightarrow> network \<Rightarrow> bool" where
  "overlapping a b \<longleftrightarrow> member (lowest b) a \<or> member (highest b) a \<or> member (lowest a) b \<or> member (highest a) b"

text \<open>The elements of \<open>for x in v\<close>.\<close>

definition elements :: "json \<Rightarrow> ('s, host_fault, json list) prog" where
  "elements v = (case v of JArr vs \<Rightarrow> ret vs | JObj kvs \<Rightarrow> ret (map (\<lambda>x. JStr (fst x)) kvs)
     | JStr s \<Rightarrow> ret (map (\<lambda>c. JStr [c]) s) | _ \<Rightarrow> raise (Raised ''TypeError''))"

definition device_network :: "json \<Rightarrow> ('s, host_fault, network) prog" where
  "device_network v = andThen (item_of v ''local'') (\<lambda>a. andThen (item_of v ''prefixlen'') (\<lambda>p.
     need (ip_network (py_str a @ CHR ''/'' # py_str p)) (Raised ''ValueError'')))"

definition device_networks :: "json \<Rightarrow> ('s, host_fault, network list) prog" where
  "device_networks v = andThen (item_of v ''ifname'') (\<lambda>x.
     if x = JStr interface_name then ret []
     else andThen (case v of JObj kvs \<Rightarrow> ret (dget kvs ''addr_info'' (JArr [])) | _ \<Rightarrow> raise (Raised ''AttributeError'')) (\<lambda>infos.
       andThen (elements infos) (\<lambda>xs. mapM device_network xs)))"

definition recovery_network :: network where
  "recovery_network = Net4 3232244224 24"

definition protected_networks :: "json \<Rightarrow> ('s, host_fault, network list) prog" where
  "protected_networks v = andThen (elements v) (\<lambda>devices.
     andThen (mapM device_networks devices) (\<lambda>nss. ret (recovery_network # concat nss)))"

text \<open>\<open>s.rsplit(c, 1)[0]\<close>.\<close>

definition before_last :: "char \<Rightarrow> string \<Rightarrow> string" where
  "before_last c s = (if c \<in> set s then rev (tl (dropWhile (\<lambda>x. x \<noteq> c) (rev s))) else s)"

definition overlap_message :: string where
  "overlap_message = ''VPN address or peer networks overlap the appliance LAN, USB WAN or recovery network''"

definition check_networks :: "network list \<Rightarrow> json \<Rightarrow> network list \<Rightarrow> ('s, host_fault, unit) prog" where
  "check_networks protected profile networks =
     andThen (profile_ip profile) (\<lambda>vpn.
     andThen (require (\<not> (list_ex (\<lambda>n. list_ex (overlapping n) protected) networks \<or> list_ex (member vpn) protected))
       (Profile overlap_message)) (\<lambda>_.
     andThen (andThen (item_of profile ''endpoint'') text_value) (\<lambda>endpoint.
       require (case any_address (before_last (CHR '':'') endpoint) of None \<Rightarrow> True
                | Some ip \<Rightarrow> \<not> list_ex (member ip) networks)
         (Profile ''VPN endpoint must be outside the peer networks''))))"

definition check_routes :: "network list \<Rightarrow> json \<Rightarrow> ('s, host_fault, unit) prog" where
  "check_routes protected profile =
     andThen (split_field profile ''allowed_ips'') (\<lambda>xs.
     andThen (need (those (map strict_network xs)) (Raised ''ValueError'')) (check_networks protected profile))"

definition addresses_command :: "string list" where
  "addresses_command = [''ip'', ''-j'', ''-4'', ''address'', ''show'']"

definition validate_routes :: "host_env \<Rightarrow> json \<Rightarrow> unit host_prog" where
  "validate_routes e profile =
     andThen (run e True addresses_command) (\<lambda>out.
     andThen (need (he_loads e out) (Raised ''ValueError'')) (\<lambda>v.
     andThen (protected_networks v) (\<lambda>protected.
       check_routes protected profile)))"

section \<open>The files of a profile\<close>

text \<open>A section of \<open>configparser\<close>: a line end inside a value is followed by a tab.\<close>

definition ini_value :: "string \<Rightarrow> string" where
  "ini_value s = concat (map (\<lambda>c. if c = newline then [newline, CHR 0x09] else [c]) s)"

definition ini_section :: "string \<Rightarrow> (string \<times> string) list \<Rightarrow> string" where
  "ini_section title kvs = CHR ''['' # title @ '']'' @ newline #
     concat (map (\<lambda>(k, v). k @ CHR ''='' # ini_value v @ [newline]) kvs) @ [newline]"

definition shared_key_field :: "json \<Rightarrow> (string \<times> string) list" where
  "shared_key_field v = (if truthy v then [(''preshared-key'', py_str v)] else [])"

definition keyfile :: "(string \<times> json) list \<Rightarrow> ('s, host_fault, string) prog" where
  "keyfile config =
     andThen (at_item config ''profile'') (\<lambda>profile.
     andThen (at_item config ''enabled'') (\<lambda>enabled.
     andThen (if truthy enabled then at_item config ''autostart'' else ret enabled) (\<lambda>auto.
     andThen (item_of profile ''private_key'') (\<lambda>private.
     andThen (item_of profile ''endpoint'') (\<lambda>endpoint.
     andThen (item_of profile ''keepalive'') (\<lambda>keepalive.
     andThen (split_field profile ''allowed_ips'') (\<lambda>allowed.
     andThen (item_of profile ''preshared_key'') (\<lambda>shared.
     andThen (added_text profile ''public_key'') (\<lambda>public.
     andThen (profile_ip profile) (\<lambda>ip.
       ret (ini_section ''connection'' [(''id'', profile_name), (''uuid'', profile_uuid), (''type'', ''wireguard''),
              (''interface-name'', interface_name), (''autoconnect'', lower (py_str auto))] @
            ini_section ''wireguard'' [(''private-key'', py_str private), (''peer-routes'', ''true''),
              (''ip4-auto-default-route'', ''0''), (''ip6-auto-default-route'', ''0'')] @
            ini_section (''wireguard-peer.'' @ public) ([(''endpoint'', py_str endpoint),
              (''persistent-keepalive'', py_str keepalive), (''allowed-ips'', join_with (CHR '';'') allowed @ '';'')] @
              shared_key_field shared) @
            ini_section ''ipv4'' [(''method'', ''manual''), (''address1'', address_text6 ip @ ''/32''),
              (''never-default'', ''true''), (''ignore-auto-dns'', ''true''), (''route-metric'', ''650'')] @
            ini_section ''ipv6'' [(''method'', ''disabled'')])))))))))))"

definition nmcli_load :: "string list" where
  "nmcli_load = [''nmcli'', ''connection'', ''load'', keyfile_path]"

definition nmcli_delete :: "string list" where
  "nmcli_delete = [''nmcli'', ''connection'', ''delete'', ''uuid'', profile_uuid]"

definition nmcli_up :: "string list" where
  "nmcli_up = [''nmcli'', ''--wait'', ''15'', ''connection'', ''up'', profile_name]"

definition nmcli_down :: "string list" where
  "nmcli_down = [''nmcli'', ''connection'', ''down'', profile_name]"

definition install_profile :: "host_env \<Rightarrow> (string \<times> json) list \<Rightarrow> unit host_prog" where
  "install_profile e config =
     andThen (keyfile config) (\<lambda>text.
     andThen (replace_file e Keyfile (Bytes text)) (\<lambda>_.
     andThen (run e True nmcli_load) (\<lambda>_. ret ())))"

definition wireguard_file :: "json \<Rightarrow> ('s, host_fault, string) prog" where
  "wireguard_file profile =
     andThen (added_text profile ''private_key'') (\<lambda>private.
     andThen (profile_ip profile) (\<lambda>ip.
     andThen (added_text profile ''public_key'') (\<lambda>public.
     andThen (added_text profile ''endpoint'') (\<lambda>endpoint.
     andThen (added_text profile ''allowed_ips'') (\<lambda>allowed.
     andThen (item_of profile ''keepalive'') (\<lambda>keepalive.
     andThen (item_of profile ''preshared_key'') (\<lambda>shared.
     andThen (if truthy shared then andThen (added_text profile ''preshared_key'') (\<lambda>s.
                ret (''PresharedKey = '' @ s @ [newline])) else ret []) (\<lambda>tail.
       ret (''# Managed by KDX Remote Assist / NetworkManager; do not enable wg-quick.'' @ newline #
            ''[Interface]'' @ newline # ''PrivateKey = '' @ private @ newline # ''Address = '' @ address_text6 ip @
            ''/32'' @ newline # newline # ''[Peer]'' @ newline # ''PublicKey = '' @ public @ newline # ''Endpoint = '' @
            endpoint @ newline # ''AllowedIPs = '' @ allowed @ newline # ''PersistentKeepalive = '' @
            py_str keepalive @ newline # tail)))))))))"

definition install_recovery_config :: "host_env \<Rightarrow> json \<Rightarrow> unit host_prog" where
  "install_recovery_config e profile = andThen (wireguard_file profile) (\<lambda>text. replace_file e Wg_file (Bytes text))"

text \<open>The copies of the files that exist, in a new directory; the directory's name.\<close>

fun copy_files :: "host_env \<Rightarrow> host_file list \<Rightarrow> (host_file \<times> host_content) list host_prog" where
  "copy_files e [] = ret []"
| "copy_files e (f # fs) = andThen (host_read f) (\<lambda>c. case c of
     None \<Rightarrow> copy_files e fs
   | Some v \<Rightarrow> andThen (\<lambda>s. let t = s\<lparr>ho_steps := Suc (ho_steps s)\<rparr> in case he_disk e (ho_steps s) of
        Disk_ok \<Rightarrow> (Inr (), t) | Disk_fails _ \<Rightarrow> (Inl (Raised ''OSError''), t)) (\<lambda>_.
      andThen (copy_files e fs) (\<lambda>vs. ret ((f, v) # vs))))"

definition backup_profile :: "host_env \<Rightarrow> string host_prog" where
  "backup_profile e = andThen (\<lambda>s. let t = s\<lparr>ho_steps := Suc (ho_steps s)\<rparr> in case he_disk e (ho_steps s) of
        Disk_ok \<Rightarrow> (Inr (he_backup e (ho_steps s)), t) | Disk_fails _ \<Rightarrow> (Inl (Raised ''OSError''), t)) (\<lambda>directory.
     andThen (copy_files e [Config_file, Keyfile, Wg_file]) (\<lambda>copies.
     andThen (modify (\<lambda>s. s\<lparr>ho_backups := ho_backups s @ [(directory, copies)]\<rparr>)) (\<lambda>_. ret directory)))"

section \<open>The device's identity\<close>

definition saved_identity :: "json host_prog" where
  "saved_identity = load_json Identity_file"

definition pick_of :: "json \<Rightarrow> ('s, host_fault, (string \<times> json) list) prog" where
  "pick_of v = (case v of JObj kvs \<Rightarrow> picked request_keys kvs | _ \<Rightarrow> raise (Raised ''TypeError''))"

definition identity_public :: "(string \<times> json) list option host_prog" where
  "identity_public = andThen (exists_file Identity_file) (\<lambda>present.
     if \<not> present then ret None
     else andThen saved_identity (\<lambda>saved. andThen (pick_of saved) (\<lambda>r.
            andThen (registration_request (JObj r)) (\<lambda>public. ret (Some public)))))"

definition own_serial :: "host_env \<Rightarrow> string host_prog" where
  "own_serial e = read_identity (he_serials e) (he_cpuinfo e)"

definition public_key_command :: "string list" where
  "public_key_command = [''wg'', ''pubkey'']"

definition new_identity :: "host_env \<Rightarrow> (string \<times> json) list host_prog" where
  "new_identity e =
     andThen (run e True [''wg'', ''genkey'']) (\<lambda>private.
     andThen (run_tool e public_key_command (private @ [newline])) (\<lambda>r.
     andThen (require (fst r = 0) (Profile ''Could not generate device public key'')) (\<lambda>_.
     andThen (own_serial e) (\<lambda>serial.
     andThen (registration_request (JObj [(''version'', JInt 1), (''device_id'', JStr serial),
        (''hostname'', JStr (he_hostname e)), (''public_key'', JStr (strip is_blank (snd r))),
        (''request_id'', JStr (he_uuid e))])) (\<lambda>public.
     andThen (replace_file e Identity_file (Data (JObj (public @ [(''private_key'', JStr private)])))) (\<lambda>_.
     andThen (replace_file e Public_file (Data (JObj public))) (\<lambda>_. ret public)))))))"

definition ensure_identity :: "host_env \<Rightarrow> (string \<times> json) list host_prog" where
  "ensure_identity e = andThen identity_public (\<lambda>p. case p of
     Some public \<Rightarrow>
       andThen (own_serial e) (\<lambda>serial.
       andThen (require (at_key public ''device_id'' = JStr serial)
         (Profile ''VPN identity belongs to another board; operator recovery required'')) (\<lambda>_.
       andThen (replace_file e Public_file (Data (JObj public))) (\<lambda>_. ret public)))
   | None \<Rightarrow> new_identity e)"

section \<open>The enrolment server\<close>

definition transport_host_ok :: "json \<Rightarrow> bool" where
  "transport_host_ok v = (case v of
     JStr s \<Rightarrow> s \<noteq> [] \<and> length s \<le> 253 \<and> is_alnum (hd s) \<and> list_all host_char s | _ \<Rightarrow> False)"

definition transport_port_ok :: "json \<Rightarrow> bool" where
  "transport_port_ok v = (case v of JInt n \<Rightarrow> 1 \<le> n \<and> n \<le> 65535 | _ \<Rightarrow> False)"

definition authorize_first :: host_fault where
  "authorize_first = Profile ''Administrator must authorize automatic registration first''"

definition read_transport :: "(string \<times> json) list host_prog" where
  "read_transport = andThen (host_read Transport_file) (\<lambda>c. case c of
     Some (Data (JObj kvs)) \<Rightarrow>
       andThen (require (transport_host_ok (dget kvs ''host'' (JStr [])) \<and> transport_port_ok (dget kvs ''port'' (JInt 22)))
         (Profile ''Invalid automatic registration transport'')) (\<lambda>_. ret kvs)
   | Some (Data _) \<Rightarrow> raise (Raised ''AttributeError'')
   | _ \<Rightarrow> raise authorize_first)"

definition cached_response :: "(string \<times> json) list \<Rightarrow> (string \<times> json) list option host_prog" where
  "cached_response public = andThen (exists_file Reply_file) (\<lambda>present.
     if \<not> present then ret None
     else andThen (handling (andThen (load_json Reply_file) registration_response)
            (\<lambda>f. if bad_value f then raise (Profile ''Cached registration invalid; administrator recovery required'')
                 else raise f)) (\<lambda>response.
          andThen (require (answers response public) (Profile ''Cached registration belongs to another identity'')) (\<lambda>_.
            ret (Some response))))"

text \<open>\<open>isinstance(v, (int, float))\<close> and the number.\<close>

definition number_of :: "json \<Rightarrow> int option" where
  "number_of v = (case v of JInt n \<Rightarrow> Some n | JBool b \<Rightarrow> Some (if b then 1 else 0) | _ \<Rightarrow> None)"

definition host_clock :: "host_env \<Rightarrow> int host_prog" where
  "host_clock e = (\<lambda>s. (Inr (he_time e (ho_steps s)), s\<lparr>ho_steps := Suc (ho_steps s)\<rparr>))"

text \<open>The grant that \<open>transport\<close> stands for; \<open>cached\<close> is whether the reply's file exists.\<close>

definition grant_status :: "(string \<times> json) list \<Rightarrow> bool \<Rightarrow> bool \<Rightarrow> (string \<times> json) list" where
  "grant_status transport ready cached =
     (let completed = truthy (dget transport ''completed'' JNull)
      in [(''ready'', JBool ((ready \<or> cached) \<and> \<not> completed)),
          (''state'', JStr (if completed then ''registered'' else if cached then ''reply_cached''
                            else if ready then ''authorized'' else ''expired'')),
          (''expires_at'', if number_of (dget transport ''expires_at'' (JInt 0)) = None then JInt 0
                          else dget transport ''expires_at'' (JInt 0)),
          (''server'', dget transport ''host'' JNull)])"

definition enrolment_status :: "host_env \<Rightarrow> (string \<times> json) list host_prog" where
  "enrolment_status e = andThen (exists_file Reply_file) (\<lambda>cached.
     if cached then ret [(''ready'', JBool True), (''state'', JStr ''reply_cached'')]
     else andThen (handling (andThen read_transport (\<lambda>t. ret (Some t)))
            (\<lambda>f. case f of Profile _ \<Rightarrow> ret None | _ \<Rightarrow> raise f)) (\<lambda>t. case t of
       None \<Rightarrow> ret [(''ready'', JBool False), (''state'', JStr ''not_authorized'')]
     | Some transport \<Rightarrow>
         andThen (case number_of (dget transport ''expires_at'' (JInt 0)) of
              None \<Rightarrow> ret False | Some n \<Rightarrow> andThen (host_clock e) (\<lambda>t. ret (t < n))) (\<lambda>valid.
         andThen (exists_file Ssh_key_file) (\<lambda>key.
         andThen (exists_file Known_hosts_file) (\<lambda>known.
           ret (grant_status transport (valid \<and> key \<and> known) cached))))))"

definition enrolment_root :: string where
  "enrolment_root = ''/etc/kronoskvm/remote-assist/enrollment-ssh''"

definition ssh_command :: "(string \<times> json) list \<Rightarrow> string list" where
  "ssh_command transport = [''ssh'', ''-F'', ''/dev/null'', ''-T'', ''-p'', py_str (dget transport ''port'' (JInt 22)),
     ''-i'', enrolment_root @ ''/id_ed25519'', ''-o'', ''BatchMode=yes'', ''-o'', ''IdentitiesOnly=yes'',
     ''-o'', ''IdentityAgent=none'', ''-o'', ''StrictHostKeyChecking=yes'',
     ''-o'', ''UserKnownHostsFile='' @ enrolment_root @ ''/known_hosts'', ''-o'', ''GlobalKnownHostsFile=/dev/null'',
     ''-o'', ''ConnectTimeout=8'', ''-o'', ''ConnectionAttempts=1'', ''-o'', ''ClearAllForwardings=yes'',
     ''-o'', ''ServerAliveInterval=5'', ''-o'', ''ServerAliveCountMax=3'',
     ''root@'' @ py_str (dget transport ''host'' JNull), ''enroll'']"

text \<open>\<open>json.dumps(v)\<close>.\<close>

fun dumps :: "json \<Rightarrow> string" where
  "dumps (JArr vs) = CHR ''['' # comma_list (map dumps vs) @ '']''"
| "dumps (JObj kvs) = CHR ''{'' # comma_list (map (\<lambda>(k, v). quote k @ '': '' @ dumps v) kvs) @ ''}''"
| "dumps v = render v"

definition request_registration ::
    "host_env \<Rightarrow> (string \<times> json) list \<Rightarrow> (string \<times> json) list host_prog" where
  "request_registration e public = andThen (cached_response public) (\<lambda>cached. case cached of
     Some response \<Rightarrow> ret response
   | None \<Rightarrow>
       andThen read_transport (\<lambda>transport.
       andThen (enrolment_status e) (\<lambda>status.
       andThen (require (at_key status ''ready'' = JBool True)
         (Profile ''Automatic registration grant is unavailable or expired'')) (\<lambda>_.
       andThen (run_tool e (ssh_command transport) (dumps (JObj public))) (\<lambda>r.
       andThen (require (fst r = 0) (Profile ''Automatic registration failed; check the grant and server access'')) (\<lambda>_.
       andThen (require (length (snd r) \<le> 4096) (Profile ''Server registration response is too large'')) (\<lambda>_.
       andThen (handling (andThen (need (he_loads e (snd r)) (Raised ''ValueError'')) registration_response)
         (\<lambda>f. if bad_value f then raise (Profile ''Server returned invalid public registration metadata'') else raise f)) (\<lambda>response.
       andThen (require (answers response public)
         (Profile ''Server registration response does not match this device'')) (\<lambda>_. ret response)))))))))"

section \<open>Registration\<close>

definition registered_profile :: "(string \<times> json) list \<Rightarrow> json \<Rightarrow> json" where
  "registered_profile response private = JObj [(''name'', at_key response ''hostname''), (''address'', at_key response ''address''),
     (''private_key'', private), (''public_key'', at_key response ''server_public_key''),
     (''endpoint'', at_key response ''endpoint''), (''allowed_ips'', at_key response ''allowed_ips''),
     (''keepalive'', at_key response ''keepalive'')]"

text \<open>The two files of a profile; when a step fails they are put back.\<close>

definition install_registration ::
    "host_env \<Rightarrow> string \<Rightarrow> (string \<times> json) list \<Rightarrow> json \<Rightarrow> unit host_prog" where
  "install_registration e backup updated profile =
     andThen (host_read Keyfile) (\<lambda>before_key.
     andThen (host_read Wg_file) (\<lambda>before_wg.
       handling (andThen (install_profile e updated) (\<lambda>_. install_recovery_config e profile))
         (\<lambda>_. andThen (restore_files e [(Keyfile, before_key), (Wg_file, before_wg)]) (\<lambda>_.
            andThen (run e False (if before_key \<noteq> None then nmcli_load else nmcli_delete)) (\<lambda>_.
              raise (Profile (''Registration installation failed; previous files restored; '' @
                ''root-only backup: '' @ backup)))))))"

definition device_matches :: "host_env \<Rightarrow> (string \<times> json) list \<Rightarrow> (string \<times> json) list option \<Rightarrow> bool host_prog" where
  "device_matches e response public = (case public of None \<Rightarrow> ret False
     | Some p \<Rightarrow> andThen (own_serial e) (\<lambda>serial.
         ret (at_key p ''device_id'' = JStr serial \<and> answers response p)))"

definition register ::
    "host_env \<Rightarrow> (string \<times> json) list \<Rightarrow> json \<Rightarrow> (string \<times> json) list host_prog" where
  "register e config supplied =
     andThen (at_item config ''enabled'') (\<lambda>enabled.
     andThen (require (\<not> truthy enabled) (Profile ''Disconnect VPN before importing a registration'')) (\<lambda>_.
     andThen (run_tool e [''systemctl'', ''is-active'', ''--quiet'', ''wg-quick@wg-kdx.service''] []) (\<lambda>service.
     andThen (require (fst service \<noteq> 0) (Profile ''wg-quick owns wg-kdx; resolve the service conflict first'')) (\<lambda>_.
     andThen (registration_response supplied) (\<lambda>response.
     andThen identity_public (\<lambda>public.
     andThen (device_matches e response public) (\<lambda>matches.
     andThen (require matches (Profile ''Registration does not match this device identity and request'')) (\<lambda>_.
     andThen saved_identity (\<lambda>saved.
     andThen (added_text saved ''private_key'') (\<lambda>private.
     andThen (run_tool e public_key_command (private @ [newline])) (\<lambda>derived.
     andThen (require (fst derived = 0 \<and> (case public of None \<Rightarrow> False
          | Some p \<Rightarrow> at_key p ''public_key'' = JStr (strip is_blank (snd derived))))
       (Profile ''Stored device key pair is inconsistent; operator recovery required'')) (\<lambda>_.
     andThen (validate_profile (registered_profile response (JStr private))) (\<lambda>profile.
     andThen (validate_routes e (JObj profile)) (\<lambda>_.
     andThen (backup_profile e) (\<lambda>backup.
     andThen (ret (dputs [(''profile'', JObj profile), (''enabled'', JBool False)] config)) (\<lambda>updated.
     andThen (install_registration e backup updated (JObj profile)) (\<lambda>_.
     andThen (replace_file e Reply_file (Data (JObj response))) (\<lambda>_. ret updated))))))))))))))))))"

definition automatic_registration ::
    "host_env \<Rightarrow> (string \<times> json) list \<Rightarrow> (string \<times> json) list host_prog" where
  "automatic_registration e config =
     andThen (require (\<not> truthy (dget config ''enabled'' JNull)) (Profile ''Disconnect VPN before automatic registration'')) (\<lambda>_.
     andThen (ensure_identity e) (\<lambda>public.
     andThen (request_registration e public) (\<lambda>response.
     andThen (replace_file e Reply_file (Data (JObj response))) (\<lambda>_.
       register e config (JObj response)))))"

section \<open>Requests\<close>

text \<open>\<open>d[k] = v\<close> for several keys is \<open>dputs\<close>.\<close>

definition require_profile :: "(string \<times> json) list \<Rightarrow> ('s, host_fault, json) prog" where
  "require_profile config = andThen (require (truthy (config_profile config)) (Profile ''VPN profile is required'')) (\<lambda>_.
     ret (config_profile config))"

definition delete_profile :: "host_env \<Rightarrow> (string \<times> json) list \<Rightarrow> (string \<times> json) list host_prog" where
  "delete_profile e config =
     andThen (run e False [''nmcli'', ''connection'', ''down'', ''uuid'', profile_uuid]) (\<lambda>_.
     andThen (tunnel_active e True) (\<lambda>active.
     andThen (require (\<not> active) (Profile ''VPN is still active; profile was not deleted'')) (\<lambda>_.
     andThen (exists_file Keyfile) (\<lambda>present.
     andThen (if present \<or> truthy (config_profile config) then run e True nmcli_delete else ret []) (\<lambda>_.
     andThen (unlink_file e Keyfile) (\<lambda>_.
     andThen (unlink_file e Wg_file) (\<lambda>_.
       ret (dputs [(''profile'', JNull), (''enabled'', JBool False), (''autostart'', JBool False)] config))))))))"

definition restart_profile :: "host_env \<Rightarrow> (string \<times> json) list \<Rightarrow> (string \<times> json) list host_prog" where
  "restart_profile e config =
     andThen (require_profile config) (\<lambda>profile.
     andThen (validate_routes e profile) (\<lambda>_.
     andThen (install_profile e (dput ''enabled'' (JBool True) config)) (\<lambda>_.
     andThen (run e False nmcli_down) (\<lambda>_.
     andThen (run e True nmcli_up) (\<lambda>_.
       ret (dput ''enabled'' (JBool True) config))))))"

definition save_profile :: "host_env \<Rightarrow> (string \<times> json) list \<Rightarrow> json \<Rightarrow> (string \<times> json) list host_prog" where
  "save_profile e config value =
     andThen (at_item config ''enabled'') (\<lambda>enabled.
     andThen (if truthy enabled then at_item config ''profile'' else ret JNull) (\<lambda>old.
     andThen (require (\<not> truthy old) (Profile ''Turn Remote Assist off before replacing the profile'')) (\<lambda>_.
     andThen (validate_profile value) (\<lambda>profile.
     andThen (validate_routes e (JObj profile)) (\<lambda>_.
     andThen (backup_profile e) (\<lambda>_.
     andThen (ret (dput ''profile'' (JObj profile) config)) (\<lambda>updated.
     andThen (install_profile e updated) (\<lambda>_.
     andThen (install_recovery_config e (JObj profile)) (\<lambda>_.
     andThen (if truthy enabled then run e True nmcli_up else ret []) (\<lambda>_.
       ret updated))))))))))"

definition enable_profile :: "host_env \<Rightarrow> (string \<times> json) list \<Rightarrow> (string \<times> json) list host_prog" where
  "enable_profile e config =
     andThen (require_profile config) (\<lambda>profile.
     andThen (ret (dput ''enabled'' (JBool True) config)) (\<lambda>updated.
     andThen (validate_routes e profile) (\<lambda>_.
     andThen (install_profile e updated) (\<lambda>_.
     andThen (run e True nmcli_up) (\<lambda>_.
       ret updated)))))"

definition disable_profile :: "host_env \<Rightarrow> (string \<times> json) list \<Rightarrow> (string \<times> json) list host_prog" where
  "disable_profile e config =
     andThen (at_item config ''profile'') (\<lambda>profile.
     andThen (ret (dput ''enabled'' (JBool False) config)) (\<lambda>updated.
       if truthy profile then
         andThen (install_profile e updated) (\<lambda>_.
         andThen (run e False nmcli_down) (\<lambda>_.
         andThen (tunnel_active e False) (\<lambda>active.
         andThen (require (\<not> active) (Runtime ''VPN is still active; disable could not be completed'')) (\<lambda>_.
           ret updated))))
       else ret updated))"

definition boot_profile :: "host_env \<Rightarrow> bool \<Rightarrow> (string \<times> json) list \<Rightarrow> (string \<times> json) list host_prog" where
  "boot_profile e on config =
     andThen (at_item config ''profile'') (\<lambda>profile.
     andThen (ret (dput ''autostart'' (JBool on) config)) (\<lambda>updated.
     andThen (if truthy profile then install_profile e updated else ret ()) (\<lambda>_. ret updated)))"

definition process :: "host_env \<Rightarrow> (string \<times> json) list \<Rightarrow> (string \<times> json) list \<Rightarrow> (string \<times> json) list host_prog" where
  "process e config request =
     (case dget request ''action'' JNull of
        JStr a \<Rightarrow>
          if a = ''generate-identity'' then andThen (ensure_identity e) (\<lambda>_. ret config)
          else if a = ''register'' then register e config (dget request ''registration'' JNull)
          else if a = ''register-connect'' then
            andThen (register e config (dget request ''registration'' JNull)) (enable_profile e)
          else if a = ''auto-register'' then automatic_registration e config
          else if a = ''delete-profile'' then delete_profile e config
          else if a = ''restart'' then restart_profile e config
          else if a = ''save'' then save_profile e config (dget request ''profile'' JNull)
          else if a = ''enable'' then enable_profile e config
          else if a = ''disable'' then disable_profile e config
          else if a = ''boot-on'' \<or> a = ''boot-off'' then boot_profile e (a = ''boot-on'') config
          else raise (Profile ''Unsupported Remote Assist action'')
      | JArr _ \<Rightarrow> raise (Raised ''TypeError'')
      | JObj _ \<Rightarrow> raise (Raised ''TypeError'')
      | _ \<Rightarrow> raise (Profile ''Unsupported Remote Assist action''))"

section \<open>Transactions\<close>

definition targets :: "host_file list" where
  "targets = [Config_file, Keyfile, Wg_file, Reply_file]"

definition contents :: "(host_file \<times> host_content option) list host_prog" where
  "contents = (\<lambda>s. (Inr (map (\<lambda>f. (f, ho_files s f)) targets), s))"

definition tunnel_actions :: "string list" where
  "tunnel_actions = [''enable'', ''disable'', ''restart'', ''delete-profile'', ''register-connect'']"

definition is_tunnel_action :: "json \<Rightarrow> ('s, host_fault, bool) prog" where
  "is_tunnel_action v = (case v of JStr a \<Rightarrow> ret (a \<in> set tunnel_actions)
     | JArr _ \<Rightarrow> raise (Raised ''TypeError'') | JObj _ \<Rightarrow> raise (Raised ''TypeError'') | _ \<Rightarrow> ret False)"

definition operator_recovery :: "string \<Rightarrow> host_fault" where
  "operator_recovery backup = Runtime (''VPN rollback requires operator recovery; root-only backup: '' @ backup)"

text \<open>The profile as NetworkManager had it: loaded again, and up or down as it was.\<close>

definition restore_tunnel :: "host_env \<Rightarrow> host_content option \<Rightarrow> bool \<Rightarrow> bool \<Rightarrow> unit host_prog" where
  "restore_tunnel e before_key active changed =
     (if before_key \<noteq> None then
        andThen (run e True nmcli_load) (\<lambda>_.
        andThen (run e active (if active then nmcli_up else [''nmcli'', ''--wait'', ''15'', ''connection'', ''down'', profile_name])) (\<lambda>_.
          ret ()))
      else if changed then andThen (run e False nmcli_delete) (\<lambda>_. ret ()) else ret ())"

definition undo_request ::
    "host_env \<Rightarrow> json \<Rightarrow> (host_file \<times> host_content option) list \<Rightarrow> bool \<Rightarrow> string \<Rightarrow> host_fault \<Rightarrow> 'a host_prog" where
  "undo_request e action saved active backup f =
     andThen contents (\<lambda>after.
     andThen (restore_files e saved) (\<lambda>_.
     andThen (if after \<noteq> saved then ret True else is_tunnel_action action) (\<lambda>restore.
     andThen (if restore
              then handling (restore_tunnel e (Option.bind (map_of saved Keyfile) id) active (after \<noteq> saved))
                     (\<lambda>_. raise (operator_recovery backup))
              else ret ()) (\<lambda>_.
       raise (case f of Raised _ \<Rightarrow> Runtime ''VPN operation failed; previous profile restored'' | _ \<Rightarrow> f)))))"

definition guarded_process ::
    "host_env \<Rightarrow> (string \<times> json) list \<Rightarrow> (string \<times> json) list \<Rightarrow> (string \<times> json) list host_prog" where
  "guarded_process e config request =
     andThen contents (\<lambda>saved.
     andThen (tunnel_active e False) (\<lambda>active.
     andThen (backup_profile e) (\<lambda>backup.
       handling (andThen (process e config request) (\<lambda>candidate.
                 andThen (replace_file e Config_file (Data (JObj candidate))) (\<lambda>_. ret candidate)))
         (undo_request e (dget request ''action'' JNull) saved active backup))))"

definition transactional_process ::
    "host_env \<Rightarrow> (string \<times> json) list \<Rightarrow> json \<Rightarrow> (string \<times> json) list host_prog" where
  "transactional_process e config request = (case request of
     JObj kvs \<Rightarrow>
       if dget kvs ''action'' JNull = JStr ''generate-identity''
       then andThen (process e config kvs) (\<lambda>candidate.
            andThen (replace_file e Config_file (Data (JObj candidate))) (\<lambda>_. ret candidate))
       else guarded_process e config kvs
   | _ \<Rightarrow> raise (Raised ''AttributeError''))"

section \<open>The status file\<close>

text \<open>Whether a profile is the one of a reply.\<close>

definition registered_as :: "(string \<times> json) list \<Rightarrow> (string \<times> json) list \<Rightarrow> bool" where
  "registered_as p r \<longleftrightarrow> list_all (\<lambda>(k, v). py_eq (dget p k JNull) (at_key r v))
     [(''address'', ''address''), (''endpoint'', ''endpoint''), (''public_key'', ''server_public_key''),
      (''allowed_ips'', ''allowed_ips'')]"

definition automatic_status :: "host_env \<Rightarrow> (string \<times> json) list \<Rightarrow> (string \<times> json) list host_prog" where
  "automatic_status e config =
     andThen (enrolment_status e) (\<lambda>value.
     andThen (exists_file Identity_file) (\<lambda>present.
       if \<not> present \<and> at_key value ''state'' = JStr ''reply_cached''
       then ret [(''ready'', JBool False), (''state'', JStr ''invalid_reply'')]
       else if \<not> present then ret value
       else handling
         (andThen identity_public (\<lambda>public.
          andThen (cached_response (case public of None \<Rightarrow> [] | Some p \<Rightarrow> p)) (\<lambda>response.
          andThen (if truthy (config_profile config) then ret (config_profile config) else ret (JObj [])) (\<lambda>profile.
            case response of None \<Rightarrow> ret value
            | Some r \<Rightarrow> (case profile of JObj p \<Rightarrow>
                ret (if registered_as p r then dputs [(''ready'', JBool False), (''state'', JStr ''registered'')] value else value)
              | _ \<Rightarrow> raise (Raised ''AttributeError''))))))
         (\<lambda>f. case f of Profile _ \<Rightarrow> ret (dputs [(''ready'', JBool False), (''state'', JStr ''invalid_reply'')] value)
            | _ \<Rightarrow> raise f)))"

definition number_text :: "string \<Rightarrow> ('s, host_fault, int) prog" where
  "number_text s = need (int_of_text s) (Raised ''ValueError'')"

fun last_handshake :: "string list \<Rightarrow> int \<Rightarrow> ('s, host_fault, int) prog" where
  "last_handshake [] h = ret h"
| "last_handshake (l # ls) h = (case words_of l of
     [_, b] \<Rightarrow> andThen (number_text b) (\<lambda>n. last_handshake ls (max h n)) | _ \<Rightarrow> last_handshake ls h)"

fun transferred :: "string list \<Rightarrow> int \<times> int \<Rightarrow> ('s, host_fault, int \<times> int) prog" where
  "transferred [] x = ret x"
| "transferred (l # ls) x = (case words_of l of
     [_, b, c] \<Rightarrow> andThen (number_text b) (\<lambda>m. andThen (number_text c) (\<lambda>n. transferred ls (fst x + m, snd x + n)))
   | _ \<Rightarrow> transferred ls x)"

definition tunnel_state :: "bool \<Rightarrow> bool \<Rightarrow> bool \<Rightarrow> int \<Rightarrow> int \<Rightarrow> string" where
  "tunnel_state enabled profile active handshake tick =
     (if enabled then
        if active then (if handshake \<noteq> 0 \<and> tick - handshake < 180 then ''connected'' else ''waiting_handshake'')
        else if \<not> profile then ''setup_required'' else ''disconnected''
      else if active then ''stop_failed'' else ''off'')"

definition usb_drivers :: "string list" where
  "usb_drivers = [''rndis_host'', ''cdc_ether'', ''cdc_ncm'', ''ipheth'']"

definition usb_port :: "net_device \<Rightarrow> bool" where
  "usb_port d \<longleftrightarrow> list_ex (\<lambda>p. p \<in> {''1-1.1'', ''2-1''}) (nd_parents d) \<and> nd_driver d \<in> set usb_drivers"

definition port_status :: "host_env \<Rightarrow> net_device \<Rightarrow> json host_prog" where
  "port_status e d =
     andThen (run e False [''nmcli'', ''-g'', ''IP4.ADDRESS'', ''device'', ''show'', nd_name d]) (\<lambda>addr.
     andThen (run e False [''nmcli'', ''-g'', ''IP4.GATEWAY'', ''device'', ''show'', nd_name d]) (\<lambda>gateway.
       ret (JObj [(''interface'', JStr (nd_name d)), (''driver'', JStr (nd_driver d)),
                  (''address'', JStr addr), (''gateway'', JStr gateway)])))"

text \<open>The default routes in the order of their metrics; a metric that is no number cannot be sorted.\<close>

definition metric_of :: "json \<Rightarrow> ('s, host_fault, int \<times> json) prog" where
  "metric_of v = (case v of JObj kvs \<Rightarrow>
       (case number_of (dget kvs ''metric'' (JInt 0)) of Some n \<Rightarrow> ret (n, v) | None \<Rightarrow> raise (Raised ''TypeError''))
   | _ \<Rightarrow> raise (Raised ''AttributeError''))"

definition uplink_of :: "json \<Rightarrow> ('s, host_fault, json) prog" where
  "uplink_of v = (case v of JArr vs \<Rightarrow>
       andThen (mapM metric_of vs) (\<lambda>xs. ret (case sort_key fst xs of
         (_, JObj kvs) # _ \<Rightarrow> dget kvs ''dev'' JNull | _ \<Rightarrow> JNull))
   | _ \<Rightarrow> raise (Raised ''AttributeError''))"

definition tunnel_facts :: "host_env \<Rightarrow> bool \<Rightarrow> (int \<times> int \<times> int) host_prog" where
  "tunnel_facts e active = (if \<not> active then ret (0, 0, 0)
     else andThen (run e False [''wg'', ''show'', interface_name, ''latest-handshakes'']) (\<lambda>out.
          andThen (last_handshake (splitlines out) 0) (\<lambda>h.
          andThen (run e False [''wg'', ''show'', interface_name, ''transfer'']) (\<lambda>out.
          andThen (transferred (splitlines out) (0, 0)) (\<lambda>x. ret (h, x))))))"

definition profile_view :: "json \<Rightarrow> ('s, host_fault, json \<times> json \<times> json) prog" where
  "profile_view profile = (if \<not> truthy profile then ret (JNull, JNull, JNull)
     else case profile of JObj p \<Rightarrow>
       andThen (profile_ip profile) (\<lambda>ip.
         ret (JObj (public_profile p), JStr (''https://'' @ address_text6 ip @ ''/''), JStr (address_text6 ip)))
     | _ \<Rightarrow> raise (Raised ''AttributeError''))"

definition snapshot_value :: "host_env \<Rightarrow> (string \<times> json) list \<Rightarrow> json host_prog" where
  "snapshot_value e config =
     andThen (host_clock e) (\<lambda>tick.
     andThen (if he_wg e then tunnel_active e False else ret False) (\<lambda>active.
     andThen (tunnel_facts e active) (\<lambda>(handshake, rx, tx).
     andThen (at_item config ''enabled'') (\<lambda>enabled.
     andThen (mapM (port_status e) (filter usb_port (he_nets e))) (\<lambda>ports.
     andThen (run e True [''ip'', ''-j'', ''-4'', ''route'', ''show'', ''default'']) (\<lambda>out.
     andThen (need (he_loads e out) (Raised ''ValueError'')) (\<lambda>routes.
     andThen (uplink_of routes) (\<lambda>uplink.
     andThen (at_item config ''autostart'') (\<lambda>autostart.
     andThen (profile_view (config_profile config)) (\<lambda>(profile, url, ip).
     andThen (exists_file Keyfile) (\<lambda>key.
     andThen (exists_file Wg_file) (\<lambda>conf.
     andThen identity_public (\<lambda>public.
     andThen (automatic_status e config) (\<lambda>auto.
       ret (JObj [(''installed'', JBool True), (''updated_at'', JInt tick), (''enabled'', enabled), (''autostart'', autostart),
         (''profile'', profile),
         (''state'', JStr (tunnel_state (truthy enabled) (truthy (config_profile config)) active handshake tick)),
         (''last_handshake'', if handshake = 0 then JNull else JInt handshake), (''rx_bytes'', JInt rx), (''tx_bytes'', JInt tx),
         (''wan'', JArr ports), (''uplink'', uplink), (''url'', url), (''last_result'', dget config ''last_result'' JNull),
         (''wireguard_installed'', JBool (he_wg e)), (''configuration_present'', JBool (key \<or> conf)),
         (''device_name'', JStr (he_hostname e)), (''vpn_ip'', ip),
         (''enrollment'', case public of None \<Rightarrow> JNull | Some p \<Rightarrow> JObj p), (''auto_enrollment'', JObj auto)])))))))))))))))"

definition snapshot :: "host_env \<Rightarrow> (string \<times> json) list \<Rightarrow> unit host_prog" where
  "snapshot e config = andThen (snapshot_value e config) (\<lambda>v. replace_file e Status_file (Data v))"

section \<open>One run\<close>

definition boot_step :: "host_env \<Rightarrow> (string \<times> json) list \<Rightarrow> (string \<times> json) list host_prog" where
  "boot_step e config =
     andThen (at_item config ''autostart'') (\<lambda>autostart.
       if truthy autostart \<and> truthy (config_profile config)
       then transactional_process e config (JObj [(''action'', JStr ''enable'')])
       else andThen (ret (dput ''enabled'' (JBool False) config)) (\<lambda>updated.
            andThen (at_item config ''profile'') (\<lambda>profile.
            andThen (if truthy profile then install_profile e updated else ret ()) (\<lambda>_.
            andThen (replace_file e Config_file (Data (JObj updated))) (\<lambda>_. ret updated)))))"

definition result_json :: "bool \<Rightarrow> string \<Rightarrow> json \<Rightarrow> json" where
  "result_json ok message request_id = JObj [(''ok'', JBool ok), (''message'', JStr message), (''request_id'', request_id)]"

text \<open>The request's outcome: the configuration from then on, and the message for the one who asked.\<close>

definition read_request :: "host_env \<Rightarrow> json host_prog" where
  "read_request e = andThen (require (he_request_size e \<le> 20000) (Profile ''Request is too large'')) (\<lambda>_. load_json Request_file)"

definition answer_request :: "host_env \<Rightarrow> (string \<times> json) list \<Rightarrow> ((string \<times> json) list \<times> bool \<times> string \<times> json) host_prog" where
  "answer_request e config =
     (let failed = (\<lambda>request f. ret (config, False,
              (case f of Profile m \<Rightarrow> m | Runtime m \<Rightarrow> m | Raised _ \<Rightarrow> ''Host operation failed''),
              (case request of JObj kvs \<Rightarrow> dget kvs ''request_id'' JNull | _ \<Rightarrow> JNull)))
      in andThen (handling (andThen (read_request e) (\<lambda>v. ret (Inr v))) (\<lambda>f. ret (Inl f))) (\<lambda>r. case r of
           Inl f \<Rightarrow> failed (JObj []) f
         | Inr request \<Rightarrow>
             handling (andThen (transactional_process e config request) (\<lambda>c.
               ret (c, True, ''Settings applied'', case request of JObj kvs \<Rightarrow> dget kvs ''request_id'' JNull | _ \<Rightarrow> JNull)))
               (failed request)))"

definition action_step :: "host_env \<Rightarrow> (string \<times> json) list \<Rightarrow> (string \<times> json) list host_prog" where
  "action_step e config =
     andThen (answer_request e config) (\<lambda>(c, ok, message, request_id).
     andThen (ret (dput ''last_result'' (result_json ok message request_id) c)) (\<lambda>updated.
     andThen (replace_file e Config_file (Data (JObj updated))) (\<lambda>_.
     andThen (unlink_file e Request_file) (\<lambda>_. ret updated))))"

definition assist_main :: "host_env \<Rightarrow> bool \<Rightarrow> bool \<Rightarrow> unit host_prog" where
  "assist_main e action boot =
     andThen read_config (\<lambda>config.
     andThen (if boot then boot_step e config else ret config) (\<lambda>config.
     andThen (exists_file Request_file) (\<lambda>present.
     andThen (if action \<and> present then action_step e config else ret config) (\<lambda>config.
       snapshot e config))))"

end
