(* ===== verification/Assist_Safety.thy ===== *)
theory Assist_Safety
  imports Assist_Host
begin

text \<open>
  How the steps of the host's program change its files, what a checked profile holds, and which networks
  the routes of an enabled profile are kept apart from.
\<close>

section \<open>Files\<close>

lemma wp_run_tool [wp_simps]:
  "wp (run_tool e args input) Q R s =
     (let t = s\<lparr>ho_steps := Suc (ho_steps s), ho_commands := ho_commands s @ [args]\<rparr>
      in case he_run e (ho_steps s) args input of Command_raises x \<Rightarrow> R (Raised x) t | Exit c out \<Rightarrow> Q (c, out) t)"
  by (simp add: wp_def run_tool_def Let_def split: command_end.split)

lemma wp_host_read [wp_simps]: "wp (host_read f) Q R s = Q (ho_files s f) s"
  by (simp add: wp_def host_read_def)

lemma wp_contents [wp_simps]: "wp contents Q R s = Q (map (\<lambda>f. (f, ho_files s f)) targets) s"
  by (simp add: wp_def contents_def)

abbreviation files_are :: "(host_file \<Rightarrow> host_content option) \<Rightarrow> host \<Rightarrow> bool" where
  "files_are F s \<equiv> ho_files s = F"

lemma run_files [safe_rules]: "safe (files_are F) (run_tool e args input)" "safe (files_are F) (run e b args)"
  by (auto simp: safe_def run_def wp_simps Let_def split: command_end.split)

lemma step_files: "safe (files_are F) (\<lambda>s. let t = s\<lparr>ho_steps := Suc (ho_steps s)\<rparr> in case he_disk e (ho_steps s) of
    Disk_ok \<Rightarrow> (Inr (x (ho_steps s)), t) | Disk_fails _ \<Rightarrow> (Inl f, t))"
  by (simp add: safe_def wp_def Let_def split: disk_end.split)

lemma copy_files_files: "safe (files_are F) (copy_files e fs)"
proof (induction fs)
  case Nil
  then show ?case by (simp add: safe_rules)
next
  case (Cons f fs)
  have "safe (files_are F) (host_read f)" by (simp add: safe_def wp_simps)
  with Cons show ?case by (auto intro!: safe_rules step_files [where x = "\<lambda>_. ()"])
qed

lemma backup_files: "safe (files_are F) (backup_profile e)"
  unfolding backup_profile_def
  by (intro safe_rules step_files copy_files_files safe_modify) simp

lemma active_files: "safe (files_are F) (tunnel_active e b)"
  unfolding tunnel_active_def by (intro safe_rules)

lemma tunnel_files: "safe (files_are F) (restore_tunnel e k active changed)"
  unfolding restore_tunnel_def by (intro safe_rules)

lemma wp_restore_file:
  "wp (restore_file e (f, c)) (\<lambda>_ t. ho_files t = (ho_files s)(f := c)) (\<lambda>x _. x = Raised ''OSError'') s"
  by (auto simp: restore_file_def unlink_file_def put_bytes_def wp_def Let_def fun_eq_iff
      split: option.split disk_end.split)

lemma wp_restore_files:
  "wp (restore_files e (map (\<lambda>f. (f, F f)) fs)) (\<lambda>_ t. ho_files t = (\<lambda>g. if g \<in> set fs then F g else ho_files s g))
     (\<lambda>x _. x = Raised ''OSError'') s"
proof (induction fs arbitrary: s)
  case (Cons f fs)
  show ?case
    unfolding list.map restore_files.simps
  proof (rule wp_then [OF wp_restore_file])
    fix u and t :: host assume t: "ho_files t = (ho_files s)(f := F f)"
    show "wp (restore_files e (map (\<lambda>f. (f, F f)) fs))
        (\<lambda>_ t. ho_files t = (\<lambda>g. if g \<in> set (f # fs) then F g else ho_files s g)) (\<lambda>x _. x = Raised ''OSError'') t"
      using Cons.IH [of t] by (rule wp_mono) (auto simp: t fun_eq_iff)
  qed simp
qed (simp add: wp_simps)

text \<open>Undoing a request puts back the four files unless a write of the undoing itself fails.\<close>

definition reported :: "host_fault \<Rightarrow> bool" where
  "reported f = (case f of Raised _ \<Rightarrow> False | _ \<Rightarrow> True)"

definition put_back :: "(host_file \<Rightarrow> host_content option) \<Rightarrow> host_fault \<Rightarrow> host \<Rightarrow> bool" where
  "put_back F f t \<longleftrightarrow> (reported f \<longrightarrow> (\<forall>x \<in> set targets. ho_files t x = F x))"

lemma put_back_raised [simp]: "put_back F (Raised x) t"
  by (simp add: put_back_def reported_def)

lemma files_put_back:
  assumes "\<And>G. safe (files_are G) m" and "\<forall>x \<in> set targets. ho_files t x = F x"
  shows "wp m (\<lambda>_ _. True) (put_back F) t"
proof -
  have "wp m (\<lambda>_. files_are (ho_files t)) (\<lambda>_. files_are (ho_files t)) t" using assms(1) by (simp add: safe_def)
  then show ?thesis by (rule wp_mono) (use assms(2) in \<open>simp_all add: put_back_def\<close>)
qed

lemma undo_puts_back:
  "wp (undo_request e action (map (\<lambda>f. (f, F f)) targets) active backup x) (\<lambda>_ _. True) (put_back F) s"
  unfolding undo_request_def wp_andThen [of contents] wp_contents
proof (rule wp_then [OF wp_restore_files])
  fix u and t :: host assume t: "ho_files t = (\<lambda>g. if g \<in> set targets then F g else ho_files s g)"
  let ?same = "map (\<lambda>f. (f, ho_files s f)) targets \<noteq> map (\<lambda>f. (f, F f)) targets"
  show "wp (andThen (if ?same then ret True else is_tunnel_action action) (\<lambda>restore.
     andThen (if restore
              then handling (restore_tunnel e (Option.bind (map_of (map (\<lambda>f. (f, F f)) targets) Keyfile) id) active ?same)
                     (\<lambda>_. raise (operator_recovery backup))
              else ret ()) (\<lambda>_.
       raise (case x of Raised _ \<Rightarrow> Runtime ''VPN operation failed; previous profile restored'' | _ \<Rightarrow> x))))
     (\<lambda>_ _. True) (put_back F) t"
    by (rule files_put_back)
      (auto simp: t is_tunnel_action_def intro!: safe_rules tunnel_files split: json.split)
qed simp

lemma wp_always: "(\<And>f t. R f t) \<Longrightarrow> wp m (\<lambda>_ _. True) R s"
  by (simp add: wp_def split: prod.split sum.split)

lemma guarded_puts_back: "wp (guarded_process e config request) (\<lambda>_ _. True) (put_back (ho_files s)) s"
  unfolding guarded_process_def wp_andThen [of contents] wp_contents
proof (rule wp_prefix [OF active_files [where F = "ho_files s"]])
  fix active and t :: host assume t: "files_are (ho_files s) t"
  show "wp (andThen (backup_profile e) (\<lambda>backup.
       handling (andThen (process e config request) (\<lambda>candidate.
                 andThen (replace_file e Config_file (Data (JObj candidate))) (\<lambda>_. ret candidate)))
         (undo_request e (dget request ''action'' JNull) (map (\<lambda>f. (f, ho_files s f)) targets) active backup)))
     (\<lambda>_ _. True) (put_back (ho_files s)) t"
    by (rule wp_prefix [OF backup_files t])
      (simp_all add: wp_handling wp_always undo_puts_back, simp add: put_back_def)
qed (simp_all add: put_back_def)

lemma wp_replace_file [wp_simps]:
  "wp (replace_file e f c) Q R s = (let t = s\<lparr>ho_steps := Suc (ho_steps s)\<rparr> in case he_disk e (ho_steps s) of
     Disk_ok \<Rightarrow> Q () (t\<lparr>ho_files := (ho_files s)(f := Some c)\<rparr>) | Disk_fails _ \<Rightarrow> R (Raised ''OSError'') t)"
  by (simp add: wp_def replace_file_def Let_def split: disk_end.split)

lemma wp_load_json [wp_simps]:
  "wp (load_json f) Q R s = (case ho_files s f of None \<Rightarrow> R (Raised ''FileNotFoundError'') s
     | Some (Bytes _) \<Rightarrow> R (Raised ''ValueError'') s | Some (Data v) \<Rightarrow> Q v s)"
  by (simp add: load_json_def wp_simps split: option.split host_content.split)

abbreviation targets_are :: "(host_file \<Rightarrow> host_content option) \<Rightarrow> host \<Rightarrow> bool" where
  "targets_are F s \<equiv> \<forall>x \<in> set targets. ho_files s x = F x"

lemma run_targets: "safe (targets_are F) (run_tool e args input)" "safe (targets_are F) (run e b args)"
  by (auto simp: safe_def run_def wp_simps Let_def split: command_end.split)

lemma replace_targets: "f \<notin> set targets \<Longrightarrow> safe (targets_are F) (replace_file e f c)"
  by (auto simp: safe_def wp_simps Let_def split: disk_end.split)

lemma picked_safe: "safe I (picked ks kvs)"
proof -
  have "safe I (mapM (\<lambda>k. andThen (at_item kvs k) (\<lambda>v. ret (k, v))) ks)"
    by (induction ks) (auto simp: at_item_def intro!: safe_rules)
  then show ?thesis by (simp add: picked_def)
qed

lemma profile_key_safe: "safe I (profile_key v label)"
  by (auto simp: profile_key_def intro!: safe_rules split: json.split option.split)

lemma request_safe: "safe I (registration_request v)"
  by (cases v) (auto simp: registration_request_def intro!: safe_rules profile_key_safe)

lemma reads_safe [safe_rules]:
  fixes f :: host_file
  shows "safe I (host_read f)" "safe I (exists_file f)" "safe I (load_json f)"
  by (simp_all add: safe_def exists_file_def wp_simps split: option.split host_content.split)

lemma identity_safe: "safe I identity_public" "safe I (own_serial e)"
  by (auto simp: identity_public_def saved_identity_def pick_of_def own_serial_def read_identity_def
      intro!: safe_rules picked_safe request_safe split: json.split)

lemma identity_targets: "safe (targets_are F) (ensure_identity e)"
  unfolding ensure_identity_def new_identity_def
  by (intro safe_rules identity_safe run_targets replace_targets request_safe) (simp_all add: targets_def)

section \<open>Networks\<close>

lemma floor_to_floor: "0 < k \<Longrightarrow> floor_to (k * j) (floor_to k x) = floor_to (k * j) x"
  by (simp add: floor_to_def div_mult2_eq)

lemma floor_to_power:
  assumes "p \<le> q" and "q \<le> n"
  shows "floor_to (2 ^ (n - p)) (floor_to (2 ^ (n - q)) x) = floor_to (2 ^ (n - p)) x"
proof -
  have "(2 :: nat) ^ (n - p) = 2 ^ (n - q) * 2 ^ (q - p)" using assms by (simp flip: power_add)
  then show ?thesis by (simp only: floor_to_floor zero_less_power zero_less_numeral)
qed

fun proper :: "network \<Rightarrow> bool" where
  "proper (Net4 n p) = (p \<le> 32)"
| "proper (Net6 n p) = (p \<le> 128)"

text \<open>Two networks with an address in common overlap in the sense of \<open>ipaddress\<close>.\<close>

lemma common_overlapping:
  assumes "member x a" and "member x b" and "proper a" and "proper b"
  shows "overlapping a b"
proof (cases a)
  case a: (Net4 n p)
  with assms obtain y m q where b: "x = Ip4 y" "b = Net4 m q" by (cases x; cases b) auto
  show ?thesis
  proof (cases "p \<le> q")
    case True
    then have "member (lowest b) a" using assms a b floor_to_power [of p q 32 y] by simp
    then show ?thesis by (simp add: overlapping_def)
  next
    case False
    then have "member (lowest a) b" using assms a b floor_to_power [of q p 32 y] by simp
    then show ?thesis by (simp add: overlapping_def)
  qed
next
  case a: (Net6 n p)
  with assms obtain y m q where b: "x = Ip6 y" "b = Net6 m q" by (cases x; cases b) auto
  show ?thesis
  proof (cases "p \<le> q")
    case True
    then have "member (lowest b) a" using assms a b floor_to_power [of p q 128 y] by simp
    then show ?thesis by (simp add: overlapping_def)
  next
    case False
    then have "member (lowest a) b" using assms a b floor_to_power [of q p 128 y] by simp
    then show ?thesis by (simp add: overlapping_def)
  qed
qed

lemma mask4_le: "mask4 m = Some p \<Longrightarrow> p \<le> 32"
  by (auto simp: mask4_def find_Some_iff)

lemma prefix_le: "prefix4 s = Some p \<Longrightarrow> p \<le> 32" "prefix6 s = Some p \<Longrightarrow> p \<le> 128"
  by (auto simp: prefix4_def prefix6_def dest: mask4_le split: if_splits option.splits)

lemma interface_proper: "ip_interface s = Some i \<Longrightarrow> proper (network_of i)"
  by (auto simp: ip_interface_def interface_with_def dest: prefix_le split: option.splits list.splits)

lemma network_proper: "ip_network s = Some n \<Longrightarrow> proper n" "strict_network s = Some n \<Longrightarrow> proper n"
  by (auto simp: ip_network_def strict_network_def dest: interface_proper split: option.splits if_splits)

section \<open>Routes\<close>

text \<open>The programs below read nothing of the state: what they end in holds of any state.\<close>

definition gives :: "('a \<Rightarrow> bool) \<Rightarrow> ('s, 'e, 'a) prog \<Rightarrow> bool" where
  "gives P m \<longleftrightarrow> (\<forall>s. wp m (\<lambda>a _. P a) (\<lambda>_ _. True) s)"

lemma gives_then: "gives P m \<Longrightarrow> (\<And>a. P a \<Longrightarrow> gives Q (f a)) \<Longrightarrow> gives Q (andThen m f)"
  unfolding gives_def wp_andThen by (blast intro: wp_mono)

lemma gives_any: "gives (\<lambda>_. True) m"
  by (simp add: gives_def wp_def split: prod.split sum.split)

lemma gives_skip:
  assumes "\<And>a. gives Q (f a)"
  shows "gives Q (andThen m f)"
  by (rule gives_then [OF gives_any]) (rule assms)

lemma gives_ret: "P a \<Longrightarrow> gives P (ret a)"
  by (simp add: gives_def wp_simps)

lemma gives_raise: "gives P (raise f)"
  by (simp add: gives_def wp_simps)

lemma gives_need: "gives (\<lambda>a. x = Some a) (need x f)"
  by (simp add: gives_def wp_simps split: option.split)

lemma gives_require: "gives (\<lambda>_. b) (require b f)"
  by (simp add: gives_def wp_simps)

lemma gives_Inr: "gives P m \<Longrightarrow> m s = (Inr a, t) \<Longrightarrow> P a"
  unfolding gives_def by (drule spec [of _ s]) (simp add: wp_def)

lemma gives_mapM: "(\<And>x. gives P (f x)) \<Longrightarrow> gives (\<lambda>ys. \<forall>y \<in> set ys. P y) (mapM f xs)"
proof (induction xs)
  case (Cons x xs)
  show ?case
    unfolding mapM.simps
    by (rule gives_then [OF Cons.prems], rule gives_then [OF Cons.IH]) (use Cons.prems in \<open>auto intro!: gives_ret\<close>)
qed (simp add: gives_ret)

lemma gives_mono: "gives P m \<Longrightarrow> (\<And>a. P a \<Longrightarrow> Q a) \<Longrightarrow> gives Q m"
  unfolding gives_def by (blast intro: wp_mono)

text \<open>The routes of a profile: the networks its text names.\<close>

definition routes_of :: "json \<Rightarrow> network list option" where
  "routes_of profile = (case jget profile ''allowed_ips'' of
     Some (JStr s) \<Rightarrow> those (map (\<lambda>x. strict_network (strip is_blank x)) (split_on (CHR '','') s)) | _ \<Rightarrow> None)"

text \<open>The networks of the appliance, in the output of its command at step \<open>k\<close>.\<close>

definition networks_in :: "host_env \<Rightarrow> string \<Rightarrow> network list \<Rightarrow> bool" where
  "networks_in e out protected \<longleftrightarrow>
     (\<exists>v. he_loads e out = Some v \<and> (\<exists>s t :: host. protected_networks v s = (Inr protected, t)))"

definition appliance_networks :: "host_env \<Rightarrow> nat \<Rightarrow> network list \<Rightarrow> bool" where
  "appliance_networks e k protected \<longleftrightarrow>
     (\<exists>out. he_run e k addresses_command [] = Exit 0 out \<and> networks_in e (strip is_blank out) protected)"

definition apart_from :: "json \<Rightarrow> network list \<Rightarrow> bool" where
  "apart_from profile protected \<longleftrightarrow> recovery_network \<in> set protected \<and> (\<exists>networks. routes_of profile = Some networks \<and>
     (\<forall>n \<in> set networks. \<forall>p \<in> set protected. \<not> (\<exists>a. member a n \<and> member a p)))"

text \<open>The routes were checked at a step from \<open>n\<close> on.\<close>

definition routes_apart :: "host_env \<Rightarrow> nat \<Rightarrow> json \<Rightarrow> host \<Rightarrow> bool" where
  "routes_apart e n profile s \<longleftrightarrow> (\<exists>k protected. n \<le> k \<and> k < ho_steps s \<and> appliance_networks e k protected \<and>
     apart_from profile protected)"

lemma item_of_gives: "gives (\<lambda>v. jget profile k = Some v) (item_of profile k)"
  by (cases profile) (auto simp: item_of_def at_item_def intro: gives_raise gives_need)

lemma split_field_gives:
  "gives (\<lambda>xs. \<exists>s. jget profile k = Some (JStr s) \<and> xs = map (strip is_blank) (split_on (CHR '','') s)) (split_field profile k)"
proof -
  have "gives (\<lambda>s. jget profile k = Some (JStr s)) (andThen (item_of profile k) text_value)"
    by (rule gives_then [OF item_of_gives]) (auto simp: text_value_def intro!: gives_ret gives_raise split: json.split)
  then show ?thesis unfolding split_field_def by (rule gives_then) (auto intro!: gives_ret)
qed

lemma check_networks_gives:
  "gives (\<lambda>_. \<forall>n \<in> set networks. \<forall>p \<in> set protected. \<not> overlapping n p) (check_networks protected profile networks)"
  unfolding check_networks_def
  by (rule gives_skip, rule gives_then [OF gives_require], rule gives_mono [OF gives_any]) (auto simp: list_ex_iff)

lemma check_routes_gives:
  "gives (\<lambda>_. \<exists>networks. routes_of profile = Some networks \<and>
     (\<forall>n \<in> set networks. \<forall>p \<in> set protected. \<not> overlapping n p)) (check_routes protected profile)"
  unfolding check_routes_def
proof (rule gives_then [OF split_field_gives], elim exE conjE, rule gives_then [OF gives_need])
  fix xs s networks
  assume "jget profile ''allowed_ips'' = Some (JStr s)" "xs = map (strip is_blank) (split_on (CHR '','') s)"
    "those (map strict_network xs) = Some networks"
  then have "routes_of profile = Some networks" by (simp add: routes_of_def comp_def)
  then show "gives (\<lambda>_. \<exists>networks. routes_of profile = Some networks \<and>
     (\<forall>n \<in> set networks. \<forall>p \<in> set protected. \<not> overlapping n p)) (check_networks protected profile networks)"
    by (intro gives_mono [OF check_networks_gives]) blast
qed

lemma device_networks_gives: "gives (\<lambda>ns. \<forall>n \<in> set ns. proper n) (device_networks v)"
proof -
  have "gives proper (device_network x)" for x
    unfolding device_network_def
    by (rule gives_skip, rule gives_skip) (rule gives_mono [OF gives_need], erule network_proper)
  then have "gives (\<lambda>ns. \<forall>n \<in> set ns. proper n) (mapM device_network xs)" for xs by (rule gives_mapM)
  then show ?thesis
    unfolding device_networks_def
    by (intro gives_skip) (auto intro!: gives_skip gives_ret)
qed

lemma protected_gives: "gives (\<lambda>ns. recovery_network \<in> set ns \<and> (\<forall>n \<in> set ns. proper n)) (protected_networks v)"
proof -
  have "gives (\<lambda>nss. \<forall>ns \<in> set nss. \<forall>n \<in> set ns. proper n) (mapM device_networks xs)" for xs
    by (rule gives_mapM) (rule device_networks_gives)
  note devices = this
  show ?thesis
    unfolding protected_networks_def
    by (rule gives_skip, rule gives_then [OF devices]) (auto intro!: gives_ret simp: recovery_network_def)
qed

lemma gives_conj: "gives P m \<Longrightarrow> gives Q m \<Longrightarrow> gives (\<lambda>a. P a \<and> Q a) m"
  unfolding gives_def wp_def by (force split: prod.splits sum.splits)

lemma gives_end: "gives (\<lambda>a. \<exists>s t. m s = (Inr a, t)) m"
  unfolding gives_def wp_def by (force split: prod.splits sum.splits)

lemma overlap_free:
  assumes "\<not> overlapping n p" and "proper n" and "proper p"
  shows "\<not> (\<exists>a. member a n \<and> member a p)"
  using common_overlapping assms by blast

lemma those_mem: "those xs = Some ys \<Longrightarrow> y \<in> set ys \<Longrightarrow> Some y \<in> set xs"
  by (induction xs arbitrary: ys) (auto split: option.splits)

lemma routes_proper: "routes_of profile = Some networks \<Longrightarrow> n \<in> set networks \<Longrightarrow> proper n"
  by (auto simp: routes_of_def dest!: those_mem dest: network_proper(2) [OF sym] split: option.splits json.splits)

lemma check_apart:
  "gives (\<lambda>_. \<exists>protected. networks_in e out protected \<and> apart_from profile protected)
     (andThen (need (he_loads e out) f) (\<lambda>v. andThen (protected_networks v) (\<lambda>protected. check_routes protected profile))
      :: unit host_prog)"
proof (rule gives_then [OF gives_need], rule gives_then [OF gives_conj [OF protected_gives gives_end]])
  fix v protected
  assume v: "he_loads e out = Some v"
    and p: "(recovery_network \<in> set protected \<and> (\<forall>n \<in> set protected. proper n)) \<and>
      (\<exists>s t :: host. protected_networks v s = (Inr protected, t))"
  have a: "networks_in e out protected" unfolding networks_in_def using v p by blast
  show "gives (\<lambda>_. \<exists>protected. networks_in e out protected \<and> apart_from profile protected) (check_routes protected profile)"
  proof (rule gives_mono [OF check_routes_gives], elim exE conjE)
    fix networks assume n: "routes_of profile = Some networks" "\<forall>n \<in> set networks. \<forall>p \<in> set protected. \<not> overlapping n p"
    have "\<forall>n \<in> set networks. \<forall>p \<in> set protected. \<not> (\<exists>a. member a n \<and> member a p)"
      using n(2) p routes_proper [OF n(1)] overlap_free by blast
    then have "apart_from profile protected" using n(1) p by (simp add: apart_from_def)
    with a show "\<exists>protected. networks_in e out protected \<and> apart_from profile protected" by blast
  qed
qed

section \<open>Steps\<close>

text \<open>
  What every step keeps when the commands are among those of \<open>A\<close>: the counter grows, the commands are
  recorded, the files change.
\<close>

definition stepwise :: "(string list \<Rightarrow> bool) \<Rightarrow> (host \<Rightarrow> bool) \<Rightarrow> bool" where
  "stepwise A I \<longleftrightarrow>
     (\<forall>s. I s \<longrightarrow> (\<forall>F. I (s\<lparr>ho_steps := Suc (ho_steps s), ho_files := F\<rparr>)) \<and> (\<forall>b. I (s\<lparr>ho_backups := b\<rparr>)) \<and>
       (\<forall>a. A a \<longrightarrow> I (s\<lparr>ho_steps := Suc (ho_steps s), ho_commands := ho_commands s @ [a]\<rparr>)))"

definition stepping :: "(string list \<Rightarrow> bool) \<Rightarrow> 'a host_prog \<Rightarrow> bool" where
  "stepping A m \<longleftrightarrow> (\<forall>I. stepwise A I \<longrightarrow> safe I m)"

named_theorems step_rules "introduction rules of the judgement stepping"

lemma stepping_still: "(\<And>I. safe I m) \<Longrightarrow> stepping A m"
  by (simp add: stepping_def)

lemma stepping_basic [step_rules]:
  "stepping A (ret a)" "stepping A (raise f)" "stepping A (require b f)" "stepping A (need x f)"
  by (simp_all add: stepping_def safe_rules)

lemma stepping_then [step_rules]:
  "stepping A m \<Longrightarrow> (\<And>a. stepping A (f a)) \<Longrightarrow> stepping A (andThen m f)"
  "stepping A m \<Longrightarrow> (\<And>x. stepping A (h x)) \<Longrightarrow> stepping A (handling m h)"
  by (simp_all add: stepping_def safe_rules)

lemma stepping_cases [step_rules]:
  "stepping A m \<Longrightarrow> stepping A n \<Longrightarrow> stepping A (if b then m else n)"
  "stepping A m \<Longrightarrow> (\<And>a. stepping A (f a)) \<Longrightarrow> stepping A (case x of None \<Rightarrow> m | Some a \<Rightarrow> f a)"
  by (simp_all split: option.split)

lemma stepping_same: "stepwise A I \<Longrightarrow> I s \<Longrightarrow> I (s\<lparr>ho_steps := Suc (ho_steps s)\<rparr>)"
proof -
  assume "stepwise A I" "I s"
  then have "I (s\<lparr>ho_steps := Suc (ho_steps s), ho_files := ho_files s\<rparr>)" unfolding stepwise_def by blast
  then show ?thesis by simp
qed

lemma stepping_tool [step_rules]: "A args \<Longrightarrow> stepping A (run_tool e args input)"
  by (auto simp: stepping_def safe_def wp_simps stepwise_def Let_def split: command_end.split)

lemma stepping_run [step_rules]: "A args \<Longrightarrow> stepping A (run e b args)"
  unfolding run_def by (intro step_rules)

lemma stepping_files [step_rules]:
  "stepping A (replace_file e f c)" "stepping A (put_bytes e f c)" "stepping A (unlink_file e f)"
  using stepping_same [of A]
  by (auto simp: stepping_def safe_def stepwise_def replace_file_def put_bytes_def unlink_file_def wp_def Let_def
      split: disk_end.split)

lemma stepping_reads [step_rules]:
  fixes f :: host_file
  shows "stepping A (host_read f)" "stepping A (exists_file f)" "stepping A (load_json f)"
  by (intro stepping_still reads_safe)+

lemma stepping_disk: "stepping A (\<lambda>s. let t = s\<lparr>ho_steps := Suc (ho_steps s)\<rparr> in case he_disk e (ho_steps s) of
    Disk_ok \<Rightarrow> (Inr (x (ho_steps s)), t) | Disk_fails _ \<Rightarrow> (Inl f, t))"
  using stepping_same [of A] by (auto simp: stepping_def safe_def wp_def Let_def split: disk_end.split)

lemma stepping_clock [step_rules]: "stepping A (host_clock e)"
  using stepping_same [of A] by (auto simp: stepping_def safe_def wp_def host_clock_def)

lemma stepping_copy: "stepping A (copy_files e fs)"
  by (induction fs) (auto intro!: step_rules stepping_disk [where x = "\<lambda>_. ()"])

lemma stepping_backup [step_rules]: "stepping A (backup_profile e)"
proof -
  have "stepping A (modify (\<lambda>s. s\<lparr>ho_backups := ho_backups s @ [x]\<rparr>))" for x
    by (auto simp: stepping_def safe_def wp_def modify_def stepwise_def)
  then show ?thesis unfolding backup_profile_def by (intro step_rules stepping_disk stepping_copy)
qed

lemma stepping_identity [step_rules]:
  "stepping A identity_public" "stepping A (own_serial e)" "stepping A saved_identity"
  by (simp_all add: stepping_still identity_safe saved_identity_def reads_safe)

text \<open>Every operation that installs or starts a profile has checked the routes of the one it ends with.\<close>

lemma profile_dput: "config_profile (dput ''enabled'' v c) = config_profile c"
  "config_profile (dput ''profile'' v c) = v"
  "config_profile (dputs [(''profile'', v), (''enabled'', w)] c) = v"
  by (simp_all add: config_profile_def dget_def map_of_dput dputs_def)

lemma require_profile_gives: "gives (\<lambda>p. p = config_profile c) (require_profile c)"
  unfolding require_profile_def by (rule gives_skip) (simp add: gives_ret)


lemma value_safe:
  "safe I (item_of v k)" "safe I (text_value v)" "safe I (text_field kvs k)" "safe I (added_text v k)" "safe I (at_item kvs k)"
  "safe I (split_field v k)" "safe I (profile_ip v)"
  by (auto simp: item_of_def text_value_def text_field_def added_text_def at_item_def split_field_def profile_ip_def
      intro!: safe_rules split: json.split)

lemma profile_safe: "safe I (validate_profile v)"
  by (auto simp: validate_profile_def vpn_address_def peer_networks_def endpoint_value_def keepalive_value_def
      intro!: safe_rules value_safe profile_key_safe split: json.split sum.split)

lemma response_safe: "safe I (registration_response v)"
  by (auto simp: registration_response_def checked_address_def checked_networks_def
      intro!: safe_rules value_safe profile_safe picked_safe request_safe split: json.split)

lemma mapM_safe: "(\<And>x. safe I (f x)) \<Longrightarrow> safe I (mapM f xs)"
  by (induction xs) (auto intro!: safe_rules)

lemma networks_safe: "safe I (protected_networks v)"
  by (auto simp: protected_networks_def device_networks_def device_network_def elements_def
      intro!: safe_rules mapM_safe value_safe split: json.split)

lemma routes_safe: "safe I (check_routes protected profile)"
  unfolding check_routes_def check_networks_def by (intro safe_rules value_safe)

lemma stepping_values [step_rules]:
  fixes A :: "string list \<Rightarrow> bool"
  shows "stepping A (item_of v k)" "stepping A (added_text v k)" "stepping A (at_item kvs k)" "stepping A (validate_profile v)"
    "stepping A (registration_response v)" "stepping A (protected_networks v)" "stepping A (check_routes ns p)"
    "stepping A (registration_request v)"
  by (simp_all add: stepping_still value_safe profile_safe response_safe networks_safe routes_safe request_safe)

lemma keyfile_safe: "safe I (keyfile c)" "safe I (wireguard_file p)"
  unfolding keyfile_def wireguard_file_def by (intro safe_rules value_safe)+

lemma stepping_install [step_rules]:
  "A nmcli_load \<Longrightarrow> stepping A (install_profile e c)" "stepping A (install_recovery_config e p)"
  unfolding install_profile_def install_recovery_config_def by (intro step_rules stepping_still keyfile_safe; assumption)+

lemma stepping_restore: "stepping A (restore_files e xs)"
  by (induction xs) (auto simp: restore_file_def intro!: step_rules split: option.split)

lemma stepping_new_identity [step_rules]:
  "A [''wg'', ''genkey''] \<Longrightarrow> A public_key_command \<Longrightarrow> stepping A (ensure_identity e)"
  unfolding ensure_identity_def new_identity_def by (intro step_rules; assumption)

lemma stepping_cached [step_rules]: "stepping A (cached_response p)"
  unfolding cached_response_def by (intro step_rules)

lemma stepping_transport [step_rules]: "stepping A read_transport"
  by (auto simp: read_transport_def intro!: step_rules split: option.split host_content.split json.split)

lemma stepping_enrolment [step_rules]: "stepping A (enrolment_status e)"
  by (auto simp: enrolment_status_def intro!: step_rules split: option.split host_fault.split)

lemma stepping_request [step_rules]: "(\<And>x. A x) \<Longrightarrow> stepping A (request_registration e p)"
  unfolding request_registration_def by (intro step_rules; assumption)

lemma stepping_matches [step_rules]: "stepping A (device_matches e r p)"
  unfolding device_matches_def by (intro step_rules)

lemma stepping_routes: "A addresses_command \<Longrightarrow> stepping A (validate_routes e p)"
  unfolding validate_routes_def by (intro step_rules; assumption)

lemma stepping_registered [step_rules]: "(\<And>x. A x) \<Longrightarrow> stepping A (install_registration e b u p)"
  unfolding install_registration_def by (intro step_rules stepping_restore; assumption)

lemma stepping_register: "(\<And>x. A x) \<Longrightarrow> stepping A (register e c v)"
  unfolding register_def by (intro step_rules stepping_routes; assumption)

lemma stepping_automatic: "(\<And>x. A x) \<Longrightarrow> stepping A (automatic_registration e c)"
  unfolding automatic_registration_def by (intro step_rules stepping_register; assumption)

section \<open>Checked routes\<close>

abbreviation any_command :: "string list \<Rightarrow> bool" where
  "any_command a \<equiv> True"

lemma stepwise_later: "stepwise A (\<lambda>s. n \<le> ho_steps s)"
  by (simp add: stepwise_def)

lemma stepwise_apart: "stepwise A (routes_apart e n p)"
  by (auto simp: stepwise_def routes_apart_def less_Suc_eq)

lemma gives_safe: "gives P m \<Longrightarrow> safe I m \<Longrightarrow> I s \<Longrightarrow> wp m (\<lambda>a t. P a \<and> I t) (\<lambda>_ _. True) s"
  unfolding gives_def safe_def wp_def by (force split: prod.splits sum.splits)

lemma wp_run_gives:
  "wp (run e True args) (\<lambda>out t. ho_steps t = Suc (ho_steps s) \<and>
     (\<exists>raw. he_run e (ho_steps s) args [] = Exit 0 raw \<and> out = strip is_blank raw)) (\<lambda>_ _. True) s"
  by (simp add: run_def wp_simps Let_def split: command_end.split)

lemma wp_validate_routes:
  assumes "n \<le> ho_steps s"
  shows "wp (validate_routes e p) (\<lambda>_. routes_apart e n p) (\<lambda>_ _. True) s"
  unfolding validate_routes_def
proof (rule wp_then [OF wp_run_gives], elim conjE exE)
  fix out raw and t :: host
  assume t: "ho_steps t = Suc (ho_steps s)" and raw: "he_run e (ho_steps s) addresses_command [] = Exit 0 raw"
    and out: "out = strip is_blank raw"
  let ?rest = "andThen (need (he_loads e out) (Raised ''ValueError'')) (\<lambda>v. andThen (protected_networks v) (\<lambda>protected.
       check_routes protected p)) :: unit host_prog"
  have "safe (\<lambda>s'. Suc (ho_steps s) \<le> ho_steps s') ?rest" by (intro safe_rules networks_safe routes_safe)
  from gives_safe [OF check_apart this] t
  have "wp ?rest (\<lambda>a t. (\<exists>protected. networks_in e out protected \<and> apart_from p protected) \<and>
      Suc (ho_steps s) \<le> ho_steps t) (\<lambda>_ _. True) t" by simp
  then show "wp ?rest (\<lambda>_. routes_apart e n p) (\<lambda>_ _. True) t"
  proof (rule wp_mono)
    fix a and u :: host
    assume u: "(\<exists>protected. networks_in e out protected \<and> apart_from p protected) \<and> Suc (ho_steps s) \<le> ho_steps u"
    then obtain protected where "appliance_networks e (ho_steps s) protected" "apart_from p protected"
      using raw out by (auto simp: appliance_networks_def)
    then show "routes_apart e n p u" using assms u unfolding routes_apart_def by auto
  qed simp
qed simp

text \<open>The program ends with a configuration whose routes it checked at a step from \<open>n\<close> on.\<close>

definition checks :: "host_env \<Rightarrow> nat \<Rightarrow> (string \<times> json) list host_prog \<Rightarrow> bool" where
  "checks e n m \<longleftrightarrow> (\<forall>s. n \<le> ho_steps s \<longrightarrow> wp m (\<lambda>c. routes_apart e n (config_profile c)) (\<lambda>_ _. True) s)"

lemma checks_then:
  assumes "gives P m" and "stepping any_command m" and "\<And>a. P a \<Longrightarrow> checks e n (f a)"
  shows "checks e n (andThen m f)"
  unfolding checks_def
proof (intro allI impI)
  fix s :: host assume "n \<le> ho_steps s"
  moreover have "safe (\<lambda>s. n \<le> ho_steps s) m" using assms(2) stepwise_later by (simp add: stepping_def)
  ultimately have "wp m (\<lambda>a t. P a \<and> n \<le> ho_steps t) (\<lambda>_ _. True) s"
    using gives_safe [OF assms(1), where I = "\<lambda>s. n \<le> ho_steps s"] by blast
  then show "wp (andThen m f) (\<lambda>c. routes_apart e n (config_profile c)) (\<lambda>_ _. True) s"
    by (rule wp_then) (use assms(3) in \<open>simp_all add: checks_def\<close>)
qed

lemma checks_skip:
  "stepping any_command m \<Longrightarrow> (\<And>a. checks e n (f a)) \<Longrightarrow> checks e n (andThen m f)"
  by (rule checks_then [OF gives_any])

lemma checks_routes:
  assumes "stepping any_command m" and "gives (\<lambda>c. config_profile c = p) m"
  shows "checks e n (andThen (validate_routes e p) (\<lambda>_. m))"
  unfolding checks_def
proof (intro allI impI)
  fix s :: host assume s: "n \<le> ho_steps s"
  show "wp (andThen (validate_routes e p) (\<lambda>_. m)) (\<lambda>c. routes_apart e n (config_profile c)) (\<lambda>_ _. True) s"
  proof (rule wp_then [OF wp_validate_routes [OF s]])
    fix u and t :: host assume t: "routes_apart e n p t"
    have "safe (routes_apart e n p) m" using assms(1) stepwise_apart by (simp add: stepping_def)
    from gives_safe [OF assms(2) this t]
    show "wp m (\<lambda>c. routes_apart e n (config_profile c)) (\<lambda>_ _. True) t" by (rule wp_mono) simp_all
  qed simp
qed

text \<open>The profile of the configuration a program ends with.\<close>

lemma gives_profile: "config_profile c = p \<Longrightarrow> gives (\<lambda>c. config_profile c = p) (ret c)"
  by (rule gives_ret)

lemma stepping_require_profile [step_rules]: "stepping A (require_profile c)"
  unfolding require_profile_def by (intro step_rules)

lemma enable_checks: "checks e n (enable_profile e c)"
  unfolding enable_profile_def andThen_ret
  by (rule checks_then [OF require_profile_gives stepping_require_profile], rule checks_routes)
    (intro step_rules TrueI | intro gives_skip gives_profile | simp add: profile_dput)+

lemma restart_checks: "checks e n (restart_profile e c)"
  unfolding restart_profile_def andThen_ret
  by (rule checks_then [OF require_profile_gives stepping_require_profile], rule checks_routes)
    (intro step_rules TrueI | intro gives_skip gives_profile | simp add: profile_dput)+

lemma save_checks: "checks e n (save_profile e c v)"
  unfolding save_profile_def andThen_ret
  by (rule checks_skip, (intro step_rules; simp), rule checks_skip, (intro step_rules; simp),
      rule checks_skip, (intro step_rules; simp), rule checks_skip, (intro step_rules; simp), rule checks_routes)
    (intro step_rules TrueI | intro gives_skip gives_profile | simp add: profile_dput)+

lemma register_checks: "checks e n (register e c v)"
  unfolding register_def andThen_ret
  by (rule checks_routes | rule checks_skip, (intro step_rules; simp)[1])+
    (intro step_rules TrueI | intro gives_skip gives_profile | simp add: profile_dput)+

lemma automatic_checks: "checks e n (automatic_registration e c)"
  unfolding automatic_registration_def
  by (rule register_checks | rule checks_skip, (intro step_rules; simp)[1])+

lemma connect_checks: "checks e n (andThen (register e c v) (enable_profile e))"
  by (rule checks_skip [OF stepping_register enable_checks]) simp

definition installing_actions :: "string list" where
  "installing_actions = [''register'', ''register-connect'', ''auto-register'', ''restart'', ''save'', ''enable'']"

lemma process_checks:
  assumes "dget request ''action'' JNull = JStr a" and "a \<in> set installing_actions"
  shows "checks e n (process e c request)"
proof -
  have "a = ''register'' \<or> a = ''register-connect'' \<or> a = ''auto-register'' \<or> a = ''restart'' \<or> a = ''save'' \<or> a = ''enable''"
    using assms(2) by (simp add: installing_actions_def)
  then show ?thesis
    by (elim disjE) (simp_all add: process_def assms(1) register_checks connect_checks automatic_checks restart_checks
      save_checks enable_checks)
qed

section \<open>The other requests\<close>

text \<open>No other request starts the tunnel or puts another profile in the configuration.\<close>

abbreviation not_up :: "string list \<Rightarrow> bool" where
  "not_up a \<equiv> a \<noteq> nmcli_up"

lemma not_up_commands [simp]:
  "nmcli_load \<noteq> nmcli_up" "nmcli_delete \<noteq> nmcli_up" "nmcli_down \<noteq> nmcli_up" "public_key_command \<noteq> nmcli_up"
  "[''wg'', ''genkey''] \<noteq> nmcli_up" "[''wg'', ''show'', ''interfaces''] \<noteq> nmcli_up"
  "[''nmcli'', ''connection'', ''down'', ''uuid'', profile_uuid] \<noteq> nmcli_up"
  by (simp_all add: nmcli_load_def nmcli_delete_def nmcli_down_def nmcli_up_def public_key_command_def)

lemma stepping_active [step_rules]: "A [''wg'', ''show'', ''interfaces''] \<Longrightarrow> stepping A (tunnel_active e b)"
  unfolding tunnel_active_def by (intro step_rules; assumption)

lemma stepping_others [step_rules]:
  "stepping not_up (delete_profile e c)" "stepping not_up (disable_profile e c)" "stepping not_up (boot_profile e b c)"
  unfolding delete_profile_def disable_profile_def boot_profile_def by (intro step_rules; simp)+

lemma others_profile:
  "gives (\<lambda>c'. config_profile c' \<in> {config_profile c, JNull}) (delete_profile e c)"
  "gives (\<lambda>c'. config_profile c' \<in> {config_profile c, JNull}) (disable_profile e c)"
  "gives (\<lambda>c'. config_profile c' \<in> {config_profile c, JNull}) (boot_profile e b c)"
  unfolding delete_profile_def disable_profile_def boot_profile_def andThen_ret
  by (auto intro!: gives_skip gives_ret simp: config_profile_def dget_def map_of_dput dputs_def)

lemma process_others:
  assumes "\<And>a. dget request ''action'' JNull = JStr a \<Longrightarrow> a \<notin> set installing_actions"
  shows "stepping not_up (process e c request)"
    and "gives (\<lambda>c'. config_profile c' \<in> {config_profile c, JNull}) (process e c request)"
proof -
  have same: "gives (\<lambda>c'. config_profile c' \<in> {config_profile c, JNull}) (andThen m (\<lambda>_. ret c))" for m :: "'b host_prog"
    by (intro gives_skip gives_ret) simp
  have keeps: "stepping not_up (andThen (ensure_identity e) (\<lambda>_. ret c))" by (intro step_rules; simp)
  show "stepping not_up (process e c request)"
  proof (cases "dget request ''action'' JNull")
    case (JStr a)
    with assms [of a] show ?thesis by (simp add: process_def installing_actions_def stepping_others keeps stepping_basic)
  qed (simp_all add: process_def stepping_basic)
  show "gives (\<lambda>c'. config_profile c' \<in> {config_profile c, JNull}) (process e c request)"
  proof (cases "dget request ''action'' JNull")
    case (JStr a)
    with assms [of a] show ?thesis
      by (simp add: process_def installing_actions_def others_profile [simplified] same [simplified] gives_raise)
  qed (simp_all add: process_def gives_raise)
qed

text \<open>The tunnel was not started after the first \<open>n\<close> commands.\<close>

definition not_started :: "nat \<Rightarrow> host \<Rightarrow> bool" where
  "not_started n s \<longleftrightarrow> n \<le> length (ho_commands s) \<and> nmcli_up \<notin> set (drop n (ho_commands s))"

lemma stepwise_not_started: "stepwise not_up (not_started n)"
  by (auto simp: stepwise_def not_started_def)

lemma process_quiet:
  assumes "\<And>a. dget request ''action'' JNull = JStr a \<Longrightarrow> a \<notin> set installing_actions"
    and "process e c request s = (Inr c', t)"
  shows "config_profile c' \<in> {config_profile c, JNull}" and "nmcli_up \<notin> set (drop (length (ho_commands s)) (ho_commands t))"
proof -
  have "safe (not_started (length (ho_commands s))) (process e c request)"
    using process_others(1) [OF assms(1)] stepwise_not_started by (simp add: stepping_def)
  then show "nmcli_up \<notin> set (drop (length (ho_commands s)) (ho_commands t))"
    using assms(2) by (force simp: safe_def wp_def not_started_def)
  show "config_profile c' \<in> {config_profile c, JNull}"
    by (rule gives_Inr [OF process_others(2) [OF assms(1)] assms(2)])
qed

end
