(* ===== verification/Assist_Keyfile.thy ===== *)
theory Assist_Keyfile
  imports Assist_Safety
begin

text \<open>
  What a checked profile holds, and the lines of the file that NetworkManager gets for it: none of the
  profile's values can add a line or a section.
\<close>

section \<open>Characters\<close>

abbreviation plain :: "string \<Rightarrow> bool" where
  "plain s \<equiv> list_all (\<lambda>c. \<not> line_end c) s"

lemma b64_plain: "b64decode s = Some r \<Longrightarrow> plain s"
proof -
  have "plain (pad # b64_alphabet)" by code_simp
  then show "b64decode s = Some r \<Longrightarrow> plain s" using b64_alphabet_chars [of s r] by (auto simp: list_all_iff)
qed

lemma dec_plain: "is_dec c \<Longrightarrow> \<not> line_end c" "is_digit c \<Longrightarrow> \<not> line_end c"
  by (auto simp: is_dec_def is_digit_def line_end_def code_def)

lemma nat_dec_plain: "plain (nat_dec n)"
  using dec_plain(2) [OF digits_nat_dec] by (auto simp: list_all_iff)

lemma int_dec_plain: "plain (int_dec n)"
proof -
  have "\<not> line_end (CHR ''-'')" by code_simp
  then show ?thesis by (simp add: int_dec_def nat_dec_plain)
qed

lemma ipv4_text_chars: "c \<in> set (ipv4_text n) \<Longrightarrow> is_digit c \<or> c = CHR ''.''"
  using ipv4_text_free by blast

lemma ipv4_text_plain: "plain (ipv4_text n)"
proof -
  have "\<not> line_end (CHR ''.'')" by code_simp
  then show ?thesis using ipv4_text_chars dec_plain(2) by (fastforce simp: list_all_iff)
qed

lemma endpoint_plain:
  assumes "endpoint_port s = Some n"
  shows "plain s"
proof -
  obtain h p where hp: "split_on (CHR '':'') s = [h, p]" "list_all host_char h" "all_dec p"
    using assms by (auto simp: endpoint_port_def split: list.splits if_splits)
  have "s = h @ CHR '':'' # p" using join_split [of "CHR '':''" s] hp(1) by simp
  moreover have "\<not> line_end (CHR '':'')" by code_simp
  moreover have "plain h" using hp(2)
    by (auto simp: list_all_iff host_char_def is_alnum_def is_dec_def is_lower_def is_upper_def line_end_def code_def)
  moreover have "plain p" using hp(3) by (auto simp: all_dec_def list_all_iff dest: dec_plain(1))
  ultimately show ?thesis by simp
qed

section \<open>Addresses\<close>

definition fits4 :: "nat \<times> nat \<Rightarrow> bool" where
  "fits4 i \<longleftrightarrow> fst i < 2 ^ 32 \<and> snd i \<le> 32"

lemma interface_fits: "interface_with ipv4 prefix4 32 s = Some i \<Longrightarrow> fits4 i"
  by (auto simp: interface_with_def fits4_def dest: ipv4_less prefix_le split: option.splits list.splits)

lemma interface4_fits: "interface4 v = Some i \<Longrightarrow> fits4 i"
proof (cases v)
  case (JInt n)
  moreover assume "interface4 v = Some i"
  ultimately show ?thesis by (auto simp: interface4_def fits4_def nat_less_iff split: if_splits)
qed (auto simp: interface4_def intro: interface_fits, simp_all add: fits4_def)

lemma prefix4_nat_dec: "p \<le> 32 \<Longrightarrow> prefix4 (nat_dec p) = Some p"
  by (simp add: prefix4_def all_dec_nat_dec dec_val_nat_dec)

lemma interface4_text_back:
  assumes "fits4 i"
  shows "interface_with ipv4 prefix4 32 (interface4_text i) = Some i"
proof -
  have "CHR ''/'' \<notin> set (ipv4_text (fst i))" by (rule ipv4_text_free) (simp_all add: is_digit_def)
  moreover have "CHR ''/'' \<notin> set (nat_dec (snd i))" by (rule nat_dec_free) (simp add: is_digit_def)
  ultimately have "split_on (CHR ''/'') (interface4_text i) = [ipv4_text (fst i), nat_dec (snd i)]"
    by (simp add: interface4_text_def split_on_append split_on_free)
  then show ?thesis
    using assms by (cases i) (simp add: interface_with_def fits4_def ipv4_ipv4_text prefix4_nat_dec)
qed

lemma any_interface_back: "fits4 i \<Longrightarrow> any_interface (JStr (interface4_text i)) = Some (Ip4 (fst i), snd i)"
  by (cases i) (simp add: any_interface_def py_str_def ip_interface_def interface4_text_back)

lemma interface4_text_chars: "c \<in> set (interface4_text i) \<Longrightarrow> is_digit c \<or> c = CHR ''.'' \<or> c = CHR ''/''"
  using ipv4_text_chars digits_nat_dec by (auto simp: interface4_text_def)

lemma interface4_text_plain: "plain (interface4_text i)"
proof -
  have "\<not> line_end (CHR ''/'')" by code_simp
  then show ?thesis by (simp add: interface4_text_def ipv4_text_plain nat_dec_plain)
qed

lemma interface4_text_solid: "c \<in> set (interface4_text i) \<Longrightarrow> \<not> is_blank c \<and> c \<noteq> CHR '',''"
  by (drule interface4_text_chars) (auto simp: is_digit_def is_blank_def code_def)

text \<open>A list printed with \<open>", "\<close> and split at the commas again.\<close>

lemma strip_solid: "(\<And>c. c \<in> set w \<Longrightarrow> \<not> is_blank c) \<Longrightarrow> strip is_blank w = w \<and> strip is_blank (CHR '' '' # w) = w"
proof -
  assume w: "\<And>c. c \<in> set w \<Longrightarrow> \<not> is_blank c"
  have b: "is_blank (CHR '' '')" by code_simp
  have s: "strip is_blank w = w" using w by (intro strip_id) (cases w; auto)
  then show ?thesis using b by (simp add: strip_def)
qed

lemma split_comma_list:
  assumes "ws \<noteq> []" and "\<And>w c. w \<in> set ws \<Longrightarrow> c \<in> set w \<Longrightarrow> \<not> is_blank c \<and> c \<noteq> CHR '',''"
  shows "map (strip is_blank) (split_on (CHR '','') (comma_list ws)) = ws"
  using assms
proof (induction ws rule: comma_list.induct)
  case (2 x)
  then have "CHR '','' \<notin> set x" by fastforce
  moreover have "\<not> is_blank c" if "c \<in> set x" for c using 2(2) [of x c] that by simp
  ultimately show ?case using strip_solid [of x] by (simp add: split_on_free)
next
  case (3 x y ys)
  then have free: "CHR '','' \<notin> set x" by fastforce
  have rest: "map (strip is_blank) (split_on (CHR '','') (comma_list (y # ys))) = y # ys"
    using 3 by auto
  have "\<not> is_blank c" if "c \<in> set x" for c using 3(3) [of x c] that by simp
  then have x: "strip is_blank x = x" using strip_solid [of x] by blast
  have "map (strip is_blank) (split_on (CHR '','') (CHR '' '' # comma_list (y # ys))) = y # ys"
  proof -
    have b: "is_blank (CHR '' '')" by code_simp
    obtain w ws where w: "split_on (CHR '','') (comma_list (y # ys)) = w # ws"
      by (cases "split_on (CHR '','') (comma_list (y # ys))") auto
    have "strip is_blank (CHR '' '' # w) = strip is_blank w" using b by (simp add: strip_def)
    with w rest show ?thesis by simp
  qed
  with x show ?case using split_on_append [OF free] by simp
qed simp

section \<open>A checked profile\<close>

record profile_values =
  pv_name :: string
  pv_address :: "nat \<times> nat"
  pv_endpoint :: string
  pv_routes :: "(nat \<times> nat) list"
  pv_keepalive :: int
  pv_private :: string
  pv_public :: string
  pv_shared :: string

definition profile_json :: "profile_values \<Rightarrow> (string \<times> json) list" where
  "profile_json v = [(''name'', JStr (pv_name v)), (''address'', JStr (interface4_text (pv_address v))),
     (''endpoint'', JStr (pv_endpoint v)), (''allowed_ips'', JStr (comma_list (map interface4_text (pv_routes v)))),
     (''keepalive'', JInt (pv_keepalive v)), (''private_key'', JStr (pv_private v)), (''public_key'', JStr (pv_public v)),
     (''preshared_key'', JStr (pv_shared v))]"

definition values_ok :: "profile_values \<Rightarrow> bool" where
  "values_ok v \<longleftrightarrow> fits4 (pv_address v) \<and> private_address (fst (pv_address v)) \<and>
     pv_routes v \<noteq> [] \<and> (\<forall>r \<in> set (pv_routes v). fits4 r \<and> private4 r) \<and> plain (pv_endpoint v) \<and>
     0 \<le> pv_keepalive v \<and> pv_keepalive v \<le> 65535 \<and>
     plain (pv_private v) \<and> plain (pv_public v) \<and> plain (pv_shared v)"

lemma vpn_address_gives: "gives (\<lambda>i. fits4 i \<and> private_address (fst i)) (vpn_address v)"
  unfolding vpn_address_def
  by (rule gives_then [OF gives_need], rule gives_then [OF gives_require], rule gives_ret) (simp add: interface4_fits)

lemma length_those: "those xs = Some ys \<Longrightarrow> length ys = length xs"
  by (induction xs arbitrary: ys) (auto split: option.splits)

lemma network_list_fits:
  assumes "network_list s = Some ns"
  shows "ns \<noteq> [] \<and> (\<forall>n \<in> set ns. fits4 n)"
proof -
  have "length ns = length (split_on (CHR '','') s)"
    using assms unfolding network_list_def by (drule_tac length_those) simp
  moreover have "fits4 n" if n: "n \<in> set ns" for n
  proof -
    have "Some n \<in> set (map (\<lambda>x. loose_network4 (strip is_blank x)) (split_on (CHR '','') s))"
      using assms n unfolding network_list_def by (rule those_mem)
    then obtain x where "loose_network4 x = Some n" by auto
    then obtain a p where i: "interface_with ipv4 prefix4 32 x = Some (a, p)" "n = (floor_to (2 ^ (32 - p)) a, p)"
      by (auto simp: loose_network4_def)
    moreover have "floor_to (2 ^ (32 - p)) a \<le> a" by (simp add: floor_to_def)
    ultimately show ?thesis using interface_fits [OF i(1)] by (simp add: fits4_def)
  qed
  ultimately show ?thesis by (cases ns) auto
qed

lemma peer_networks_gives: "gives (\<lambda>ns. ns \<noteq> [] \<and> (\<forall>n \<in> set ns. fits4 n \<and> private4 n)) (peer_networks v)"
  unfolding peer_networks_def
  by (rule gives_skip, rule gives_then [OF gives_need], rule gives_then [OF gives_require], rule gives_ret)
    (auto simp: list_all_iff dest: network_list_fits)

lemma endpoint_value_gives: "gives plain (endpoint_value kvs)"
  unfolding endpoint_value_def
  by (rule gives_skip, rule gives_then [OF gives_need], rule gives_skip, rule gives_ret) (rule endpoint_plain)

lemma keepalive_value_gives: "gives (\<lambda>n. 0 \<le> n \<and> n \<le> 65535) (keepalive_value v)"
  by (auto simp: keepalive_value_def intro: gives_ret gives_raise split: sum.split)

lemma profile_key_gives: "gives plain (profile_key v label)"
  by (auto simp: profile_key_def intro!: gives_ret gives_raise b64_plain split: json.split option.split)

text \<open>A program whose value comes from one that gives \<open>P\<close>.\<close>

lemma validate_profile_gives: "gives (\<lambda>p. \<exists>v. p = profile_json v \<and> values_ok v) (validate_profile x)"
proof (cases x)
  case (JObj kvs)
  have key: "gives plain (andThen (text_field kvs k) (\<lambda>k. profile_key (JStr k) label))" for k label
    by (rule gives_skip) (rule profile_key_gives)
  have shared: "gives plain (if psk \<noteq> [] then profile_key (JStr psk) ''Preshared key'' else ret [])" for psk
    by (simp add: profile_key_gives gives_ret)
  show ?thesis
    unfolding validate_profile_def JObj json.case
  proof (rule gives_skip, rule gives_skip, rule gives_then [OF vpn_address_gives], rule gives_then [OF peer_networks_gives],
      rule gives_then [OF endpoint_value_gives], rule gives_then [OF keepalive_value_gives], rule gives_skip,
      rule gives_then [OF key], rule gives_then [OF key], rule gives_then [OF shared], rule gives_ret)
    fix nm endpoint prv pub shared :: string and keepalive :: int and addr routes
    assume "fits4 addr \<and> private_address (fst addr)" "routes \<noteq> [] \<and> (\<forall>n \<in> set routes. fits4 n \<and> private4 n)"
      "plain endpoint" "0 \<le> keepalive \<and> keepalive \<le> 65535" "plain prv" "plain pub" "plain shared"
    then show "\<exists>v. [(''name'', JStr nm), (''address'', JStr (interface4_text addr)), (''endpoint'', JStr endpoint),
        (''allowed_ips'', JStr (comma_list (map interface4_text routes))), (''keepalive'', JInt keepalive),
        (''private_key'', JStr prv), (''public_key'', JStr pub), (''preshared_key'', JStr shared)] = profile_json v \<and>
        values_ok v"
      by (intro exI [of _ "\<lparr>pv_name = nm, pv_address = addr, pv_endpoint = endpoint, pv_routes = routes,
        pv_keepalive = keepalive, pv_private = prv, pv_public = pub, pv_shared = shared\<rparr>"])
        (simp add: profile_json_def values_ok_def)
  qed
qed (simp_all add: validate_profile_def gives_raise)

section \<open>The lines of the file\<close>

definition section_lines :: "string \<Rightarrow> (string \<times> string) list \<Rightarrow> string list" where
  "section_lines title kvs = (CHR ''['' # title @ '']'') # map (\<lambda>(k, v). k @ CHR ''='' # v) kvs @ [[]]"

lemma ini_value_plain: "plain s \<Longrightarrow> ini_value s = s"
  by (induction s) (auto simp: ini_value_def line_end_def newline_def code_def)

lemma splitlines_fields:
  assumes "list_all (\<lambda>(k, v). plain k \<and> plain v) kvs"
  shows "splitlines (concat (map (\<lambda>(k, v). k @ CHR ''='' # ini_value v @ [newline]) kvs) @ newline # rest)
    = map (\<lambda>(k, v). k @ CHR ''='' # v) kvs @ [] # splitlines rest"
  using assms
proof (induction kvs)
  case Nil
  show ?case using splitlines_line [of "[]" rest] by simp
next
  case (Cons x kvs)
  obtain k v where x: "x = (k, v)" by fastforce
  have "\<not> line_end (CHR ''='')" by code_simp
  with Cons.prems x have "plain (k @ CHR ''='' # v)" "ini_value v = v" by (simp_all add: ini_value_plain)
  from splitlines_line [OF this(1)] this(2) show ?case using Cons.IH Cons.prems by (simp add: x)
qed

lemma splitlines_section:
  assumes "plain title" and "list_all (\<lambda>(k, v). plain k \<and> plain v) kvs"
  shows "splitlines (ini_section title kvs @ rest) = section_lines title kvs @ splitlines rest"
proof -
  have "\<not> line_end (CHR ''['')" "\<not> line_end (CHR '']'')" by code_simp+
  with assms(1) have "plain (CHR ''['' # title @ '']'')" by simp
  from splitlines_line [OF this] show ?thesis
    using splitlines_fields [OF assms(2), of rest] by (simp add: ini_section_def section_lines_def)
qed

text \<open>The lines of a profile's file: a function of its values and of whether it starts by itself.\<close>

definition keyfile_lines :: "profile_values \<Rightarrow> bool \<Rightarrow> string list" where
  "keyfile_lines v auto =
     section_lines ''connection'' [(''id'', profile_name), (''uuid'', profile_uuid), (''type'', ''wireguard''),
       (''interface-name'', interface_name), (''autoconnect'', if auto then ''true'' else ''false'')] @
     section_lines ''wireguard'' [(''private-key'', pv_private v), (''peer-routes'', ''true''),
       (''ip4-auto-default-route'', ''0''), (''ip6-auto-default-route'', ''0'')] @
     section_lines (''wireguard-peer.'' @ pv_public v) ([(''endpoint'', pv_endpoint v),
       (''persistent-keepalive'', int_dec (pv_keepalive v)),
       (''allowed-ips'', join_with (CHR '';'') (map interface4_text (pv_routes v)) @ '';'')] @
       (if pv_shared v = [] then [] else [(''preshared-key'', pv_shared v)])) @
     section_lines ''ipv4'' [(''method'', ''manual''), (''address1'', ipv4_text (fst (pv_address v)) @ ''/32''),
       (''never-default'', ''true''), (''ignore-auto-dns'', ''true''), (''route-metric'', ''650'')] @
     section_lines ''ipv6'' [(''method'', ''disabled'')]"

definition keyfile_text :: "profile_values \<Rightarrow> bool \<Rightarrow> string" where
  "keyfile_text v auto =
     ini_section ''connection'' [(''id'', profile_name), (''uuid'', profile_uuid), (''type'', ''wireguard''),
       (''interface-name'', interface_name), (''autoconnect'', if auto then ''true'' else ''false'')] @
     ini_section ''wireguard'' [(''private-key'', pv_private v), (''peer-routes'', ''true''),
       (''ip4-auto-default-route'', ''0''), (''ip6-auto-default-route'', ''0'')] @
     ini_section (''wireguard-peer.'' @ pv_public v) ([(''endpoint'', pv_endpoint v),
       (''persistent-keepalive'', int_dec (pv_keepalive v)),
       (''allowed-ips'', join_with (CHR '';'') (map interface4_text (pv_routes v)) @ '';'')] @
       (if pv_shared v = [] then [] else [(''preshared-key'', pv_shared v)])) @
     ini_section ''ipv4'' [(''method'', ''manual''), (''address1'', ipv4_text (fst (pv_address v)) @ ''/32''),
       (''never-default'', ''true''), (''ignore-auto-dns'', ''true''), (''route-metric'', ''650'')] @
     ini_section ''ipv6'' [(''method'', ''disabled'')]"

lemma jget_profile_json:
  "jget (JObj (profile_json v)) ''private_key'' = Some (JStr (pv_private v))"
  "jget (JObj (profile_json v)) ''endpoint'' = Some (JStr (pv_endpoint v))"
  "jget (JObj (profile_json v)) ''keepalive'' = Some (JInt (pv_keepalive v))"
  "jget (JObj (profile_json v)) ''allowed_ips'' = Some (JStr (comma_list (map interface4_text (pv_routes v))))"
  "jget (JObj (profile_json v)) ''preshared_key'' = Some (JStr (pv_shared v))"
  "jget (JObj (profile_json v)) ''public_key'' = Some (JStr (pv_public v))"
  "jget (JObj (profile_json v)) ''address'' = Some (JStr (interface4_text (pv_address v)))"
  by (simp_all add: profile_json_def)

lemma item_of_Some: "jget p k = Some v \<Longrightarrow> item_of p k = ret v"
  by (cases p) (simp_all add: item_of_def at_item_def need_def)

lemma routes_text:
  assumes "values_ok v"
  shows "map (strip is_blank) (split_on (CHR '','') (comma_list (map interface4_text (pv_routes v)))) = map interface4_text (pv_routes v)"
  using assms interface4_text_solid by (intro split_comma_list) (auto simp: values_ok_def)

lemma bool_texts: "lower (py_str (JBool b)) = (if b then ''true'' else ''false'')"
proof -
  have "lower ''True'' = ''true''" "lower ''False'' = ''false''" by code_simp+
  then show ?thesis by (cases b) (simp_all add: py_str_def)
qed

lemma keyfile_value:
  assumes "values_ok v" and "map_of config ''profile'' = Some (JObj (profile_json v))"
    and "map_of config ''enabled'' = Some (JBool on)" and "map_of config ''autostart'' = Some (JBool auto)"
  shows "keyfile config = ret (keyfile_text v (on \<and> auto))"
proof -
  have auto: "(if truthy (JBool on) then at_item config ''autostart'' else ret (JBool on)) = ret (JBool (on \<and> auto))"
    using assms(4) by (simp add: at_item_def need_def)
  have ip: "profile_ip (JObj (profile_json v)) = ret (Ip4 (fst (pv_address v)))"
    using assms(1) by (simp add: profile_ip_def item_of_Some [OF jget_profile_json(7)] any_interface_back values_ok_def need_def)
  have routes: "split_field (JObj (profile_json v)) ''allowed_ips'' = ret (map interface4_text (pv_routes v))"
    by (simp add: split_field_def item_of_Some [OF jget_profile_json(4)] text_value_def routes_text [OF assms(1)])
  have public: "added_text (JObj (profile_json v)) ''public_key'' = ret (pv_public v)"
    by (simp add: added_text_def item_of_Some [OF jget_profile_json(6)])
  have items: "at_item config ''profile'' = ret (JObj (profile_json v))" "at_item config ''enabled'' = ret (JBool on)"
    using assms by (simp_all add: at_item_def need_def)
  have shared: "shared_key_field (JStr s) = (if s = [] then [] else [(''preshared-key'', s)])" for s
    by (simp add: shared_key_field_def py_str_def)
  show ?thesis
    unfolding keyfile_def items andThen_ret auto ip routes public jget_profile_json(1-3,5) [THEN item_of_Some] shared bool_texts
    by (simp add: keyfile_text_def py_str_def)
qed

lemma routes_plain: "plain (join_with (CHR '';'') (map interface4_text rs))"
proof -
  have "\<not> line_end (CHR '';'')" by code_simp
  then show ?thesis
    by (induction rs rule: induct_list012) (simp_all add: interface4_text_plain)
qed

lemma splitlines_last:
  assumes "plain title" and "list_all (\<lambda>(k, v). plain k \<and> plain v) kvs"
  shows "splitlines (ini_section title kvs) = section_lines title kvs"
  using splitlines_section [OF assms, of "[]"] by (simp add: splitlines_simps)

lemma keyfile_text_lines:
  assumes "values_ok v"
  shows "splitlines (keyfile_text v auto) = keyfile_lines v auto"
proof -
  have texts: "list_all plain [''connection'', ''id'', profile_name, ''uuid'', profile_uuid, ''type'', ''wireguard'',
     ''interface-name'', interface_name, ''autoconnect'', ''true'', ''false'', ''private-key'', ''peer-routes'',
     ''ip4-auto-default-route'', ''0'', ''ip6-auto-default-route'', ''wireguard-peer.'', ''endpoint'', ''persistent-keepalive'',
     ''allowed-ips'', '';'', ''preshared-key'', ''ipv4'', ''method'', ''manual'', ''address1'', ''/32'', ''never-default'',
     ''ignore-auto-dns'', ''route-metric'', ''650'', ''ipv6'', ''disabled'']"
    by code_simp
  let ?c = "[(''id'', profile_name), (''uuid'', profile_uuid), (''type'', ''wireguard''),
       (''interface-name'', interface_name), (''autoconnect'', if auto then ''true'' else ''false'')]"
  let ?w = "[(''private-key'', pv_private v), (''peer-routes'', ''true''),
       (''ip4-auto-default-route'', ''0''), (''ip6-auto-default-route'', ''0'')]"
  let ?p = "[(''endpoint'', pv_endpoint v), (''persistent-keepalive'', int_dec (pv_keepalive v)),
       (''allowed-ips'', join_with (CHR '';'') (map interface4_text (pv_routes v)) @ '';'')] @
       (if pv_shared v = [] then [] else [(''preshared-key'', pv_shared v)])"
  let ?a = "[(''method'', ''manual''), (''address1'', ipv4_text (fst (pv_address v)) @ ''/32''),
       (''never-default'', ''true''), (''ignore-auto-dns'', ''true''), (''route-metric'', ''650'')]"
  let ?ok = "list_all (\<lambda>(k, v). plain k \<and> plain v)"
  have parts: "plain (''wireguard-peer.'' @ pv_public v)" "?ok ?c" "?ok ?w" "?ok ?p" "?ok ?a" "?ok [(''method'', ''disabled'')]"
    "plain ''connection''" "plain ''wireguard''" "plain ''ipv4''" "plain ''ipv6''"
    using assms texts routes_plain [of "pv_routes v"] int_dec_plain ipv4_text_plain by (simp_all add: values_ok_def)
  show ?thesis
    unfolding keyfile_text_def keyfile_lines_def
    by (simp only: splitlines_section [OF parts(7,2)] splitlines_section [OF parts(8,3)] splitlines_section [OF parts(1,4)]
        splitlines_section [OF parts(9,5)] splitlines_last [OF parts(10,6)])
qed

end
