(* ===== verification/Assist_Guarantees.thy ===== *)
theory Assist_Guarantees
  imports Assist_Keyfile "HOL-Library.Code_Target_Nat"
begin

text \<open>
  What the host side of remote assistance guarantees: a failed request leaves its files as they were, a
  profile that is installed or started is kept apart from the appliance's own networks, its file has the
  lines of its values and no others, and the status that everybody may read tells nothing of the keys.
\<close>

section \<open>Failed requests\<close>

lemma identity_put_back:
  "wp (andThen (andThen (ensure_identity e) (\<lambda>_. ret config)) (\<lambda>candidate.
     andThen (replace_file e Config_file (Data (JObj candidate))) (\<lambda>_. ret candidate)))
   (\<lambda>_ _. True) (put_back (ho_files s)) s"
proof -
  have "wp (andThen (ensure_identity e) (\<lambda>_. ret config)) (\<lambda>_. targets_are (ho_files s)) (\<lambda>_. targets_are (ho_files s)) s"
    using safe_andThen [OF identity_targets [of "ho_files s" e] safe_ret, of "\<lambda>_. config"] unfolding safe_def by blast
  then show ?thesis
    by (rule wp_then) (auto simp: wp_simps Let_def put_back_def split: disk_end.split)
qed

lemma transaction_puts_back: "wp (transactional_process e config request) (\<lambda>_ _. True) (put_back (ho_files s)) s"
proof (cases request)
  case (JObj kvs)
  show ?thesis
  proof (cases "dget kvs ''action'' JNull = JStr ''generate-identity''")
    case True
    then have "process e config kvs = andThen (ensure_identity e) (\<lambda>_. ret config)" by (simp add: process_def)
    with True JObj show ?thesis
      unfolding transactional_process_def using identity_put_back [of e config s] by simp
  next
    case False
    with JObj show ?thesis using guarded_puts_back by (simp add: transactional_process_def)
  qed
qed (simp_all add: transactional_process_def wp_simps)

text \<open>
  C20: A request that is answered with an error of its own (a refusal or a failed host step, whatever
  step it was) leaves the configuration, NetworkManager's profile, the recovery file and the saved reply
  exactly as they were, whether they existed or not.
\<close>

theorem failed_request_restores_files:
  assumes "transactional_process e config request s = (Inl f, t)" and "\<And>x. f \<noteq> Raised x"
  shows "\<forall>x \<in> {Config_file, Keyfile, Wg_file, Reply_file}. ho_files t x = ho_files s x"
proof -
  have "put_back (ho_files s) f t" using transaction_puts_back assms(1) by (rule wp_Inl)
  moreover have "reported f"
  proof (cases f)
    case (Raised x)
    with assms(2) [of x] show ?thesis by blast
  qed (simp_all add: reported_def)
  ultimately show ?thesis by (simp add: put_back_def targets_def)
qed

section \<open>Routes\<close>

text \<open>
  C21: A request that replaces or starts a profile (its registration, a restart, a saved profile, the
  enabling) succeeds only when, at a step of the request itself, it asked for the appliance's addresses and
  no address belonged both to a network of the profile it ends with and to one of the appliance's other
  interfaces or the recovery network. Any other request that succeeds keeps the profile of the
  configuration or removes it, and never asks NetworkManager to bring the tunnel up; those that change
  only how it starts (boot-on, boot-off, disable) write the file of the profile they keep without a check.
\<close>

theorem installed_routes_apart:
  assumes "process e config request s = (Inr config', t)"
  shows "if \<exists>a \<in> {''register'', ''register-connect'', ''auto-register'', ''restart'', ''save'', ''enable''}.
      dget request ''action'' JNull = JStr a
    then \<exists>k protected networks. ho_steps s \<le> k \<and> k < ho_steps t \<and> appliance_networks e k protected \<and>
      routes_of (config_profile config') = Some networks \<and> recovery_network \<in> set protected \<and>
      (\<forall>n \<in> set networks. \<forall>p \<in> set protected. \<not> (\<exists>x. member x n \<and> member x p))
    else config_profile config' \<in> {config_profile config, JNull} \<and>
      nmcli_up \<notin> set (drop (length (ho_commands s)) (ho_commands t))"
proof (cases "\<exists>a \<in> set installing_actions. dget request ''action'' JNull = JStr a")
  case True
  then have "checks e (ho_steps s) (process e config request)" using process_checks by blast
  then have "routes_apart e (ho_steps s) (config_profile config') t"
    using assms unfolding checks_def by (auto dest!: spec [of _ s] simp: wp_def)
  with True show ?thesis by (fastforce simp: routes_apart_def apart_from_def installing_actions_def)
next
  case False
  then have "dget request ''action'' JNull = JStr a \<Longrightarrow> a \<notin> set installing_actions" for a by blast
  from process_quiet [OF this assms] False show ?thesis by (simp add: installing_actions_def)
qed

section \<open>The file of a profile\<close>

text \<open>
  C33: The file written for a profile that passed the checks has exactly the lines of its five sections,
  with the profile's values in their places: whatever the profile was made from, none of its values adds
  a line, a key or a section.
\<close>

theorem keyfile_has_no_other_lines:
  assumes "validate_profile x s = (Inr p, t)" and "map_of config ''profile'' = Some (JObj p)"
    and "map_of config ''enabled'' = Some (JBool on)" and "map_of config ''autostart'' = Some (JBool auto)"
  shows "\<exists>v text. p = profile_json v \<and> keyfile config u = (Inr text, u) \<and> splitlines text = keyfile_lines v (on \<and> auto)"
proof -
  obtain v where v: "p = profile_json v" "values_ok v" using gives_Inr [OF validate_profile_gives assms(1)] by blast
  have "keyfile config u = (Inr (keyfile_text v (on \<and> auto)), u)"
    by (subst keyfile_value [OF v(2) _ assms(3,4)]) (use assms(2) v(1) in \<open>simp_all add: ret_def\<close>)
  then show ?thesis using v keyfile_text_lines [OF v(2)] by blast
qed

section \<open>The public status\<close>

text \<open>Profiles that differ in nothing but their secrets.\<close>

lemma public_same:
  assumes "public_profile p = public_profile q" and "k \<notin> set secret_fields"
  shows "map_of p k = map_of q k"
proof -
  have "map_of (public_profile p) k = map_of p k" for p
    using assms(2) by (induction p) (auto simp: public_profile_def)
  with assms(1) show ?thesis by metis
qed

lemma item_same:
  assumes "public_profile p = public_profile q" and "k \<notin> set secret_fields"
  shows "item_of (JObj p) k = item_of (JObj q) k" "dget p k d = dget q k d"
  using public_same [OF assms] by (simp_all add: item_of_def at_item_def dget_def)

lemma profile_view_same:
  assumes "public_profile p = public_profile q" and "p \<noteq> []" and "q \<noteq> []"
  shows "profile_view (JObj p) = profile_view (JObj q)"
proof -
  have "''address'' \<notin> set secret_fields" by (simp add: secret_fields_def)
  from item_same(1) [OF assms(1) this] have ip: "profile_ip (JObj p) = profile_ip (JObj q)"
    unfolding profile_ip_def by (rule arg_cong)
  show ?thesis using assms by (simp add: profile_view_def ip)
qed

lemma automatic_same:
  assumes "public_profile p = public_profile q" and "p \<noteq> []" and "q \<noteq> []"
  shows "automatic_status e (dput ''profile'' (JObj p) c) = automatic_status e (dput ''profile'' (JObj q) c)"
proof -
  have "registered_as p r = registered_as q r" for r
    using item_same(2) [OF assms(1)] by (simp add: registered_as_def secret_fields_def)
  then show ?thesis
    unfolding automatic_status_def profile_dput truthy.simps using assms(2,3)
    by (simp only: simp_thms if_True andThen_ret json.case)
qed

lemma other_keys: "k \<noteq> ''profile'' \<Longrightarrow> at_item (dput ''profile'' v c) k = at_item (dput ''profile'' w c) k"
  "k \<noteq> ''profile'' \<Longrightarrow> dget (dput ''profile'' v c) k d = dget (dput ''profile'' w c) k d"
  by (simp_all add: at_item_def dget_def map_of_dput)

text \<open>
  C34: The status file, which others than root may read, does not depend on the secrets of the profile:
  two configurations whose profiles differ at most in the private key and the preshared key give the
  same status, the same commands and the same error.
\<close>

theorem status_hides_keys:
  assumes same: "filter (\<lambda>x. fst x \<notin> {''private_key'', ''preshared_key''}) p =
      filter (\<lambda>x. fst x \<notin> {''private_key'', ''preshared_key''}) q"
    and filled: "p \<noteq> []" "q \<noteq> []"
  shows "snapshot e (dput ''profile'' (JObj p) config) s = snapshot e (dput ''profile'' (JObj q) config) s"
proof -
  let ?p = "dput ''profile'' (JObj p) config" and ?q = "dput ''profile'' (JObj q) config"
  have views: "public_profile p = public_profile q" using same by (simp add: public_profile_def secret_fields_def)
  have items: "at_item ?p ''enabled'' = (at_item ?q ''enabled'' :: json host_prog)"
    "at_item ?p ''autostart'' = (at_item ?q ''autostart'' :: json host_prog)"
    "dget ?p ''last_result'' JNull = dget ?q ''last_result'' JNull"
    by (rule other_keys; simp)+
  have "snapshot_value e ?p = snapshot_value e ?q"
    unfolding snapshot_value_def profile_dput profile_view_same [OF views filled]
      automatic_same [OF views filled] items truthy.simps
    using filled by (simp only: simp_thms)
  then show ?thesis by (simp add: snapshot_def)
qed

section \<open>A host to run\<close>

definition assist_key :: string where
  "assist_key = ''a2tra2tra2tra2tra2tra2tra2tra2tra2tra2tra2s=''"

definition assist_input :: json where
  "assist_input = JObj [(''name'', JStr '' office ''), (''address'', JStr ''10.77.0.11''), (''endpoint'', JStr ''vpn:51820''),
     (''allowed_ips'', JStr ''10.77.0.0/24,10.78.0.5''), (''private_key'', JStr assist_key), (''public_key'', JStr assist_key)]"

definition assist_profile :: "(string \<times> json) list" where
  "assist_profile = profile_json \<lparr>pv_name = ''office'', pv_address = (172818443, 32), pv_endpoint = ''vpn:51820'',
     pv_routes = [(172818432, 24), (172883973, 32)], pv_keepalive = 25, pv_private = assist_key, pv_public = assist_key,
     pv_shared = []\<rparr>"

definition assist_config :: "(string \<times> json) list" where
  "assist_config = [(''enabled'', JBool False), (''autostart'', JBool True), (''profile'', JObj assist_profile)]"

definition assist_addresses :: json where
  "assist_addresses = JArr [JObj [(''ifname'', JStr ''eth0''), (''addr_info'', JArr [JObj [(''local'', JStr ''192.168.1.5''),
     (''prefixlen'', JInt 24)]])]]"

text \<open>A host whose tunnel does not come up when \<open>broken\<close>.\<close>

definition assist_host_env :: "bool \<Rightarrow> host_env" where
  "assist_host_env broken = \<lparr>
     he_run = (\<lambda>k args input. if args = nmcli_up then Exit (if broken then 1 else 0) []
        else if args = addresses_command then Exit 0 ''addresses'' else Exit 0 []),
     he_disk = (\<lambda>_. Disk_ok), he_loads = (\<lambda>t. if t = ''addresses'' then Some assist_addresses else None),
     he_time = (\<lambda>_. 0), he_backup = (\<lambda>_. ''b''), he_serials = [], he_cpuinfo = None, he_hostname = ''kvm-1'', he_uuid = [],
     he_wg = True, he_nets = [], he_request_size = 100\<rparr>"

definition assist_host :: host where
  "assist_host = \<lparr>ho_files = (\<lambda>f. if f = Config_file then Some (Data (JObj assist_config)) else None),
     ho_steps = 0, ho_commands = [], ho_backups = []\<rparr>"

lemma assist_checked: "validate_profile assist_input () = (Inr assist_profile, ())"
  by code_simp

section \<open>Witnesses\<close>

definition assist_enabled :: "(string \<times> json) list" where
  "assist_enabled = [(''enabled'', JBool True), (''autostart'', JBool True), (''profile'', JObj assist_profile)]"

definition assist_failure :: host_fault where
  "assist_failure = Runtime ''Host network command failed; check the VPN profile and uplink''"

lemma assist_enable_fails:
  "fst (transactional_process (assist_host_env True) assist_config (JObj [(''action'', JStr ''enable'')]) assist_host) =
    Inl assist_failure"
  by code_simp

lemma assist_enable_runs:
  "fst (process (assist_host_env False) assist_config [(''action'', JStr ''enable'')] assist_host) = Inr assist_enabled"
  by code_simp

theorem failed_request_restores_files_witness:
  "\<exists>t. transactional_process (assist_host_env True) assist_config (JObj [(''action'', JStr ''enable'')]) assist_host =
      (Inl assist_failure, t) \<and>
    (\<forall>x \<in> {Config_file, Keyfile, Wg_file, Reply_file}. ho_files t x = ho_files assist_host x)"
proof -
  obtain t where t: "transactional_process (assist_host_env True) assist_config (JObj [(''action'', JStr ''enable'')]) assist_host =
      (Inl assist_failure, t)"
    using assist_enable_fails by (metis surj_pair fst_conv)
  have "assist_failure \<noteq> Raised x" for x by (simp add: assist_failure_def)
  from t failed_request_restores_files [OF t this] show ?thesis by blast
qed

theorem installed_routes_apart_witness:
  "\<exists>k protected networks. appliance_networks (assist_host_env False) k protected \<and>
    routes_of (config_profile assist_enabled) = Some networks \<and> recovery_network \<in> set protected \<and>
    (\<forall>n \<in> set networks. \<forall>p \<in> set protected. \<not> (\<exists>x. member x n \<and> member x p))"
proof -
  obtain t where "process (assist_host_env False) assist_config [(''action'', JStr ''enable'')] assist_host =
      (Inr assist_enabled, t)"
    using assist_enable_runs by (metis surj_pair fst_conv)
  from installed_routes_apart [OF this] show ?thesis by (auto simp: dget_def)
qed

theorem keyfile_has_no_other_lines_witness:
  "\<exists>v text. assist_profile = profile_json v \<and> keyfile assist_enabled () = (Inr text, ()) \<and>
    splitlines text = keyfile_lines v (True \<and> True)"
  by (rule keyfile_has_no_other_lines [OF assist_checked]) (simp_all add: assist_enabled_def)

theorem status_hides_keys_witness:
  "snapshot (assist_host_env False) (dput ''profile'' (JObj assist_profile) assist_config) assist_host =
    snapshot (assist_host_env False) (dput ''profile'' (JObj (dput ''private_key'' (JStr ''other'')
      (dput ''preshared_key'' (JStr ''more'') assist_profile))) assist_config) assist_host"
  by (rule status_hides_keys) code_simp+

end
