(* ===== verification/Assist_Enrol.thy ===== *)
theory Assist_Enrol
  imports Assist_Keyfile Wg_Guarantees
begin

text \<open>
  The two ends of an enrolment together: what scripts/kdx-wg-server.py answers to a request passes the
  checks of the device's host (backend/app/services/wireguard_provisioning.py) with nothing changed.
\<close>

section \<open>The answer of the server\<close>

text \<open>The record that a registration makes of a checked request.\<close>

definition server_ok :: "wg_server \<Rightarrow> bool" where
  "server_ok v \<longleftrightarrow> fits4 (sv_network v) \<and> fst (sv_network v) mod 2 ^ (32 - snd (sv_network v)) = 0 \<and>
     private4 (sv_network v) \<and> in_network4 (sv_start v) (sv_network v) \<and> in_network4 (sv_end v) (sv_network v) \<and>
     sv_end v < 2 ^ 32"

definition peer_record :: "wg_server \<Rightarrow> (string \<times> json) list \<Rightarrow> nat \<Rightarrow> string \<Rightarrow> string \<Rightarrow> (string \<times> json) list" where
  "peer_record v rq a endpoint k = rq @ [(''address'', JStr (address_text a)), (''endpoint'', JStr endpoint),
     (''server_public_key'', JStr k), (''allowed_ips'', JStr (interface4_text (sv_network v))), (''keepalive'', JInt 25)]"

definition answer_ok :: "(string \<times> json) list \<Rightarrow> bool" where
  "answer_ok m \<longleftrightarrow> (\<exists>v rq a endpoint k port. m = peer_record v rq a endpoint k \<and> server_ok v \<and>
     request_ok rq \<and> at_key rq ''version'' = JInt 1 \<and> sv_start v \<le> a \<and> a \<le> sv_end v \<and>
     endpoint_port endpoint = Some port \<and> 1 \<le> port \<and> port \<le> 65535 \<and> wg_key k = Inr k)"

lemma server_values:
  assumes "ipv4_network n = Some net" and "private4 net" and "ipv4 b = Some t"
    and "in_network4 s net" and "in_network4 t net"
  shows "server_ok \<lparr>sv_interface = i, sv_network = net, sv_start = s, sv_end = t, sv_endpoint = x\<rparr>"
proof -
  obtain c p where c: "interface_with ipv4 prefix4 32 n = Some (c, p)" "c mod 2 ^ (32 - p) = 0" "net = (c, p)"
    using assms(1) by (auto simp: ipv4_network_def split: option.splits if_splits)
  then show ?thesis
    using assms interface_fits [OF c(1)] ipv4_less [OF assms(3)] by (simp add: server_ok_def)
qed

lemma make_server_gives: "gives server_ok (make_server i n a b x)"
  unfolding make_server_def
  by (rule gives_skip, rule gives_then [OF gives_need], rule gives_then [OF gives_require], rule gives_skip,
      rule gives_then [OF gives_need], rule gives_then [OF gives_require], rule gives_ret, rule server_values) auto

lemma validate_request_gives: "gives (\<lambda>rq. request_ok rq \<and> at_key rq ''version'' = JInt 1) (validate_request x)"
proof -
  have "gives request_ok (validate_request x)"
    unfolding gives_def by (rule allI, rule wp_mono [OF validate_result]) simp_all
  moreover have "gives (\<lambda>rq. at_key rq ''version'' = JInt 1) (validate_request x)"
    unfolding validate_request_def
    by (rule gives_then [OF gives_need], rule gives_skip, rule gives_skip, rule gives_skip, rule gives_skip, rule gives_ret)
      (auto simp: request_shape_def split: json.splits if_splits)
  ultimately show ?thesis by (rule gives_conj)
qed

lemma allocate_gives: "gives (\<lambda>a. sv_start v \<le> a \<and> a \<le> sv_end v) (allocate v fp live rs requested)"
  unfolding gives_def by (rule allI, rule wp_mono [OF allocate_result]) simp_all

lemma metadata_gives:
  "gives (\<lambda>m. \<exists>endpoint k port. m = peer_record v rq a endpoint k \<and> endpoint_port endpoint = Some port \<and>
     1 \<le> port \<and> port \<le> 65535 \<and> wg_key k = Inr k) (metadata e v rq (address_text a))"
  unfolding metadata_def Let_def
proof (rule gives_then [OF gives_need], rule gives_then [OF gives_require], rule gives_skip)
  fix port out
  let ?x = "case sv_endpoint v of None \<Rightarrow> [] | Some x \<Rightarrow> x"
  assume "endpoint_port ?x = Some port" "1 \<le> port \<and> port \<le> 65535"
  then show "gives (\<lambda>m. \<exists>endpoint k port. m = peer_record v rq a endpoint k \<and> endpoint_port endpoint = Some port \<and>
     1 \<le> port \<and> port \<le> 65535 \<and> wg_key k = Inr k)
     (andThen (lift (wg_key out)) (\<lambda>k. ret (rq @ [(''address'', JStr (address_text a)), (''endpoint'', JStr ?x),
         (''server_public_key'', JStr k),
         (''allowed_ips'', JStr (ipv4_text (fst (sv_network v)) @ CHR ''/'' # nat_dec (snd (sv_network v)))),
         (''keepalive'', JInt 25)])))"
    using wg_keyD [of out]
    by (auto simp: gives_def wp_simps peer_record_def interface4_text_def split: sum.split)
qed

lemma main_answers:
  assumes "wg_main e x (Add req requested) s = (Inr (Json (JObj m)), t)"
  shows "answer_ok m"
proof -
  let ?P = "\<lambda>v m. server_ok v \<longrightarrow> answer_ok m"
  have register: "gives (?P v) (register_peer e v rq n pub requested)"
    if "request_ok rq \<and> at_key rq ''version'' = JInt 1" for v rq n pub
    unfolding register_peer_def
    by (rule gives_skip, clarify, rule gives_skip, rule gives_skip, rule gives_then [OF allocate_gives],
        rule gives_then [OF metadata_gives], rule gives_skip, rule gives_ret)
      (use that in \<open>unfold answer_ok_def, blast\<close>)
  have add: "gives (?P v) (add_peer e v j requested)" for v j
    unfolding add_peer_def locked_def
    by (rule gives_then [OF validate_request_gives], rule gives_skip) (rule register)
  have run: "gives (\<lambda>out. \<forall>m. out = Json (JObj m) \<longrightarrow> ?P v m) (run_command e v (Add req requested))" for v
  proof (cases req)
    case (Some f)
    then show ?thesis
      by (cases f) (auto simp: run_command_def intro!: gives_raise gives_skip gives_then [OF add] gives_ret)
  qed (simp add: run_command_def gives_raise)
  have "gives (\<lambda>out. \<forall>m. out = Json (JObj m) \<longrightarrow> answer_ok m) (wg_main e x (Add req requested))"
    unfolding wg_main_def by (rule gives_then [OF make_server_gives]) (rule gives_mono [OF run], blast)
  from gives_Inr [OF this assms] show ?thesis by simp
qed

section \<open>The checks of the device\<close>

lemma floor_to_le: "a \<le> b \<Longrightarrow> floor_to k a \<le> floor_to k b"
  by (simp add: floor_to_def div_le_mono)

lemma between_in_network:
  assumes "in_network4 s n" and "in_network4 t n" and "s \<le> a" and "a \<le> t"
  shows "in_network4 a n"
proof -
  have "floor_to (2 ^ (32 - snd n)) s \<le> floor_to (2 ^ (32 - snd n)) a" "floor_to (2 ^ (32 - snd n)) a \<le> floor_to (2 ^ (32 - snd n)) t"
    using assms(3,4) by (simp_all add: floor_to_le)
  with assms(1,2) show ?thesis by (simp add: in_network4_def)
qed

lemma private_member:
  assumes "in_network4 a n" and "private4 n" and "snd n \<le> 32"
  shows "private_address a"
proof -
  have a: "floor_to (2 ^ (32 - snd n)) a = fst n" using assms(1) by (simp add: in_network4_def)
  have "subnet4 (a, 32) x" if "subnet4 n x" for x
  proof -
    have "floor_to (2 ^ (32 - snd x)) (floor_to (2 ^ (32 - snd n)) a) = floor_to (2 ^ (32 - snd x)) a"
      using that assms(3) by (intro floor_to_power) (simp_all add: subnet4_def)
    with that a assms(3) show ?thesis by (simp add: subnet4_def)
  qed
  with assms(2) show ?thesis by (auto simp: private_address_def private4_def list_ex_iff)
qed

lemma address_interface_text: "interface4_text (a, 32) = address_text a"
proof -
  have "nat_dec 32 = ''32''" by code_simp
  then show ?thesis by (simp add: interface4_text_def address_text_def)
qed

lemma address_interface: "a < 2 ^ 32 \<Longrightarrow> interface4 (JStr (address_text a)) = Some (a, 32)"
  using interface4_text_back [of "(a, 32)"]
  by (simp add: fits4_def address_interface_text interface4_def py_str_def)

lemma one_route:
  assumes "fits4 n" and "fst n mod 2 ^ (32 - snd n) = 0"
  shows "network_list (interface4_text n) = Some [n]" and "ipv4_network (strip is_blank (interface4_text n)) = Some n"
    and "split_on (CHR '','') (interface4_text n) = [interface4_text n]"
proof -
  have solid: "strip is_blank (interface4_text n) = interface4_text n"
    using strip_solid [of "interface4_text n"] interface4_text_solid by blast
  show split: "split_on (CHR '','') (interface4_text n) = [interface4_text n]"
    using interface4_text_solid [of "CHR '',''" n] by (intro split_on_free) blast
  have "floor_to (2 ^ (32 - snd n)) (fst n) = fst n"
    using assms(2) by (simp add: floor_to_def minus_mod_eq_div_mult [symmetric])
  then have "loose_network4 (interface4_text n) = Some n"
    by (simp add: loose_network4_def interface4_text_back [OF assms(1)] case_prod_beta prod_eq_iff)
  then show "network_list (interface4_text n) = Some [n]" by (simp add: network_list_def split solid)
  show "ipv4_network (strip is_blank (interface4_text n)) = Some n"
    using assms(2) by (simp add: solid ipv4_network_def interface4_text_back [OF assms(1)] case_prod_beta)
qed

lemma key_checked:
  assumes "wg_key k = Inr k"
  shows "profile_key (JStr k) label = ret k" and "strip is_blank k = k"
proof -
  obtain raw where "b64decode k = Some raw" "length raw = 32"
    using assms by (auto simp: wg_key_def split: option.splits if_splits)
  then show "profile_key (JStr k) label = ret k" by (simp add: profile_key_def)
  have "word_ok k" using assms by (rule key_word)
  then show "strip is_blank k = k" using strip_solid [of k] by (auto simp: word_ok_def list_all_iff)
qed

lemma endpoint_solid:
  assumes "endpoint_port s = Some n"
  shows "strip is_blank s = s"
proof -
  obtain h p where hp: "split_on (CHR '':'') s = [h, p]" "list_all host_char h" "all_dec p"
    using assms by (auto simp: endpoint_port_def split: list.splits if_splits)
  have "s = h @ CHR '':'' # p" using join_split [of "CHR '':''" s] hp(1) by simp
  moreover have "\<not> is_blank (CHR '':'')" by code_simp
  ultimately have "\<not> is_blank c" if "c \<in> set s" for c
    using that hp(2,3) by (auto simp: list_all_iff all_dec_def host_char_def is_alnum_def is_dec_def is_lower_def
      is_upper_def is_blank_def code_def)
  then show ?thesis using strip_solid by blast
qed

lemma name_solid:
  assumes "name_ok n"
  shows "strip is_blank n = n" and "n \<noteq> [] \<and> length n \<le> 80 \<and> list_all (\<lambda>c. 32 \<le> code c) n"
proof -
  have "\<not> is_blank c \<and> 32 \<le> code c" if "c \<in> set n" for c
    using assms that by (auto simp: name_ok_def list_all_iff name_char_def is_lower_def is_dec_def is_blank_def code_def)
  then show "strip is_blank n = n" "n \<noteq> [] \<and> length n \<le> 80 \<and> list_all (\<lambda>c. 32 \<le> code c) n"
    using strip_solid assms by (auto simp: name_ok_def list_all_iff)
qed

text \<open>The parts of a record.\<close>

lemma record_item:
  assumes "request_ok rq"
  shows "k \<in> set request_keys \<Longrightarrow> map_of (peer_record v rq a endpoint k') k = Some (at_key rq k)"
    and "k \<notin> set request_keys \<Longrightarrow> map_of (peer_record v rq a endpoint k') k =
      map_of [(''address'', JStr (address_text a)), (''endpoint'', JStr endpoint), (''server_public_key'', JStr k'),
        (''allowed_ips'', JStr (interface4_text (sv_network v))), (''keepalive'', JInt 25)] k"
proof -
  show "k \<in> set request_keys \<Longrightarrow> map_of (peer_record v rq a endpoint k') k = Some (at_key rq k)"
    unfolding peer_record_def by (rule request_field [OF assms])
  assume "k \<notin> set request_keys"
  then have "map_of rq k = None" using assms by (simp add: map_of_eq_None_iff request_ok_def)
  then show "map_of (peer_record v rq a endpoint k') k =
      map_of [(''address'', JStr (address_text a)), (''endpoint'', JStr endpoint), (''server_public_key'', JStr k'),
        (''allowed_ips'', JStr (interface4_text (sv_network v))), (''keepalive'', JInt 25)] k"
    unfolding peer_record_def by (simp add: map_add_def)
qed

definition picked_request :: "(string \<times> json) list \<Rightarrow> (string \<times> json) list" where
  "picked_request rq = map (\<lambda>k. (k, at_key rq k)) request_keys"

lemma picked_record:
  assumes "request_ok rq"
  shows "picked request_keys (peer_record v rq a endpoint k') = ret (picked_request rq)"
proof -
  have "set ks \<subseteq> set request_keys \<Longrightarrow> picked ks (peer_record v rq a endpoint k') = ret (map (\<lambda>k. (k, at_key rq k)) ks)" for ks
  proof (induction ks)
    case (Cons k ks)
    then have "map_of (peer_record v rq a endpoint k') k = Some (at_key rq k)"
      by (intro record_item(1) [OF assms]) simp
    with Cons show ?case by (simp add: picked_def at_item_def need_def)
  qed (simp add: picked_def)
  from this [of request_keys] show ?thesis by (simp add: picked_request_def)
qed

lemma picked_at: "k \<in> set request_keys \<Longrightarrow> at_key (picked_request rq) k = at_key rq k"
  by (auto simp: picked_request_def at_key_def map_of_map_restrict split: option.split)

lemma request_checked:
  assumes "request_ok rq" and "at_key rq ''version'' = JInt 1"
  shows "registration_request (JObj (picked_request rq)) = ret (picked_request rq)"
proof -
  obtain n k i where n: "at_key rq ''hostname'' = JStr n" "name_ok n" and k: "at_key rq ''public_key'' = JStr k" "wg_key k = Inr k"
    and i: "at_key rq ''request_id'' = JStr i" "uuid_of i = Some i" and d: "device_serial (at_key rq ''device_id'')"
    using assms(1) unfolding request_ok_def by blast
  have at: "at_key (picked_request rq) x = at_key rq x"
    if "x \<in> {''version'', ''device_id'', ''hostname'', ''public_key'', ''request_id''}" for x
    using that by (intro picked_at) (auto simp: request_keys_def)
  have keys: "set (map fst (picked_request rq)) = set request_keys" by (simp add: picked_request_def comp_def)
  have one: "py_eq (JInt 1) (JInt 1)" by (simp add: py_eq_def)
  show ?thesis
    using keys by (simp add: registration_request_def at assms(2) n k i d one hostname_ok_def request_id_ok_def
        key_checked(1) require_def)
qed

lemma record_at:
  assumes "request_ok rq"
  shows "at_key (peer_record v rq a endpoint k) ''address'' = JStr (address_text a)"
    and "at_key (peer_record v rq a endpoint k) ''endpoint'' = JStr endpoint"
    and "at_key (peer_record v rq a endpoint k) ''server_public_key'' = JStr k"
    and "at_key (peer_record v rq a endpoint k) ''allowed_ips'' = JStr (interface4_text (sv_network v))"
    and "at_key (peer_record v rq a endpoint k) ''keepalive'' = JInt 25"
  by (simp_all add: at_key_def record_item(2) [OF assms] request_keys_def)

lemma text_field_at: "map_of kvs k = Some (JStr s) \<Longrightarrow> text_field kvs k = ret (strip is_blank s)"
  by (simp add: text_field_def dget_def text_value_def)

definition reply_values :: "wg_server \<Rightarrow> string \<Rightarrow> string \<Rightarrow> nat \<Rightarrow> string \<Rightarrow> string \<Rightarrow> profile_values" where
  "reply_values v n pub a endpoint k = \<lparr>pv_name = n, pv_address = (a, 32), pv_endpoint = endpoint, pv_routes = [sv_network v],
     pv_keepalive = 25, pv_private = pub, pv_public = k, pv_shared = []\<rparr>"

lemma reply_profile:
  assumes "server_ok v" and "in_network4 a (sv_network v)" and "a < 2 ^ 32" and "name_ok n" and "wg_key pub = Inr pub"
    and "endpoint_port endpoint = Some port" and "1 \<le> port \<and> port \<le> 65535" and "wg_key k = Inr k"
  shows "validate_profile (JObj [(''name'', JStr n), (''private_key'', JStr pub), (''public_key'', JStr k),
     (''address'', JStr (address_text a)), (''endpoint'', JStr endpoint), (''allowed_ips'', JStr (interface4_text (sv_network v))),
     (''keepalive'', JInt 25)]) = ret (profile_json (reply_values v n pub a endpoint k))"
proof -
  let ?kvs = "[(''name'', JStr n), (''private_key'', JStr pub), (''public_key'', JStr k),
     (''address'', JStr (address_text a)), (''endpoint'', JStr endpoint), (''allowed_ips'', JStr (interface4_text (sv_network v))),
     (''keepalive'', JInt 25)]"
  have texts: "text_field ?kvs ''name'' = ret n" "text_field ?kvs ''private_key'' = ret pub" "text_field ?kvs ''public_key'' = ret k"
    "text_field ?kvs ''endpoint'' = ret endpoint" "text_field ?kvs ''preshared_key'' = ret []"
    using name_solid(1) [OF assms(4)] key_checked(2) [OF assms(5)] key_checked(2) [OF assms(8)] endpoint_solid [OF assms(6)]
    by (simp_all add: text_field_at) (simp add: text_field_def dget_def text_value_def strip_def rstrip_def)
  have gets: "dget ?kvs ''address'' (JStr []) = JStr (address_text a)" "dget ?kvs ''keepalive'' (JInt 25) = JInt 25"
    "dget ?kvs ''allowed_ips'' (JStr []) = JStr (interface4_text (sv_network v))"
    by (simp_all add: dget_def)
  have "private_address a" using assms(1,2) by (intro private_member) (auto simp: server_ok_def fits4_def)
  then have addr: "vpn_address (JStr (address_text a)) = ret (a, 32)"
    by (simp add: vpn_address_def address_interface [OF assms(3)] need_def require_def)
  have n: "fits4 (sv_network v)" "fst (sv_network v) mod 2 ^ (32 - snd (sv_network v)) = 0" "private4 (sv_network v)"
    using assms(1) by (simp_all add: server_ok_def)
  have routes: "peer_networks (JStr (interface4_text (sv_network v))) = ret [sv_network v]"
    by (simp add: peer_networks_def text_value_def one_route(1) [OF n(1,2)] need_def require_def n(3))
  have ep: "endpoint_value ?kvs = ret endpoint"
    unfolding endpoint_value_def texts andThen_ret using assms(6,7) by (simp add: need_def require_def)
  have alive: "keepalive_value (JInt 25) = ret 25" by (simp add: keepalive_value_def)
  show ?thesis
    unfolding validate_profile_def json.case texts gets addr routes ep alive andThen_ret key_checked(1) [OF assms(5)]
      key_checked(1) [OF assms(8)]
    using name_solid(2) [OF assms(4)]
    by (simp add: require_def profile_json_def reply_values_def address_interface_text)
qed

lemma response_checked:
  assumes "answer_ok m"
  shows "\<exists>response. registration_response (JObj m) = ret response \<and> map_of response = map_of m"
proof -
  obtain v rq a endpoint k port where m: "m = peer_record v rq a endpoint k" and v: "server_ok v" and rq: "request_ok rq"
    and one: "at_key rq ''version'' = JInt 1" and a: "sv_start v \<le> a" "a \<le> sv_end v"
    and port: "endpoint_port endpoint = Some port" "1 \<le> port \<and> port \<le> 65535" and k: "wg_key k = Inr k"
    using assms unfolding answer_ok_def by blast
  obtain n pub where n: "at_key rq ''hostname'' = JStr n" "name_ok n" and pub: "at_key rq ''public_key'' = JStr pub" "wg_key pub = Inr pub"
    using rq unfolding request_ok_def by blast
  have inside: "in_network4 a (sv_network v)" and small: "a < 2 ^ 32"
    using v a between_in_network [of "sv_start v" "sv_network v" "sv_end v" a] by (simp_all add: server_ok_def)
  let ?r = "picked_request rq"
  let ?p = "profile_json (reply_values v n pub a endpoint k)"
  let ?response = "dputs [(''address'', at_key ?p ''address''), (''server_public_key'', at_key ?p ''public_key''),
                   (''endpoint'', at_key ?p ''endpoint''), (''allowed_ips'', at_key ?p ''allowed_ips''),
                   (''keepalive'', at_key ?p ''keepalive'')] ?r"
  have keys: "set (map fst m) = set response_keys"
    using rq by (simp add: m peer_record_def response_keys_def request_ok_def insert_commute)
  have at: "at_key ?r ''hostname'' = JStr n" "at_key ?r ''public_key'' = JStr pub"
    using picked_at [of _ rq] n pub by (simp_all add: request_keys_def)
  have profile: "validate_profile (response_profile ?r m) = ret ?p"
    unfolding response_profile_def at m record_at [OF rq]
    by (rule reply_profile [OF v inside small n(2) pub(2) port k])
  have vals: "jget (JObj ?p) ''address'' = Some (JStr (address_text a))"
    "jget (JObj ?p) ''allowed_ips'' = Some (JStr (interface4_text (sv_network v)))"
    by (simp_all add: profile_json_def reply_values_def address_interface_text)
  have addr: "checked_address ?p = ret (a, 32)"
    using vals(1) by (simp add: checked_address_def at_item_def need_def address_interface [OF small])
  have "fits4 (sv_network v)" "fst (sv_network v) mod 2 ^ (32 - snd (sv_network v)) = 0" using v by (simp_all add: server_ok_def)
  note route = one_route [OF this]
  have nets: "checked_networks ?p = ret [sv_network v]"
    using vals(2) by (simp add: checked_networks_def at_item_def need_def text_value_def route(2,3))
  have "registration_response (JObj m) = ret ?response"
    unfolding registration_response_def json.case
    using keys by (simp add: m picked_record [OF rq] request_checked [OF rq one] profile [unfolded m] addr nets inside require_def)
  moreover have "map_of ?response x = map_of m x" for x
  proof (cases "x \<in> set request_keys")
    case True
    then have "map_of ?r x = Some (at_key rq x)" by (auto simp: picked_request_def request_keys_def)
    with True record_item(1) [OF rq True, of v a endpoint k] show ?thesis
      by (auto simp: m map_of_dputs request_keys_def)
  next
    case False
    then have "map_of ?r x = None" by (auto simp: picked_request_def map_of_eq_None_iff)
    then show ?thesis
      by (simp add: m map_of_dputs record_item(2) [OF rq False] at_key_def profile_json_def reply_values_def
          address_interface_text map_add_def)
  qed
  ultimately show ?thesis by blast
qed

text \<open>
  C27: What the server answers to a registration it accepted passes every check of the device, and the
  device reads from it exactly the fields the server wrote.
\<close>

theorem server_answer_accepted:
  assumes "wg_main e x (Add req requested) s = (Inr (Json (JObj m)), t)"
  shows "\<exists>response. registration_response (JObj m) u = (Inr response, u) \<and> (\<forall>k. map_of response k = map_of m k)"
proof -
  obtain response where "registration_response (JObj m) u = ret response u" "map_of response = map_of m"
    using response_checked [OF main_answers [OF assms]] by metis
  then show ?thesis by (auto simp: ret_def)
qed

theorem server_answer_accepted_witness:
  "\<exists>t response. wg_main (demo_wg False) demo_args demo_command demo_host = (Inr (Json (JObj demo_record)), t) \<and>
     registration_response (JObj demo_record) () = (Inr response, ()) \<and> map_of response ''address'' = Some (JStr (address_text 172818443))"
proof -
  obtain t where t: "wg_main (demo_wg False) demo_args demo_command demo_host = (Inr (Json (JObj demo_record)), t)"
    using demo_added by blast
  then obtain response where "registration_response (JObj demo_record) () = (Inr response, ())"
    "\<forall>k. map_of response k = map_of demo_record k"
    using server_answer_accepted [OF t [unfolded demo_command_def], of "()"] by blast
  moreover have "map_of demo_record ''address'' = Some (JStr (address_text 172818443))"
    by (simp add: demo_record_def demo_request_def demo_peer_def)
  ultimately show ?thesis using t by auto
qed

end
