(* ===== verification/Gateway.thy ===== *)
theory Gateway
  imports Values
begin

text \<open>
  The text protocol to the remote desktop gateway (backend/app/services/guacamole.py): the framing of
  instructions, the reader that takes them from a byte stream, and the handshake. A text is the list of
  its code points.
\<close>

section \<open>UTF-8\<close>

text \<open>\<open>str.encode\<close>: a surrogate has no encoding.\<close>

definition surrogate :: "nat \<Rightarrow> bool" where
  "surrogate c \<longleftrightarrow> 55296 \<le> c \<and> c < 57344"

definition code_point :: "nat \<Rightarrow> bool" where
  "code_point c \<longleftrightarrow> c < 1114112 \<and> \<not> surrogate c"

definition encode_point :: "nat \<Rightarrow> nat list" where
  "encode_point c =
     (if c < 128 then [c]
      else if c < 2048 then [192 + c div 64, 128 + c mod 64]
      else if c < 65536 then [224 + c div 4096, 128 + c div 64 mod 64, 128 + c mod 64]
      else [240 + c div 262144, 128 + c div 4096 mod 64, 128 + c div 64 mod 64, 128 + c mod 64])"

definition encode :: "nat list \<Rightarrow> nat list option" where
  "encode t = (if list_all code_point t then Some (concat (map encode_point t)) else None)"

text \<open>
  The next character of a byte string: the first one, too few bytes for it, or bytes that no
  character starts with.
\<close>

datatype next_char = Point nat "nat list" | Partial | Bad

definition cont :: "nat \<Rightarrow> bool" where
  "cont b \<longleftrightarrow> 128 \<le> b \<and> b < 192"

text \<open>What may follow the first byte: no overlong form, no surrogate, nothing above U+10FFFF.\<close>

definition second :: "nat \<Rightarrow> nat \<Rightarrow> bool" where
  "second b c \<longleftrightarrow> cont c \<and> (b = 224 \<longrightarrow> 160 \<le> c) \<and> (b = 237 \<longrightarrow> c < 160) \<and> (b = 240 \<longrightarrow> 144 \<le> c) \<and> (b = 244 \<longrightarrow> c < 144)"

fun next_point :: "nat list \<Rightarrow> next_char" where
  "next_point [] = Partial"
| "next_point (b # bs) =
     (if b < 128 then Point b bs
      else if b < 194 \<or> 244 < b then Bad
      else case bs of [] \<Rightarrow> Partial
        | c # cs \<Rightarrow>
            if \<not> second b c then Bad
            else if b < 224 then Point ((b - 192) * 64 + (c - 128)) cs
            else case cs of [] \<Rightarrow> Partial
              | d # ds \<Rightarrow>
                  if \<not> cont d then Bad
                  else if b < 240 then Point ((b - 224) * 4096 + (c - 128) * 64 + (d - 128)) ds
                  else case ds of [] \<Rightarrow> Partial
                    | x # xs \<Rightarrow>
                        if \<not> cont x then Bad
                        else Point ((b - 240) * 262144 + (c - 128) * 4096 + (d - 128) * 64 + (x - 128)) xs)"

lemma next_point_shorter: "next_point bs = Point c rest \<Longrightarrow> length rest < length bs"
  by (induction bs rule: next_point.induct) (auto split: if_splits list.splits)

text \<open>The incremental decoder: the characters of the bytes, and the bytes of an unfinished one.\<close>

function decode :: "nat list \<Rightarrow> (nat list \<times> nat list) option" where
  "decode bs = (case next_point bs of
     Bad \<Rightarrow> None
   | Partial \<Rightarrow> Some ([], bs)
   | Point c rest \<Rightarrow> map_option (\<lambda>(t, p). (c # t, p)) (decode rest))"
  by pat_completeness auto
termination by (relation "measure length") (simp_all add: next_point_shorter)

declare decode.simps [simp del]

section \<open>Instructions\<close>

definition max_instruction :: nat where
  "max_instruction = 4 * 1024 * 1024"

definition points :: "string \<Rightarrow> nat list" where
  "points s = map code s"

definition dot :: nat where "dot = 46"
definition comma :: nat where "comma = 44"
definition semicolon :: nat where "semicolon = 59"

definition element :: "nat list \<Rightarrow> nat list" where
  "element v = points (nat_dec (length v)) @ dot # v"

fun joined :: "nat list list \<Rightarrow> nat list" where
  "joined [] = []"
| "joined [x] = x"
| "joined (x # y # xs) = x @ comma # joined (y # xs)"

definition instruction :: "nat list list \<Rightarrow> nat list" where
  "instruction vs = joined (map element vs) @ [semicolon]"

text \<open>\<open>data.find(c, offset)\<close> and \<open>data[a:b]\<close>.\<close>

definition find_from :: "nat \<Rightarrow> nat list \<Rightarrow> nat \<Rightarrow> nat option" where
  "find_from c data offset =
     (let n = length (takeWhile (\<lambda>x. x \<noteq> c) (drop offset data))
      in if offset + n < length data then Some (offset + n) else None)"

definition slice :: "nat \<Rightarrow> nat \<Rightarrow> 'a list \<Rightarrow> 'a list" where
  "slice a b xs = take (b - a) (drop a xs)"

definition decimal :: "nat \<Rightarrow> bool" where
  "decimal c \<longleftrightarrow> 48 \<le> c \<and> c < 58"

definition number :: "nat list \<Rightarrow> nat" where
  "number t = foldl (\<lambda>a c. a * 10 + (c - 48)) 0 t"

text \<open>One turn of the loop: the end of the parse, or the elements and the offset of the next turn.\<close>

datatype turn =
    Fails string
  | Incomplete
  | Complete "nat list list" nat
  | Next "nat list list" nat

definition parse_turn :: "nat list \<Rightarrow> nat list list \<Rightarrow> nat \<Rightarrow> turn" where
  "parse_turn data elements offset = (case find_from dot data offset of
     None \<Rightarrow> if length data - offset > 7 then Fails ''Invalid instruction length'' else Incomplete
   | Some d \<Rightarrow>
       let prefix = slice offset d data; final = d + 1 + number prefix;
           elements' = elements @ [slice (d + 1) final data]
       in if prefix = [] \<or> length prefix > 7 \<or> \<not> list_all decimal prefix then Fails ''Invalid instruction length''
          else if final > max_instruction then Fails ''Instruction too large''
          else if length data \<le> final then Incomplete
          else if length elements' > 256 then Fails ''Too many instruction elements''
          else if data ! final = semicolon then Complete elements' (final + 1)
          else if data ! final \<noteq> comma then Fails ''Invalid instruction delimiter''
          else Next elements' (final + 1))"

partial_function (option) parse_loop ::
    "nat list \<Rightarrow> nat list list \<Rightarrow> nat \<Rightarrow> (string + (nat list list \<times> nat) option) option" where
  [code]: "parse_loop data elements offset = (case parse_turn data elements offset of
     Fails m \<Rightarrow> Some (Inl m)
   | Incomplete \<Rightarrow> Some (Inr None)
   | Complete vs n \<Rightarrow> Some (Inr (Some (vs, n)))
   | Next vs n \<Rightarrow> parse_loop data vs n)"

definition parse_instruction :: "nat list \<Rightarrow> (string + (nat list list \<times> nat) option) option" where
  "parse_instruction data = parse_loop data [] 0"

section \<open>The reader\<close>

text \<open>
  A reader has the byte strings that the gateway still sends (none is empty; then the stream ends), the
  decoder's unfinished bytes and the text not parsed yet.
\<close>

record reader =
  rd_chunks :: "nat list list"
  rd_pending :: "nat list"
  rd_buffer :: "nat list"

datatype gateway_fault = Value_fault string | End_of_file | Timed_out | Gateway_raises string

text \<open>A turn of the loop when the buffer holds no whole instruction.\<close>

definition read_more :: "reader \<Rightarrow> gateway_fault + reader" where
  "read_more r = (case rd_chunks r of
     [] \<Rightarrow> Inl (if rd_buffer r \<noteq> [] \<or> rd_pending r \<noteq> [] then Value_fault ''Truncated instruction'' else End_of_file)
   | c # cs \<Rightarrow> (case decode (rd_pending r @ c) of
       None \<Rightarrow> Inl (Value_fault ''UnicodeDecodeError'')
     | Some (t, p) \<Rightarrow>
         if length (rd_buffer r @ t) > max_instruction then Inl (Value_fault ''Instruction too large'')
         else Inr \<lparr>rd_chunks = cs, rd_pending = p, rd_buffer = rd_buffer r @ t\<rparr>))"

text \<open>\<open>InstructionReader.read\<close>: the values and the text of the next instruction.\<close>

partial_function (option) reader_read ::
    "reader \<Rightarrow> (gateway_fault + (nat list list \<times> nat list \<times> reader)) option" where
  [code]: "reader_read r = (case parse_instruction (rd_buffer r) of
     None \<Rightarrow> None
   | Some (Inl m) \<Rightarrow> Some (Inl (Value_fault m))
   | Some (Inr (Some (vs, n))) \<Rightarrow>
       Some (Inr (vs, take n (rd_buffer r), r\<lparr>rd_buffer := drop n (rd_buffer r)\<rparr>))
   | Some (Inr None) \<Rightarrow> (case read_more r of Inl f \<Rightarrow> Some (Inl f) | Inr t \<Rightarrow> reader_read t))"

section \<open>The handshake\<close>

text \<open>The connection to the gateway: what it sends, and the bytes written to it.\<close>

record gateway =
  gw_reader :: reader
  gw_sent :: "nat list"
  gw_reads :: nat

type_synonym 'a gateway_prog = "(gateway, gateway_fault, 'a) prog"

text \<open>\<open>writer.write(t.encode())\<close>.\<close>

definition write_text :: "nat list \<Rightarrow> unit gateway_prog" where
  "write_text t = andThen (need (encode t) (Value_fault ''UnicodeEncodeError'')) (\<lambda>bs.
     modify (\<lambda>s. s\<lparr>gw_sent := gw_sent s @ bs\<rparr>))"

text \<open>A read; \<open>late k\<close> is whether the k-th read of the connection takes longer than it may.\<close>

definition read_reply :: "(nat \<Rightarrow> bool) \<Rightarrow> (nat list list \<times> nat list) gateway_prog" where
  "read_reply late = (\<lambda>s. let t = s\<lparr>gw_reads := Suc (gw_reads s)\<rparr> in
     if late (gw_reads s) then (Inl Timed_out, t)
     else case reader_read (gw_reader s) of
       None \<Rightarrow> (Inl Timed_out, t)
     | Some (Inl f) \<Rightarrow> (Inl f, t)
     | Some (Inr (vs, raw, r)) \<Rightarrow> (Inr (vs, raw), t\<lparr>gw_reader := r\<rparr>))"

definition version_prefix :: "nat list" where
  "version_prefix = points ''VERSION_''"

definition argument_value :: "(nat list \<times> nat list) list \<Rightarrow> nat list \<Rightarrow> nat list" where
  "argument_value parameters name =
     (if take (length version_prefix) name = version_prefix then points ''VERSION_1_5_0''
      else case map_of parameters name of None \<Rightarrow> [] | Some v \<Rightarrow> v)"

definition hello_messages :: "(nat list \<times> nat list) list \<Rightarrow> nat \<Rightarrow> nat \<Rightarrow> nat list list \<Rightarrow> nat list list list" where
  "hello_messages parameters width height arguments =
     [[points ''size'', points (nat_dec width), points (nat_dec height), points ''96''],
      [points ''audio''], [points ''video''],
      [points ''image'', points ''image/png'', points ''image/jpeg''],
      points ''connect'' # map (argument_value parameters) arguments]"

definition handshake ::
    "(nat \<Rightarrow> bool) \<Rightarrow> nat list \<Rightarrow> (nat list \<times> nat list) list \<Rightarrow> nat \<Rightarrow> nat \<Rightarrow> nat list gateway_prog" where
  "handshake late protocol parameters width height =
     andThen (write_text (instruction [points ''select'', protocol])) (\<lambda>_.
     andThen (read_reply late) (\<lambda>(vs, raw).
     andThen (require (hd vs = points ''args'') (Value_fault ''Gateway rejected protocol'')) (\<lambda>_.
     andThen (write_text (concat (map instruction (hello_messages parameters width height (tl vs))))) (\<lambda>_.
     andThen (read_reply late) (\<lambda>(vs, raw).
     andThen (require (hd vs = points ''ready'' \<and> length vs = 2)
       (Value_fault ''Gateway could not establish the session'')) (\<lambda>_.
       ret (vs ! 1)))))))"

end
