(* ===== verification/Gateway_Safety.thy ===== *)
theory Gateway_Safety
  imports Gateway
begin

text \<open>
  Facts about the gateway's text protocol: the decoder does not depend on how the bytes are cut, the
  parser ends, reads back what was framed and asks for more on every proper prefix, and the reader
  returns the instructions of a stream in their order.
\<close>

section \<open>UTF-8\<close>

lemma next_two:
  assumes "2 \<le> q" "q < 32" "r < 64"
  shows "next_point ([192 + q, 128 + r] @ rest) = Point (q * 64 + r) rest"
  using assms by (simp add: second_def cont_def)

lemma next_three:
  assumes "a < 16" "q < 64" "r < 64" "a = 0 \<longrightarrow> 32 \<le> q" "a = 13 \<longrightarrow> q < 32"
  shows "next_point ([224 + a, 128 + q, 128 + r] @ rest) = Point (a * 4096 + q * 64 + r) rest"
  using assms by (simp add: second_def cont_def)

lemma next_four:
  assumes "a < 5" "p < 64" "q < 64" "r < 64" "a = 0 \<longrightarrow> 16 \<le> p" "a = 4 \<longrightarrow> p < 16"
  shows "next_point ([240 + a, 128 + p, 128 + q, 128 + r] @ rest) = Point (a * 262144 + p * 4096 + q * 64 + r) rest"
  using assms by (simp add: second_def cont_def)

lemma base64_digits:
  fixes c :: nat
  shows "c div 64 * 64 + c mod 64 = c" "c div 4096 * 4096 + c div 64 mod 64 * 64 + c mod 64 = c"
    "c div 262144 * 262144 + c div 4096 mod 64 * 4096 + c div 64 mod 64 * 64 + c mod 64 = c"
proof -
  have d: "c div 4096 = c div 64 div 64" "c div 262144 = c div 64 div 64 div 64"
    by (simp_all add: div_mult2_eq [symmetric])
  show "c div 64 * 64 + c mod 64 = c" by (rule div_mult_mod_eq)
  show "c div 4096 * 4096 + c div 64 mod 64 * 64 + c mod 64 = c"
    unfolding d using div_mult_mod_eq [of c 64] div_mult_mod_eq [of "c div 64" 64] by linarith
  show "c div 262144 * 262144 + c div 4096 mod 64 * 4096 + c div 64 mod 64 * 64 + c mod 64 = c"
    unfolding d using div_mult_mod_eq [of c 64] div_mult_mod_eq [of "c div 64" 64]
      div_mult_mod_eq [of "c div 64 div 64" 64] by linarith
qed

lemma next_encoded:
  assumes "code_point c"
  shows "next_point (encode_point c @ rest) = Point c rest"
proof -
  have r: "c mod 64 < 64" "c div 64 mod 64 < 64" "c div 4096 mod 64 < 64" by simp_all
  note digits = base64_digits [of c]
  consider "c < 128" | "128 \<le> c" "c < 2048" | "2048 \<le> c" "c < 65536" | "65536 \<le> c" by linarith
  then show ?thesis
  proof cases
    case 1
    then show ?thesis by (simp add: encode_point_def)
  next
    case 2
    have "2 \<le> c div 64" "c div 64 < 32" using digits(1) r(1) 2 by linarith+
    from next_two [OF this r(1), of rest] show ?thesis
      using 2 by (simp only: encode_point_def digits if_False not_less)
         (simp add: encode_point_def)
  next
    case 3
    have "c div 4096 < 16" using digits(2) 3 by linarith
    moreover have "c div 4096 = 0 \<longrightarrow> 32 \<le> c div 64 mod 64" using digits(2) r 3 by linarith
    moreover have "c div 4096 = 13 \<longrightarrow> c div 64 mod 64 < 32"
      using digits(2) r assms by (auto simp: code_point_def surrogate_def)
    ultimately show ?thesis
      using next_three [OF _ r(2,1), of "c div 4096" rest] 3 digits(2) by (simp only: encode_point_def) simp
  next
    case 4
    have "c < 1114112" using assms by (simp add: code_point_def)
    then have "c div 262144 < 5" using digits(3) by linarith
    moreover have "c div 262144 = 0 \<longrightarrow> 16 \<le> c div 4096 mod 64" using digits(3) r 4 by linarith
    moreover have "c div 262144 = 4 \<longrightarrow> c div 4096 mod 64 < 16"
      using digits(3) r \<open>c < 1114112\<close> by linarith
    ultimately show ?thesis
      using next_four [OF _ r(3,2,1), of "c div 262144" rest] 4 digits(3) by (simp only: encode_point_def) simp
  qed
qed

definition encoded :: "nat list \<Rightarrow> nat list" where
  "encoded t = concat (map encode_point t)"

lemma encode_encoded: "encode t = Some bs \<longleftrightarrow> list_all code_point t \<and> bs = encoded t"
  by (auto simp: encode_def encoded_def)

lemma encoded_append [simp]: "encoded (s @ t) = encoded s @ encoded t" "encoded [] = []"
  by (simp_all add: encoded_def)

lemma next_point_append:
  "next_point bs = Point c rest \<Longrightarrow> next_point (bs @ b) = Point c (rest @ b)"
  "next_point bs = Bad \<Longrightarrow> next_point (bs @ b) = Bad"
  by (auto split: if_splits list.splits elim!: next_point.elims)

lemma next_point_partial: "next_point bs = Partial \<Longrightarrow> length bs < 4"
  by (auto split: if_splits list.splits elim!: next_point.elims)

lemma decode_Partial: "next_point bs = Partial \<Longrightarrow> decode bs = Some ([], bs)"
  by (simp add: decode.simps)

lemma decode_Nil [simp]: "decode [] = Some ([], [])"
  by (simp add: decode.simps)

lemma decode_None: "decode a = None \<Longrightarrow> decode (a @ b) = None"
proof (induction a rule: decode.induct)
  case (1 a)
  then show ?case
    by (cases "next_point a") (auto simp: decode.simps [of a] decode.simps [of "a @ b"] next_point_append)
qed

lemma decode_append:
  "decode a = Some (t, p) \<Longrightarrow> decode (a @ b) = map_option (\<lambda>(u, q). (t @ u, q)) (decode (p @ b))"
proof (induction a arbitrary: t rule: decode.induct)
  case (1 a)
  show ?case
  proof (cases "next_point a")
    case (Point c rest)
    then obtain u where "decode rest = Some (u, p)" "t = c # u"
      using 1(2) by (auto simp: decode.simps [of a])
    with 1(1) [OF Point] Point show ?thesis
      by (auto simp: decode.simps [of "a @ b"] next_point_append option.map_comp comp_def split_def)
  next
    case Partial
    with 1(2) show ?thesis by (simp add: decode_Partial) (cases "decode (a @ b)"; auto)
  next
    case Bad
    with 1(2) show ?thesis by (simp add: decode.simps)
  qed
qed

lemma decode_encoded_append:
  "list_all code_point t \<Longrightarrow> decode (encoded t @ b) = map_option (\<lambda>(u, q). (t @ u, q)) (decode b)"
proof (induction t)
  case Nil
  show ?case by (cases "decode b") auto
next
  case (Cons c t)
  then have "decode (encoded (c # t) @ b) = map_option (\<lambda>(u, q). (c # u, q)) (decode (encoded t @ b))"
    by (simp add: encoded_def decode.simps [of "encode_point c @ _"] next_encoded)
  with Cons show ?case by (simp add: option.map_comp comp_def split_def)
qed

lemma decode_encoded: "list_all code_point t \<Longrightarrow> decode (encoded t) = Some (t, [])"
  using decode_encoded_append [of t "[]"] by simp

lemma decode_rest: "decode bs = Some (t, p) \<Longrightarrow> next_point p = Partial \<and> length t + length p \<le> length bs"
proof (induction bs arbitrary: t rule: decode.induct)
  case (1 bs)
  show ?case
  proof (cases "next_point bs")
    case (Point c rest)
    then obtain u where "decode rest = Some (u, p)" "t = c # u"
      using 1(2) by (auto simp: decode.simps [of bs])
    with 1(1) [OF Point this(1)] next_point_shorter [OF Point] show ?thesis by simp
  next
    case Partial
    with 1(2) show ?thesis by (auto simp: decode_Partial)
  next
    case Bad
    with 1(2) show ?thesis by (simp add: decode.simps)
  qed
qed

text \<open>However bytes that decode are cut in two, the parts decode one after the other.\<close>

lemma decode_cut:
  assumes "decode (a @ b) = Some (u, [])"
  obtains t p u' where "decode a = Some (t, p)" "decode (p @ b) = Some (u', [])" "u = t @ u'"
proof -
  obtain t p where a: "decode a = Some (t, p)"
    using assms decode_None [of a b] by (cases "decode a") auto
  with assms obtain u' where "decode (p @ b) = Some (u', [])" "u = t @ u'"
    by (auto simp: decode_append)
  with a that show thesis by blast
qed

section \<open>The parser\<close>

lemma find_from_Some:
  "find_from c data offset = Some d \<longleftrightarrow>
     offset \<le> d \<and> d < length data \<and> data ! d = c \<and> (\<forall>i. offset \<le> i \<and> i < d \<longrightarrow> data ! i \<noteq> c)"
  (is "_ \<longleftrightarrow> ?R d")
proof -
  define n where "n = length (takeWhile (\<lambda>x. x \<noteq> c) (drop offset data))"
  have before: "data ! i \<noteq> c" if "offset \<le> i" "i < offset + n" for i
  proof -
    let ?w = "takeWhile (\<lambda>x. x \<noteq> c) (drop offset data)"
    have k: "i - offset < length ?w" using that by (simp add: n_def)
    have "?w ! (i - offset) \<noteq> c" using set_takeWhileD [OF nth_mem [OF k]] by simp
    moreover have "?w ! (i - offset) = data ! i"
      using takeWhile_nth [OF k] that k length_takeWhile_le [of "\<lambda>x. x \<noteq> c" "drop offset data"] by simp
    ultimately show ?thesis by simp
  qed
  have at: "data ! (offset + n) = c" if "offset + n < length data"
    using that nth_length_takeWhile [of "\<lambda>x. x \<noteq> c" "drop offset data"] by (simp add: n_def)
  have "?R d \<longleftrightarrow> d = offset + n \<and> offset + n < length data"
  proof
    assume r: "?R d"
    have "\<not> d < offset + n" using before r by auto
    moreover have "\<not> offset + n < d" using at r by auto
    ultimately show "d = offset + n \<and> offset + n < length data" using r by simp
  qed (use before at in auto)
  then show ?thesis by (auto simp: find_from_def Let_def n_def)
qed

lemma find_from_None: "find_from c data offset = None \<longleftrightarrow> (\<forall>i. offset \<le> i \<and> i < length data \<longrightarrow> data ! i \<noteq> c)"
proof -
  have "(\<exists>d. find_from c data offset = Some d) \<longleftrightarrow> (\<exists>i. offset \<le> i \<and> i < length data \<and> data ! i = c)"
  proof
    assume "\<exists>i. offset \<le> i \<and> i < length data \<and> data ! i = c"
    then obtain i where "offset \<le> i \<and> i < length data \<and> data ! i = c"
      "\<forall>j < i. \<not> (offset \<le> j \<and> j < length data \<and> data ! j = c)"
      using exists_least_iff [of "\<lambda>i. offset \<le> i \<and> i < length data \<and> data ! i = c"] by auto
    then have "find_from c data offset = Some i" by (auto simp: find_from_Some)
    then show "\<exists>d. find_from c data offset = Some d" ..
  qed (auto simp: find_from_Some)
  then show ?thesis by (metis not_None_eq option.distinct(1))
qed

lemma parse_turn_Next:
  "parse_turn data es offset = Next vs n \<Longrightarrow> offset < n \<and> n \<le> length data \<and> length vs = Suc (length es) \<and> length vs \<le> 256"
  by (auto simp: parse_turn_def Let_def find_from_Some split: option.splits if_splits)

lemma parse_turn_Complete:
  "parse_turn data es offset = Complete vs n \<Longrightarrow> offset < n \<and> n \<le> length data \<and> length vs = Suc (length es) \<and> length vs \<le> 256"
  by (auto simp: parse_turn_def Let_def find_from_Some split: option.splits if_splits)

lemma parse_loop_ends: "\<exists>x. parse_loop data es offset = Some x"
proof (induction "length data - offset" arbitrary: es offset rule: less_induct)
  case less
  show ?case
  proof (cases "parse_turn data es offset")
    case (Next vs n)
    then have "length data - n < length data - offset" using parse_turn_Next [OF Next] by linarith
    from less [OF this, of vs] Next show ?thesis by (simp add: parse_loop.simps)
  qed (simp_all add: parse_loop.simps)
qed

lemma parse_loop_bounds:
  "parse_loop data es offset = Some (Inr (Some (vs, n))) \<Longrightarrow> offset < n \<and> n \<le> length data \<and> vs \<noteq> [] \<and> length vs \<le> 256"
proof (induction "length data - offset" arbitrary: es offset rule: less_induct)
  case less
  show ?case
  proof (cases "parse_turn data es offset")
    case (Next ws m)
    note b = parse_turn_Next [OF Next]
    then have "length data - m < length data - offset" by linarith
    from less(1) [OF this, of ws] less(2) Next b show ?thesis by (simp add: parse_loop.simps [of _ es])
  next
    case (Complete ws m)
    with less(2) parse_turn_Complete [OF Complete] show ?thesis by (auto simp: parse_loop.simps [of _ es])
  qed (use less(2) in \<open>simp_all add: parse_loop.simps [of _ es]\<close>)
qed

text \<open>What has been decided on the data at hand stays decided when more arrives.\<close>

lemma find_from_append: "find_from c data offset = Some d \<Longrightarrow> find_from c (data @ later) offset = Some d"
  by (auto simp: find_from_Some nth_append)

lemma find_from_later:
  "find_from c data offset = None \<Longrightarrow> find_from c (data @ later) offset = Some d \<Longrightarrow> length data \<le> d"
  by (simp add: find_from_Some find_from_None nth_append) (metis not_less)

lemma slice_append: "b \<le> length data \<Longrightarrow> slice a b (data @ later) = slice a b data"
  by (cases "a \<le> b") (simp_all add: slice_def)

lemma parse_turn_append:
  assumes "parse_turn data es offset \<noteq> Incomplete"
  shows "parse_turn (data @ later) es offset = parse_turn data es offset"
proof (cases "find_from dot data offset")
  case None
  with assms have long: "length data - offset > 7" "parse_turn data es offset = Fails ''Invalid instruction length''"
    by (auto simp: parse_turn_def split: if_splits)
  show ?thesis
  proof (cases "find_from dot (data @ later) offset")
    case (Some d)
    have "length (slice offset d (data @ later)) > 7"
      using find_from_later [OF None Some] Some long(1) by (simp add: slice_def find_from_Some)
    then show ?thesis using Some long(2) by (simp add: parse_turn_def)
  qed (use long in \<open>simp add: parse_turn_def\<close>)
next
  case (Some d)
  then have d: "d < length data" by (simp add: find_from_Some)
  let ?n = "number (slice offset d data)"
  have same: "slice offset d (data @ later) = slice offset d data" using d by (simp add: slice_append)
  show ?thesis
  proof (cases "length data \<le> d + 1 + ?n")
    case True
    with Some assms d show ?thesis
      by (simp add: parse_turn_def find_from_append same Let_def split: if_splits)
  next
    case False
    with Some d show ?thesis
      by (simp add: parse_turn_def find_from_append same slice_append Let_def nth_append)
  qed
qed

lemma find_from_take: "find_from c data offset = Some d \<Longrightarrow> d < n \<Longrightarrow> find_from c (take n data) offset = Some d"
  by (auto simp: find_from_Some)

lemma slice_take: "b \<le> n \<Longrightarrow> slice a b (take n data) = slice a b data"
  by (simp add: slice_def drop_take min_def)

lemma parse_turn_take:
  assumes "parse_turn data es offset = t" and "t = Next vs m \<or> t = Complete vs m" and "m \<le> n"
  shows "parse_turn (take n data) es offset = t"
proof -
  obtain d where d: "find_from dot data offset = Some d" "d < length data"
    using assms(1,2) by (auto simp: parse_turn_def find_from_Some split: option.splits if_splits)
  have m: "m = d + 1 + number (slice offset d data) + 1" "m \<le> length data"
    using assms(1,2) unfolding parse_turn_def d by (auto simp: Let_def split: if_splits)
  have "find_from dot (take n data) offset = Some d" using m(1) assms(3) by (intro find_from_take d) simp
  then have "parse_turn (take n data) es offset \<noteq> Incomplete"
    using m assms(3) slice_take [of d n offset data] by (simp add: parse_turn_def Let_def min_le_iff_disj)
  from parse_turn_append [OF this, of "drop n data"] assms(1) show ?thesis by simp
qed

lemma parse_loop_append:
  "parse_loop data es offset \<noteq> Some (Inr None) \<Longrightarrow> parse_loop (data @ later) es offset = parse_loop data es offset"
proof (induction "length data - offset" arbitrary: es offset rule: less_induct)
  case less
  have "parse_turn data es offset \<noteq> Incomplete" using less(2) by (auto simp: parse_loop.simps [of _ es])
  note t = parse_turn_append [OF this, of later]
  show ?case
  proof (cases "parse_turn data es offset")
    case (Next ws m)
    then have "length data - m < length data - offset" using parse_turn_Next [OF Next] by linarith
    from less(1) [OF this, of ws] less(2) Next t show ?thesis by (simp add: parse_loop.simps [of _ es])
  qed (use t in \<open>simp_all add: parse_loop.simps [of _ es]\<close>)
qed

section \<open>Reading back\<close>

lemma number_points [simp]: "number (points (nat_dec n)) = n"
proof -
  have "number (points s) = dec_val s" for s
    by (simp add: number_def points_def dec_val_def foldl_map code_def)
  then show ?thesis by (simp add: dec_val_nat_dec)
qed

lemma points_decimal: "c \<in> set (points (nat_dec n)) \<Longrightarrow> decimal c"
  by (auto simp: points_def decimal_def code_def is_digit_def dest!: digits_nat_dec)

lemma nat_dec_length: "n < 10 ^ k \<Longrightarrow> 0 < k \<Longrightarrow> length (nat_dec n) \<le> k"
proof (induction n arbitrary: k rule: nat_dec.induct)
  case (1 n)
  show ?case
  proof (cases "n < 10")
    case True
    then show ?thesis using 1(3) by (simp add: nat_dec.simps [of n])
  next
    case False
    with 1(2) obtain j where j: "k = Suc j" "0 < j" by (cases k; cases "k - 1") auto
    then have "n div 10 < 10 ^ j" using 1(2) by (simp add: less_mult_imp_div_less mult.commute)
    from 1(1) [OF False this j(2)] False j(1) show ?thesis by (simp add: nat_dec.simps [of n])
  qed
qed

lemma parse_turn_found:
  assumes "find_from dot data offset = Some d" and "slice offset d data = p" and "p \<noteq> []" "length p \<le> 7" "list_all decimal p"
    and "f = d + 1 + number p" "f \<le> max_instruction" "f < length data" and "slice (d + 1) f data = v"
    and "length es < 256" and "data ! f \<in> {comma, semicolon}"
  shows "parse_turn data es offset = (if data ! f = semicolon then Complete else Next) (es @ [v]) (f + 1)"
  using assms(2-11) unfolding parse_turn_def assms(1) by (auto simp: Let_def not_le)

lemma parse_turn_element:
  assumes "length es < 256" and "length pre + length (element v) \<le> max_instruction" and "d \<in> {comma, semicolon}"
  shows "parse_turn (pre @ element v @ d # rest) es (length pre) =
    (if d = semicolon then Complete else Next) (es @ [v]) (length pre + length (element v) + 1)"
proof -
  let ?p = "points (nat_dec (length v))" and ?data = "pre @ element v @ d # rest"
  let ?f = "length pre + length ?p + 1 + length v"
  have data: "?data = pre @ ?p @ dot # v @ d # rest" by (simp add: element_def)
  have f: "?f = length pre + length (element v)" by (simp add: element_def)
  have "length v < 10 ^ 7" using assms(2) by (simp add: element_def max_instruction_def)
  then have short: "length ?p \<le> 7" by (simp add: points_def nat_dec_length)
  have digits: "list_all decimal ?p" using points_decimal by (auto simp: list_all_iff)
  have "?p ! j \<noteq> dot" if "j < length ?p" for j
    using points_decimal [OF nth_mem [OF that]] by (auto simp: decimal_def dot_def)
  then have find: "find_from dot ?data (length pre) = Some (length pre + length ?p)"
    unfolding data find_from_Some by (auto simp: nth_append)
  have at: "?data ! ?f = d" unfolding data by (simp add: nth_append)
  have "parse_turn ?data es (length pre) = (if ?data ! ?f = semicolon then Complete else Next) (es @ [v]) (?f + 1)"
  proof (rule parse_turn_found [OF find _ _ short digits])
    show "slice (length pre) (length pre + length ?p) ?data = ?p" unfolding data by (simp add: slice_def)
    show "slice (length pre + length ?p + 1) ?f ?data = v" unfolding data by (simp add: slice_def)
    show "?data ! ?f \<in> {comma, semicolon}" unfolding at by (rule assms(3))
    show "?p \<noteq> []" by (simp add: points_def nat_dec_nonempty)
    show "?f \<le> max_instruction" using assms(2) f by simp
    show "?f < length ?data" unfolding data by simp
  qed (simp_all add: assms(1))
  then show ?thesis unfolding at unfolding f .
qed

lemma instruction_Cons: "instruction (v # w # vs) = element v @ comma # instruction (w # vs)" "instruction [v] = element v @ [semicolon]"
  by (simp_all add: instruction_def)

lemma parse_loop_instruction:
  assumes "vs \<noteq> []" and "length es + length vs \<le> 256" and "length pre + length (instruction vs) \<le> max_instruction"
  shows "parse_loop (pre @ instruction vs @ rest) es (length pre) =
    Some (Inr (Some (es @ vs, length pre + length (instruction vs))))"
  using assms
proof (induction vs arbitrary: es pre)
  case (Cons v vs)
  show ?case
  proof (cases vs)
    case Nil
    with Cons(3,4) parse_turn_element [of es pre v semicolon rest] show ?thesis
      by (simp add: parse_loop.simps [of _ es] instruction_Cons)
  next
    case (Cons w ws)
    note vs = Cons
    let ?pre = "pre @ element v @ [comma]"
    have "parse_turn (pre @ element v @ comma # instruction vs @ rest) es (length pre) =
        Next (es @ [v]) (length ?pre)"
      using parse_turn_element [of es pre v comma "instruction vs @ rest"] Cons.prems vs
      by (simp add: instruction_Cons comma_def semicolon_def)
    moreover have "parse_loop (?pre @ instruction vs @ rest) (es @ [v]) (length ?pre) =
        Some (Inr (Some ((es @ [v]) @ vs, length ?pre + length (instruction vs))))"
      using Cons.prems vs by (intro Cons.IH) (simp_all add: instruction_Cons)
    ultimately show ?thesis using vs by (simp add: parse_loop.simps [of _ es] instruction_Cons)
  qed
qed simp

text \<open>A text that is one instruction, whatever follows it.\<close>

definition frame :: "nat list list \<Rightarrow> nat list \<Rightarrow> bool" where
  "frame vs raw \<longleftrightarrow> parse_instruction raw = Some (Inr (Some (vs, length raw)))"

lemma frame_instruction:
  "vs \<noteq> [] \<Longrightarrow> length vs \<le> 256 \<Longrightarrow> length (instruction vs) \<le> max_instruction \<Longrightarrow> frame vs (instruction vs)"
  using parse_loop_instruction [of vs "[]" "[]" "[]"] by (simp add: frame_def parse_instruction_def)

lemma frame_append: "frame vs raw \<Longrightarrow> parse_instruction (raw @ rest) = Some (Inr (Some (vs, length raw)))"
  using parse_loop_append [of raw "[]" 0 rest] by (simp add: frame_def parse_instruction_def)

lemma frame_part:
  assumes "frame vs (a @ b)" and "b \<noteq> []"
  shows "parse_instruction a = Some (Inr None)"
proof (rule ccontr)
  assume a: "parse_instruction a \<noteq> Some (Inr None)"
  then have "parse_instruction a = Some (Inr (Some (vs, length (a @ b))))"
    using parse_loop_append [of a "[]" 0 b] assms(1) by (simp add: frame_def parse_instruction_def)
  then show False using parse_loop_bounds [of a "[]" 0 vs "length (a @ b)"] assms(2) by (simp add: parse_instruction_def)
qed

text \<open>The consumed part of a text is a frame of its own.\<close>

lemma parse_loop_take:
  "parse_loop data es offset = Some (Inr (Some (vs, n))) \<Longrightarrow> parse_loop (take n data) es offset = Some (Inr (Some (vs, n)))"
proof (induction "length data - offset" arbitrary: es offset rule: less_induct)
  case less
  note bounds = parse_loop_bounds [OF less(2)]
  show ?case
  proof (cases "parse_turn data es offset")
    case (Next ws m)
    then have shorter: "length data - m < length data - offset" using parse_turn_Next [OF Next] by linarith
    from less(2) Next have loop: "parse_loop data ws m = Some (Inr (Some (vs, n)))" by (simp add: parse_loop.simps [of _ es])
    then have "parse_turn (take n data) es offset = Next ws m"
      using parse_turn_take [OF Next, of ws m n] parse_loop_bounds [OF loop] by simp
    with less(1) [OF shorter loop] show ?thesis by (simp add: parse_loop.simps [of _ es])
  next
    case (Complete ws m)
    with less(2) have "ws = vs" "m = n" by (simp_all add: parse_loop.simps [of _ es])
    with parse_turn_take [OF Complete, of ws m n] show ?thesis by (simp add: parse_loop.simps [of _ es])
  qed (use less(2) in \<open>simp_all add: parse_loop.simps [of _ es]\<close>)
qed

lemma parse_frame:
  assumes "parse_instruction data = Some (Inr (Some (vs, n)))"
  shows "frame vs (take n data)" "0 < n" "n \<le> length data"
  using assms parse_loop_take [of data "[]" 0 vs n] parse_loop_bounds [of data "[]" 0 vs n]
  by (simp_all add: frame_def parse_instruction_def)

section \<open>The reader\<close>

text \<open>What a reader still has to give: the text of its buffer and of the bytes to come.\<close>

definition to_come :: "reader \<Rightarrow> nat list \<Rightarrow> bool" where
  "to_come r t \<longleftrightarrow> (\<exists>u. decode (rd_pending r @ concat (rd_chunks r)) = Some (u, []) \<and> t = rd_buffer r @ u) \<and>
     next_point (rd_pending r) = Partial \<and> list_all (\<lambda>c. length c \<le> 16384) (rd_chunks r)"

text \<open>A frame far enough below the limit that the bytes read with its end do not pass the limit either.\<close>

definition readable :: "nat list list \<times> nat list \<Rightarrow> bool" where
  "readable f \<longleftrightarrow> frame (fst f) (snd f) \<and> length (snd f) + 16388 \<le> max_instruction"

lemma read_whole:
  assumes "frame vs raw" and "rd_buffer r = raw @ b"
  shows "reader_read r = Some (Inr (vs, raw, r\<lparr>rd_buffer := b\<rparr>))"
  using frame_append [OF assms(1)] assms(2) by (simp add: reader_read.simps)

lemma read_more_to_come:
  assumes "to_come r t" and "rd_chunks r = c # cs" and "length (rd_buffer r) + 16388 \<le> max_instruction"
  obtains r' where "read_more r = Inr r'" "to_come r' t" "rd_chunks r' = cs"
proof -
  from assms(1,2) obtain u where u: "decode ((rd_pending r @ c) @ concat cs) = Some (u, [])" "t = rd_buffer r @ u"
    and p: "next_point (rd_pending r) = Partial" and cs: "length c \<le> 16384" "list_all (\<lambda>c. length c \<le> 16384) cs"
    by (auto simp: to_come_def)
  from decode_cut [OF u(1)] obtain x q y where
    x: "decode (rd_pending r @ c) = Some (x, q)" and y: "decode (q @ concat cs) = Some (y, [])" "u = x @ y" by blast
  have "length x \<le> 16388" using decode_rest [OF x] next_point_partial [OF p] cs(1) by simp
  then have "read_more r = Inr \<lparr>rd_chunks = cs, rd_pending = q, rd_buffer = rd_buffer r @ x\<rparr>"
    using assms(2,3) x by (simp add: read_more_def)
  with that show thesis using y u(2) cs(2) decode_rest [OF x] by (simp add: to_come_def)
qed

lemma read_next:
  assumes "readable (vs, raw)" and "to_come r (raw @ t)"
  shows "\<exists>r'. reader_read r = Some (Inr (vs, raw, r')) \<and> to_come r' t"
  using assms(2)
proof (induction "rd_chunks r" arbitrary: r)
  have s: "frame vs raw" using assms(1) by (simp add: readable_def)
  {
    fix r assume to: "to_come r (raw @ t)"
    then obtain u where u: "raw @ t = rd_buffer r @ u" by (auto simp: to_come_def)
    have "(\<exists>b. rd_buffer r = raw @ b \<and> to_come (r\<lparr>rd_buffer := b\<rparr>) t) \<or>
      (\<exists>b. raw = rd_buffer r @ b \<and> b \<noteq> [] \<and> parse_instruction (rd_buffer r) = Some (Inr None))"
    proof (cases "length (raw) \<le> length (rd_buffer r)")
      case True
      with u obtain b where b: "rd_buffer r = raw @ b"
        by (metis append_eq_append_conv_if append_take_drop_id)
      with to show ?thesis by (auto simp: to_come_def)
    next
      case False
      with u obtain b where "raw = rd_buffer r @ b" "b \<noteq> []"
        by (metis append_eq_append_conv_if append_take_drop_id append_Nil2 le_refl)
      with s frame_part show ?thesis by blast
    qed
  }
  note split = this
  {
    case Nil
    from split [OF Nil(2)] show ?case
    proof (elim disjE exE conjE)
      fix b assume "raw = rd_buffer r @ b" "b \<noteq> []"
      moreover have "raw @ t = rd_buffer r"
        using Nil by (auto simp: to_come_def decode_Partial)
      ultimately show ?thesis by simp
    qed (use read_whole [OF s] in blast)
  next
    case (Cons c cs)
    from split [OF Cons(3)] show ?case
    proof (elim disjE exE conjE)
      fix b assume b: "raw = rd_buffer r @ b" "b \<noteq> []" and none: "parse_instruction (rd_buffer r) = Some (Inr None)"
      have "length (rd_buffer r) + 16388 \<le> max_instruction" using assms(1) b by (simp add: readable_def)
      from read_more_to_come [OF Cons(3) Cons(2) [symmetric] this] obtain r' where
        "read_more r = Inr r'" "to_come r' (raw @ t)" "rd_chunks r' = cs" by blast
      with Cons(1) [of r'] none show ?thesis by (simp add: reader_read.simps [of r])
    qed (use read_whole [OF s] in blast)
  }
qed

text \<open>As many reads as there are instructions.\<close>

fun reads :: "nat \<Rightarrow> reader \<Rightarrow> (gateway_fault + (nat list list \<times> nat list) list \<times> reader) option" where
  "reads 0 r = Some (Inr ([], r))"
| "reads (Suc n) r = (case reader_read r of
     None \<Rightarrow> None
   | Some (Inl f) \<Rightarrow> Some (Inl f)
   | Some (Inr (vs, raw, r')) \<Rightarrow> (case reads n r' of
       None \<Rightarrow> None
     | Some (Inl f) \<Rightarrow> Some (Inl f)
     | Some (Inr (xs, r'')) \<Rightarrow> Some (Inr ((vs, raw) # xs, r''))))"

lemma reads_all:
  "list_all readable fs \<Longrightarrow> to_come r (concat (map snd fs) @ t) \<Longrightarrow>
     \<exists>r'. reads (length fs) r = Some (Inr (fs, r')) \<and> to_come r' t"
proof (induction fs arbitrary: r)
  case (Cons f fs)
  then obtain r1 where r1: "reader_read r = Some (Inr (fst f, snd f, r1))" "to_come r1 (concat (map snd fs) @ t)"
    using read_next [of "fst f" "snd f" r "concat (map snd fs) @ t"] by auto
  with Cons.IH [OF _ r1(2)] Cons.prems(1) show ?case by auto
qed simp

lemma parse_Nil: "parse_instruction [] = Some (Inr None)"
  by (simp add: parse_instruction_def parse_loop.simps parse_turn_def find_from_def Let_def)

lemma read_end:
  assumes "to_come r []"
  shows "reader_read r = Some (Inl End_of_file)"
  using assms
proof (induction "rd_chunks r" arbitrary: r)
  case Nil
  then have "rd_buffer r = []" "rd_pending r = []" by (auto simp: to_come_def decode_Partial)
  with Nil(1) show ?case by (simp add: reader_read.simps [of r] parse_Nil read_more_def)
next
  case (Cons c cs)
  then have none: "rd_buffer r = []" by (auto simp: to_come_def)
  have "length (rd_buffer r) + 16388 \<le> max_instruction" by (simp add: none max_instruction_def)
  from read_more_to_come [OF Cons(3) Cons(2) [symmetric] this] obtain r' where
    "read_more r = Inr r'" "to_come r' []" "rd_chunks r' = cs" by blast
  with Cons(1) [of r'] none show ?case by (simp add: reader_read.simps [of r] parse_Nil)
qed

text \<open>A read ends, whatever the gateway sends.\<close>

lemma read_more_shorter: "read_more r = Inr r' \<Longrightarrow> length (rd_chunks r') < length (rd_chunks r)"
  by (auto simp: read_more_def split: list.splits option.splits if_splits)

lemma reader_read_ends: "\<exists>x. reader_read r = Some x"
proof (induction "length (rd_chunks r)" arbitrary: r rule: less_induct)
  case less
  obtain x where x: "parse_instruction (rd_buffer r) = Some x"
    unfolding parse_instruction_def using parse_loop_ends [of "rd_buffer r" "[]" 0] by blast
  show ?case
  proof (cases "read_more r")
    case (Inr r')
    from less [OF read_more_shorter [OF Inr]] x Inr show ?thesis
      by (cases x) (auto simp: reader_read.simps [of r] split: option.split)
  qed (use x in \<open>cases x; auto simp: reader_read.simps [of r] split: option.split\<close>)
qed

end
