(* ===== verification/Tasks.thy ===== *)
theory Tasks
  imports Values
begin

text \<open>
  The table of tasks the web interface shows (backend/app/services/tasks.py) and the middleware that
  enters one task per mutation (request_context of backend/app/main.py). The state is a record that the
  services with more state extend.
\<close>

section \<open>The table\<close>

text \<open>A dictionary keyed by texts, in insertion order.\<close>

fun put_entry :: "string \<Rightarrow> 'a \<Rightarrow> (string \<times> 'a) list \<Rightarrow> (string \<times> 'a) list" where
  "put_entry k v [] = [(k, v)]"
| "put_entry k v ((k', v') # d) = (if k' = k then (k, v) # d else (k', v') # put_entry k v d)"

definition drop_entry :: "string \<Rightarrow> (string \<times> 'a) list \<Rightarrow> (string \<times> 'a) list" where
  "drop_entry k d = filter (\<lambda>x. fst x \<noteq> k) d"

type_synonym task = "(string \<times> json) list"

record task_board =
  tb_tasks :: "(string \<times> task) list"
  tb_steps :: nat
  tb_audit :: "(string \<times> (string \<times> json) list) list"

text \<open>The clock's readings in ISO format and the identifiers that \<open>uuid4\<close> draws.\<close>

record tasks_env =
  ks_now :: "nat \<Rightarrow> string"
  ks_uuid :: "nat \<Rightarrow> string"

type_synonym ('s, 'e, 'a) board_prog = "('s task_board_scheme, 'e, 'a) prog"

definition max_tasks :: nat where
  "max_tasks = 500"

definition terminal_states :: "string list" where
  "terminal_states = [''successful'', ''failed'', ''cancelled'']"

definition terminal :: "task \<Rightarrow> bool" where
  "terminal t \<longleftrightarrow> dget t ''status'' JNull \<in> set (map JStr terminal_states)"

definition task_now :: "'x tasks_env_scheme \<Rightarrow> ('s, 'e, string) board_prog" where
  "task_now e = (\<lambda>s. (Inr (ks_now e (tb_steps s)), s\<lparr>tb_steps := Suc (tb_steps s)\<rparr>))"

definition fresh_id :: "'x tasks_env_scheme \<Rightarrow> ('s, 'e, string) board_prog" where
  "fresh_id e = (\<lambda>s. (Inr (ks_uuid e (tb_steps s)), s\<lparr>tb_steps := Suc (tb_steps s)\<rparr>))"

definition audit_log :: "string \<Rightarrow> (string \<times> json) list \<Rightarrow> ('s, 'e, unit) board_prog" where
  "audit_log event details = modify (\<lambda>s. s\<lparr>tb_audit := tb_audit s @ [(event, details)]\<rparr>)"

definition set_tasks :: "((string \<times> task) list \<Rightarrow> (string \<times> task) list) \<Rightarrow> ('s, 'e, unit) board_prog" where
  "set_tasks f = modify (\<lambda>s. s\<lparr>tb_tasks := f (tb_tasks s)\<rparr>)"

text \<open>\<open>item["created_at"]\<close> and \<open>item["id"]\<close>, which are texts.\<close>

definition text_of :: "task \<Rightarrow> string \<Rightarrow> string" where
  "text_of t k = (case dget t k JNull of JStr s \<Rightarrow> s | _ \<Rightarrow> [])"

section \<open>Operations\<close>

definition optional :: "string option \<Rightarrow> json" where
  "optional x = (case x of None \<Rightarrow> JNull | Some s \<Rightarrow> JStr s)"

definition new_task ::
    "string \<Rightarrow> string \<Rightarrow> string \<Rightarrow> string option \<Rightarrow> string \<Rightarrow> string \<Rightarrow> task" where
  "new_task identifier operation title detail source t =
     [(''id'', JStr identifier), (''operation'', JStr operation), (''title'', JStr title), (''detail'', optional detail),
      (''source'', JStr source), (''status'', JStr ''running''), (''progress'', JInt 0), (''created_at'', JStr t),
      (''updated_at'', JStr t), (''completed_at'', JNull), (''error'', JNull)]"

text \<open>The oldest tasks leave a table of more than \<open>max_tasks\<close>.\<close>

definition evict :: "(string \<times> task) list \<Rightarrow> (string \<times> task) list" where
  "evict ts = (let oldest = take (length ts - max_tasks) (sort_key (\<lambda>t. text_of t ''created_at'') (map snd ts))
               in foldl (\<lambda>d t. drop_entry (text_of t ''id'') d) ts oldest)"

definition start_task ::
    "'x tasks_env_scheme \<Rightarrow> string \<Rightarrow> string \<Rightarrow> string option \<Rightarrow> string option \<Rightarrow> string \<Rightarrow> ('s, 'e, task) board_prog" where
  "start_task e operation title task_id detail source =
     andThen (case task_id of None \<Rightarrow> fresh_id e | Some i \<Rightarrow> if i = [] then fresh_id e else ret i) (\<lambda>identifier.
     andThen (task_now e) (\<lambda>t.
     andThen (ret (new_task identifier operation title detail source t)) (\<lambda>task.
     andThen (set_tasks (\<lambda>ts. evict (put_entry identifier task ts))) (\<lambda>_.
     andThen (audit_log ''task.started'' [(''task_id'', JStr identifier), (''operation'', JStr operation),
       (''title'', JStr title), (''source'', JStr source)]) (\<lambda>_. ret task)))))"

definition completed :: "task \<Rightarrow> task" where
  "completed t = (if terminal t \<and> \<not> truthy (dget t ''completed_at'' JNull)
     then dput ''completed_at'' (dget t ''updated_at'' JNull) t else t)"

definition update_task :: "'x tasks_env_scheme \<Rightarrow> string \<Rightarrow> (string \<times> json) list \<Rightarrow> ('s, 'e, task option) board_prog" where
  "update_task e task_id change =
     andThen (get_state (\<lambda>s. map_of (tb_tasks s) task_id)) (\<lambda>found. case found of
       None \<Rightarrow> ret None
     | Some old \<Rightarrow>
         andThen (task_now e) (\<lambda>t.
         andThen (ret (completed (dput ''updated_at'' (JStr t) (dputs change old)))) (\<lambda>task.
         andThen (set_tasks (put_entry task_id task)) (\<lambda>_.
         andThen (if dget task ''status'' JNull \<noteq> dget old ''status'' JNull \<or> terminal task
           then audit_log ''task.status.changed'' [(''task_id'', JStr task_id), (''operation'', dget task ''operation'' JNull),
             (''status'', dget task ''status'' JNull), (''error'', dget task ''error'' JNull)]
           else ret ()) (\<lambda>_. ret (Some task))))))"

definition finish_task :: "'x tasks_env_scheme \<Rightarrow> string \<Rightarrow> bool \<Rightarrow> string option \<Rightarrow> ('s, 'e, task option) board_prog" where
  "finish_task e task_id successful error = update_task e task_id
     [(''status'', JStr (if successful then ''successful'' else ''failed'')),
      (''progress'', JInt (if successful then 100 else 0)), (''error'', optional error)]"

definition task_list :: "('s, 'e, task list) board_prog" where
  "task_list = get_state (\<lambda>s. rev (sort_key (\<lambda>t. text_of t ''created_at'') (rev (map snd (tb_tasks s)))))"

definition clear_completed_tasks :: "('s, 'e, nat) board_prog" where
  "clear_completed_tasks =
     andThen (get_state (\<lambda>s. map fst (filter (\<lambda>x. terminal (snd x)) (tb_tasks s)))) (\<lambda>identifiers.
     andThen (set_tasks (\<lambda>ts. foldl (\<lambda>d i. drop_entry i d) ts identifiers)) (\<lambda>_.
     andThen (if identifiers \<noteq> [] then audit_log ''task.history.cleared'' [(''count'', JInt (int (length identifiers)))]
       else ret ()) (\<lambda>_. ret (length identifiers))))"

section \<open>One task per mutation\<close>

text \<open>The parts of a request the middleware looks at.\<close>

record web_request =
  wr_method :: string
  wr_path :: string
  wr_task_id :: "string option"

definition mutating :: "string \<Rightarrow> bool" where
  "mutating m \<longleftrightarrow> m \<in> {''POST'', ''PUT'', ''PATCH'', ''DELETE''}"

definition task_owned :: "string \<Rightarrow> bool" where
  "task_owned path \<longleftrightarrow> list_ex (\<lambda>p. startswith path p) [''/api/v1/tasks'', ''/api/v1/services'', ''/api/v1/auth'']"

definition requested_id :: "web_request \<Rightarrow> string option" where
  "requested_id q = (case wr_task_id q of None \<Rightarrow> None | Some i \<Rightarrow> if i = [] then Some i else uuid_of i)"

definition http_error :: "nat \<Rightarrow> string" where
  "http_error status = ''HTTP '' @ nat_dec status"

definition finish_request :: "'x tasks_env_scheme \<Rightarrow> task option \<Rightarrow> nat \<Rightarrow> ('s, 'e, unit) board_prog" where
  "finish_request e task status = (case task of
     None \<Rightarrow> ret ()
   | Some t \<Rightarrow> andThen (finish_task e (text_of t ''id'') (status < 400)
       (if status < 400 then None else Some (http_error status))) (\<lambda>_. ret ()))"

definition begin_request :: "'x tasks_env_scheme \<Rightarrow> web_request \<Rightarrow> ('s, 'e, task option) board_prog" where
  "begin_request e q = (if mutating (wr_method q) \<and> \<not> task_owned (wr_path q)
     then andThen (start_task e (''http.'' @ lower (wr_method q)) (wr_method q @ '' '' @ wr_path q) (requested_id q)
            (Some (wr_path q)) ''api'') (\<lambda>t. ret (Some t))
     else ret None)"

definition fail_request :: "'x tasks_env_scheme \<Rightarrow> task option \<Rightarrow> ('s, 'e, unit) board_prog" where
  "fail_request e task = (case task of
     None \<Rightarrow> ret ()
   | Some t \<Rightarrow> andThen (finish_task e (text_of t ''id'') False (Some ''Unhandled API error'')) (\<lambda>_. ret ()))"

text \<open>
  The handler gets the identifier of the task; it ends with a status, or with an exception that nobody
  else handled, which is answered 500.
\<close>

definition request_context ::
    "'x tasks_env_scheme \<Rightarrow> web_request \<Rightarrow> (string option \<Rightarrow> ('s, 'e, nat) board_prog) \<Rightarrow> ('s, 'e, nat) board_prog" where
  "request_context e q call_next =
     andThen (begin_request e q) (\<lambda>task.
     andThen (\<lambda>s. case call_next (map_option (\<lambda>t. text_of t ''id'') task) s of
         (Inl f, t) \<Rightarrow> (Inr None, t) | (Inr status, t) \<Rightarrow> (Inr (Some status), t)) (\<lambda>answer. case answer of
       None \<Rightarrow>
         andThen (fail_request e task) (\<lambda>_. ret 500)
     | Some status \<Rightarrow>
         andThen (finish_request e task status) (\<lambda>_.
         andThen (if mutating (wr_method q)
           then audit_log ''http.mutation'' [(''method'', JStr (wr_method q)), (''path'', JStr (wr_path q)),
             (''status'', JInt (int status))]
           else ret ()) (\<lambda>_. ret status))))"

end
