(* ===== verification/Gateway_Remote.thy ===== *)
theory Gateway_Remote
  imports Gateway Tasks
begin

text \<open>
  A browser's session with a remote desktop (backend/app/api/remote.py): the request, the connection to
  the gateway, the relay in both directions with its filter for what the browser sends, and the end of
  the session. The websocket, the connection and the other side of the gateway are parameters.
\<close>

section \<open>The request\<close>

record connection_profile =
  cp_id :: string
  cp_type :: string
  cp_name :: string
  cp_host :: string
  cp_port :: nat
  cp_username :: "string option"

record session_input =
  si_profile :: string
  si_username :: string
  si_password :: string
  si_domain :: string
  si_width :: nat
  si_height :: nat
  si_ignore :: bool
  si_security :: string

text \<open>
  What lies outside: pydantic's JSON parser and its reading of an integer and of a boolean, and
  \<open>int()\<close> of a text with characters above U+00FF, which the Unicode tables decide.
\<close>

record remote_env = tasks_env +
  re_loads :: "nat list \<Rightarrow> json option"
  re_int :: "json \<Rightarrow> int option"
  re_bool :: "json \<Rightarrow> bool option"
  re_wide_int :: "nat list \<Rightarrow> int option"

definition input_text :: "(string \<times> json) list \<Rightarrow> string \<Rightarrow> json \<Rightarrow> nat \<Rightarrow> nat \<Rightarrow> string option" where
  "input_text kvs k standard lo hi = (case dget kvs k standard of
     JStr s \<Rightarrow> if lo \<le> length s \<and> length s \<le> hi then Some s else None | _ \<Rightarrow> None)"

definition input_size :: "remote_env \<Rightarrow> (string \<times> json) list \<Rightarrow> string \<Rightarrow> int \<Rightarrow> int \<Rightarrow> int \<Rightarrow> nat option" where
  "input_size e kvs k standard lo hi = (case map_of kvs k of
     None \<Rightarrow> Some (nat standard)
   | Some v \<Rightarrow> (case re_int e v of Some n \<Rightarrow> if lo \<le> n \<and> n \<le> hi then Some (nat n) else None | None \<Rightarrow> None))"

definition security_modes :: "string list" where
  "security_modes = [''any'', ''nla'', ''tls'', ''rdp'']"

definition session_request :: "remote_env \<Rightarrow> nat list \<Rightarrow> session_input option" where
  "session_request e raw = (case re_loads e raw of
     Some (JObj kvs) \<Rightarrow>
       Option.bind (input_text kvs ''profile_id'' JNull 1 64) (\<lambda>profile.
       Option.bind (input_text kvs ''username'' (JStr []) 0 64) (\<lambda>username.
       Option.bind (input_text kvs ''password'' (JStr []) 0 4096) (\<lambda>password.
       Option.bind (input_text kvs ''domain'' (JStr []) 0 64) (\<lambda>domain.
       Option.bind (input_size e kvs ''width'' 1280 640 2560) (\<lambda>width.
       Option.bind (input_size e kvs ''height'' 720 480 1440) (\<lambda>height.
       Option.bind (case map_of kvs ''ignore_certificate'' of None \<Rightarrow> Some False | Some v \<Rightarrow> re_bool e v) (\<lambda>ignore.
       Option.bind (input_text kvs ''security'' (JStr ''any'') 0 64) (\<lambda>security.
         if security \<in> set security_modes
         then Some \<lparr>si_profile = profile, si_username = username, si_password = password, si_domain = domain,
                si_width = width, si_height = height, si_ignore = ignore, si_security = security\<rparr>
         else None))))))))
   | _ \<Rightarrow> None)"

definition connection_parameters :: "connection_profile \<Rightarrow> session_input \<Rightarrow> (nat list \<times> nat list) list" where
  "connection_parameters p v = map (\<lambda>(k, x). (points k, points x))
     [(''hostname'', cp_host p), (''port'', nat_dec (cp_port p)),
      (''username'', if si_username v \<noteq> [] then si_username v else case cp_username p of None \<Rightarrow> [] | Some u \<Rightarrow> u),
      (''password'', si_password v), (''domain'', si_domain v), (''security'', si_security v),
      (''ignore-cert'', if si_ignore v then ''true'' else ''false''), (''resize-method'', ''display-update''),
      (''disable-audio'', ''true''), (''enable-drive'', ''false''), (''enable-printing'', ''false''),
      (''disable-copy'', ''true''), (''disable-paste'', ''true''), (''font-name'', ''monospace''),
      (''font-size'', ''14''), (''color-depth'', ''24'')]"

section \<open>From the browser to the gateway\<close>

definition input_names :: "nat list list" where
  "input_names = map points [''key'', ''mouse'', ''sync'', ''size'', ''disconnect'', ''nop'', ''ack'']"

text \<open>\<open>int(t)\<close>.\<close>

definition point_int :: "remote_env \<Rightarrow> nat list \<Rightarrow> int option" where
  "point_int e t = (if list_all (\<lambda>c. c < 256) t then int_of_text (map char_of t) else re_wide_int e t)"

text \<open>The second number is read only when the first is in its range.\<close>

definition size_error :: "remote_env \<Rightarrow> nat list list \<Rightarrow> string option" where
  "size_error e vs =
     (if length vs \<noteq> 3 then Some ''Invalid display size''
      else case point_int e (vs ! 1) of
        None \<Rightarrow> Some ''invalid literal for int()''
      | Some w \<Rightarrow>
          if \<not> (640 \<le> w \<and> w \<le> 2560) then Some ''Invalid display size''
          else case point_int e (vs ! 2) of
            None \<Rightarrow> Some ''invalid literal for int()''
          | Some h \<Rightarrow> if 480 \<le> h \<and> h \<le> 1440 then None else Some ''Invalid display size'')"

definition input_error :: "remote_env \<Rightarrow> nat list list \<Rightarrow> string option" where
  "input_error e vs =
     (if hd vs \<notin> set input_names then Some ''Unsupported input instruction''
      else if hd vs = points ''size'' then size_error e vs else None)"

text \<open>One turn of \<open>while remaining\<close>: the bytes written, and how much of the text they were.\<close>

definition forward_turn :: "remote_env \<Rightarrow> nat list \<Rightarrow> gateway_fault + (nat list \<times> nat)" where
  "forward_turn e remaining = (case parse_instruction remaining of
     None \<Rightarrow> Inl Timed_out
   | Some (Inl m) \<Rightarrow> Inl (Value_fault m)
   | Some (Inr None) \<Rightarrow> Inl (Value_fault ''Incomplete input instruction'')
   | Some (Inr (Some (vs, n))) \<Rightarrow> (case input_error e vs of
       Some m \<Rightarrow> Inl (Value_fault m)
     | None \<Rightarrow> (case encode (take n remaining) of
         None \<Rightarrow> Inl (Value_fault ''UnicodeEncodeError'') | Some bs \<Rightarrow> Inr (bs, n))))"

partial_function (option) forward_loop ::
    "remote_env \<Rightarrow> nat list \<Rightarrow> nat list \<Rightarrow> (gateway_fault option \<times> nat list) option" where
  [code]: "forward_loop e remaining sent =
     (if remaining = [] then Some (None, sent)
      else case forward_turn e remaining of
        Inl f \<Rightarrow> Some (Some f, sent)
      | Inr (bs, n) \<Rightarrow> forward_loop e (drop n remaining) (sent @ bs))"

definition forward_input :: "remote_env \<Rightarrow> nat list \<Rightarrow> unit gateway_prog" where
  "forward_input e data =
     andThen (require (length data \<le> 65536) (Value_fault ''Input frame too large'')) (\<lambda>_.
       (\<lambda>s. case forward_loop e data (gw_sent s) of
          None \<Rightarrow> (Inl Timed_out, s)
        | Some (f, sent) \<Rightarrow> ((case f of None \<Rightarrow> Inr () | Some x \<Rightarrow> Inl x), s\<lparr>gw_sent := sent\<rparr>)))"

section \<open>The session\<close>

text \<open>
  The state the sessions share, and the session's own: the connection, what was sent to the browser,
  whether the result is a failure, whether its task was started, and whether the connection is open.
\<close>

record console = task_board +
  rm_active :: "string list"
  cn_gateway :: gateway
  cn_out :: "nat list list"
  cn_failed :: bool
  cn_started :: bool
  cn_open :: bool

type_synonym 'a console_prog = "(console, gateway_fault, 'a) prog"

definition max_sessions :: nat where
  "max_sessions = 4"

definition on_gateway :: "'a gateway_prog \<Rightarrow> 'a console_prog" where
  "on_gateway m = (\<lambda>s. case m (cn_gateway s) of (r, g) \<Rightarrow> (r, s\<lparr>cn_gateway := g\<rparr>))"

definition disconnected :: gateway_fault where
  "disconnected = Gateway_raises ''WebSocketDisconnect''"

text \<open>\<open>websocket.send_text\<close>; \<open>there\<close> is whether the browser still is.\<close>

definition send_browser :: "bool \<Rightarrow> nat list \<Rightarrow> unit console_prog" where
  "send_browser there t = andThen (require there disconnected) (\<lambda>_. modify (\<lambda>s. s\<lparr>cn_out := cn_out s @ [t]\<rparr>))"

text \<open>What happens while the relay runs, one event at a time; then the browser leaves.\<close>

datatype relay_event =
    Browser_says "nat list" bool
  | Gateway_says bool

definition relay_event :: "remote_env \<Rightarrow> relay_event \<Rightarrow> unit console_prog" where
  "relay_event e v = (case v of
     Browser_says data drains \<Rightarrow>
       andThen (on_gateway (forward_input e data)) (\<lambda>_. require drains (Gateway_raises ''OSError''))
   | Gateway_says there \<Rightarrow>
       andThen (on_gateway (read_reply (\<lambda>_. False))) (\<lambda>(vs, raw).
       andThen (if hd vs = points ''error'' then modify (\<lambda>s. s\<lparr>cn_failed := True\<rparr>) else ret ()) (\<lambda>_.
         send_browser there raw)))"

fun relay :: "remote_env \<Rightarrow> relay_event list \<Rightarrow> unit console_prog" where
  "relay e [] = raise disconnected"
| "relay e (v # vs) = andThen (relay_event e v) (\<lambda>_. relay e vs)"

text \<open>The outside of one session: its request, the saved connections, the connection, and the events.\<close>

record session_world =
  sw_request :: "gateway_fault + nat list"
  sw_saved :: "connection_profile list"
  sw_connection :: "gateway_fault + nat list list"
  sw_late :: "nat \<Rightarrow> bool"
  sw_there :: bool
  sw_events :: "relay_event list"

definition lift_sum :: "'e + 'a \<Rightarrow> ('s, 'e, 'a) prog" where
  "lift_sum x = (case x of Inl f \<Rightarrow> raise f | Inr a \<Rightarrow> ret a)"

definition saved_profile :: "connection_profile list \<Rightarrow> string \<Rightarrow> connection_profile option" where
  "saved_profile ps i = (case filter (\<lambda>p. cp_id p = i) ps of
     p # _ \<Rightarrow> if cp_type p \<in> {''telnet'', ''rdp'', ''vnc''} then Some p else None | [] \<Rightarrow> None)"

definition connect_gateway :: "session_world \<Rightarrow> unit console_prog" where
  "connect_gateway w = andThen (lift_sum (sw_connection w)) (\<lambda>chunks.
     modify (\<lambda>s. s\<lparr>cn_gateway := \<lparr>gw_reader = \<lparr>rd_chunks = chunks, rd_pending = [], rd_buffer = []\<rparr>, gw_sent = [],
       gw_reads = 0\<rparr>, cn_open := True\<rparr>))"

definition announce_session :: "remote_env \<Rightarrow> string \<Rightarrow> connection_profile \<Rightarrow> unit console_prog" where
  "announce_session e session_id p =
     andThen (start_task e (''session.'' @ cp_type p)
       (map upper_char (cp_type p) @ '' session '' @ CHR 0xB7 # '' '' @ cp_name p) (Some session_id)
       (Some (cp_host p @ '':'' @ nat_dec (cp_port p))) ''session'') (\<lambda>_.
     andThen (modify (\<lambda>s. s\<lparr>cn_started := True\<rparr>)) (\<lambda>_.
       audit_log ''remote.session.started'' [(''session_id'', JStr session_id), (''protocol'', JStr (cp_type p)),
         (''target'', JStr (cp_host p)), (''port'', JInt (int (cp_port p)))]))"

definition open_session :: "remote_env \<Rightarrow> session_world \<Rightarrow> string \<Rightarrow> unit console_prog" where
  "open_session e w session_id =
     andThen (lift_sum (sw_request w)) (\<lambda>raw.
     andThen (require (length raw \<le> 16384) (Value_fault ''Session request too large'')) (\<lambda>_.
     andThen (need (session_request e raw) (Gateway_raises ''ValidationError'')) (\<lambda>v.
     andThen (need (saved_profile (sw_saved w) (si_profile v)) (Value_fault ''Unknown remote connection profile'')) (\<lambda>p.
     andThen (connect_gateway w) (\<lambda>_.
     andThen (on_gateway (handshake (sw_late w) (points (cp_type p)) (connection_parameters p v) (si_width v) (si_height v))) (\<lambda>tunnel.
     andThen (announce_session e session_id p) (\<lambda>_.
       send_browser (sw_there w) (instruction [[], tunnel]))))))))"

definition too_many_sessions :: "nat list" where
  "too_many_sessions = instruction [points ''error'', points ''Four remote sessions are already open.'', points ''513'']"

definition connection_failed :: "nat list" where
  "connection_failed = instruction [points ''error'',
     points ''Connection failed. Check the gateway, target and credentials.'', points ''519'']"

definition enter_session :: "string \<Rightarrow> unit console_prog" where
  "enter_session i = modify (\<lambda>s. s\<lparr>rm_active := List.insert i (rm_active s)\<rparr>)"

definition leave_session :: "string \<Rightarrow> unit console_prog" where
  "leave_session i = modify (\<lambda>s. s\<lparr>rm_active := filter (\<lambda>x. x \<noteq> i) (rm_active s)\<rparr>)"

text \<open>The except clauses: an end that is no failure, one that is, and one that nobody handles.\<close>

definition quiet_fault :: "gateway_fault \<Rightarrow> bool" where
  "quiet_fault f \<longleftrightarrow> f = End_of_file \<or> f = disconnected"

definition expected_fault :: "gateway_fault \<Rightarrow> bool" where
  "expected_fault f \<longleftrightarrow> (case f of Value_fault _ \<Rightarrow> True | Timed_out \<Rightarrow> True | End_of_file \<Rightarrow> False
     | Gateway_raises x \<Rightarrow> x \<in> {''OSError'', ''ValidationError''})"

definition session_failed :: "bool \<Rightarrow> string \<Rightarrow> gateway_fault \<Rightarrow> unit console_prog" where
  "session_failed there session_id f =
     (if quiet_fault f then ret ()
      else if expected_fault f then
        andThen (modify (\<lambda>s. s\<lparr>cn_failed := True\<rparr>)) (\<lambda>_.
        andThen (audit_log ''remote.session.failed'' [(''session_id'', JStr session_id)]) (\<lambda>_.
          handling (send_browser there connection_failed) (\<lambda>_. ret ())))
      else raise f)"

definition result_text :: "console \<Rightarrow> string" where
  "result_text s = (if cn_failed s then ''failed'' else ''disconnected'')"

definition end_session :: "remote_env \<Rightarrow> string \<Rightarrow> unit console_prog" where
  "end_session e session_id =
     andThen (modify (\<lambda>s. s\<lparr>cn_open := False\<rparr>)) (\<lambda>_.
     andThen (leave_session session_id) (\<lambda>_.
     andThen (get_state (\<lambda>s. (cn_started s, cn_failed s, result_text s))) (\<lambda>(started, failed, result).
     andThen (if started then andThen (finish_task e session_id (\<not> failed) (Some result)) (\<lambda>_. ret ())
       else ret ()) (\<lambda>_.
       audit_log ''remote.session.ended'' [(''session_id'', JStr session_id), (''result'', JStr result)]))))"

definition session_body :: "remote_env \<Rightarrow> session_world \<Rightarrow> string \<Rightarrow> unit console_prog" where
  "session_body e w session_id =
     andThen (get_state (\<lambda>s. length (rm_active s))) (\<lambda>n.
       if max_sessions \<le> n then send_browser (sw_there w) too_many_sessions
       else andThen (enter_session session_id) (\<lambda>_.
            andThen (open_session e w session_id) (\<lambda>_. relay e (sw_events w))))"

text \<open>The with_final clause runs however the rest ended, and does not hide an exception.\<close>

definition with_final :: "('s, 'e, 'a) prog \<Rightarrow> ('s, 'e, unit) prog \<Rightarrow> ('s, 'e, 'a) prog" where
  "with_final m f = (\<lambda>s. case m s of (r, t) \<Rightarrow> (case f t of (Inl x, u) \<Rightarrow> (Inl x, u) | (Inr _, u) \<Rightarrow> (r, u)))"

definition remote_console :: "remote_env \<Rightarrow> session_world \<Rightarrow> unit console_prog" where
  "remote_console e w =
     andThen (fresh_id e) (\<lambda>session_id.
     andThen (modify (\<lambda>s. s\<lparr>cn_out := [], cn_failed := False, cn_started := False, cn_open := False\<rparr>)) (\<lambda>_.
       with_final (handling (session_body e w session_id) (session_failed (sw_there w) session_id))
         (end_session e session_id)))"

end
