(* ===== verification/Tasks_Guarantees.thy ===== *)
theory Tasks_Guarantees
  imports Tasks
begin

text \<open>
  What the task table promises: the task of a request never stays running, and its state is the one of
  the answer.
\<close>

lemma map_of_put_entry: "map_of (put_entry k v d) = (map_of d)(k \<mapsto> v)"
  by (induction k v d rule: put_entry.induct) auto

lemma dget_dput: "dget (dput k v d) k' x = (if k' = k then v else dget d k' x)"
  by (simp add: dget_def map_of_dput)

lemma dget_completed [simp]: "k \<noteq> ''completed_at'' \<Longrightarrow> dget (completed t) k x = dget t k x"
  by (simp add: completed_def dget_dput)

lemma terminal_completed [simp]: "terminal (completed t) = terminal t"
  by (simp add: terminal_def)

text \<open>A task is where its identifier is, or nowhere.\<close>

lemma update_task_result:
  "\<exists>r t. update_task e i change s = (Inr r :: 'e + task option, t) \<and>
     map_of (tb_tasks t) i = map_option (\<lambda>old. completed (dput ''updated_at'' (JStr (ks_now e (tb_steps s))) (dputs change old)))
       (map_of (tb_tasks s) i)"
  by (auto simp: update_task_def andThen_def get_state_def task_now_def set_tasks_def audit_log_def modify_def ret_def
      map_of_put_entry split: option.split)

lemma finish_task_result:
  "\<exists>r t. finish_task e i ok err s = (Inr r :: 'e + task option, t) \<and>
     (\<forall>task. map_of (tb_tasks t) i = Some task \<longrightarrow> terminal task \<and>
        dget task ''status'' JNull = JStr (if ok then ''successful'' else ''failed''))"
proof -
  obtain r t where u: "finish_task e i ok err s = (Inr r :: 'e + task option, t)"
    and t: "map_of (tb_tasks t) i = map_option (\<lambda>old. completed (dput ''updated_at'' (JStr (ks_now e (tb_steps s)))
      (dputs [(''status'', JStr (if ok then ''successful'' else ''failed'')), (''progress'', JInt (if ok then 100 else 0)),
         (''error'', optional err)] old))) (map_of (tb_tasks s) i)"
    using update_task_result unfolding finish_task_def by metis
  have "dget (dputs [(''status'', JStr (if ok then ''successful'' else ''failed'')), (''progress'', JInt (if ok then 100 else 0)),
      (''error'', optional err)] old) ''status'' JNull = JStr (if ok then ''successful'' else ''failed'')" for old
    by (simp add: dputs_def dget_dput)
  with u t show ?thesis by (auto simp: terminal_def terminal_states_def dget_dput)
qed

lemma start_task_result:
  "\<exists>t. start_task e operation title (Some i) detail source s = (Inr (new_task (if i = [] then ks_uuid e (tb_steps s) else i)
      operation title detail source (ks_now e (if i = [] then Suc (tb_steps s) else tb_steps s))), t)"
  "\<exists>t. start_task e operation title None detail source s = (Inr (new_task (ks_uuid e (tb_steps s))
      operation title detail source (ks_now e (Suc (tb_steps s)))), t)"
  by (auto simp: start_task_def andThen_def fresh_id_def task_now_def set_tasks_def audit_log_def modify_def ret_def)

lemma new_task_id [simp]: "text_of (new_task i operation title detail source t) ''id'' = i"
  by (simp add: new_task_def text_of_def dget_def)

text \<open>What does not look at the table is not changed by its operations.\<close>

definition board_free :: "('s task_board_scheme \<Rightarrow> bool) \<Rightarrow> bool" where
  "board_free I \<longleftrightarrow> (\<forall>s ts n a. I s \<longrightarrow> I (s\<lparr>tb_tasks := ts\<rparr>) \<and> I (s\<lparr>tb_steps := n\<rparr>) \<and> I (s\<lparr>tb_audit := a\<rparr>))"

lemma board_free_steps:
  assumes "board_free I"
  shows "safe I (task_now e)" "safe I (fresh_id e)" "safe I (audit_log v d)" "safe I (set_tasks f)"
  using assms by (simp_all add: safe_def wp_def task_now_def fresh_id_def audit_log_def set_tasks_def modify_def board_free_def)

lemma board_free_update: "board_free I \<Longrightarrow> safe I (update_task e k change)"
  unfolding update_task_def by (intro safe_rules board_free_steps)

lemma board_free_finish: "board_free I \<Longrightarrow> safe I (finish_task e k ok err)"
  unfolding finish_task_def by (rule board_free_update)

lemma board_free_start: "board_free I \<Longrightarrow> safe I (start_task e operation title task_id detail source)"
  unfolding start_task_def by (intro safe_rules board_free_steps)

text \<open>The identifier a request's task gets.\<close>

definition request_task_id :: "'x tasks_env_scheme \<Rightarrow> web_request \<Rightarrow> 's task_board_scheme \<Rightarrow> string" where
  "request_task_id e q s = (case requested_id q of
     Some i \<Rightarrow> if i = [] then ks_uuid e (tb_steps s) else i | None \<Rightarrow> ks_uuid e (tb_steps s))"

lemma request_started:
  assumes "mutating (wr_method q)" and "\<not> task_owned (wr_path q)"
  shows "\<exists>task t. begin_request e q s = (Inr (Some task) :: 'e + task option, t) \<and> text_of task ''id'' = request_task_id e q s"
proof (cases "requested_id q")
  case None
  obtain t where "start_task e (''http.'' @ lower (wr_method q)) (wr_method q @ '' '' @ wr_path q) None (Some (wr_path q)) ''api'' s =
    (Inr (new_task (ks_uuid e (tb_steps s)) (''http.'' @ lower (wr_method q)) (wr_method q @ '' '' @ wr_path q)
      (Some (wr_path q)) ''api'' (ks_now e (Suc (tb_steps s)))) :: 'e + task, t)"
    using start_task_result(2) by blast
  with assms None show ?thesis
    by (simp only: begin_request_def if_True simp_thms andThen_def prod.case sum.case) (simp add: ret_def request_task_id_def None)
next
  case (Some i)
  obtain t u where "start_task e (''http.'' @ lower (wr_method q)) (wr_method q @ '' '' @ wr_path q) (Some i) (Some (wr_path q)) ''api'' s =
    (Inr (new_task (if i = [] then ks_uuid e (tb_steps s) else i) (''http.'' @ lower (wr_method q)) (wr_method q @ '' '' @ wr_path q)
      (Some (wr_path q)) ''api'' u) :: 'e + task, t)"
    using start_task_result(1) by blast
  with assms Some show ?thesis
    by (simp only: begin_request_def if_True simp_thms andThen_def prod.case sum.case) (simp add: ret_def request_task_id_def Some)
qed

text \<open>
  C28: Whatever the handler of a mutation does - it may answer, fail, raise, or change the table itself -
  the request is answered, and its task is gone or ended, as successful exactly when the answer is no
  error.
\<close>

theorem request_task_settles:
  fixes call_next :: "string option \<Rightarrow> ('s, 'e, nat) board_prog"
  assumes "mutating (wr_method q)" and "\<not> task_owned (wr_path q)"
  shows "\<exists>status t. request_context e q call_next s = (Inr status, t) \<and>
    (\<forall>task. map_of (tb_tasks t) (request_task_id e q s) = Some task \<longrightarrow>
       terminal task \<and> dget task ''status'' JNull = JStr (if status < 400 then ''successful'' else ''failed''))"
proof -
  obtain task s1 where start: "begin_request e q s = (Inr (Some task) :: 'e + task option, s1)" and i: "text_of task ''id'' = request_task_id e q s"
    using request_started [OF assms] by blast
  let ?i = "request_task_id e q s"
  obtain r s2 where call: "call_next (Some ?i) s1 = (r, s2)" by (cases "call_next (Some ?i) s1")
  show ?thesis
  proof (cases r)
    case (Inl f)
    obtain r' t where t: "finish_task e ?i False (Some ''Unhandled API error'') s2 = (Inr r' :: 'e + task option, t)"
      "\<forall>task. map_of (tb_tasks t) ?i = Some task \<longrightarrow> terminal task \<and> dget task ''status'' JNull = JStr ''failed''"
      using finish_task_result [of e ?i False "Some ''Unhandled API error''" s2] by (metis (full_types))
    have "request_context e q call_next s = (Inr 500, t)"
      unfolding request_context_def fail_request_def using assms start i call Inl t(1) by (simp add: andThen_def ret_def)
    with t(2) show ?thesis by auto
  next
    case (Inr status)
    let ?err = "if status < 400 then None else Some (http_error status)"
    obtain r' t where t: "finish_task e ?i (status < 400) ?err s2 = (Inr r' :: 'e + task option, t)"
      "\<forall>task. map_of (tb_tasks t) ?i = Some task \<longrightarrow> terminal task \<and>
         dget task ''status'' JNull = JStr (if status < 400 then ''successful'' else ''failed'')"
      using finish_task_result [of e ?i "status < 400" ?err s2] by auto
    have "\<exists>u. request_context e q call_next s = (Inr status, u) \<and> tb_tasks u = tb_tasks t"
      unfolding request_context_def using assms start i call Inr t(1)
      by (simp add: andThen_def ret_def finish_request_def audit_log_def modify_def)
    with t(2) show ?thesis by auto
  qed
qed

section \<open>A request to run\<close>

definition task_clock :: tasks_env where
  "task_clock = \<lparr>ks_now = (\<lambda>n. ''2026-01-01T00:00:0'' @ nat_dec n), ks_uuid = (\<lambda>n. ''task-'' @ nat_dec n)\<rparr>"

definition empty_board :: task_board where
  "empty_board = \<lparr>tb_tasks = [], tb_steps = 0, tb_audit = []\<rparr>"

definition delete_request :: web_request where
  "delete_request = \<lparr>wr_method = ''DELETE'', wr_path = ''/api/v1/storage/files/old.iso'', wr_task_id = None\<rparr>"

theorem request_task_settles_witness:
  "\<exists>status t. request_context task_clock delete_request (\<lambda>_. ret 404 :: (unit, failure, nat) board_prog) empty_board = (Inr status, t) \<and>
    (\<forall>task. map_of (tb_tasks t) (request_task_id task_clock delete_request empty_board) = Some task \<longrightarrow>
       terminal task \<and> dget task ''status'' JNull = JStr (if status < 400 then ''successful'' else ''failed''))"
  by (rule request_task_settles) code_simp+

end
