(* ===== verification/Gateway_Guarantees.thy ===== *)
theory Gateway_Guarantees
  imports Gateway_Safety Gateway_Remote Tasks_Guarantees "HOL-Library.Code_Target_Nat"
begin

text \<open>
  What the remote desktop sessions promise: instructions survive the byte stream however it is cut, the
  loops end, the handshake answers in the order it is asked, nothing but input reaches the gateway from
  the browser, and a session leaves nothing behind.
\<close>

section \<open>The byte stream\<close>

definition fresh_reader :: "nat list list \<Rightarrow> reader" where
  "fresh_reader chunks = \<lparr>rd_chunks = chunks, rd_pending = [], rd_buffer = []\<rparr>"

definition deliverable :: "nat list list \<Rightarrow> bool" where
  "deliverable vs \<longleftrightarrow> vs \<noteq> [] \<and> length vs \<le> 256 \<and> length (instruction vs) + 16388 \<le> max_instruction"

lemma deliverable_readable: "deliverable vs \<Longrightarrow> readable (vs, instruction vs)"
  by (simp add: deliverable_def readable_def frame_instruction)

lemma fresh_to_come:
  assumes "encode t = Some (concat chunks)" and "list_all (\<lambda>c. length c \<le> 16384) chunks"
  shows "to_come (fresh_reader chunks) t"
  using assms by (simp add: to_come_def fresh_reader_def encode_encoded decode_encoded)

lemma frames_read:
  assumes "list_all readable fs" and "encode (concat (map snd fs)) = Some (concat chunks)"
    and "list_all (\<lambda>c. length c \<le> 16384) chunks"
  shows "\<exists>r. reads (length fs) (fresh_reader chunks) = Some (Inr (fs, r)) \<and> reader_read r = Some (Inl End_of_file)"
  using reads_all [OF assms(1), of "fresh_reader chunks" "[]"] fresh_to_come [OF assms(2,3)] read_end by auto

text \<open>
  C22: Instructions of one to 256 elements with any texts in them, each at least 16388 characters shorter
  than the limit of 4 MiB, encoded and cut at any bytes into pieces of at most 16384 bytes, inside an
  instruction or inside a character, are read back one by one exactly as they were written; then the
  stream ends. The margin is one read and a character: the reader compares its whole buffer with the limit
  before it parses it, so whether a longer instruction passes depends on the cut.
\<close>

theorem instructions_survive_stream:
  assumes "\<forall>vs \<in> set fs. vs \<noteq> [] \<and> length vs \<le> 256 \<and> length (instruction vs) + 16388 \<le> max_instruction"
    and "encode (concat (map instruction fs)) = Some (concat chunks)"
    and "list_all (\<lambda>c. length c \<le> 16384) chunks"
  shows "\<exists>r. reads (length fs) (fresh_reader chunks) = Some (Inr (map (\<lambda>vs. (vs, instruction vs)) fs, r)) \<and>
    reader_read r = Some (Inl End_of_file)"
proof -
  have "list_all readable (map (\<lambda>vs. (vs, instruction vs)) fs)"
    using assms(1) by (auto simp: list_all_iff deliverable_def intro!: deliverable_readable)
  from frames_read [OF this _ assms(3)] assms(2) show ?thesis by (simp add: comp_def)
qed

section \<open>The loops\<close>

lemma forward_turn_bounds: "forward_turn e data = Inr (bs, n) \<Longrightarrow> 0 < n \<and> n \<le> length data"
  by (auto simp: forward_turn_def dest: parse_frame split: option.splits sum.splits)

lemma forward_loop_ends: "\<exists>x. forward_loop e data sent = Some x"
proof (induction "length data" arbitrary: data sent rule: less_induct)
  case less
  show ?case
  proof (cases "forward_turn e data")
    case (Inr x)
    obtain bs n where x: "forward_turn e data = Inr (bs, n)" using Inr by (cases x) auto
    then have "data \<noteq> [] \<longrightarrow> length (drop n data) < length data" using forward_turn_bounds [OF x] by auto
    with less x show ?thesis by (auto simp: forward_loop.simps [of e data])
  qed (simp add: forward_loop.simps [of e data])
qed

text \<open>
  C24: The three loops written as endless ones return: the parser on any text, a read on any
  bytes that the gateway still sends, and the relay of one message of the browser.
\<close>

theorem protocol_loops_end:
  "(\<exists>x. parse_instruction data = Some x) \<and> (\<exists>y. reader_read r = Some y) \<and> (\<exists>z. forward_loop e data sent = Some z)"
  using parse_loop_ends [of data "[]" 0] reader_read_ends forward_loop_ends
  by (simp add: parse_instruction_def)

section \<open>What reaches the gateway\<close>

text \<open>An instruction of the browser's that may pass.\<close>

definition input_frame :: "remote_env \<Rightarrow> nat list list \<times> nat list \<Rightarrow> bool" where
  "input_frame e f \<longleftrightarrow> readable f \<and> input_error e (fst f) = None \<and> list_all code_point (snd f)"

definition input_sent :: "remote_env \<Rightarrow> nat list \<Rightarrow> nat list \<Rightarrow> bool" where
  "input_sent e sent sent' \<longleftrightarrow> (\<exists>fs. list_all (input_frame e) fs \<and> sent' = sent @ encoded (concat (map snd fs)))"

lemma input_sent_refl: "input_sent e sent sent"
  unfolding input_sent_def by (rule exI [of _ "[]"]) simp

lemma input_sent_trans: "input_sent e a b \<Longrightarrow> input_sent e b c \<Longrightarrow> input_sent e a c"
proof -
  assume "input_sent e a b" and "input_sent e b c"
  then obtain fs gs where "list_all (input_frame e) (fs @ gs)" "c = a @ encoded (concat (map snd (fs @ gs)))"
    by (auto simp: input_sent_def)
  then show ?thesis unfolding input_sent_def by blast
qed

lemma forward_turn_sends:
  assumes "forward_turn e data = Inr (bs, n)" and "length data \<le> 65536"
  shows "input_sent e sent (sent @ bs)"
proof -
  obtain vs where p: "parse_instruction data = Some (Inr (Some (vs, n)))" and ok: "input_error e vs = None"
    and bs: "encode (take n data) = Some bs"
    using assms(1) by (auto simp: forward_turn_def split: option.splits sum.splits)
  have "input_frame e (vs, take n data)"
    using parse_frame [OF p] ok bs assms(2)
    by (simp add: input_frame_def readable_def encode_encoded max_instruction_def)
  then show ?thesis
    unfolding input_sent_def using bs by (intro exI [of _ "[(vs, take n data)]"]) (simp add: encode_encoded)
qed

lemma forward_loop_sends:
  "forward_loop e data sent = Some (f, sent') \<Longrightarrow> length data \<le> 65536 \<Longrightarrow> input_sent e sent sent'"
proof (induction "length data" arbitrary: data sent rule: less_induct)
  case less
  show ?case
  proof (cases "data = []")
    case True
    with less(2) show ?thesis by (auto simp: forward_loop.simps [of e "[]"] input_sent_refl)
  next
    case False
    show ?thesis
    proof (cases "forward_turn e data")
      case (Inl x)
      with less(2) False show ?thesis by (auto simp: forward_loop.simps [of e data] input_sent_refl)
    next
      case (Inr x)
      then obtain bs n where x: "forward_turn e data = Inr (bs, n)" by (cases x) auto
      have "forward_loop e (drop n data) (sent @ bs) = Some (f, sent')"
        using less(2) False x by (simp add: forward_loop.simps [of e data])
      moreover have "length (drop n data) < length data" using forward_turn_bounds [OF x] False by simp
      ultimately have "input_sent e (sent @ bs) sent'" using less(1) [of "drop n data"] less(3) by simp
      with forward_turn_sends [OF x less(3)] show ?thesis by (rule input_sent_trans)
    qed
  qed
qed

lemma forward_input_sends: "input_sent e (gw_sent s) (gw_sent (snd (forward_input e data s)))"
  by (auto simp: forward_input_def require_def andThen_def ret_def raise_def input_sent_refl
      dest: forward_loop_sends split: option.split prod.split)

lemma read_reply_sent [simp]: "gw_sent (snd (read_reply late s)) = gw_sent s"
  by (auto simp: read_reply_def Let_def split: option.split sum.split prod.split)

lemma relay_event_sends:
  "input_sent e (gw_sent (cn_gateway s)) (gw_sent (cn_gateway (snd (relay_event e v s))))"
proof (cases v)
  case (Browser_says data drains)
  then show ?thesis
    using forward_input_sends [of e "cn_gateway s" data]
    by (auto simp: relay_event_def on_gateway_def andThen_def require_def ret_def raise_def split: prod.split sum.split)
next
  case (Gateway_says there)
  then show ?thesis
    using read_reply_sent [of "\<lambda>_. False" "cn_gateway s"]
    by (auto simp: relay_event_def on_gateway_def andThen_def require_def ret_def raise_def modify_def send_browser_def
        input_sent_refl simp del: read_reply_sent split: prod.split sum.split)
qed

lemma relay_sends: "input_sent e (gw_sent (cn_gateway s)) (gw_sent (cn_gateway (snd (relay e vs s))))"
proof (induction vs arbitrary: s)
  case Nil
  show ?case by (simp add: raise_def input_sent_refl)
next
  case (Cons v vs)
  show ?case
    using relay_event_sends [of e s v] Cons [of "snd (relay_event e v s)"]
    by (auto simp: andThen_def intro: input_sent_trans split: prod.split sum.split)
qed

lemma size_accepted:
  assumes "size_error e vs = None" and "hd vs = a"
  shows "\<exists>w h. vs = [a, w, h] \<and> (\<exists>n. point_int e w = Some n \<and> 640 \<le> n \<and> n \<le> 2560) \<and>
    (\<exists>n. point_int e h = Some n \<and> 480 \<le> n \<and> n \<le> 1440)"
proof -
  have "length vs = 3" using assms(1) by (simp add: size_error_def split: if_splits)
  then obtain w h where "vs = [a, w, h]" using assms(2)
    by (cases vs; cases "tl vs"; cases "tl (tl vs)") auto
  with assms(1) show ?thesis by (auto simp: size_error_def split: option.splits if_splits)
qed

text \<open>
  C10: Whatever the browser sends during a session, in whatever order it mixes with the gateway's own
  messages, a gateway that reads the bytes written to it gets, however they are cut, only instructions
  that the filter lets pass: input, and display sizes within the bounds.
\<close>

theorem only_input_reaches_gateway:
  assumes "relay e events s = (r, t)" and "gw_sent (cn_gateway t) = gw_sent (cn_gateway s) @ concat chunks"
    and "list_all (\<lambda>c. length c \<le> 16384) chunks"
  shows "\<exists>fs r. reads (length fs) (fresh_reader chunks) = Some (Inr (fs, r)) \<and> reader_read r = Some (Inl End_of_file) \<and>
    (\<forall>f \<in> set fs. hd (fst f) \<in> set input_names \<and>
       (hd (fst f) = points ''size'' \<longrightarrow> (\<exists>w h. fst f = [points ''size'', w, h] \<and>
          (\<exists>n. point_int e w = Some n \<and> 640 \<le> n \<and> n \<le> 2560) \<and> (\<exists>n. point_int e h = Some n \<and> 480 \<le> n \<and> n \<le> 1440))))"
proof -
  from relay_sends [of e s events] assms(1,2) obtain fs where
    fs: "list_all (input_frame e) fs" "concat chunks = encoded (concat (map snd fs))"
    by (auto simp: input_sent_def)
  have "list_all readable fs" "list_all code_point (concat (map snd fs))"
    using fs(1) by (auto simp: list_all_iff input_frame_def)
  with frames_read [OF _ _ assms(3)] fs(2) obtain r where
    "reads (length fs) (fresh_reader chunks) = Some (Inr (fs, r))" "reader_read r = Some (Inl End_of_file)"
    by (auto simp: encode_encoded)
  moreover have "hd (fst f) \<in> set input_names \<and> (hd (fst f) = points ''size'' \<longrightarrow> size_error e (fst f) = None)"
    if "f \<in> set fs" for f
    using that fs(1) by (auto simp: list_all_iff input_frame_def input_error_def split: if_splits)
  ultimately show ?thesis using size_accepted by blast
qed

section \<open>The handshake\<close>

lemma write_text_code: "encode t = Some bs \<Longrightarrow> write_text t s = (Inr (), s\<lparr>gw_sent := gw_sent s @ bs\<rparr>)"
  by (simp add: write_text_def need_def modify_def)

lemma read_reply_next:
  assumes "readable (vs, raw)" and "to_come (gw_reader s) (raw @ t)" and "\<not> late (gw_reads s)"
  obtains r where "to_come r t" "read_reply late s = (Inr (vs, raw), s\<lparr>gw_reads := Suc (gw_reads s), gw_reader := r\<rparr>)"
  using read_next [OF assms(1,2)] assms(3) by (auto simp: read_reply_def Let_def)

lemma encode_append: "encode (s @ t) = Some bs \<longleftrightarrow> (\<exists>b c. encode s = Some b \<and> encode t = Some c \<and> bs = b @ c)"
  by (auto simp: encode_encoded)

text \<open>
  C??: When the gateway asks for arguments and then reports ready, its bytes cut anywhere, the handshake
  ends with its tunnel, and has sent the protocol, the display's size and media, and one value for each
  argument in the order in which the gateway named them.
\<close>

theorem handshake_answers_in_order:
  assumes "deliverable (points ''args'' # names)" and "deliverable [points ''ready'', tunnel]"
    and "encode (instruction (points ''args'' # names) @ instruction [points ''ready'', tunnel]) = Some (concat chunks)"
    and "list_all (\<lambda>c. length c \<le> 16384) chunks" and "\<And>k. \<not> late k"
    and "encode (concat (map instruction ([points ''select'', protocol] # hello_messages parameters width height names))) = Some bytes"
  shows "\<exists>t. handshake late protocol parameters width height \<lparr>gw_reader = fresh_reader chunks, gw_sent = [], gw_reads = 0\<rparr> =
    (Inr tunnel, t) \<and> gw_sent t = bytes"
proof -
  from assms(6) obtain b c where b: "encode (instruction [points ''select'', protocol]) = Some b"
    and c: "encode (concat (map instruction (hello_messages parameters width height names))) = Some c" "bytes = b @ c"
    by (auto simp: encode_append)
  let ?s = "\<lparr>gw_reader = fresh_reader chunks, gw_sent = b, gw_reads = 0\<rparr>"
  have "to_come (gw_reader ?s) (instruction (points ''args'' # names) @ instruction [points ''ready'', tunnel] @ [])"
    using fresh_to_come [OF assms(3,4)] by simp
  from read_reply_next [where late = late, OF deliverable_readable [OF assms(1)] this] assms(5)
  obtain r where r: "to_come r (instruction [points ''ready'', tunnel] @ [])"
    "read_reply late ?s = (Inr (points ''args'' # names, instruction (points ''args'' # names)), ?s\<lparr>gw_reads := Suc 0, gw_reader := r\<rparr>)"
    by (auto simp: fun_eq_iff)
  let ?t = "\<lparr>gw_reader = r, gw_sent = b @ c, gw_reads = Suc 0\<rparr>"
  have "to_come (gw_reader ?t) (instruction [points ''ready'', tunnel] @ [])" using r(1) by simp
  from read_reply_next [where late = late, OF deliverable_readable [OF assms(2)] this] assms(5)
  obtain q where q: "read_reply late ?t = (Inr ([points ''ready'', tunnel], instruction [points ''ready'', tunnel]),
      ?t\<lparr>gw_reads := Suc (Suc 0), gw_reader := q\<rparr>)"
    by (auto simp: fun_eq_iff)
  show ?thesis
    using write_text_code [OF b] write_text_code [OF c(1)] r(2) q c(2)
    by (simp add: handshake_def andThen_def require_def ret_def)
qed

section \<open>The end of a session\<close>

text \<open>The sessions other than \<open>i\<close>.\<close>

definition others :: "string \<Rightarrow> console \<Rightarrow> string list" where
  "others i s = filter (\<lambda>x. x \<noteq> i) (rm_active s)"

definition same_others :: "string \<Rightarrow> string list \<Rightarrow> console \<Rightarrow> bool" where
  "same_others i xs s \<longleftrightarrow> others i s = xs"

lemma same_others_free: "board_free (same_others i xs)"
  by (simp add: board_free_def same_others_def others_def)

lemmas safe_board [safe_rules] = board_free_steps [OF same_others_free] board_free_start [OF same_others_free]

lemma safe_lift_sum [safe_rules]: "safe I (lift_sum x)"
  by (simp add: lift_sum_def safe_rules split: sum.split)

lemma safe_on_gateway [safe_rules]: "safe (same_others i xs) (on_gateway m)"
  by (simp add: safe_def wp_def on_gateway_def same_others_def others_def split: prod.split sum.split)

lemma safe_flags [safe_rules]:
  "safe (same_others i xs) (modify (\<lambda>s. s\<lparr>cn_failed := b\<rparr>))" "safe (same_others i xs) (modify (\<lambda>s. s\<lparr>cn_started := b\<rparr>))"
  "safe (same_others i xs) (modify (\<lambda>s. s\<lparr>cn_out := cn_out s @ [u]\<rparr>))" "safe (same_others i xs) (modify (\<lambda>s. s\<lparr>cn_open := b\<rparr>))"
  "safe (same_others i xs) (modify (\<lambda>s. s\<lparr>cn_gateway := g, cn_open := b\<rparr>))"
  by (rule safe_modify; simp add: same_others_def others_def)+

lemma filter_insert_same: "filter (\<lambda>x. x \<noteq> i) (List.insert i xs) = filter (\<lambda>x. x \<noteq> i) xs"
  by (simp add: List.insert_def)

lemma safe_enter [safe_rules]: "safe (same_others i xs) (enter_session i)" "safe (same_others i xs) (leave_session i)"
  unfolding enter_session_def leave_session_def
  by (rule safe_modify; auto simp: same_others_def others_def filter_insert_same)+

lemma safe_send_browser [safe_rules]: "safe (same_others i xs) (send_browser there u)"
  unfolding send_browser_def by (intro safe_rules)

lemma safe_relay_event [safe_rules]: "safe (same_others i xs) (relay_event e v)"
  by (cases v) (auto simp: relay_event_def intro!: safe_rules)

lemma safe_relay [safe_rules]: "safe (same_others i xs) (relay e vs)"
  by (induction vs) (auto intro!: safe_rules)

lemma safe_open_session [safe_rules]: "safe (same_others i xs) (open_session e w k)"
  unfolding open_session_def connect_gateway_def announce_session_def by (intro safe_rules)

lemma safe_session_body [safe_rules]: "safe (same_others i xs) (session_body e w i)"
  unfolding session_body_def by (intro safe_rules)

lemma safe_session_failed [safe_rules]: "safe (same_others i xs) (session_failed there k f)"
  unfolding session_failed_def by (intro safe_rules)

text \<open>The final clause: the slot, the connection and the task.\<close>

definition left :: "string list \<Rightarrow> bool \<Rightarrow> console \<Rightarrow> bool" where
  "left xs started s \<longleftrightarrow> rm_active s = xs \<and> \<not> cn_open s \<and> cn_started s = started"

lemma left_free: "board_free (left xs started)"
  by (simp add: board_free_def left_def)

definition ended :: "string \<Rightarrow> console \<Rightarrow> bool" where
  "ended i s \<longleftrightarrow> (\<forall>task. map_of (tb_tasks s) i = Some task \<longrightarrow> terminal task)"

lemma end_session_result:
  "\<exists>t. end_session e i s = (Inr (), t) \<and> left (others i s) (cn_started s) t \<and> (cn_started s \<longrightarrow> ended i t)"
proof -
  let ?u = "s\<lparr>cn_open := False, rm_active := others i s\<rparr>"
  have u: "left (others i s) (cn_started s) ?u" by (simp add: left_def)
  obtain r t where t: "finish_task e i (\<not> cn_failed s) (Some (result_text s)) ?u = (Inr r :: gateway_fault + task option, t)"
    and ended: "ended i t"
    using finish_task_result unfolding ended_def by metis
  have "safe (left (others i s) (cn_started s)) (finish_task e i (\<not> cn_failed s) (Some (result_text s)) :: task option console_prog)"
    by (rule board_free_finish [OF left_free])
  with u t have "left (others i s) (cn_started s) t" by (fastforce simp: safe_def wp_def)
  moreover have "left xs b (a\<lparr>tb_audit := l\<rparr>) = left xs b a" "ended i (a\<lparr>tb_audit := l\<rparr>) = ended i a" for xs b a l
    by (simp_all add: left_def ended_def)
  ultimately show ?thesis
    using t u ended
    by (auto simp: end_session_def andThen_def modify_def get_state_def leave_session_def audit_log_def ret_def others_def
        result_text_def left_def)
qed

text \<open>
  C23: However a session ends - refused, failed in the handshake, cut off while it runs, or by an
  exception that no clause names - its slot is free again and no other is, the connection to the gateway
  is closed, and a task that was started for it no longer runs.
\<close>

theorem session_leaves_nothing:
  assumes "remote_console e w s = (r, t)"
  shows "rm_active t = filter (\<lambda>x. x \<noteq> ks_uuid e (tb_steps s)) (rm_active s) \<and> \<not> cn_open t \<and>
    (cn_started t \<longrightarrow> (\<forall>task. map_of (tb_tasks t) (ks_uuid e (tb_steps s)) = Some task \<longrightarrow> terminal task))"
proof -
  let ?i = "ks_uuid e (tb_steps s)"
  let ?s = "s\<lparr>tb_steps := Suc (tb_steps s), cn_out := [], cn_failed := False, cn_started := False, cn_open := False\<rparr>"
  have "same_others ?i (others ?i s) ?s" by (simp add: same_others_def others_def)
  moreover have "safe (same_others ?i (others ?i s)) (handling (session_body e w ?i) (session_failed (sw_there w) ?i))"
    by (intro safe_rules)
  ultimately obtain x u where u: "handling (session_body e w ?i) (session_failed (sw_there w) ?i) ?s = (x, u)"
    "others ?i u = others ?i s"
    by (cases "handling (session_body e w ?i) (session_failed (sw_there w) ?i) ?s")
       (auto simp: safe_def wp_def same_others_def split: sum.splits)
  obtain v where v: "end_session e ?i u = (Inr (), v)" "left (others ?i u) (cn_started u) v" "cn_started u \<longrightarrow> ended ?i v"
    using end_session_result by blast
  have "remote_console e w s = (x, v)"
    using u(1) v(1) by (simp add: remote_console_def andThen_def fresh_id_def modify_def with_final_def)
  with assms v u(2) show ?thesis by (auto simp: left_def ended_def others_def)
qed

section \<open>A session to run\<close>

text \<open>Every byte on its own.\<close>

definition bytewise :: "nat list \<Rightarrow> nat list list" where
  "bytewise bs = map (\<lambda>b. [b]) bs"

lemma bytewise_whole: "concat (bytewise bs) = bs" "list_all (\<lambda>c. length c \<le> 16384) (bytewise bs)"
  by (induction bs) (auto simp: bytewise_def)

definition key_press :: "nat list list" where
  "key_press = [points ''key'', points ''65'', points ''1'']"

text \<open>A clipboard text of a euro sign, a semicolon, a comma and a key symbol outside the basic plane.\<close>

definition odd_text :: "nat list list" where
  "odd_text = [points ''clipboard'', [8364, 59, 44, 128273]]"

definition demo_names :: "nat list list" where
  "demo_names = map points [''VERSION_1_5_0'', ''password'', ''hostname'', ''port'']"

definition demo_saved :: connection_profile where
  "demo_saved = \<lparr>cp_id = ''target-1'', cp_type = ''rdp'', cp_name = ''Office'', cp_host = ''192.0.2.10'', cp_port = 3389,
     cp_username = Some ''operator''\<rparr>"

definition demo_asked :: session_input where
  "demo_asked = \<lparr>si_profile = ''target-1'', si_username = [], si_password = ''secret,;'', si_domain = [], si_width = 1280,
     si_height = 720, si_ignore = False, si_security = ''any''\<rparr>"

definition gateway_says :: "nat list" where
  "gateway_says = instruction (points ''args'' # demo_names) @ instruction [points ''ready'', points ''tunnel-1'']"

definition remote_demo :: remote_env where
  "remote_demo = \<lparr>ks_now = (\<lambda>n. ''2026-01-01T00:00:0'' @ nat_dec n), ks_uuid = (\<lambda>n. ''session-'' @ nat_dec n),
     re_loads = (\<lambda>t. Some (JObj [(''profile_id'', JStr ''target-1''), (''password'', JStr ''secret,;'')])),
     re_int = (\<lambda>_. None), re_bool = (\<lambda>_. None), re_wide_int = (\<lambda>_. None)\<rparr>"

definition demo_events :: "relay_event list" where
  "demo_events = [Browser_says (instruction key_press) True, Browser_says (instruction [points ''select'', points ''ssh'']) True]"

definition demo_world :: session_world where
  "demo_world = \<lparr>sw_request = Inr (points ''{}''), sw_saved = [demo_saved],
     sw_connection = Inr [encoded gateway_says], sw_late = (\<lambda>_. False), sw_there = True, sw_events = demo_events\<rparr>"

definition demo_console :: console where
  "demo_console = \<lparr>tb_tasks = [], tb_steps = 0, tb_audit = [], rm_active = [''other''],
     cn_gateway = \<lparr>gw_reader = fresh_reader [], gw_sent = [], gw_reads = 0\<rparr>, cn_out = [], cn_failed = False,
     cn_started = False, cn_open = False\<rparr>"

theorem instructions_survive_stream_witness:
  "\<exists>r. reads 2 (fresh_reader (bytewise (encoded (instruction key_press @ instruction odd_text)))) =
      Some (Inr ([(key_press, instruction key_press), (odd_text, instruction odd_text)], r)) \<and>
    reader_read r = Some (Inl End_of_file)"
proof -
  have "\<forall>vs \<in> set [key_press, odd_text]. vs \<noteq> [] \<and> length vs \<le> 256 \<and> length (instruction vs) + 16388 \<le> max_instruction"
    by code_simp
  moreover have "list_all code_point (instruction key_press @ instruction odd_text)" by code_simp
  ultimately show ?thesis
    using instructions_survive_stream [of "[key_press, odd_text]"
      "bytewise (encoded (instruction key_press @ instruction odd_text))"]
    by (simp add: encode_encoded bytewise_whole numeral_2_eq_2)
qed

theorem only_input_reaches_gateway_witness:
  "\<exists>fs r. reads (length fs) (fresh_reader (bytewise (encoded (instruction key_press)))) = Some (Inr (fs, r)) \<and>
    reader_read r = Some (Inl End_of_file) \<and>
    (\<forall>f \<in> set fs. hd (fst f) \<in> set input_names \<and>
       (hd (fst f) = points ''size'' \<longrightarrow> (\<exists>w h. fst f = [points ''size'', w, h] \<and>
          (\<exists>n. point_int remote_demo w = Some n \<and> 640 \<le> n \<and> n \<le> 2560) \<and>
          (\<exists>n. point_int remote_demo h = Some n \<and> 480 \<le> n \<and> n \<le> 1440))))"
proof (rule only_input_reaches_gateway [OF surjective_pairing])
  have "gw_sent (cn_gateway (snd (relay remote_demo demo_events demo_console))) = encoded (instruction key_press)"
    by code_simp
  then show "gw_sent (cn_gateway (snd (relay remote_demo demo_events demo_console))) =
      gw_sent (cn_gateway demo_console) @ concat (bytewise (encoded (instruction key_press)))"
    by (simp add: bytewise_whole demo_console_def)
qed (rule bytewise_whole)

theorem handshake_answers_in_order_witness:
  "\<exists>t. handshake (\<lambda>_. False) (points ''rdp'') (connection_parameters demo_saved demo_asked) 1280 720
      \<lparr>gw_reader = fresh_reader (bytewise (encoded gateway_says)), gw_sent = [], gw_reads = 0\<rparr> = (Inr (points ''tunnel-1''), t) \<and>
    gw_sent t = encoded (concat (map instruction ([points ''select'', points ''rdp''] #
      hello_messages (connection_parameters demo_saved demo_asked) 1280 720 demo_names)))"
proof (rule handshake_answers_in_order)
  show "deliverable (points ''args'' # demo_names)" "deliverable [points ''ready'', points ''tunnel-1'']" by code_simp+
  have "list_all code_point gateway_says" by code_simp
  then show "encode (instruction (points ''args'' # demo_names) @ instruction [points ''ready'', points ''tunnel-1'']) =
      Some (concat (bytewise (encoded gateway_says)))"
    by (simp add: bytewise_whole encode_encoded gateway_says_def)
  have "list_all code_point (concat (map instruction ([points ''select'', points ''rdp''] #
      hello_messages (connection_parameters demo_saved demo_asked) 1280 720 demo_names)))" by code_simp
  then show "encode (concat (map instruction ([points ''select'', points ''rdp''] #
      hello_messages (connection_parameters demo_saved demo_asked) 1280 720 demo_names))) = Some (encoded (concat (map instruction
      ([points ''select'', points ''rdp''] # hello_messages (connection_parameters demo_saved demo_asked) 1280 720 demo_names))))"
    by (simp only: encode_encoded simp_thms)
qed (simp_all add: bytewise_whole)

theorem session_leaves_nothing_witness:
  "cn_started (snd (remote_console remote_demo demo_world demo_console)) \<and>
    rm_active (snd (remote_console remote_demo demo_world demo_console)) = [''other''] \<and>
    \<not> cn_open (snd (remote_console remote_demo demo_world demo_console)) \<and>
    (case map_of (tb_tasks (snd (remote_console remote_demo demo_world demo_console))) ''session-0'' of
       None \<Rightarrow> True | Some task \<Rightarrow> terminal task)"
proof -
  have started: "cn_started (snd (remote_console remote_demo demo_world demo_console))" by code_simp
  have "ks_uuid remote_demo (tb_steps demo_console) = ''session-0''" by code_simp
  with started session_leaves_nothing [OF surjective_pairing, of remote_demo demo_world demo_console] show ?thesis
    by (simp add: demo_console_def split: option.split)
qed

end
