(* ===== verification/Staging.thy ===== *)
theory Staging
  imports Tasks Wg_Config
begin

text \<open>
  The staging storage (backend/app/services/storage.py): the files, the uploads in progress with their
  tasks and reservations, and what moves files between the staging area and the recovery directory
  (backend/app/api/recovery.py) or keeps one mounted (virtual_media_status of
  backend/app/services/virtual_media.py). An upload runs as a sequence of steps, one per wait of the
  event loop; the other operations are single steps.
\<close>

section \<open>State\<close>

datatype upload_status = Running | Cancelling | Completed | Cancelled | Failed

record upload_task =
  ut_id :: string
  ut_name :: string
  ut_status :: upload_status
  ut_progress :: int
  ut_done :: nat
  ut_total :: int
  ut_created :: string
  ut_updated :: string
  ut_error :: "string option"
  ut_cancel :: bool

text \<open>
  The regular files of the staging directory, the files below its recovery directory once that exists,
  and \<open>UPLOAD_TASKS\<close>.
\<close>

record staging = task_board +
  sg_files :: "(string \<times> string) list"
  sg_recovery :: "(string \<times> string) list option"
  sg_uploads :: "(string \<times> upload_task) list"

type_synonym 'a staging_prog = "(staging, failure, 'a) prog"

datatype media_file = No_media | Media_unreadable | Media_garbled | Media_text string

text \<open>
  The settings, and the outside at each step: whether the directory and its marker are there, the free
  bytes of the disk, whether a write succeeds, how many of the bytes in a file object's buffer reach the
  file in a write and in a failed one, and the status file of the virtual media.
\<close>

record staging_env = tasks_env +
  se_max_upload :: int
  se_capacity :: int
  se_reserve :: int
  se_require_marker :: bool
  se_root :: "nat \<Rightarrow> bool"
  se_marker :: "nat \<Rightarrow> bool"
  se_free :: "nat \<Rightarrow> int"
  se_disk :: "nat \<Rightarrow> bool"
  se_flush :: "nat \<Rightarrow> nat"
  se_partial :: "nat \<Rightarrow> nat"
  se_media :: "nat \<Rightarrow> media_file"

text \<open>A step of the outside.\<close>

definition tick :: "nat staging_prog" where
  "tick = (\<lambda>s. (Inr (tb_steps s), s\<lparr>tb_steps := Suc (tb_steps s)\<rparr>))"

section \<open>Names\<close>

text \<open>\<open>len(name.encode("utf-8"))\<close> of a text with code points below 256.\<close>

definition utf8_length :: "string \<Rightarrow> nat" where
  "utf8_length s = sum_list (map (\<lambda>c. if code c < 128 then 1 else 2) s)"

definition endswith :: "string \<Rightarrow> string \<Rightarrow> bool" where
  "endswith s e \<longleftrightarrow> length e \<le> length s \<and> drop (length s - length e) s = e"

text \<open>\<open>Path(name).name\<close> differs from a name only when that has a slash or is a dot.\<close>

definition good_name :: "string \<Rightarrow> bool" where
  "good_name name \<longleftrightarrow> name \<noteq> [] \<and> name \<noteq> ''.'' \<and> name \<noteq> ''..'' \<and> CHR ''/'' \<notin> set name \<and> backslash \<notin> set name \<and>
     utf8_length name \<le> 180 \<and> \<not> startswith name ''.'' \<and> list_all (\<lambda>c. 32 \<le> code c) name"

definition safe_name :: "string \<Rightarrow> ('s, failure, string) prog" where
  "safe_name filename = (let name = strip is_blank filename in
     andThen (require (good_name name) (Http 400 ''Invalid filename'')) (\<lambda>_. ret name))"

definition media_marker :: string where
  "media_marker = ''.kronoskvm-storage''"

definition uploading :: string where
  "uploading = ''.uploading''"

definition storage_root :: "staging_env \<Rightarrow> unit staging_prog" where
  "storage_root e = andThen tick (\<lambda>k.
     andThen (require (se_root e k) (Http 503 ''Staging storage is unavailable'')) (\<lambda>_.
       require (\<not> (se_require_marker e \<and> \<not> se_marker e k))
         (Http 503 ''Removable staging media is not mounted or initialized'')))"

section \<open>Space\<close>

definition managed :: "string \<Rightarrow> bool" where
  "managed name \<longleftrightarrow> name \<noteq> media_marker \<and> \<not> endswith name uploading"

definition managed_files :: "staging \<Rightarrow> (string \<times> string) list" where
  "managed_files s = filter (\<lambda>x. managed (fst x)) (sg_files s)"

definition recovery_bytes :: "staging \<Rightarrow> int" where
  "recovery_bytes s = (case sg_recovery s of None \<Rightarrow> 0 | Some xs \<Rightarrow> sum_list (map (\<lambda>x. int (length (snd x))) xs))"

definition managed_bytes :: "string option \<Rightarrow> staging \<Rightarrow> int" where
  "managed_bytes exclude s =
     sum_list (map (\<lambda>x. int (length (snd x))) (filter (\<lambda>x. Some (fst x) \<noteq> exclude) (managed_files s))) + recovery_bytes s"

definition active :: "upload_task \<Rightarrow> bool" where
  "active t \<longleftrightarrow> ut_status t \<in> {Running, Cancelling}"

definition reservations :: "staging \<Rightarrow> int \<times> int" where
  "reservations s = (let ts = filter active (map snd (sg_uploads s))
     in (sum_list (map ut_total ts), sum_list (map (\<lambda>t. max 0 (ut_total t - int (ut_done t))) ts)))"

text \<open>What an upload that replaces \<open>exclude\<close> may use, or what is free.\<close>

definition available_bytes :: "staging_env \<Rightarrow> string option \<Rightarrow> int staging_prog" where
  "available_bytes e exclude =
     andThen tick (\<lambda>k.
     andThen (get_state reservations) (\<lambda>(quota_reserved, physical_reserved).
     andThen (get_state (managed_bytes exclude)) (\<lambda>used.
       ret (min (max 0 (se_capacity e - used - quota_reserved))
                (max 0 (se_free e k - se_reserve e - physical_reserved))))))"

text \<open>The listing: the names and sizes in the order of the names, the bytes used and free.\<close>

definition staging_info :: "staging_env \<Rightarrow> (string \<times> (string \<times> nat) list \<times> int \<times> int) staging_prog" where
  "staging_info e = handling
     (andThen (storage_root e) (\<lambda>_.
      andThen (get_state (\<lambda>s. map (\<lambda>x. (fst x, length (snd x))) (sort_key (\<lambda>x. lower (fst x)) (managed_files s)))) (\<lambda>files.
      andThen (get_state (managed_bytes None)) (\<lambda>used.
      andThen (available_bytes e None) (\<lambda>free. ret (''ready'', files, used, free))))))
     (\<lambda>f. case f of Http c d \<Rightarrow> if c = 503 then ret (''media_missing'', [], 0, 0) else raise f | _ \<Rightarrow> raise f)"

section \<open>Mounted media\<close>

record media_status =
  md_status :: string
  md_filename :: "string option"

definition media_lines :: "string \<Rightarrow> (string \<times> string) list" where
  "media_lines text = concat (map (\<lambda>l. if CHR ''='' \<in> set l
     then [(takeWhile (\<lambda>c. c \<noteq> CHR ''='') l, tl (dropWhile (\<lambda>c. c \<noteq> CHR ''='') l))] else []) (splitlines text))"

definition media_value :: "string \<Rightarrow> string \<Rightarrow> string option" where
  "media_value text k = map_of (rev (media_lines text)) k"

definition virtual_media_status :: "staging_env \<Rightarrow> media_status staging_prog" where
  "virtual_media_status e = andThen tick (\<lambda>k. case se_media e k of
     No_media \<Rightarrow> ret \<lparr>md_status = ''ejected'', md_filename = None\<rparr>
   | Media_unreadable \<Rightarrow> ret \<lparr>md_status = ''unavailable'', md_filename = None\<rparr>
   | Media_garbled \<Rightarrow> raise (Crash ''UnicodeDecodeError'')
   | Media_text text \<Rightarrow>
       ret \<lparr>md_status = (case media_value text ''status'' of None \<Rightarrow> ''ejected'' | Some x \<Rightarrow> x),
        md_filename = (case media_value text ''filename'' of None \<Rightarrow> None | Some x \<Rightarrow> if x = [] then None else Some x)\<rparr>)"

definition ensure_media_released :: "staging_env \<Rightarrow> string \<Rightarrow> unit staging_prog" where
  "ensure_media_released e filename = andThen (virtual_media_status e) (\<lambda>m.
     require (\<not> (md_status m \<noteq> ''ejected'' \<and> md_filename m = Some filename))
       (Http 409 ''Eject virtual media before changing its file''))"

section \<open>Files\<close>

definition put_file :: "string \<Rightarrow> string \<Rightarrow> unit staging_prog" where
  "put_file n c = modify (\<lambda>s. s\<lparr>sg_files := put_entry n c (sg_files s)\<rparr>)"

definition remove_file :: "string \<Rightarrow> unit staging_prog" where
  "remove_file n = modify (\<lambda>s. s\<lparr>sg_files := drop_entry n (sg_files s)\<rparr>)"

definition file_content :: "string \<Rightarrow> string option staging_prog" where
  "file_content n = get_state (\<lambda>s. map_of (sg_files s) n)"

text \<open>\<open>path.exists()\<close>: the recovery directory is a name of the staging directory too.\<close>

definition recovery_name :: string where
  "recovery_name = ''recovery''"

definition name_taken :: "string \<Rightarrow> staging \<Rightarrow> bool" where
  "name_taken n s \<longleftrightarrow> map_of (sg_files s) n \<noteq> None \<or> (n = recovery_name \<and> sg_recovery s \<noteq> None)"

definition os_error :: failure where
  "os_error = Crash ''OSError''"

definition disk_step :: "staging_env \<Rightarrow> unit staging_prog" where
  "disk_step e = andThen tick (\<lambda>k. require (se_disk e k) os_error)"

text \<open>\<open>path.unlink(missing_ok=True)\<close>.\<close>

definition unlink_quietly :: "staging_env \<Rightarrow> string \<Rightarrow> unit staging_prog" where
  "unlink_quietly e n = andThen (file_content n) (\<lambda>c. case c of
     None \<Rightarrow> ret () | Some _ \<Rightarrow> andThen (disk_step e) (\<lambda>_. remove_file n))"

text \<open>\<open>a.replace(b)\<close> and \<open>os.link(a, b)\<close>; a directory is not replaced.\<close>

definition rename_over :: "staging_env \<Rightarrow> string \<Rightarrow> string \<Rightarrow> unit staging_prog" where
  "rename_over e a b =
     andThen (file_content a) (\<lambda>x.
     andThen (need x os_error) (\<lambda>c.
     andThen (get_state (\<lambda>s. b = recovery_name \<and> sg_recovery s \<noteq> None)) (\<lambda>directory.
     andThen (require (\<not> directory) os_error) (\<lambda>_.
     andThen (disk_step e) (\<lambda>_.
     andThen (remove_file a) (\<lambda>_. put_file b c))))))"

definition link_new :: "staging_env \<Rightarrow> string \<Rightarrow> string \<Rightarrow> failure \<Rightarrow> unit staging_prog" where
  "link_new e a b exists =
     andThen (file_content a) (\<lambda>x.
     andThen (need x os_error) (\<lambda>c.
     andThen (get_state (name_taken b)) (\<lambda>taken.
     andThen (require (\<not> taken) exists) (\<lambda>_.
     andThen (disk_step e) (\<lambda>_. put_file b c)))))"

section \<open>Progress\<close>

text \<open>
  \<open>round(a / b * 100)\<close> in double precision: the quotient and the product are each rounded to 53 bits,
  then the product to an integer, always to nearest with ties to even (for lengths below 2 to the 53rd).
\<close>

definition round_half_even :: "nat \<Rightarrow> nat \<Rightarrow> nat" where
  "round_half_even a b = (let q = a div b; r = a mod b
     in if 2 * r < b \<or> 2 * r = b \<and> even q then q else q + 1)"

fun bit_count :: "nat \<Rightarrow> nat" where
  "bit_count n = (if n = 0 then 0 else 1 + bit_count (n div 2))"

definition double_quotient :: "nat \<Rightarrow> nat \<Rightarrow> nat \<times> nat" where
  "double_quotient a b = (let k = 53 + bit_count b - bit_count a; k' = (if a * 2 ^ k div b < 2 ^ 53 then k else k - 1)
     in (round_half_even (a * 2 ^ k') b, k'))"

definition percent_nat :: "nat \<Rightarrow> nat \<Rightarrow> nat" where
  "percent_nat a b = (if a = 0 then 0 else
     let (m, k) = double_quotient a b; shift = bit_count (m * 100) - 53
     in round_half_even (round_half_even (m * 100) (2 ^ shift) * 2 ^ shift) (2 ^ k))"

definition percent :: "nat \<Rightarrow> int \<Rightarrow> int" where
  "percent written expected = (if 0 \<le> expected then int (percent_nat written (nat expected))
     else - int (percent_nat written (nat (- expected))))"

section \<open>Upload tasks\<close>

fun status_text :: "upload_status \<Rightarrow> string" where
  "status_text Running = ''running''"
| "status_text Cancelling = ''cancelling''"
| "status_text Completed = ''completed''"
| "status_text Cancelled = ''cancelled''"
| "status_text Failed = ''failed''"

definition global_status :: "upload_status \<Rightarrow> string" where
  "global_status x = (if x = Completed then ''successful'' else status_text x)"

text \<open>The keyword arguments of \<open>_update_task\<close>, which always has \<open>updated_at\<close> among them.\<close>

record upload_change =
  uc_status :: "upload_status option"
  uc_progress :: "int option"
  uc_done :: "nat option"
  uc_error :: "string option"

definition apply_change :: "upload_change \<Rightarrow> string \<Rightarrow> upload_task \<Rightarrow> upload_task" where
  "apply_change c t u = u\<lparr>
     ut_status := (case uc_status c of None \<Rightarrow> ut_status u | Some x \<Rightarrow> x),
     ut_progress := (case uc_progress c of None \<Rightarrow> ut_progress u | Some x \<Rightarrow> x),
     ut_done := (case uc_done c of None \<Rightarrow> ut_done u | Some x \<Rightarrow> x),
     ut_error := (case uc_error c of None \<Rightarrow> ut_error u | Some x \<Rightarrow> Some x),
     ut_updated := t\<rparr>"

definition global_values :: "upload_change \<Rightarrow> (string \<times> json) list" where
  "global_values c =
     (case uc_status c of None \<Rightarrow> [] | Some x \<Rightarrow> [(''status'', JStr (global_status x))]) @
     (case uc_progress c of None \<Rightarrow> [] | Some x \<Rightarrow> [(''progress'', JInt x)]) @
     (case uc_done c of None \<Rightarrow> [] | Some x \<Rightarrow> [(''bytes_done'', JInt (int x))]) @
     (case uc_error c of None \<Rightarrow> [] | Some x \<Rightarrow> [(''error'', JStr x)])"

definition set_uploads :: "((string \<times> upload_task) list \<Rightarrow> (string \<times> upload_task) list) \<Rightarrow> unit staging_prog" where
  "set_uploads f = modify (\<lambda>s. s\<lparr>sg_uploads := f (sg_uploads s)\<rparr>)"

definition change_entry :: "string \<Rightarrow> ('a \<Rightarrow> 'a) \<Rightarrow> (string \<times> 'a) list \<Rightarrow> (string \<times> 'a) list" where
  "change_entry k f d = map (\<lambda>(k', v). (k', if k' = k then f v else v)) d"

definition update_upload :: "staging_env \<Rightarrow> string \<Rightarrow> upload_change \<Rightarrow> unit staging_prog" where
  "update_upload e i c =
     andThen (task_now e) (\<lambda>t.
     andThen (set_uploads (change_entry i (apply_change c t))) (\<lambda>_.
     andThen (update_task e i (global_values c)) (\<lambda>_. ret ())))"

definition task_cancelled :: "string \<Rightarrow> staging \<Rightarrow> bool" where
  "task_cancelled i s = (case map_of (sg_uploads s) i of None \<Rightarrow> False | Some t \<Rightarrow> ut_cancel t)"

definition upload_tasks :: "upload_task list staging_prog" where
  "upload_tasks = get_state (\<lambda>s. rev (sort_key ut_created (rev (map snd (sg_uploads s)))))"

definition cancel_task :: "upload_task \<Rightarrow> upload_task" where
  "cancel_task t = (if ut_status t = Running then t\<lparr>ut_cancel := True, ut_status := Cancelling\<rparr> else t)"

definition cancel_upload_task :: "string \<Rightarrow> upload_task staging_prog" where
  "cancel_upload_task i =
     andThen (get_state (\<lambda>s. map_of (sg_uploads s) i)) (\<lambda>found.
     andThen (need found (Http 404 ''Upload task not found'')) (\<lambda>t.
     andThen (set_uploads (change_entry i cancel_task)) (\<lambda>_. ret (cancel_task t))))"

end
