(* ===== verification/Staging_Upload.thy ===== *)
theory Staging_Upload
  imports Staging
begin

text \<open>
  The operations of the staging storage: the steps of an upload, deletion, the start-up cleanup, and the
  moves between the staging area and the recovery directory.
\<close>

section \<open>An upload\<close>

text \<open>The local variables of \<open>store_upload\<close>, and what the file object \<open>output\<close> has not written yet.\<close>

record upload =
  up_task :: string
  up_name :: string
  up_expected :: int
  up_available :: int
  up_overwrite :: bool
  up_written :: nat
  up_buffer :: string

definition fragment :: "upload \<Rightarrow> string" where
  "fragment u = CHR ''.'' # up_name u @ CHR ''.'' # up_task u @ uploading"

definition upload_id :: "staging_env \<Rightarrow> string option \<Rightarrow> string staging_prog" where
  "upload_id e requested = (case requested of
     None \<Rightarrow> fresh_id e
   | Some i \<Rightarrow> if i = [] then fresh_id e else need (uuid_of i) (Http 400 ''Invalid upload task ID''))"

definition uploading_now :: "string \<Rightarrow> staging \<Rightarrow> bool" where
  "uploading_now name s \<longleftrightarrow> list_ex (\<lambda>x. ut_name (snd x) = name \<and> active (snd x)) (sg_uploads s)"

text \<open>The length a client declared: none, or a number that the limits allow.\<close>

definition declared_length :: "staging_env \<Rightarrow> string option \<Rightarrow> int \<Rightarrow> int staging_prog" where
  "declared_length e header available = (case header of
     None \<Rightarrow> ret 0
   | Some h \<Rightarrow> if h = [] then ret 0 else
       andThen (need (int_of_text h) (Http 400 ''Invalid Content-Length'')) (\<lambda>n.
       andThen (require (n \<le> se_max_upload e) (Http 413 ''File exceeds upload limit'')) (\<lambda>_.
       andThen (require (n \<le> available) (Http 507 ''Not enough staging storage space'')) (\<lambda>_. ret n))))"

definition new_upload_task :: "string \<Rightarrow> string \<Rightarrow> int \<Rightarrow> string \<Rightarrow> upload_task" where
  "new_upload_task i name expected t = \<lparr>ut_id = i, ut_name = name, ut_status = Running, ut_progress = 0, ut_done = 0,
     ut_total = expected, ut_created = t, ut_updated = t, ut_error = None, ut_cancel = False\<rparr>"

text \<open>
  The except and finally clauses: the task's state by the kind of error, the answer, and the removal of
  the fragment, which itself may fail.
\<close>

definition failed_change :: "upload_status \<Rightarrow> string \<Rightarrow> upload_change" where
  "failed_change x detail = \<lparr>uc_status = Some x, uc_progress = None, uc_done = None, uc_error = Some detail\<rparr>"

definition upload_answer :: "failure \<Rightarrow> bool \<Rightarrow> upload_status \<times> string \<times> failure" where
  "upload_answer f cancelled = (case f of
     Http c d \<Rightarrow> (if c = 409 then Cancelled else Failed, d, f)
   | _ \<Rightarrow> if f = os_error then (Failed, ''Unable to store uploaded file'', Http 507 ''Unable to store uploaded file'')
          else (if cancelled then Cancelled else Failed, ''Upload connection interrupted'', f))"

definition settle_upload :: "staging_env \<Rightarrow> upload \<Rightarrow> upload_status \<times> string \<times> failure \<Rightarrow> 'a staging_prog" where
  "settle_upload e u a =
     andThen (update_upload e (up_task u) (failed_change (fst a) (fst (snd a)))) (\<lambda>_.
     andThen (unlink_quietly e (fragment u)) (\<lambda>_. raise (snd (snd a))))"

definition fail_upload :: "staging_env \<Rightarrow> upload \<Rightarrow> failure \<Rightarrow> 'a staging_prog" where
  "fail_upload e u f = andThen (get_state (task_cancelled (up_task u))) (\<lambda>cancelled.
     settle_upload e u (upload_answer f cancelled))"

definition check_upload :: "staging_env \<Rightarrow> string \<Rightarrow> string option \<Rightarrow> bool \<Rightarrow> string staging_prog" where
  "check_upload e name requested overwrite =
     andThen (upload_id e requested) (\<lambda>i.
     andThen (get_state (uploading_now name)) (\<lambda>duplicate.
     andThen (require (\<not> duplicate) (Http 409 ''A task is already uploading this file'')) (\<lambda>_.
     andThen (storage_root e) (\<lambda>_.
     andThen (if overwrite then ensure_media_released e name else ret ()) (\<lambda>_.
     andThen (get_state (name_taken name)) (\<lambda>taken.
     andThen (require (overwrite \<or> \<not> taken) (Http 409 ''A file with this name already exists in staging'')) (\<lambda>_.
       ret i)))))))"

definition size_upload :: "staging_env \<Rightarrow> string \<Rightarrow> string option \<Rightarrow> bool \<Rightarrow> string \<Rightarrow> upload staging_prog" where
  "size_upload e name header overwrite i =
     andThen (available_bytes e (Some name)) (\<lambda>available.
     andThen (declared_length e header available) (\<lambda>expected.
       ret \<lparr>up_task = i, up_name = name, up_expected = expected, up_available = available, up_overwrite = overwrite,
            up_written = 0, up_buffer = []\<rparr>))"

definition accept_upload ::
    "staging_env \<Rightarrow> string \<Rightarrow> string option \<Rightarrow> string option \<Rightarrow> bool \<Rightarrow> upload staging_prog" where
  "accept_upload e filename header requested overwrite =
     andThen (safe_name filename) (\<lambda>name.
     andThen (check_upload e name requested overwrite) (size_upload e name header overwrite))"

text \<open>The steps up to the first wait for data.\<close>

definition begin_upload ::
    "staging_env \<Rightarrow> string \<Rightarrow> string option \<Rightarrow> string option \<Rightarrow> bool \<Rightarrow> upload staging_prog" where
  "begin_upload e filename header requested overwrite =
     andThen (accept_upload e filename header requested overwrite) (\<lambda>u.
     andThen (task_now e) (\<lambda>t.
     andThen (set_uploads (put_entry (up_task u) (new_upload_task (up_task u) (up_name u) (up_expected u) t))) (\<lambda>_.
       handling (andThen (disk_step e) (\<lambda>_. andThen (put_file (fragment u) []) (\<lambda>_. ret u)))
         (fail_upload e u))))"

text \<open>Bytes written through the open file object; they go nowhere once the file has no name.\<close>

definition extend_file :: "string \<Rightarrow> string \<Rightarrow> unit staging_prog" where
  "extend_file n x = modify (\<lambda>s. s\<lparr>sg_files := change_entry n (\<lambda>c. c @ x) (sg_files s)\<rparr>)"

text \<open>
  The end of the \<open>with\<close> block: what is in the buffer is written, or a part of it and the close fails. An
  exception that leaves the block closes the file as well; an error of that takes its place.
\<close>

definition close_fragment :: "staging_env \<Rightarrow> upload \<Rightarrow> unit staging_prog" where
  "close_fragment e u =
     andThen tick (\<lambda>k.
     andThen (extend_file (fragment u) (if se_disk e k then up_buffer u else take (se_partial e k) (up_buffer u))) (\<lambda>_.
       require (se_disk e k) os_error))"

definition closing :: "staging_env \<Rightarrow> upload \<Rightarrow> 'a staging_prog \<Rightarrow> 'a staging_prog" where
  "closing e u m = handling m (\<lambda>f. andThen (close_fragment e u) (\<lambda>_. raise f))"

text \<open>\<open>output.write\<close>: some of the bytes in the buffer reach the file, the others stay in it.\<close>

definition write_fragment :: "staging_env \<Rightarrow> upload \<Rightarrow> string \<Rightarrow> upload staging_prog" where
  "write_fragment e u data =
     andThen tick (\<lambda>k. let pending = up_buffer u @ data; n = (if se_disk e k then se_flush e k else se_partial e k);
         v = u\<lparr>up_buffer := drop n pending\<rparr>
       in andThen (extend_file (fragment u) (take n pending)) (\<lambda>_.
          andThen (closing e v (require (se_disk e k) os_error)) (\<lambda>_. ret v)))"

definition write_chunk :: "staging_env \<Rightarrow> upload \<Rightarrow> string \<Rightarrow> upload staging_prog" where
  "write_chunk e u chunk =
     andThen (if chunk \<noteq> [] then write_fragment e u chunk else ret u) (\<lambda>v.
     andThen (update_upload e (up_task u) \<lparr>uc_status = None,
       uc_progress = Some (min (if up_expected u = 0 then 0 else percent (up_written u) (up_expected u)) 99),
       uc_done = Some (up_written u), uc_error = None\<rparr>) (\<lambda>_. ret v))"

definition count_chunk :: "staging_env \<Rightarrow> upload \<Rightarrow> string \<Rightarrow> upload staging_prog" where
  "count_chunk e u chunk =
     andThen (get_state (task_cancelled (up_task u))) (\<lambda>cancelled.
     andThen (require (\<not> cancelled) (Http 409 ''Upload task cancelled'')) (\<lambda>_.
     andThen (ret (u\<lparr>up_written := up_written u + length chunk\<rparr>)) (\<lambda>v.
     andThen (require (int (up_written v) \<le> se_max_upload e) (Http 413 ''File exceeds upload limit'')) (\<lambda>_.
     andThen (require (int (up_written v) \<le> up_available v) (Http 507 ''Internal staging quota exceeded'')) (\<lambda>_.
       ret v)))))"

definition take_chunk :: "staging_env \<Rightarrow> upload \<Rightarrow> string \<Rightarrow> upload staging_prog" where
  "take_chunk e u chunk = andThen (closing e u (count_chunk e u chunk)) (\<lambda>v. write_chunk e v chunk)"

definition receive_chunk :: "staging_env \<Rightarrow> upload \<Rightarrow> string \<Rightarrow> upload staging_prog" where
  "receive_chunk e u chunk = handling (take_chunk e u chunk) (fail_upload e u)"

text \<open>The fragment is closed, which writes what is buffered, and takes its place under the name.\<close>

definition place_upload :: "staging_env \<Rightarrow> upload \<Rightarrow> unit staging_prog" where
  "place_upload e u =
     andThen (close_fragment e u) (\<lambda>_.
     andThen (require (up_written u \<noteq> 0) (Http 400 ''Empty uploads are not accepted'')) (\<lambda>_.
       if up_overwrite u
       then andThen (ensure_media_released e (up_name u)) (\<lambda>_. rename_over e (fragment u) (up_name u))
       else andThen (link_new e (fragment u) (up_name u) (Http 409 ''Staging filename already exists'')) (\<lambda>_.
            andThen (disk_step e) (\<lambda>_. remove_file (fragment u)))))"

text \<open>The end of the stream: the operation's name and the bytes stored.\<close>

definition finish_upload :: "staging_env \<Rightarrow> upload \<Rightarrow> (string \<times> nat) staging_prog" where
  "finish_upload e u =
     andThen (handling (place_upload e u) (fail_upload e u)) (\<lambda>_.
     andThen (update_upload e (up_task u) \<lparr>uc_status = Some Completed, uc_progress = Some 100,
       uc_done = Some (up_written u), uc_error = None\<rparr>) (\<lambda>_. ret (up_name u, up_written u)))"

text \<open>The client goes away.\<close>

definition abort_upload :: "staging_env \<Rightarrow> upload \<Rightarrow> unit staging_prog" where
  "abort_upload e u = handling (closing e u (raise (Crash ''ClientDisconnect''))) (fail_upload e u)"

section \<open>Files at rest\<close>

definition staged_path :: "staging_env \<Rightarrow> string \<Rightarrow> (string \<times> string) staging_prog" where
  "staged_path e filename =
     andThen (storage_root e) (\<lambda>_.
     andThen (safe_name filename) (\<lambda>name.
     andThen (file_content name) (\<lambda>c.
     andThen (need c (Http 404 ''File not found'')) (\<lambda>content. ret (name, content)))))"

definition delete_staged_file :: "staging_env \<Rightarrow> string \<Rightarrow> (string \<times> nat) staging_prog" where
  "delete_staged_file e filename =
     andThen (staged_path e filename) (\<lambda>(name, content).
     andThen (ensure_media_released e name) (\<lambda>_.
     andThen tick (\<lambda>k.
     andThen (require (se_disk e k) (Http 500 ''Unable to delete staged file'')) (\<lambda>_.
     andThen (remove_file name) (\<lambda>_. ret (name, length content))))))"

text \<open>The fragments of a crash, removed at start-up.\<close>

definition fragment_name :: "string \<Rightarrow> bool" where
  "fragment_name n \<longleftrightarrow> startswith n ''.'' \<and> endswith (tl n) uploading"

fun remove_each :: "staging_env \<Rightarrow> string list \<Rightarrow> string list staging_prog" where
  "remove_each e [] = ret []"
| "remove_each e (n # ns) = andThen tick (\<lambda>k.
     if se_disk e k then andThen (remove_file n) (\<lambda>_. andThen (remove_each e ns) (\<lambda>rest. ret (n # rest)))
     else remove_each e ns)"

definition cleanup_incomplete_uploads :: "staging_env \<Rightarrow> string list staging_prog" where
  "cleanup_incomplete_uploads e = handling
     (andThen (storage_root e) (\<lambda>_.
      andThen (get_state (\<lambda>s. filter fragment_name (map fst (sg_files s)))) (\<lambda>ns. remove_each e ns)))
     (\<lambda>f. case f of Http _ _ \<Rightarrow> ret [] | _ \<Rightarrow> raise f)"

section \<open>The recovery directory\<close>

definition recovery_files :: "staging \<Rightarrow> (string \<times> string) list" where
  "recovery_files s = (case sg_recovery s of None \<Rightarrow> [] | Some xs \<Rightarrow> xs)"

definition recovery_root :: "staging_env \<Rightarrow> unit staging_prog" where
  "recovery_root e =
     andThen (storage_root e) (\<lambda>_.
     andThen (file_content recovery_name) (\<lambda>c.
     andThen (require (c = None) (Crash ''FileExistsError'')) (\<lambda>_.
     andThen (disk_step e) (\<lambda>_.
       modify (\<lambda>s. s\<lparr>sg_recovery := Some (recovery_files s)\<rparr>)))))"

text \<open>Each part is checked in its turn; a part that stripping changes is refused as well.\<close>

fun check_parts :: "string list \<Rightarrow> ('s, failure, unit) prog" where
  "check_parts [] = ret ()"
| "check_parts (p # ps) = andThen (safe_name p) (\<lambda>n.
     andThen (require (n = p) (Http 400 ''Invalid recovery path'')) (\<lambda>_. check_parts ps))"

definition recovery_path :: "staging_env \<Rightarrow> string \<Rightarrow> string staging_prog" where
  "recovery_path e path =
     andThen (check_parts (split_on (CHR ''/'') path)) (\<lambda>_. andThen (recovery_root e) (\<lambda>_. ret path))"

definition set_recovery :: "((string \<times> string) list \<Rightarrow> (string \<times> string) list) \<Rightarrow> unit staging_prog" where
  "set_recovery f = modify (\<lambda>s. s\<lparr>sg_recovery := Some (f (recovery_files s))\<rparr>)"

text \<open>A file stands where a folder has to be, or a file or a folder where the new file has to be.\<close>

definition folder_blocked :: "string \<Rightarrow> staging \<Rightarrow> bool" where
  "folder_blocked p s \<longleftrightarrow> list_ex (\<lambda>x. startswith p (fst x @ ''/'')) (recovery_files s)"

definition recovery_taken :: "string \<Rightarrow> staging \<Rightarrow> bool" where
  "recovery_taken p s \<longleftrightarrow> map_of (recovery_files s) p \<noteq> None \<or> list_ex (\<lambda>x. startswith (fst x) (p @ ''/'')) (recovery_files s)"

definition publish_file :: "staging_env \<Rightarrow> string \<Rightarrow> string \<Rightarrow> string staging_prog" where
  "publish_file e filename folder =
     andThen (staged_path e filename) (\<lambda>(name, content).
     andThen (virtual_media_status e) (\<lambda>m.
     andThen (require (\<not> (md_filename m = Some name \<and> md_status m \<noteq> ''ejected'')) (Http 409 ''Eject virtual media before moving it'')) (\<lambda>_.
     andThen (recovery_path e (if folder \<noteq> [] then folder @ CHR ''/'' # name else name)) (\<lambda>target.
     andThen (disk_step e) (\<lambda>_.
     andThen (get_state (folder_blocked target)) (\<lambda>blocked.
     andThen (require (\<not> blocked) (Crash ''FileExistsError'')) (\<lambda>_.
     andThen (get_state (recovery_taken target)) (\<lambda>taken.
     andThen (require (\<not> taken) (Http 409 ''Recovery file already exists'')) (\<lambda>_.
     andThen (disk_step e) (\<lambda>_.
     andThen (set_recovery (put_entry target content)) (\<lambda>_.
     andThen (disk_step e) (\<lambda>_.
     andThen (remove_file name) (\<lambda>_. ret target)))))))))))))"

definition last_part :: "string \<Rightarrow> string" where
  "last_part path = last (split_on (CHR ''/'') path)"

definition restore_file :: "staging_env \<Rightarrow> string \<Rightarrow> string staging_prog" where
  "restore_file e path =
     andThen (recovery_path e path) (\<lambda>source.
     andThen (get_state (\<lambda>s. map_of (recovery_files s) source)) (\<lambda>c.
     andThen (need c (Http 404 ''Recovery file not found'')) (\<lambda>content.
     andThen (storage_root e) (\<lambda>_.
     andThen (get_state (name_taken (last_part source))) (\<lambda>taken.
     andThen (require (\<not> taken) (Http 409 ''Staging file already exists'')) (\<lambda>_.
     andThen (disk_step e) (\<lambda>_.
     andThen (put_file (last_part source) content) (\<lambda>_.
     andThen (disk_step e) (\<lambda>_.
     andThen (set_recovery (drop_entry source)) (\<lambda>_. ret (last_part source)))))))))))"

end
