(* ===== verification/Staging_Safety.thy ===== *)
theory Staging_Safety
  imports Staging_Upload Tasks_Guarantees
begin

text \<open>
  What each step of the staging storage does to the files, the recovery files and the table of uploads,
  on success and on every failure, as the weakest preconditions of the operations.
\<close>

section \<open>Entries\<close>

lemma map_of_drop_entry: "map_of (drop_entry k d) = (map_of d)(k := None)"
  by (induction d) (auto simp: drop_entry_def)

lemma keys_put_entry: "set (map fst (put_entry k v d)) = insert k (set (map fst d))"
  by (induction k v d rule: put_entry.induct) auto

lemma distinct_put_entry: "distinct (map fst (put_entry k v d)) = distinct (map fst d)"
proof (induction k v d rule: put_entry.induct)
  case (2 k v k' v' d)
  then show ?case by (auto simp: keys_put_entry simp del: set_map)
qed simp

lemma distinct_drop_entry: "distinct (map fst d) \<Longrightarrow> distinct (map fst (drop_entry k d))"
  by (simp add: drop_entry_def distinct_map_filter)

lemma put_entry_new: "k \<notin> fst ` set d \<Longrightarrow> put_entry k v d = d @ [(k, v)]"
  by (induction k v d rule: put_entry.induct) auto

lemma map_fst_change_entry [simp]: "map fst (change_entry k f d) = map fst d"
  by (simp add: change_entry_def split_def comp_def)

lemma map_of_change_entry: "map_of (change_entry k f d) n = (if n = k then map_option f (map_of d k) else map_of d n)"
  by (induction d) (auto simp: change_entry_def)

section \<open>Bytes\<close>

text \<open>The managed bytes outside a set of names.\<close>

definition bytes :: "string set \<Rightarrow> (string \<times> string) list \<Rightarrow> int" where
  "bytes N d = sum_list (map (\<lambda>x. if managed (fst x) \<and> fst x \<notin> N then int (length (snd x)) else 0) d)"

lemma bytes_Cons: "bytes N (x # d) = (if managed (fst x) \<and> fst x \<notin> N then int (length (snd x)) else 0) + bytes N d"
  by (simp add: bytes_def)

lemma bytes_nonneg: "0 \<le> bytes N d"
  by (induction d) (auto simp: bytes_def)

lemma bytes_mono: "M \<subseteq> N \<Longrightarrow> bytes N d \<le> bytes M d"
  by (induction d) (auto simp: bytes_def)

lemma bytes_free: "n \<notin> fst ` set d \<Longrightarrow> bytes (insert n N) d = bytes N d"
  by (induction d) (auto simp: bytes_def)

lemma bytes_drop_entry: "bytes N (drop_entry n d) = bytes (insert n N) d"
  by (induction d) (auto simp: bytes_def drop_entry_def)

lemma bytes_put_entry:
  "distinct (map fst d) \<Longrightarrow>
     bytes N (put_entry n c d) = bytes (insert n N) d + (if managed n \<and> n \<notin> N then int (length c) else 0)"
proof (induction d)
  case (Cons x d)
  show ?case
  proof (cases "fst x = n")
    case True
    then have "n \<notin> fst ` set d" using Cons.prems by auto
    with True show ?thesis by (cases x) (simp add: bytes_Cons bytes_free)
  qed (use Cons in \<open>cases x; simp add: bytes_Cons\<close>)
qed (simp add: bytes_def)

lemma bytes_unmanaged: "\<not> managed n \<Longrightarrow> bytes (insert n N) d = bytes N d"
  by (induction d) (auto simp: bytes_def)

lemma bytes_change_entry: "\<not> managed n \<Longrightarrow> bytes N (change_entry n f d) = bytes N d"
  by (induction d) (auto simp: bytes_def change_entry_def)

lemma bytes_unmanaged_inside: "\<not> managed f \<Longrightarrow> bytes (insert n (insert f N)) d = bytes (insert n N) d"
  by (simp add: insert_commute [of n f] bytes_unmanaged)

lemma managed_bytes_bytes:
  "managed_bytes (Some n) s = bytes {n} (sg_files s) + recovery_bytes s"
  "managed_bytes None s = bytes {} (sg_files s) + recovery_bytes s"
proof -
  have "sum_list (map (\<lambda>x. int (length (snd x))) (filter (\<lambda>x. Some (fst x) \<noteq> Some n) (filter (\<lambda>x. managed (fst x)) d))) = bytes {n} d"
    "sum_list (map (\<lambda>x. int (length (snd x))) (filter (\<lambda>x. Some (fst x) \<noteq> None) (filter (\<lambda>x. managed (fst x)) d))) = bytes {} d" for d :: "(string \<times> string) list"
    by (induction d) (auto simp: bytes_def)
  then show "managed_bytes (Some n) s = bytes {n} (sg_files s) + recovery_bytes s"
    "managed_bytes None s = bytes {} (sg_files s) + recovery_bytes s"
    by (simp_all add: managed_bytes_def managed_files_def)
qed

section \<open>Steps that change no file and no upload\<close>

definition same :: "staging \<Rightarrow> staging \<Rightarrow> bool" where
  "same s t \<longleftrightarrow> sg_files t = sg_files s \<and> sg_recovery t = sg_recovery s \<and> sg_uploads t = sg_uploads s"

lemma same_refl [simp]: "same s s"
  by (simp add: same_def)

lemma same_free: "board_free (same s)"
  by (simp add: board_free_def same_def)

lemmas same_board [safe_rules] = board_free_steps [OF same_free] board_free_update [OF same_free]

lemma safe_tick [safe_rules]: "safe (same s) tick"
  by (simp add: safe_def wp_def tick_def same_def)

lemma safe_safe_name [safe_rules]: "safe I (safe_name f)"
  unfolding safe_name_def Let_def by (intro safe_rules)

lemma safe_prod [safe_rules]: "(\<And>a b. safe I (f a b)) \<Longrightarrow> safe I (case x of (a, b) \<Rightarrow> f a b)"
  by (simp split: prod.split)

lemma safe_reads [safe_rules]:
  "safe (same s) (storage_root e)" "safe (same s) (available_bytes e x)" "safe (same s) (virtual_media_status e)"
  "safe (same s) (disk_step e)" "safe (same s) (file_content n)"
  by (auto simp: storage_root_def available_bytes_def virtual_media_status_def disk_step_def file_content_def
      intro!: safe_rules split: media_file.split)

lemma safe_released [safe_rules]: "safe (same s) (ensure_media_released e n)"
  unfolding ensure_media_released_def by (intro safe_rules)

lemma safe_upload_id [safe_rules]: "safe (same s) (upload_id e r)"
  unfolding upload_id_def by (intro safe_rules)

lemma safe_declared [safe_rules]: "safe I (declared_length e h n)"
  unfolding declared_length_def by (intro safe_rules)

lemma safe_staged_path [safe_rules]: "safe (same s) (staged_path e f)"
  unfolding staged_path_def by (intro safe_rules)

text \<open>A step of such a program in a weakest precondition.\<close>

lemma wp_past:
  assumes "safe (same s0) m" and "same s0 s" and "\<And>a t. same s0 t \<Longrightarrow> wp (f a) Q R t" and "\<And>x t. same s0 t \<Longrightarrow> R x t"
  shows "wp (andThen m f) Q R s"
  by (rule wp_then [of m "\<lambda>_. same s0" "\<lambda>_. same s0"]) (use assms in \<open>auto simp: safe_def\<close>)

lemma same_same: "same s t \<Longrightarrow> same t u \<Longrightarrow> same s u"
  by (simp add: same_def)

section \<open>What the steps of an upload do\<close>

lemma wp_tick [wp_simps]: "wp tick Q R s = Q (tb_steps s) (s\<lparr>tb_steps := Suc (tb_steps s)\<rparr>)"
  by (simp add: wp_def tick_def)

lemma wp_task_now [wp_simps]: "wp (task_now e) Q R s = Q (ks_now e (tb_steps s)) (s\<lparr>tb_steps := Suc (tb_steps s)\<rparr>)"
  by (simp add: wp_def task_now_def)

lemma wp_fresh_id [wp_simps]: "wp (fresh_id e) Q R s = Q (ks_uuid e (tb_steps s)) (s\<lparr>tb_steps := Suc (tb_steps s)\<rparr>)"
  by (simp add: wp_def fresh_id_def)

lemma wp_update_upload:
  assumes "\<And>t u. sg_files t = sg_files s \<Longrightarrow> sg_recovery t = sg_recovery s \<Longrightarrow>
    sg_uploads t = change_entry i (apply_change c u) (sg_uploads s) \<Longrightarrow> Q () t"
  shows "wp (update_upload e i c) Q R s"
proof -
  let ?s = "s\<lparr>tb_steps := Suc (tb_steps s), sg_uploads := change_entry i (apply_change c (ks_now e (tb_steps s))) (sg_uploads s)\<rparr>"
  obtain r t where t: "update_task e i (global_values c) ?s = (Inr r :: failure + task option, t)"
    using update_task_result by blast
  have "safe (same ?s) (update_task e i (global_values c) :: task option staging_prog)" by (intro safe_rules)
  from wp_Inr [OF this [unfolded safe_def, rule_format, OF same_refl] t] have "same ?s t" .
  then have "Q () t" by (intro assms [of t "ks_now e (tb_steps s)"]) (simp_all add: same_def)
  then have "wp (update_task e i (global_values c)) (\<lambda>_. Q ()) R ?s" unfolding wp_def t by simp
  then show ?thesis
    by (simp add: update_upload_def set_uploads_def wp_andThen wp_task_now wp_modify wp_fun(2))
qed

text \<open>The identifier that an upload gets.\<close>

definition requested_task :: "staging_env \<Rightarrow> string option \<Rightarrow> staging \<Rightarrow> string option" where
  "requested_task e r s = (case r of
     None \<Rightarrow> Some (ks_uuid e (tb_steps s)) | Some i \<Rightarrow> if i = [] then Some (ks_uuid e (tb_steps s)) else uuid_of i)"

lemma wp_upload_id:
  assumes "\<And>i t. requested_task e r s = Some i \<Longrightarrow> same s t \<Longrightarrow> Q i t" and "R (Http 400 ''Invalid upload task ID'') s"
  shows "wp (upload_id e r) Q R s"
  using assms
  by (auto simp: upload_id_def requested_task_def wp_simps same_def split: option.split)

definition accepted :: "staging_env \<Rightarrow> string option \<Rightarrow> bool \<Rightarrow> staging \<Rightarrow> upload \<Rightarrow> bool" where
  "accepted e r overwrite s u \<longleftrightarrow> good_name (up_name u) \<and> \<not> uploading_now (up_name u) s \<and>
     requested_task e r s = Some (up_task u) \<and> up_written u = 0 \<and> up_buffer u = [] \<and>
     (0 < up_expected u \<longrightarrow>
        up_expected u \<le> se_capacity e - managed_bytes (Some (up_name u)) s - fst (reservations s))"

lemma same_reads:
  assumes "same s t"
  shows "uploading_now n t = uploading_now n s" "managed_bytes x t = managed_bytes x s" "reservations t = reservations s"
    "name_taken n t = name_taken n s" "task_cancelled n t = task_cancelled n s"
  using assms by (simp_all add: same_def uploading_now_def managed_bytes_def managed_files_def recovery_bytes_def
      reservations_def name_taken_def task_cancelled_def)

lemma wp_available:
  "wp (available_bytes e x) Q R s = Q (min (max 0 (se_capacity e - managed_bytes x s - fst (reservations s)))
     (max 0 (se_free e (tb_steps s) - se_reserve e - snd (reservations s)))) (s\<lparr>tb_steps := Suc (tb_steps s)\<rparr>)"
  by (simp add: available_bytes_def wp_simps split_def reservations_def managed_bytes_def managed_files_def recovery_bytes_def Let_def)

lemma wp_check:
  "wp (check_upload e n r ow) (\<lambda>i t. same s t \<and> requested_task e r s = Some i \<and> \<not> uploading_now n s) (\<lambda>_. same s) s"
  unfolding check_upload_def wp_andThen [of "upload_id e r"]
proof (rule wp_upload_id)
  fix i t assume i: "requested_task e r s = Some i" and t: "same s t"
  show "wp (andThen (get_state (uploading_now n)) (\<lambda>duplicate.
     andThen (require (\<not> duplicate) (Http 409 ''A task is already uploading this file'')) (\<lambda>_.
     andThen (storage_root e) (\<lambda>_.
     andThen (if ow then ensure_media_released e n else ret ()) (\<lambda>_.
     andThen (get_state (name_taken n)) (\<lambda>taken.
     andThen (require (ow \<or> \<not> taken) (Http 409 ''A file with this name already exists in staging'')) (\<lambda>_.
       ret i)))))))
    (\<lambda>i t. same s t \<and> requested_task e r s = Some i \<and> \<not> uploading_now n s) (\<lambda>_. same s) t"
    unfolding wp_andThen [of "get_state _"] wp_get_state wp_andThen [of "require _ _"] wp_require
    using t i by (auto simp: same_reads [OF t] wp_ret intro!: wp_past [of s] safe_rules)
qed simp

lemma wp_size:
  assumes t: "same s t" and n: "good_name n" "\<not> uploading_now n s" "requested_task e r s = Some i"
  shows "wp (size_upload e n h ow i) (\<lambda>u t. same s t \<and> accepted e r ow s u) (\<lambda>_. same s) t"
proof -
  have u: "wp (declared_length e h a) (\<lambda>x t. same s t \<and> (0 < x \<longrightarrow> x \<le> a)) (\<lambda>_. same s) t" if "same s t" for a t
    using that by (simp add: declared_length_def wp_simps split: option.split)
  show ?thesis
    unfolding size_upload_def wp_andThen wp_available wp_ret
  proof (rule wp_mono [OF u])
    show "same s (t\<lparr>tb_steps := Suc (tb_steps t)\<rparr>)" using t by (simp add: same_def)
  qed (use n same_reads [OF t] in \<open>auto simp: accepted_def\<close>)
qed

lemma wp_accept: "wp (accept_upload e f h r ow) (\<lambda>u t. same s t \<and> accepted e r ow s u) (\<lambda>_. same s) s"
proof (cases "good_name (strip is_blank f)")
  case True
  show ?thesis
    unfolding accept_upload_def safe_name_def Let_def
    by (simp add: True require_def) (rule wp_then [OF wp_check], use wp_size True in auto)
qed (simp add: accept_upload_def safe_name_def Let_def wp_simps)

subsection \<open>Files\<close>

lemma fragment_unmanaged [simp]: "\<not> managed (fragment u)"
  by (simp add: managed_def fragment_def endswith_def uploading_def)

definition unique_files :: "staging \<Rightarrow> bool" where
  "unique_files s \<longleftrightarrow> distinct (map fst (sg_files s))"

text \<open>Nothing but the fragment of an upload differs.\<close>

definition on_fragment :: "upload \<Rightarrow> staging \<Rightarrow> staging \<Rightarrow> bool" where
  "on_fragment u s t \<longleftrightarrow> sg_recovery t = sg_recovery s \<and> (unique_files s \<longrightarrow> unique_files t \<and>
     (\<forall>n. n \<noteq> fragment u \<longrightarrow> map_of (sg_files t) n = map_of (sg_files s) n) \<and>
     (\<forall>N. bytes N (sg_files t) = bytes N (sg_files s)))"

lemma on_fragment_trans: "on_fragment u s t \<Longrightarrow> on_fragment u t v \<Longrightarrow> on_fragment u s v"
  by (auto simp: on_fragment_def)

lemma on_fragment_same: "sg_recovery t = sg_recovery s \<Longrightarrow> sg_files t = sg_files s \<Longrightarrow> on_fragment u s t"
  by (simp add: on_fragment_def unique_files_def)

lemma on_fragment_put:
  "sg_recovery t = sg_recovery s \<Longrightarrow> sg_files t = put_entry (fragment u) x (sg_files s) \<Longrightarrow> on_fragment u s t"
  by (simp add: on_fragment_def unique_files_def distinct_put_entry map_of_put_entry bytes_put_entry bytes_unmanaged)

lemma on_fragment_drop:
  "sg_recovery t = sg_recovery s \<Longrightarrow> sg_files t = drop_entry (fragment u) (sg_files s) \<Longrightarrow> on_fragment u s t"
  by (simp add: on_fragment_def unique_files_def distinct_drop_entry map_of_drop_entry bytes_drop_entry bytes_unmanaged)

lemma on_fragmentI:
  "sg_recovery t = sg_recovery s \<Longrightarrow> sg_files t = sg_files s \<or> sg_files t = drop_entry (fragment u) (sg_files s) \<or>
     (\<exists>x. sg_files t = put_entry (fragment u) x (sg_files s)) \<Longrightarrow> on_fragment u s t"
  using on_fragment_same on_fragment_drop on_fragment_put by blast

lemma on_fragment_change:
  "sg_recovery t = sg_recovery s \<Longrightarrow> sg_files t = change_entry (fragment u) f (sg_files s) \<Longrightarrow> on_fragment u s t"
  by (simp add: on_fragment_def unique_files_def map_of_change_entry bytes_change_entry)

text \<open>An upload's file appears under its name with the fragment's content and what was in the buffer.\<close>

definition named :: "upload \<Rightarrow> string \<Rightarrow> staging \<Rightarrow> staging \<Rightarrow> bool" where
  "named u c s t \<longleftrightarrow> on_fragment u (s\<lparr>sg_files := put_entry (up_name u) c (sg_files s)\<rparr>) t"

definition placed :: "upload \<Rightarrow> staging \<Rightarrow> staging \<Rightarrow> bool" where
  "placed u s t \<longleftrightarrow> (\<exists>c. map_of (sg_files s) (fragment u) = Some c \<and> named u (c @ up_buffer u) s t)"

lemma named_trans: "named u c s t \<Longrightarrow> on_fragment u t v \<Longrightarrow> named u c s v"
  unfolding named_def by (rule on_fragment_trans)

lemma named_after: "on_fragment u s t \<Longrightarrow> named u c t v \<Longrightarrow> named u c s v"
  unfolding named_def
proof (rule on_fragment_trans)
  assume "on_fragment u s t"
  then show "on_fragment u (s\<lparr>sg_files := put_entry (up_name u) c (sg_files s)\<rparr>) (t\<lparr>sg_files := put_entry (up_name u) c (sg_files t)\<rparr>)"
    by (simp add: on_fragment_def unique_files_def distinct_put_entry map_of_put_entry bytes_put_entry)
qed

subsection \<open>The table of uploads\<close>

text \<open>The task of an upload has ended.\<close>

definition settled :: "upload \<Rightarrow> staging \<Rightarrow> staging \<Rightarrow> bool" where
  "settled u s t \<longleftrightarrow> (\<exists>c now. sg_uploads t = change_entry (up_task u) (apply_change c now) (sg_uploads s) \<and>
     (\<exists>x. uc_status c = Some x \<and> x \<in> {Completed, Cancelled, Failed}))"

lemma settled_same: "sg_uploads t = sg_uploads s \<Longrightarrow> settled u t v \<Longrightarrow> settled u s v"
  by (simp add: settled_def)

text \<open>The task of an upload has made progress.\<close>

definition advanced :: "upload \<Rightarrow> staging \<Rightarrow> staging \<Rightarrow> bool" where
  "advanced u s t \<longleftrightarrow> (\<exists>c now. sg_uploads t = change_entry (up_task u) (apply_change c now) (sg_uploads s) \<and> uc_status c = None)"

subsection \<open>The steps\<close>

lemma wp_unlink:
  "wp (unlink_quietly e (fragment u)) (\<lambda>_ t. on_fragment u s t \<and> sg_uploads t = sg_uploads s)
     (\<lambda>_ t. on_fragment u s t \<and> sg_uploads t = sg_uploads s) s"
  by (auto simp: unlink_quietly_def file_content_def disk_step_def remove_file_def wp_simps intro!: on_fragmentI split: option.split)

lemma wp_settle_upload:
  assumes "sg_uploads s = sg_uploads s0" and "fst a \<in> {Completed, Cancelled, Failed}"
  shows "wp (settle_upload e u a) Q (\<lambda>_ t. on_fragment u s t \<and> settled u s0 t) s"
  unfolding settle_upload_def wp_andThen [of "update_upload _ _ _"]
proof (rule wp_update_upload)
  fix t :: staging and now
  let ?c = "failed_change (fst a) (fst (snd a))"
  assume t: "sg_files t = sg_files s" "sg_recovery t = sg_recovery s"
    "sg_uploads t = change_entry (up_task u) (apply_change ?c now) (sg_uploads s)"
  have settled: "settled u s0 v" if "sg_uploads v = sg_uploads t" for v
    unfolding settled_def that t(3) assms(1) using assms(2)
    by (intro exI [of _ ?c] exI [of _ now]) (auto simp: failed_change_def)
  have same: "on_fragment u s t" by (rule on_fragment_same) (rule t)+
  show "wp (andThen (unlink_quietly e (fragment u)) (\<lambda>_. raise (snd (snd a)))) Q (\<lambda>_ t. on_fragment u s t \<and> settled u s0 t) t"
    by (rule wp_then [OF wp_unlink]) (use settled on_fragment_trans [OF same] in \<open>auto simp: wp_raise\<close>)
qed

lemma wp_fail_upload:
  assumes "sg_uploads s = sg_uploads s0"
  shows "wp (fail_upload e u f) Q (\<lambda>_ t. on_fragment u s t \<and> settled u s0 t) s"
proof -
  have "fst (upload_answer f b) \<in> {Completed, Cancelled, Failed}" for b
    by (simp add: upload_answer_def split: failure.split)
  then show ?thesis
    unfolding fail_upload_def wp_andThen wp_get_state using assms by (intro wp_settle_upload)
qed

text \<open>A program that touches nothing but the fragment of an upload and leaves the table alone.\<close>

abbreviation only_fragment :: "upload \<Rightarrow> staging \<Rightarrow> staging \<Rightarrow> bool" where
  "only_fragment u s t \<equiv> on_fragment u s t \<and> sg_uploads t = sg_uploads s"

lemma only_fragment_same: "same s t \<Longrightarrow> only_fragment u s t"
  by (simp add: same_def on_fragment_same)

lemma only_fragment_trans: "only_fragment u s t \<Longrightarrow> only_fragment u t v \<Longrightarrow> only_fragment u s v"
  using on_fragment_trans by auto

lemma wp_close:
  "wp (close_fragment e u) (\<lambda>_ t. only_fragment u s t \<and> sg_files t = change_entry (fragment u) (\<lambda>c. c @ up_buffer u) (sg_files s))
     (\<lambda>f t. f = os_error \<and> only_fragment u s t) s"
  by (auto simp: close_fragment_def extend_file_def wp_simps intro!: on_fragment_change)

lemma wp_closing:
  assumes "wp m Q (\<lambda>_. only_fragment u s) s"
  shows "wp (closing e u m) Q (\<lambda>_. only_fragment u s) s"
  unfolding closing_def wp_handling
proof (rule wp_mono [OF assms])
  fix f and t :: staging assume t: "only_fragment u s t"
  show "wp (andThen (close_fragment e u) (\<lambda>_. raise f)) Q (\<lambda>_. only_fragment u s) t"
    by (rule wp_then [OF wp_close]) (use only_fragment_trans [OF t] in \<open>auto simp: wp_raise\<close>)
qed

lemma on_fragment_buffer [simp]: "on_fragment (u\<lparr>up_buffer := b\<rparr>) s t = on_fragment u s t" "fragment (u\<lparr>up_buffer := b\<rparr>) = fragment u"
  "on_fragment (u\<lparr>up_written := n\<rparr>) s t = on_fragment u s t" "fragment (u\<lparr>up_written := n\<rparr>) = fragment u"
  by (simp_all add: on_fragment_def fragment_def)

text \<open>Some bytes have gone from the buffer with the chunk to the fragment, the others are in the buffer.\<close>

definition flushed :: "upload \<Rightarrow> string \<Rightarrow> upload \<Rightarrow> staging \<Rightarrow> staging \<Rightarrow> bool" where
  "flushed u c v s t \<longleftrightarrow> sg_recovery t = sg_recovery s \<and> (\<exists>x b. x @ b = up_buffer u @ c \<and> v = u\<lparr>up_buffer := b\<rparr> \<and>
     sg_files t = change_entry (fragment u) (\<lambda>y. y @ x) (sg_files s))"

lemma change_entry_nothing [simp]: "change_entry k (\<lambda>y. y) d = d"
  by (induction d) (auto simp: change_entry_def)

lemma wp_write:
  "wp (write_fragment e u c) (\<lambda>v t. flushed u c v s t \<and> sg_uploads t = sg_uploads s) (\<lambda>_. only_fragment u s) s"
proof -
  define n where "n = (if se_disk e (tb_steps s) then se_flush e (tb_steps s) else se_partial e (tb_steps s))"
  define v where "v = u\<lparr>up_buffer := drop n (up_buffer u @ c)\<rparr>"
  define t where "t = s\<lparr>tb_steps := Suc (tb_steps s),
    sg_files := change_entry (fragment u) (\<lambda>y. y @ take n (up_buffer u @ c)) (sg_files s)\<rparr>"
  have full: "flushed u c v s t" unfolding flushed_def
    by (rule conjI, simp add: t_def, rule exI [of _ "take n (up_buffer u @ c)"], rule exI [of _ "drop n (up_buffer u @ c)"])
      (simp add: v_def t_def del: take_append drop_append)
  have t: "only_fragment u s t" unfolding t_def by (auto intro: on_fragment_change)
  have v: "only_fragment v t w = only_fragment u t w" for w by (simp add: v_def)
  have "wp (closing e v (require (se_disk e (tb_steps s)) os_error)) (\<lambda>_ w. w = t) (\<lambda>_. only_fragment v t) t"
    by (rule wp_closing) (simp add: wp_require on_fragment_same)
  then have "wp (andThen (closing e v (require (se_disk e (tb_steps s)) os_error)) (\<lambda>_. ret v))
      (\<lambda>v t. flushed u c v s t \<and> sg_uploads t = sg_uploads s) (\<lambda>_. only_fragment u s) t"
  proof (rule wp_then)
    fix a and w :: staging assume "w = t"
    then show "wp (ret v) (\<lambda>v t. flushed u c v s t \<and> sg_uploads t = sg_uploads s) (\<lambda>_. only_fragment u s) w"
      using full t by (simp add: wp_ret)
  next
    fix f and w :: staging assume "only_fragment v t w"
    then show "only_fragment u s w" using only_fragment_trans [OF t] v by blast
  qed
  moreover have "s\<lparr>tb_steps := Suc (tb_steps s), sg_files :=
      change_entry (fragment u) (\<lambda>y. y @ take n (up_buffer u @ c)) (sg_files (s\<lparr>tb_steps := Suc (tb_steps s)\<rparr>))\<rparr> = t"
    by (simp add: t_def)
  ultimately show ?thesis
    unfolding write_fragment_def extend_file_def wp_andThen wp_tick Let_def wp_modify n_def [symmetric] v_def [symmetric]
    by (simp only:)
qed

text \<open>What a chunk that is taken does.\<close>

definition chunk_taken :: "upload \<Rightarrow> string \<Rightarrow> upload \<Rightarrow> staging \<Rightarrow> staging \<Rightarrow> bool" where
  "chunk_taken u c v s t \<longleftrightarrow> advanced u s t \<and> flushed (u\<lparr>up_written := up_written u + length c\<rparr>) c v s t"

lemma flushed_files: "flushed u c v s t \<Longrightarrow> sg_files w = sg_files t \<Longrightarrow> sg_recovery w = sg_recovery t \<Longrightarrow> flushed u c v s w"
  by (simp add: flushed_def)

lemma flushed_task: "flushed u c v s t \<Longrightarrow> up_task v = up_task u"
  by (auto simp: flushed_def)

lemma flushed_nothing: "flushed u [] u s s"
  unfolding flushed_def by (rule conjI, simp, rule exI [of _ "[]"], rule exI [of _ "up_buffer u"]) simp

lemma wp_write_chunk:
  "wp (write_chunk e u c) (\<lambda>v t. advanced u s t \<and> flushed u c v s t) (\<lambda>_. only_fragment u s) s"
proof -
  let ?c = "\<lparr>uc_status = None, uc_progress = Some (min (if up_expected u = 0 then 0 else percent (up_written u) (up_expected u)) 99),
    uc_done = Some (up_written u), uc_error = None\<rparr>"
  have "wp (if c \<noteq> [] then write_fragment e u c else ret u) (\<lambda>v t. flushed u c v s t \<and> sg_uploads t = sg_uploads s)
      (\<lambda>_. only_fragment u s) s"
    using wp_write by (auto simp: wp_ret flushed_nothing)
  then show ?thesis
    unfolding write_chunk_def
  proof (rule wp_then)
    fix v and t :: staging
    assume t: "flushed u c v s t \<and> sg_uploads t = sg_uploads s"
    show "wp (andThen (update_upload e (up_task u) ?c) (\<lambda>_. ret v)) (\<lambda>v t. advanced u s t \<and> flushed u c v s t)
        (\<lambda>_. only_fragment u s) t"
      unfolding wp_andThen
    proof (rule wp_update_upload)
      fix t' :: staging and now
      assume t': "sg_files t' = sg_files t" "sg_recovery t' = sg_recovery t"
        "sg_uploads t' = change_entry (up_task u) (apply_change ?c now) (sg_uploads t)"
      with t have "advanced u s t'" unfolding advanced_def by (intro exI [of _ ?c] exI [of _ now]) simp
      with flushed_files [OF conjunct1 [OF t] t'(1,2)]
      show "wp (ret v) (\<lambda>v t. advanced u s t \<and> flushed u c v s t) (\<lambda>_. only_fragment u s) t'" by (simp add: wp_ret)
    qed
  qed simp
qed

lemma wp_take_chunk:
  "wp (take_chunk e u c) (\<lambda>v t. chunk_taken u c v s t) (\<lambda>_. only_fragment u s) s"
  unfolding take_chunk_def
proof (rule wp_then)
  show "wp (closing e u (count_chunk e u c)) (\<lambda>v t. v = u\<lparr>up_written := up_written u + length c\<rparr> \<and> t = s)
      (\<lambda>_. only_fragment u s) s"
    by (rule wp_closing) (simp add: count_chunk_def wp_andThen wp_get_state wp_require wp_ret on_fragment_same)
next
  fix v and t :: staging assume "v = u\<lparr>up_written := up_written u + length c\<rparr> \<and> t = s"
  then have v: "v = u\<lparr>up_written := up_written u + length c\<rparr>" and t: "t = s" by auto
  show "wp (write_chunk e v c) (\<lambda>v t. chunk_taken u c v s t) (\<lambda>_. only_fragment u s) t"
    unfolding t by (rule wp_mono [OF wp_write_chunk]) (simp_all add: v chunk_taken_def advanced_def)
qed simp

lemma wp_receive_chunk:
  "wp (receive_chunk e u c) (\<lambda>v t. chunk_taken u c v s t) (\<lambda>_ t. on_fragment u s t \<and> settled u s t) s"
  unfolding receive_chunk_def wp_handling
proof (rule wp_mono [OF wp_take_chunk])
  fix f and t :: staging assume t: "only_fragment u s t"
  then have "sg_uploads t = sg_uploads s" ..
  from wp_fail_upload [OF this] show "wp (fail_upload e u f) (\<lambda>v t. chunk_taken u c v s t) (\<lambda>_ t. on_fragment u s t \<and> settled u s t) t"
    by (rule wp_mono) (use t on_fragment_trans in blast)+
qed simp

text \<open>The end of an upload: the task has ended, and the file is in its place or nothing is.\<close>

definition finished :: "upload \<Rightarrow> staging \<Rightarrow> staging \<Rightarrow> bool" where
  "finished u s t \<longleftrightarrow> settled u s t \<and> (on_fragment u s t \<or> placed u s t)"

lemma placed_trans: "placed u s t \<Longrightarrow> on_fragment u t v \<Longrightarrow> placed u s v"
  unfolding placed_def using named_trans by blast

lemma placed_same: "placed u s t \<Longrightarrow> sg_files v = sg_files t \<Longrightarrow> sg_recovery v = sg_recovery t \<Longrightarrow> placed u s v"
  using placed_trans on_fragment_same by blast

text \<open>The content of the closed fragment is under the name.\<close>

definition taken_name :: "upload \<Rightarrow> staging \<Rightarrow> staging \<Rightarrow> bool" where
  "taken_name u s t \<longleftrightarrow> sg_uploads t = sg_uploads s \<and> (\<exists>c. map_of (sg_files s) (fragment u) = Some c \<and> named u c s t)"

lemma taken_name_same: "same s t \<Longrightarrow> taken_name u t v \<longleftrightarrow> taken_name u s v"
  by (simp add: taken_name_def named_def on_fragment_def unique_files_def same_def)

lemma wp_rename:
  assumes "up_name u \<noteq> fragment u"
  shows "wp (rename_over e (fragment u) (up_name u)) (\<lambda>_. taken_name u s) (\<lambda>_. only_fragment u s) s"
proof -
  have "on_fragment u (s\<lparr>sg_files := put_entry (up_name u) c (sg_files s)\<rparr>) t"
    if "sg_recovery t = sg_recovery s" "sg_files t = put_entry (up_name u) c (drop_entry (fragment u) (sg_files s))" for c t
    using that assms by (auto simp: on_fragment_def unique_files_def distinct_put_entry distinct_drop_entry map_of_put_entry
        map_of_drop_entry bytes_put_entry bytes_drop_entry bytes_unmanaged bytes_unmanaged_inside)
  then show ?thesis
    by (auto simp: rename_over_def file_content_def remove_file_def put_file_def disk_step_def wp_simps taken_name_def named_def
        on_fragment_same split: option.split)
qed

lemma wp_link:
  "wp (link_new e (fragment u) (up_name u) x)
     (\<lambda>_ t. \<exists>c. map_of (sg_files s) (fragment u) = Some c \<and> sg_files t = put_entry (up_name u) c (sg_files s) \<and>
        sg_recovery t = sg_recovery s \<and> sg_uploads t = sg_uploads s)
     (\<lambda>_. only_fragment u s) s"
  by (auto simp: link_new_def file_content_def put_file_def disk_step_def wp_simps on_fragment_same split: option.split)

lemma wp_replace:
  assumes "up_name u \<noteq> fragment u"
  shows "wp (andThen (ensure_media_released e (up_name u)) (\<lambda>_. rename_over e (fragment u) (up_name u)))
     (\<lambda>_. taken_name u s) (\<lambda>_. only_fragment u s) s"
proof (rule wp_past [OF safe_released same_refl])
  fix a and v :: staging assume v: "same s v"
  show "wp (rename_over e (fragment u) (up_name u)) (\<lambda>_. taken_name u s) (\<lambda>_. only_fragment u s) v"
    using wp_rename [OF assms, of e v]
    by (rule wp_mono) (use only_fragment_trans [OF only_fragment_same [OF v]] taken_name_same [OF v] in blast)+
qed (rule only_fragment_same)

lemma wp_new:
  "wp (andThen (link_new e (fragment u) (up_name u) x) (\<lambda>_. andThen (disk_step e) (\<lambda>_. remove_file (fragment u))))
     (\<lambda>_. taken_name u s) (\<lambda>_ t. only_fragment u s t \<or> taken_name u s t) s"
proof (rule wp_then [OF wp_link])
  fix a and v :: staging
  assume "\<exists>c. map_of (sg_files s) (fragment u) = Some c \<and> sg_files v = put_entry (up_name u) c (sg_files s) \<and>
    sg_recovery v = sg_recovery s \<and> sg_uploads v = sg_uploads s"
  then obtain c where c: "map_of (sg_files s) (fragment u) = Some c" "sg_files v = put_entry (up_name u) c (sg_files s)"
    "sg_recovery v = sg_recovery s" "sg_uploads v = sg_uploads s" by auto
  have "on_fragment u (s\<lparr>sg_files := put_entry (up_name u) c (sg_files s)\<rparr>) w"
    if "sg_recovery w = sg_recovery s" "sg_files w = sg_files v \<or> sg_files w = drop_entry (fragment u) (sg_files v)" for w
    using that c(2) by (intro on_fragmentI) auto
  with c show "wp (andThen (disk_step e) (\<lambda>_. remove_file (fragment u))) (\<lambda>_. taken_name u s)
      (\<lambda>_ t. only_fragment u s t \<or> taken_name u s t) v"
    unfolding disk_step_def remove_file_def by (auto simp: wp_simps taken_name_def named_def)
qed simp

lemma wp_place:
  assumes "up_name u \<noteq> fragment u"
  shows "wp (place_upload e u) (\<lambda>_ t. placed u s t \<and> sg_uploads t = sg_uploads s)
     (\<lambda>_ t. (on_fragment u s t \<or> placed u s t) \<and> sg_uploads t = sg_uploads s) s"
  (is "wp _ ?Q ?R s")
  unfolding place_upload_def
proof (rule wp_then [OF wp_close])
  fix a and t :: staging
  assume t: "only_fragment u s t \<and> sg_files t = change_entry (fragment u) (\<lambda>c. c @ up_buffer u) (sg_files s)"
  have off: "?R x w" if "only_fragment u t w" for x :: failure and w using t only_fragment_trans [OF conjunct1 [OF t] that] by simp
  have on: "placed u s w \<and> sg_uploads w = sg_uploads s" if "taken_name u t w" for w
    using that t named_after [OF conjunct1 [OF conjunct1 [OF t]]]
    by (auto simp: taken_name_def placed_def map_of_change_entry)
  let ?rest = "if up_overwrite u
       then andThen (ensure_media_released e (up_name u)) (\<lambda>_. rename_over e (fragment u) (up_name u))
       else andThen (link_new e (fragment u) (up_name u) (Http 409 ''Staging filename already exists'')) (\<lambda>_.
            andThen (disk_step e) (\<lambda>_. remove_file (fragment u)))"
  have "wp ?rest ?Q ?R t"
  proof (cases "up_overwrite u")
    case True
    with wp_replace [OF assms, of e t] show ?thesis by simp (erule wp_mono; use on off in blast)
  next
    case False
    with wp_new [of e u "Http 409 ''Staging filename already exists''" t] show ?thesis
      by simp (erule wp_mono; use on off in blast)
  qed
  then show "wp (andThen (require (up_written u \<noteq> 0) (Http 400 ''Empty uploads are not accepted'')) (\<lambda>_. ?rest)) ?Q ?R t"
    using t by (simp add: wp_andThen wp_require)
qed simp

lemma wp_finish:
  assumes "up_name u \<noteq> fragment u"
  shows "wp (finish_upload e u) (\<lambda>_ t. finished u s t) (\<lambda>_ t. finished u s t) s"
  unfolding finish_upload_def wp_andThen wp_handling
proof (rule wp_mono [OF wp_place [OF assms]])
  fix a and t :: staging
  assume t: "placed u s t \<and> sg_uploads t = sg_uploads s"
  show "wp (update_upload e (up_task u) \<lparr>uc_status = Some Completed, uc_progress = Some 100, uc_done = Some (up_written u),
      uc_error = None\<rparr>) (\<lambda>a. wp (ret (up_name u, up_written u)) (\<lambda>_ t. finished u s t) (\<lambda>_ t. finished u s t))
      (\<lambda>_ t. finished u s t) t"
  proof (rule wp_update_upload)
    fix v :: staging and now
    let ?c = "\<lparr>uc_status = Some Completed, uc_progress = Some 100, uc_done = Some (up_written u), uc_error = None\<rparr>"
    assume v: "sg_files v = sg_files t" "sg_recovery v = sg_recovery t"
      "sg_uploads v = change_entry (up_task u) (apply_change ?c now) (sg_uploads t)"
    have "settled u s v" unfolding settled_def using v(3) t by (intro exI [of _ ?c] exI [of _ now]) simp
    with t v placed_same show "wp (ret (up_name u, up_written u)) (\<lambda>_ t. finished u s t) (\<lambda>_ t. finished u s t) v"
      by (auto simp: wp_ret finished_def)
  qed
next
  fix f and t :: staging
  assume t: "(on_fragment u s t \<or> placed u s t) \<and> sg_uploads t = sg_uploads s"
  then have "sg_uploads t = sg_uploads s" ..
  from wp_fail_upload [OF this] show "wp (fail_upload e u f) (\<lambda>a. wp (update_upload e (up_task u) \<lparr>uc_status = Some Completed,
      uc_progress = Some 100, uc_done = Some (up_written u), uc_error = None\<rparr>)
      (\<lambda>a. wp (ret (up_name u, up_written u)) (\<lambda>_ t. finished u s t) (\<lambda>_ t. finished u s t)) (\<lambda>_ t. finished u s t))
      (\<lambda>_ t. finished u s t) t"
    by (rule wp_mono) (use t placed_trans on_fragment_trans in \<open>auto simp: finished_def\<close>)
qed

lemma wp_abort: "wp (abort_upload e u) (\<lambda>_ t. on_fragment u s t \<and> settled u s t) (\<lambda>_ t. on_fragment u s t \<and> settled u s t) s"
  unfolding abort_upload_def wp_handling
proof (rule wp_mono [OF wp_closing])
  show "wp (raise (Crash ''ClientDisconnect'')) (\<lambda>_ t. on_fragment u s t \<and> settled u s t) (\<lambda>_. only_fragment u s) s"
    by (simp add: wp_raise on_fragment_same)
next
  fix f and t :: staging assume t: "only_fragment u s t"
  show "wp (fail_upload e u f) (\<lambda>_ t. on_fragment u s t \<and> settled u s t) (\<lambda>_ t. on_fragment u s t \<and> settled u s t) t"
    using wp_fail_upload [OF conjunct2 [OF t]]
    by (rule wp_mono) (use on_fragment_trans [OF conjunct1 [OF t]] in auto)
qed simp

text \<open>The beginning of an upload: the task is in the table and the fragment is empty, or the task has ended already.\<close>

definition registered :: "upload \<Rightarrow> staging \<Rightarrow> staging \<Rightarrow> bool" where
  "registered u s t \<longleftrightarrow> (\<exists>now. sg_uploads t =
     put_entry (up_task u) (new_upload_task (up_task u) (up_name u) (up_expected u) now) (sg_uploads s))"

definition begun :: "upload \<Rightarrow> staging \<Rightarrow> staging \<Rightarrow> bool" where
  "begun u s t \<longleftrightarrow> sg_recovery t = sg_recovery s \<and> registered u s t \<and> sg_files t = put_entry (fragment u) [] (sg_files s)"

definition begin_failed :: "upload \<Rightarrow> staging \<Rightarrow> staging \<Rightarrow> bool" where
  "begin_failed u s t \<longleftrightarrow> on_fragment u s t \<and> (\<exists>v. registered u s v \<and> settled u v t)"

lemma wp_begin:
  "wp (begin_upload e f h r ow) (\<lambda>u t. accepted e r ow s u \<and> begun u s t)
     (\<lambda>_ t. same s t \<or> (\<exists>u. accepted e r ow s u \<and> begin_failed u s t)) s"
  (is "wp _ ?Q ?R s")
  unfolding begin_upload_def
proof (rule wp_then [OF wp_accept])
  fix u and t :: staging assume u: "same s t \<and> accepted e r ow s u"
  let ?v = "t\<lparr>tb_steps := Suc (tb_steps t), sg_uploads := put_entry (up_task u)
    (new_upload_task (up_task u) (up_name u) (up_expected u) (ks_now e (tb_steps t))) (sg_uploads t)\<rparr>"
  have v: "registered u s ?v" using u by (auto simp: registered_def same_def)
  have "wp (fail_upload e u os_error) ?Q ?R w"
    if w: "sg_files w = sg_files s" "sg_recovery w = sg_recovery s" "sg_uploads w = sg_uploads ?v" for w
    by (rule wp_mono [OF wp_fail_upload [OF w(3)]])
       (use v u on_fragment_trans [OF on_fragment_same [OF w(2,1)]] in \<open>auto simp: begin_failed_def\<close>)
  with u v show "wp (andThen (task_now e) (\<lambda>n. andThen (set_uploads (put_entry (up_task u)
      (new_upload_task (up_task u) (up_name u) (up_expected u) n))) (\<lambda>_.
        handling (andThen (disk_step e) (\<lambda>_. andThen (put_file (fragment u) []) (\<lambda>_. ret u))) (fail_upload e u)))) ?Q ?R t"
    unfolding set_uploads_def disk_step_def put_file_def wp_simps
    by (auto simp: begun_def registered_def same_def)
qed simp

subsection \<open>The other operations\<close>

text \<open>The recovery directory may have been made.\<close>

definition quiet :: "staging \<Rightarrow> staging \<Rightarrow> bool" where
  "quiet s t \<longleftrightarrow> sg_files t = sg_files s \<and> sg_uploads t = sg_uploads s \<and> recovery_files t = recovery_files s"

lemma recovery_bytes_files: "recovery_bytes s = sum_list (map (\<lambda>x. int (length (snd x))) (recovery_files s))"
  by (simp add: recovery_bytes_def recovery_files_def split: option.split)

lemma same_quiet: "same s t \<Longrightarrow> quiet s t"
  by (simp add: same_def quiet_def recovery_files_def)

lemma quiet_trans: "quiet s t \<Longrightarrow> quiet t u \<Longrightarrow> quiet s u"
  by (simp add: quiet_def)

lemma quiet_free: "board_free (quiet s)"
  by (simp add: board_free_def quiet_def recovery_files_def)

lemma safe_quiet [safe_rules]:
  "safe (quiet s) tick" "safe (quiet s) (storage_root e)" "safe (quiet s) (disk_step e)" "safe (quiet s) (virtual_media_status e)"
  "safe (quiet s) (file_content n)" "safe (quiet s) (staged_path e f)"
proof -
  show t: "safe (quiet s) tick" by (simp add: safe_def wp_tick quiet_def recovery_files_def)
  show r: "safe (quiet s) (storage_root e)" unfolding storage_root_def by (intro t safe_rules)
  show "safe (quiet s) (disk_step e)" unfolding disk_step_def by (intro t safe_rules)
  show "safe (quiet s) (virtual_media_status e)" by (auto simp: virtual_media_status_def intro!: t safe_rules split: media_file.split)
  show f: "safe (quiet s) (file_content n)" for n unfolding file_content_def by (intro safe_rules)
  show "safe (quiet s) (staged_path e f)" unfolding staged_path_def by (intro f r safe_rules)
qed

lemma wp_quiet:
  assumes "safe (quiet s0) m" and "quiet s0 s" and "\<And>a t. quiet s0 t \<Longrightarrow> wp (f a) Q R t" and "\<And>x t. quiet s0 t \<Longrightarrow> R x t"
  shows "wp (andThen m f) Q R s"
  by (rule wp_then [of m "\<lambda>_. quiet s0" "\<lambda>_. quiet s0"]) (use assms in \<open>auto simp: safe_def\<close>)

lemma wp_staged_path:
  "wp (staged_path e f) (\<lambda>(n, c) t. same s t \<and> good_name n \<and> n = strip is_blank f \<and> map_of (sg_files s) n = Some c) (\<lambda>_. same s) s"
  unfolding staged_path_def
  by (rule wp_past [OF safe_reads(1) same_refl])
     (auto simp: safe_name_def Let_def file_content_def wp_simps same_def split: option.split)

lemma wp_delete:
  "wp (delete_staged_file e f)
     (\<lambda>(n, _) t. good_name n \<and> sg_files t = drop_entry n (sg_files s) \<and> sg_recovery t = sg_recovery s \<and> sg_uploads t = sg_uploads s)
     (\<lambda>_. same s) s"
  unfolding delete_staged_file_def
proof (rule wp_then [OF wp_staged_path], goal_cases)
  case (1 x t)
  obtain n c where x: "x = (n, c)" by force
  with 1 have t: "same s t" "good_name n" by auto
  show ?case
    unfolding x prod.case
    by (rule wp_past [OF safe_released t(1)])
       (use t(2) in \<open>auto simp: wp_simps remove_file_def same_def\<close>)
qed auto

lemma wp_recovery_root: "wp (recovery_root e) (\<lambda>_. quiet s) (\<lambda>_. quiet s) s"
proof -
  have "safe (quiet s) (recovery_root e)"
    unfolding recovery_root_def
    by (intro safe_rules safe_modify) (simp add: quiet_def recovery_files_def)
  then show ?thesis unfolding safe_def by (simp add: quiet_def)
qed

lemma wp_check_parts: "wp (check_parts ps) (\<lambda>_ t. t = s \<and> list_all good_name ps) (\<lambda>_ t. t = s) s"
  by (induction ps) (auto simp: wp_simps safe_name_def Let_def elim!: wp_mono)

lemma wp_recovery_path:
  "wp (recovery_path e p) (\<lambda>q t. quiet s t \<and> q = p \<and> list_all good_name (split_on (CHR ''/'') p)) (\<lambda>_. quiet s) s"
  unfolding recovery_path_def
  by (rule wp_then [OF wp_check_parts])
     (auto simp: wp_andThen wp_ret quiet_def intro!: wp_mono [OF wp_recovery_root])

definition published :: "string \<Rightarrow> staging \<Rightarrow> staging \<Rightarrow> bool" where
  "published n s t \<longleftrightarrow> good_name n \<and> (\<exists>c p. map_of (sg_files s) n = Some c \<and> map_of (recovery_files s) p = None \<and>
     sg_files t = drop_entry n (sg_files s) \<and> recovery_files t = put_entry p c (recovery_files s) \<and> sg_uploads t = sg_uploads s)"

text \<open>The link is made and the unlink fails: the file has both names.\<close>

definition half_published :: "staging \<Rightarrow> staging \<Rightarrow> bool" where
  "half_published s t \<longleftrightarrow> (\<exists>n c p. map_of (sg_files s) n = Some c \<and> good_name n \<and> map_of (recovery_files s) p = None \<and>
     sg_files t = sg_files s \<and> recovery_files t = put_entry p c (recovery_files s) \<and> sg_uploads t = sg_uploads s)"

lemma wp_publish:
  "wp (publish_file e f d) (\<lambda>_ t. published (strip is_blank f) s t) (\<lambda>x t. quiet s t \<or> half_published s t) s"
  unfolding publish_file_def
proof (rule wp_then [OF wp_staged_path], goal_cases)
  case (1 x t)
  obtain n c where x: "x = (n, c)" by force
  with 1 have t: "same s t" "good_name n" "n = strip is_blank f" "map_of (sg_files s) n = Some c" by auto
  then have q: "quiet s t" by (simp add: same_quiet)
  let ?R = "\<lambda>x t. quiet s t \<or> half_published s t" and ?Q = "\<lambda>_. published (strip is_blank f) s"
  have move: "wp (andThen (disk_step e) (\<lambda>_. andThen (get_state (folder_blocked p)) (\<lambda>blocked.
      andThen (require (\<not> blocked) (Crash ''FileExistsError'')) (\<lambda>_. andThen (get_state (recovery_taken p)) (\<lambda>taken.
      andThen (require (\<not> taken) (Http 409 ''Recovery file already exists'')) (\<lambda>_.
      andThen (disk_step e) (\<lambda>_. andThen (set_recovery (put_entry p c)) (\<lambda>_.
      andThen (disk_step e) (\<lambda>_. andThen (remove_file n) (\<lambda>_. ret p)))))))))) ?Q ?R v" if "quiet s v" for p v
    using that t
    by (auto simp: disk_step_def set_recovery_def remove_file_def wp_simps published_def half_published_def quiet_def recovery_files_def
        folder_blocked_def recovery_taken_def)
  show ?case
    unfolding x prod.case
    by (intro wp_quiet [OF safe_quiet(4) q] wp_quiet [OF safe_require])
       (auto intro!: wp_then [OF wp_recovery_path] move intro: quiet_trans)
qed (auto simp: same_quiet)

definition restored :: "staging \<Rightarrow> staging \<Rightarrow> bool" where
  "restored s t \<longleftrightarrow> (\<exists>n c p. good_name n \<and> map_of (recovery_files s) p = Some c \<and> map_of (sg_files s) n = None \<and>
     sg_files t = put_entry n c (sg_files s) \<and> recovery_files t = drop_entry p (recovery_files s) \<and> sg_uploads t = sg_uploads s)"

lemma split_parts_nonempty: "split_on c s \<noteq> []"
  by (induction s) (auto split: list.split)

definition half_restored :: "staging \<Rightarrow> staging \<Rightarrow> bool" where
  "half_restored s t \<longleftrightarrow> (\<exists>n c p. good_name n \<and> map_of (recovery_files s) p = Some c \<and> map_of (sg_files s) n = None \<and>
     sg_files t = put_entry n c (sg_files s) \<and> recovery_files t = recovery_files s \<and> sg_uploads t = sg_uploads s)"

lemma wp_restore:
  "wp (restore_file e p) (\<lambda>_ t. restored s t) (\<lambda>x t. quiet s t \<or> half_restored s t) s"
  unfolding restore_file_def
proof (rule wp_then [OF wp_recovery_path], goal_cases)
  case (1 q t)
  then have t: "quiet s t" and q: "q = p" and good: "good_name (last_part p)"
    using split_parts_nonempty [of "CHR ''/''" p] by (auto simp: last_part_def list_all_iff)
  let ?R = "\<lambda>x t. quiet s t \<or> half_restored s t" and ?Q = "\<lambda>_. restored s"
  have move: "wp (andThen (get_state (name_taken (last_part p))) (\<lambda>taken.
      andThen (require (\<not> taken) (Http 409 ''Staging file already exists'')) (\<lambda>_.
      andThen (disk_step e) (\<lambda>_. andThen (put_file (last_part p) c) (\<lambda>_. andThen (disk_step e) (\<lambda>_.
      andThen (set_recovery (drop_entry p)) (\<lambda>_. ret (last_part p)))))))) ?Q ?R v"
    if v: "quiet s v" and c: "map_of (recovery_files s) p = Some c" for v c
    using v c good
    by (auto simp: disk_step_def set_recovery_def put_file_def wp_simps restored_def half_restored_def quiet_def recovery_files_def
        name_taken_def)
  show ?case
  proof (cases "map_of (recovery_files t) p")
    case None
    with t show ?thesis by (simp add: q need_def wp_andThen wp_get_state wp_raise)
  next
    case (Some c)
    then have "map_of (recovery_files s) p = Some c" using t by (simp add: quiet_def)
    from wp_quiet [OF safe_quiet(2) t move [OF _ this]] show ?thesis
      by (simp add: q Some need_def wp_andThen [of "get_state (\<lambda>s. map_of (recovery_files s) p)"] wp_get_state)
  qed
qed auto

end
