(* ===== verification/Staging_Guarantees.thy ===== *)
theory Staging_Guarantees
  imports Staging_Safety "HOL-Library.Multiset" "HOL-Library.Code_Target_Nat"
begin

text \<open>
  What the staging storage promises in every state that uploads, cancellations, deletions, moves and
  failures reach in any interleaving: no partial upload is ever visible, every upload that ends leaves an
  ended task, and uploads with a declared length stay within the quota.
\<close>

section \<open>The transition system\<close>

text \<open>
  The identifier of a new upload has the length of a UUID, which the program sees to, and is not that of an
  upload in progress, which a client may choose and the program does not check.
\<close>

definition fresh_task :: "staging_env \<Rightarrow> string option \<Rightarrow> staging \<Rightarrow> bool" where
  "fresh_task e r s \<longleftrightarrow> (\<forall>i. requested_task e r s = Some i \<longrightarrow> length i = 36 \<and>
     \<not> list_ex (\<lambda>x. fst x = i \<and> active (snd x)) (sg_uploads s))"

text \<open>
  The storage, the uploads in progress with the bytes received so far, and the bodies whose stream came
  to its end. Moves may fail at any of their steps. A strict run is one in which the lengths are kept (each
  is declared and positive, and no more arrives), nobody publishes a file that is being replaced or that
  does not count, and a move that fails has moved nothing.
\<close>

inductive staging_run ::
    "staging_env \<Rightarrow> bool \<Rightarrow> staging \<Rightarrow> staging \<times> (upload \<times> string) list \<times> string list \<Rightarrow> bool"
  for e strict s0 where
  start: "staging_run e strict s0 (s0, [], [])"
| begins: "staging_run e strict s0 (s, us, bs) \<Longrightarrow> fresh_task e r s \<Longrightarrow> begin_upload e f h r ow s = (Inr u, t) \<Longrightarrow>
     (strict \<longrightarrow> 0 < up_expected u) \<Longrightarrow> staging_run e strict s0 (t, us @ [(u, [])], bs)"
| refused: "staging_run e strict s0 (s, us, bs) \<Longrightarrow> fresh_task e r s \<Longrightarrow> begin_upload e f h r ow s = (Inl x, t) \<Longrightarrow>
     staging_run e strict s0 (t, us, bs)"
| chunk: "staging_run e strict s0 (s, xs @ (u, got) # ys, bs) \<Longrightarrow> receive_chunk e u c s = (Inr v, t) \<Longrightarrow>
     (strict \<longrightarrow> int (up_written v) \<le> up_expected v) \<Longrightarrow> staging_run e strict s0 (t, xs @ (v, got @ c) # ys, bs)"
| chunk_fails: "staging_run e strict s0 (s, xs @ (u, got) # ys, bs) \<Longrightarrow> receive_chunk e u c s = (Inl x, t) \<Longrightarrow>
     staging_run e strict s0 (t, xs @ ys, bs)"
| ends: "staging_run e strict s0 (s, xs @ (u, got) # ys, bs) \<Longrightarrow> finish_upload e u s = (r', t) \<Longrightarrow>
     staging_run e strict s0 (t, xs @ ys, bs @ [got])"
| aborts: "staging_run e strict s0 (s, xs @ (u, got) # ys, bs) \<Longrightarrow> abort_upload e u s = (y, t) \<Longrightarrow>
     staging_run e strict s0 (t, xs @ ys, bs)"
| cancels: "staging_run e strict s0 (s, us, bs) \<Longrightarrow> cancel_upload_task i s = (z, t) \<Longrightarrow> staging_run e strict s0 (t, us, bs)"
| deletes: "staging_run e strict s0 (s, us, bs) \<Longrightarrow> delete_staged_file e f s = (w, t) \<Longrightarrow> staging_run e strict s0 (t, us, bs)"
| publishes: "staging_run e strict s0 (s, us, bs) \<Longrightarrow> publish_file e f d s = (q, t) \<Longrightarrow>
     (strict \<longrightarrow> managed (strip is_blank f) \<and> strip is_blank f \<notin> up_name ` fst ` set us \<and> (isl q \<longrightarrow> quiet s t)) \<Longrightarrow>
     staging_run e strict s0 (t, us, bs)"
| restores: "staging_run e strict s0 (s, us, bs) \<Longrightarrow> restore_file e f s = (q, t) \<Longrightarrow> (strict \<longrightarrow> isl q \<longrightarrow> quiet s t) \<Longrightarrow>
     staging_run e strict s0 (t, us, bs)"
| others: "staging_run e strict s0 (s, us, bs) \<Longrightarrow> same s t \<Longrightarrow> staging_run e strict s0 (t, us, bs)"

section \<open>Uploads and their tasks\<close>

definition active_tasks :: "(string \<times> upload_task) list \<Rightarrow> (string \<times> string \<times> int) list" where
  "active_tasks d = map (\<lambda>x. (fst x, ut_name (snd x), ut_total (snd x))) (filter (\<lambda>x. active (snd x)) d)"

definition live_task :: "upload \<times> string \<Rightarrow> string \<times> string \<times> int" where
  "live_task x = (up_task (fst x), up_name (fst x), up_expected (fst x))"

lemma active_tasks_Cons:
  "active_tasks (x # d) = (if active (snd x) then [(fst x, ut_name (snd x), ut_total (snd x))] else []) @ active_tasks d"
  by (simp add: active_tasks_def)

lemma change_entry_Cons: "change_entry i f (x # d) = (fst x, if fst x = i then f (snd x) else snd x) # change_entry i f d"
  by (cases x) (simp add: change_entry_def)

lemma change_entry_Nil [simp]: "change_entry i f [] = []" "active_tasks [] = []"
  by (simp_all add: change_entry_def active_tasks_def)

lemma change_entry_free: "i \<notin> fst ` set d \<Longrightarrow> change_entry i f d = d"
  by (induction d) (auto simp: change_entry_Cons)

lemma active_keys: "(i, n, x) \<in> set (active_tasks d) \<Longrightarrow> i \<in> fst ` set d"
  by (auto simp: active_tasks_def)

lemma apply_change_keeps [simp]: "ut_name (apply_change c t v) = ut_name v" "ut_total (apply_change c t v) = ut_total v"
  by (simp_all add: apply_change_def)

lemma active_advance: "uc_status c = None \<Longrightarrow> active_tasks (change_entry i (apply_change c t) d) = active_tasks d"
proof -
  assume "uc_status c = None"
  then have "active (apply_change c t v) = active v" for v by (simp add: apply_change_def active_def)
  then show ?thesis by (induction d) (simp_all add: change_entry_Cons active_tasks_Cons)
qed

lemma active_cancel: "active_tasks (change_entry i cancel_task d) = active_tasks d"
proof -
  have "active (cancel_task v) = active v" "ut_name (cancel_task v) = ut_name v" "ut_total (cancel_task v) = ut_total v" for v
    by (simp_all add: cancel_task_def active_def)
  then show ?thesis by (induction d) (simp_all add: change_entry_Cons active_tasks_Cons)
qed

lemma active_settle:
  assumes "distinct (map fst d)" and "(i, n, x) \<in> set (active_tasks d)"
    and "uc_status c = Some y" and "y \<in> {Completed, Cancelled, Failed}"
  shows "mset (active_tasks (change_entry i (apply_change c t) d)) = mset (active_tasks d) - {#(i, n, x)#}"
  using assms(1,2)
proof (induction d)
  case (Cons z d)
  have off: "\<not> active (apply_change c t v)" for v using assms(3,4) by (auto simp: apply_change_def active_def)
  show ?case
  proof (cases "fst z = i")
    case True
    then have free: "i \<notin> fst ` set d" using Cons.prems(1) by auto
    then have "(i, n, x) \<notin> set (active_tasks d)" using active_keys by metis
    with Cons.prems(2) True have "active (snd z)" "ut_name (snd z) = n" "ut_total (snd z) = x"
      by (auto simp: active_tasks_Cons split: if_splits)
    with True free off show ?thesis by (simp add: change_entry_Cons active_tasks_Cons change_entry_free)
  next
    case False
    with Cons.prems(2) have "(i, n, x) \<in> set (active_tasks d)" by (auto simp: active_tasks_Cons split: if_splits)
    with Cons False show ?thesis by (simp add: change_entry_Cons active_tasks_Cons)
  qed
qed simp

lemma active_register:
  assumes "distinct (map fst d)" and "\<not> list_ex (\<lambda>x. fst x = i \<and> active (snd x)) d"
  shows "mset (active_tasks (put_entry i (new_upload_task i n x t) d)) = add_mset (i, n, x) (mset (active_tasks d))"
  using assms
proof (induction d)
  case (Cons z d)
  have new: "active (new_upload_task i n x t)" "ut_name (new_upload_task i n x t) = n" "ut_total (new_upload_task i n x t) = x"
    by (simp_all add: active_def new_upload_task_def)
  from Cons new show ?case by (cases z) (auto simp: active_tasks_Cons)
qed (simp add: active_tasks_def active_def new_upload_task_def)

lemma uploading_now_active: "uploading_now n s \<longleftrightarrow> n \<in> (\<lambda>x. fst (snd x)) ` set (active_tasks (sg_uploads s))"
  by (force simp: uploading_now_def active_tasks_def list_ex_iff)

lemma reserved_active: "fst (reservations s) = sum_list (map (\<lambda>x. snd (snd x)) (active_tasks (sg_uploads s)))"
proof -
  have "sum_list (map ut_total (filter active (map snd d))) = sum_list (map (\<lambda>x. snd (snd x)) (active_tasks d))" for d
    by (induction d) (auto simp: active_tasks_Cons)
  then show ?thesis by (simp add: reservations_def Let_def)
qed

text \<open>
  The uploads in progress are the active tasks, and each has its bytes in its fragment and in the buffer of
  its file object.
\<close>

definition live_upload :: "staging \<Rightarrow> upload \<times> string \<Rightarrow> bool" where
  "live_upload s x \<longleftrightarrow> (\<exists>c. map_of (sg_files s) (fragment (fst x)) = Some c \<and> c @ up_buffer (fst x) = snd x) \<and> up_written (fst x) = length (snd x) \<and>
     good_name (up_name (fst x)) \<and> length (up_task (fst x)) = 36"

definition live_ok :: "staging \<Rightarrow> (upload \<times> string) list \<Rightarrow> bool" where
  "live_ok s us \<longleftrightarrow> unique_files s \<and> distinct (map fst (sg_uploads s)) \<and> distinct (map (\<lambda>x. up_name (fst x)) us) \<and>
     mset (active_tasks (sg_uploads s)) = mset (map live_task us) \<and> (\<forall>x \<in> set us. live_upload s x)"

lemma good_not_fragment: "good_name n \<Longrightarrow> n \<noteq> fragment u"
  by (auto simp: good_name_def fragment_def startswith_def)

lemma fragments_differ:
  assumes "length (up_task u) = 36" and "length (up_task v) = 36" and "up_name u \<noteq> up_name v"
  shows "fragment u \<noteq> fragment v"
proof
  assume "fragment u = fragment v"
  then have "up_name u @ (CHR ''.'' # up_task u @ uploading) = up_name v @ (CHR ''.'' # up_task v @ uploading)"
    by (simp add: fragment_def)
  then show False using assms by (simp add: append_eq_append_conv)
qed

lemma live_names: "live_ok s us \<Longrightarrow> uploading_now n s \<longleftrightarrow> n \<in> (\<lambda>x. up_name (fst x)) ` set us"
proof -
  assume "live_ok s us"
  then have "set (active_tasks (sg_uploads s)) = set (map live_task us)"
    unfolding live_ok_def by (metis set_mset_mset)
  then show ?thesis by (simp add: uploading_now_active image_image live_task_def)
qed

text \<open>Changes that leave the fragments of the uploads alone.\<close>

lemma live_upload_keep:
  "live_upload s x \<Longrightarrow> map_of (sg_files t) (fragment (fst x)) = map_of (sg_files s) (fragment (fst x)) \<Longrightarrow> live_upload t x"
  by (simp add: live_upload_def)

lemma live_stay:
  assumes "live_ok s us" and "unique_files t" and "map fst (sg_uploads t) = map fst (sg_uploads s)"
    and "active_tasks (sg_uploads t) = active_tasks (sg_uploads s)"
    and "\<And>x. x \<in> set us \<Longrightarrow> map_of (sg_files t) (fragment (fst x)) = map_of (sg_files s) (fragment (fst x))"
  shows "live_ok t us"
  using assms unfolding live_ok_def by (auto intro: live_upload_keep)

lemma live_in: "live_ok s us \<Longrightarrow> x \<in> set us \<Longrightarrow> live_upload s x"
  by (simp add: live_ok_def)

lemma live_fragment:
  assumes "live_ok s us" and "x \<in> set us" and "length (up_task u) = 36" "up_name (fst x) \<noteq> up_name u"
  shows "fragment (fst x) \<noteq> fragment u"
  using fragments_differ assms by (auto simp: live_ok_def live_upload_def)

lemma finished_off:
  assumes "unique_files s" and "on_fragment u s t \<or> placed u s t" and "n \<noteq> fragment u" "n \<noteq> up_name u"
  shows "map_of (sg_files t) n = map_of (sg_files s) n"
  using assms by (auto simp: on_fragment_def placed_def named_def unique_files_def distinct_put_entry map_of_put_entry)

lemma finished_unique: "unique_files s \<Longrightarrow> on_fragment u s t \<or> placed u s t \<Longrightarrow> unique_files t"
  by (auto simp: on_fragment_def placed_def named_def unique_files_def distinct_put_entry)

lemma settled_active:
  assumes "settled u s t" and "distinct (map fst (sg_uploads s))" and "(up_task u, n, x) \<in> set (active_tasks (sg_uploads s))"
  shows "mset (active_tasks (sg_uploads t)) = mset (active_tasks (sg_uploads s)) - {#(up_task u, n, x)#}"
    and "map fst (sg_uploads t) = map fst (sg_uploads s)"
  using assms(1) active_settle [OF assms(2,3)] unfolding settled_def by auto

text \<open>An upload ends.\<close>

lemma live_leaves:
  assumes live: "live_ok s (xs @ (u, got) # ys)" and t: "settled u s t" "on_fragment u s t \<or> placed u s t"
  shows "live_ok t (xs @ ys)"
proof -
  from live have u: "good_name (up_name u)" "length (up_task u) = 36" "up_name u \<notin> (\<lambda>x. up_name (fst x)) ` set (xs @ ys)"
    and m: "mset (active_tasks (sg_uploads s)) = add_mset (live_task (u, got)) (mset (map live_task (xs @ ys)))"
    and d: "distinct (map fst (sg_uploads s))" "unique_files s"
    by (auto simp: live_ok_def live_upload_def)
  have "(up_task u, up_name u, up_expected u) \<in> set (active_tasks (sg_uploads s))"
    using m unfolding set_mset_mset [symmetric] by (simp add: live_task_def)
  note settled_active [OF t(1) d(1) this]
  then have after: "mset (active_tasks (sg_uploads t)) = mset (map live_task (xs @ ys))" "map fst (sg_uploads t) = map fst (sg_uploads s)"
    using m by (simp_all add: live_task_def)
  have rest: "map_of (sg_files t) (fragment (fst x)) = map_of (sg_files s) (fragment (fst x))" if x: "x \<in> set (xs @ ys)" for x
  proof (rule finished_off [OF d(2) t(2)])
    have "up_name (fst x) \<noteq> up_name u" using u(3) x by force
    with x show "fragment (fst x) \<noteq> fragment u" by (intro live_fragment [OF live _ u(2)]) auto
    show "fragment (fst x) \<noteq> up_name u" using good_not_fragment [OF u(1), of "fst x"] by simp
  qed
  have unique: "unique_files t" by (rule finished_unique [OF d(2) t(2)])
  have "live_upload t x" if "x \<in> set (xs @ ys)" for x
    by (rule live_upload_keep [OF live_in [OF live] rest [OF that]]) (use that in auto)
  moreover have "distinct (map (\<lambda>x. up_name (fst x)) (xs @ ys))" using live by (auto simp: live_ok_def)
  ultimately show ?thesis using unique after d(1) by (simp add: live_ok_def)
qed

text \<open>A chunk arrives.\<close>

lemma chunk_taken_parts:
  assumes "chunk_taken u c v s t"
  obtains x b where "x @ b = up_buffer u @ c" "v = u\<lparr>up_written := up_written u + length c, up_buffer := b\<rparr>"
    "sg_files t = change_entry (fragment u) (\<lambda>y. y @ x) (sg_files s)" "sg_recovery t = sg_recovery s" "advanced u s t"
  using assms by (auto simp: chunk_taken_def flushed_def)

lemma live_chunk:
  assumes live: "live_ok s (xs @ (u, got) # ys)" and t: "chunk_taken u c v s t"
  shows "live_ok t (xs @ (v, got @ c) # ys)"
proof -
  from live obtain old where u: "good_name (up_name u)" "length (up_task u) = 36"
      "up_name u \<notin> (\<lambda>x. up_name (fst x)) ` set (xs @ ys)"
      "map_of (sg_files s) (fragment u) = Some old" "old @ up_buffer u = got" "up_written u = length got"
    by (auto simp: live_ok_def live_upload_def)
  from t obtain x b where x: "x @ b = up_buffer u @ c" "v = u\<lparr>up_written := up_written u + length c, up_buffer := b\<rparr>"
    and files: "sg_files t = change_entry (fragment u) (\<lambda>y. y @ x) (sg_files s)" and adv: "advanced u s t"
    by (rule chunk_taken_parts)
  have uploads: "map fst (sg_uploads t) = map fst (sg_uploads s)" "active_tasks (sg_uploads t) = active_tasks (sg_uploads s)"
    using adv by (auto simp: advanced_def active_advance)
  have rest: "live_upload t z" if z: "z \<in> set (xs @ ys)" for z
  proof (rule live_upload_keep [of s])
    have "up_name (fst z) \<noteq> up_name u" using u(3) z by force
    with z have "fragment (fst z) \<noteq> fragment u" by (intro live_fragment [OF live _ u(2)]) auto
    then show "map_of (sg_files t) (fragment (fst z)) = map_of (sg_files s) (fragment (fst z))"
      by (simp add: files map_of_change_entry)
  qed (use live z in \<open>auto simp: live_ok_def\<close>)
  have "fragment v = fragment u" by (simp add: x(2))
  moreover have "(old @ x) @ b = got @ c" using x(1) u(5) by (simp flip: u(5))
  ultimately have "live_upload t (v, got @ c)"
    using u by (simp add: live_upload_def files map_of_change_entry) (simp add: x(2))
  moreover have "unique_files t" using live by (simp add: live_ok_def unique_files_def files)
  moreover have "map live_task (xs @ (v, got @ c) # ys) = map live_task (xs @ (u, got) # ys)" by (simp add: live_task_def x(2))
  ultimately show ?thesis
    using live uploads rest unfolding live_ok_def by (simp add: x(2))
qed

text \<open>An upload begins, or fails at once.\<close>

lemma live_begins:
  assumes live: "live_ok s us" and fresh: "fresh_task e r s" and u: "accepted e r ow s u" and t: "begun u s t"
  shows "live_ok t (us @ [(u, [])])"
proof -
  have task: "length (up_task u) = 36" "\<not> list_ex (\<lambda>x. fst x = up_task u \<and> active (snd x)) (sg_uploads s)"
    using fresh u by (auto simp: fresh_task_def accepted_def)
  have keys: "distinct (map fst (sg_uploads s))" using live by (simp add: live_ok_def)
  have new: "up_name u \<notin> (\<lambda>x. up_name (fst x)) ` set us" using u live_names [OF live] by (simp add: accepted_def)
  obtain now where up: "sg_uploads t =
      put_entry (up_task u) (new_upload_task (up_task u) (up_name u) (up_expected u) now) (sg_uploads s)"
    using t by (auto simp: begun_def registered_def)
  have files: "sg_files t = put_entry (fragment u) [] (sg_files s)" using t by (simp add: begun_def)
  have "live_upload t x" if x: "x \<in> set us" for x
  proof (rule live_upload_keep [of s])
    have "up_name (fst x) \<noteq> up_name u" using new x by force
    with x have "fragment (fst x) \<noteq> fragment u" by (intro live_fragment [OF live _ task(1)])
    then show "map_of (sg_files t) (fragment (fst x)) = map_of (sg_files s) (fragment (fst x))"
      by (simp add: files map_of_put_entry)
  qed (use live x in \<open>auto simp: live_ok_def\<close>)
  moreover have "live_upload t (u, [])" using u task by (simp add: live_upload_def files map_of_put_entry accepted_def)
  moreover have "unique_files t" "distinct (map fst (sg_uploads t))"
    using live by (simp_all add: live_ok_def unique_files_def files up distinct_put_entry)
  moreover have "mset (active_tasks (sg_uploads t)) = add_mset (live_task (u, [])) (mset (active_tasks (sg_uploads s)))"
    using active_register [OF keys task(2)] by (simp add: up live_task_def)
  ultimately show ?thesis using live new unfolding live_ok_def by auto
qed

lemma live_refused:
  assumes live: "live_ok s us" and fresh: "fresh_task e r s" and u: "accepted e r ow s u" and t: "begin_failed u s t"
  shows "live_ok t us"
proof -
  have task: "length (up_task u) = 36" "\<not> list_ex (\<lambda>x. fst x = up_task u \<and> active (snd x)) (sg_uploads s)"
    using fresh u by (auto simp: fresh_task_def accepted_def)
  have keys: "distinct (map fst (sg_uploads s))" using live by (simp add: live_ok_def)
  have new: "up_name u \<notin> (\<lambda>x. up_name (fst x)) ` set us" using u live_names [OF live] by (simp add: accepted_def)
  obtain v where v: "registered u s v" "settled u v t" and off: "on_fragment u s t" using t by (auto simp: begin_failed_def)
  then have active: "mset (active_tasks (sg_uploads v)) = add_mset (up_task u, up_name u, up_expected u) (mset (active_tasks (sg_uploads s)))"
    and keys': "distinct (map fst (sg_uploads v))"
    using active_register [OF keys task(2)] keys by (auto simp: registered_def distinct_put_entry)
  then have "(up_task u, up_name u, up_expected u) \<in> set (active_tasks (sg_uploads v))" by (metis set_mset_mset union_single_eq_member)
  note after = settled_active [OF v(2) keys' this]
  have unique: "unique_files s" using live by (simp add: live_ok_def)
  have "live_upload t x" if x: "x \<in> set us" for x
  proof (rule live_upload_keep [of s])
    have "up_name (fst x) \<noteq> up_name u" using new x by force
    with x have "fragment (fst x) \<noteq> fragment u" by (intro live_fragment [OF live _ task(1)])
    with off unique show "map_of (sg_files t) (fragment (fst x)) = map_of (sg_files s) (fragment (fst x))"
      by (simp add: on_fragment_def)
  qed (use live x in \<open>auto simp: live_ok_def\<close>)
  moreover have "unique_files t" using finished_unique [OF unique] off by blast
  ultimately show ?thesis using live after active keys' unfolding live_ok_def by simp
qed

section \<open>What the files hold\<close>

text \<open>Every file that is no fragment, and every recovery file, is one of the known contents.\<close>

definition contents_ok :: "string set \<Rightarrow> staging \<Rightarrow> bool" where
  "contents_ok K s \<longleftrightarrow> (\<forall>n c. map_of (sg_files s) n = Some c \<longrightarrow> \<not> fragment_name n \<longrightarrow> c \<in> K) \<and>
     (\<forall>p c. map_of (recovery_files s) p = Some c \<longrightarrow> c \<in> K)"

lemma fragment_is_fragment [simp]: "fragment_name (fragment u)"
  by (simp add: fragment_name_def fragment_def startswith_def endswith_def)

lemma contents_mono: "contents_ok K s \<Longrightarrow> K \<subseteq> L \<Longrightarrow> contents_ok L s"
  unfolding contents_ok_def by blast

lemma contents_put: "contents_ok K s \<Longrightarrow> fragment_name n \<or> c \<in> K \<Longrightarrow> contents_ok K (s\<lparr>sg_files := put_entry n c (sg_files s)\<rparr>)"
  by (auto simp: contents_ok_def map_of_put_entry recovery_files_def split: if_splits)

lemma contents_quiet: "contents_ok K s \<Longrightarrow> quiet s t \<Longrightarrow> contents_ok K t"
  by (simp add: contents_ok_def quiet_def)

lemma contents_off: "contents_ok K s \<Longrightarrow> unique_files s \<Longrightarrow> on_fragment u s t \<Longrightarrow> contents_ok K t"
  unfolding contents_ok_def on_fragment_def recovery_files_def by (metis fragment_is_fragment)

lemma contents_finished:
  assumes "contents_ok K s" and "unique_files s" and "map_of (sg_files s) (fragment u) = Some c"
    and "on_fragment u s t \<or> placed u s t" and got: "c @ up_buffer u = got"
  shows "contents_ok (insert got K) t"
  using assms(4)
proof
  assume "on_fragment u s t"
  from contents_off [OF assms(1,2) this] show ?thesis by (rule contents_mono) blast
next
  assume "placed u s t"
  with assms(3) got have "on_fragment u (s\<lparr>sg_files := put_entry (up_name u) got (sg_files s)\<rparr>) t" by (simp add: placed_def named_def)
  moreover have "contents_ok (insert got K) (s\<lparr>sg_files := put_entry (up_name u) got (sg_files s)\<rparr>)"
    using contents_mono [OF assms(1)] by (intro contents_put) auto
  ultimately show ?thesis using assms(2) by (elim contents_off [rotated 2]) (simp_all add: unique_files_def distinct_put_entry)
qed

lemma contents_drop: "contents_ok K s \<Longrightarrow> sg_files t = drop_entry n (sg_files s) \<Longrightarrow> sg_recovery t = sg_recovery s \<Longrightarrow> contents_ok K t"
  by (auto simp: contents_ok_def map_of_drop_entry recovery_files_def split: if_splits)

lemma good_no_fragment: "good_name n \<Longrightarrow> \<not> fragment_name n"
  by (simp add: good_name_def fragment_name_def)

lemma contents_published: "contents_ok K s \<Longrightarrow> published n s t \<Longrightarrow> contents_ok K t"
  by (auto simp: contents_ok_def published_def map_of_drop_entry map_of_put_entry good_no_fragment split: if_splits)

lemma contents_restored: "contents_ok K s \<Longrightarrow> restored s t \<Longrightarrow> contents_ok K t"
  by (auto simp: contents_ok_def restored_def map_of_drop_entry map_of_put_entry split: if_splits)

lemma contents_half: "contents_ok K s \<Longrightarrow> half_published s t \<or> half_restored s t \<Longrightarrow> contents_ok K t"
  by (auto simp: contents_ok_def half_published_def half_restored_def map_of_put_entry good_no_fragment split: if_splits)

section \<open>The quota\<close>

text \<open>What the uploads in progress to a set of names may still add.\<close>

definition due :: "string set \<Rightarrow> (upload \<times> string) list \<Rightarrow> int" where
  "due N us = sum_list (map (\<lambda>x. if up_name (fst x) \<in> N then up_expected (fst x) else 0) us)"

definition quota_ok :: "int \<Rightarrow> staging \<Rightarrow> (upload \<times> string) list \<Rightarrow> bool" where
  "quota_ok cap s us \<longleftrightarrow> (\<forall>N. bytes N (sg_files s) + recovery_bytes s + due N us \<le> cap) \<and>
     (\<forall>x \<in> set us. 0 < up_expected (fst x) \<and> int (up_written (fst x)) \<le> up_expected (fst x))"

lemma quota_at: "quota_ok cap s us \<Longrightarrow> bytes N (sg_files s) + recovery_bytes s + due N us \<le> cap"
  by (simp add: quota_ok_def)

lemma due_simps:
  "due N [] = 0" "due N (xs @ ys) = due N xs + due N ys"
  "due N (x # ys) = (if up_name (fst x) \<in> N then up_expected (fst x) else 0) + due N ys"
  by (simp_all add: due_def)

lemma due_free: "n \<notin> (\<lambda>x. up_name (fst x)) ` set us \<Longrightarrow> due (insert n N) us = due N us"
  by (induction us) (auto simp: due_simps)

lemma due_bounds:
  assumes "quota_ok cap s us"
  shows "0 \<le> due N us" and "due N us \<le> due UNIV us"
proof -
  have "0 \<le> due N us \<and> due N us \<le> due UNIV us" if "\<forall>x \<in> set us. 0 < up_expected (fst x)"
    using that by (induction us) (auto simp: due_simps)
  with assms show "0 \<le> due N us" "due N us \<le> due UNIV us" by (simp_all add: quota_ok_def)
qed

lemma live_reserved:
  assumes "live_ok s us"
  shows "fst (reservations s) = due UNIV us"
proof -
  have m: "mset (active_tasks (sg_uploads s)) = mset (map live_task us)" using assms by (simp add: live_ok_def)
  have "sum_list (map (\<lambda>x. snd (snd x)) (active_tasks (sg_uploads s))) = sum_list (map (\<lambda>x. snd (snd x)) (map live_task us))"
    unfolding sum_mset_sum_list [symmetric] mset_map m ..
  then show ?thesis by (simp add: reserved_active due_def live_task_def comp_def)
qed

text \<open>The files and what is due change together.\<close>

lemma quota_same:
  assumes "quota_ok cap s us" and "\<And>N. bytes N (sg_files t) \<le> bytes N (sg_files s)" and "recovery_bytes t = recovery_bytes s"
  shows "quota_ok cap t us"
proof -
  have "bytes N (sg_files t) + recovery_bytes t + due N us \<le> cap" for N
    using quota_at [OF assms(1), of N] assms(2) [of N] assms(3) by linarith
  then show ?thesis using assms(1) by (simp add: quota_ok_def)
qed

lemma quota_leaves:
  assumes q: "quota_ok cap s (xs @ (u, got) # ys)" and live: "live_ok s (xs @ (u, got) # ys)"
    and t: "on_fragment u s t \<or> placed u s t"
  shows "quota_ok cap t (xs @ ys)"
proof -
  from live have u: "\<exists>c. map_of (sg_files s) (fragment u) = Some c \<and> c @ up_buffer u = got" "up_written u = length got"
      "up_name u \<notin> (\<lambda>x. up_name (fst x)) ` set xs" "up_name u \<notin> (\<lambda>x. up_name (fst x)) ` set ys" and d: "unique_files s"
    by (auto simp: live_ok_def live_upload_def)
  from q u(2) have e: "int (length got) \<le> up_expected u" "0 < up_expected u" by (auto simp: quota_ok_def)
  have "bytes N (sg_files t) + recovery_bytes t + due N (xs @ ys) \<le> cap" for N
    using t
  proof
    assume "on_fragment u s t"
    with d have "bytes N (sg_files t) = bytes N (sg_files s)" "recovery_bytes t = recovery_bytes s"
      by (auto simp: on_fragment_def recovery_bytes_def)
    with quota_at [OF q, of N] e show ?thesis by (simp add: due_simps split: if_splits)
  next
    assume "placed u s t"
    then have "on_fragment u (s\<lparr>sg_files := put_entry (up_name u) got (sg_files s)\<rparr>) t"
      using u(1) by (auto simp: placed_def named_def)
    with d have "bytes N (sg_files t) = bytes (insert (up_name u) N) (sg_files s) +
        (if managed (up_name u) \<and> up_name u \<notin> N then int (length got) else 0)" "recovery_bytes t = recovery_bytes s"
      by (auto simp: on_fragment_def recovery_bytes_def unique_files_def distinct_put_entry bytes_put_entry)
    with quota_at [OF q, of "insert (up_name u) N"] e u(3,4) show ?thesis
      by (auto simp: due_simps due_free)
  qed
  then show ?thesis using q by (auto simp: quota_ok_def)
qed

lemma quota_begins:
  assumes q: "quota_ok cap s us" and live: "live_ok s us" and cap: "cap = se_capacity e" and u: "accepted e r ow s u"
    and pos: "0 < up_expected u" and t: "\<And>N. bytes N (sg_files t) = bytes N (sg_files s)" "recovery_bytes t = recovery_bytes s"
  shows "quota_ok cap t (us @ [(u, [])])"
proof -
  have room: "up_expected u \<le> cap - bytes {up_name u} (sg_files s) - recovery_bytes s - due UNIV us" and w: "up_written u = 0"
    using u pos by (simp_all add: accepted_def cap managed_bytes_bytes live_reserved [OF live])
  have "bytes N (sg_files t) + recovery_bytes t + due N (us @ [(u, [])]) \<le> cap" for N
  proof (cases "up_name u \<in> N")
    case True
    then have "bytes N (sg_files s) \<le> bytes {up_name u} (sg_files s)" by (intro bytes_mono) simp
    with room due_bounds(2) [OF q, of N] True t show ?thesis by (simp add: due_simps)
  qed (use quota_at [OF q, of N] t in \<open>simp add: due_simps\<close>)
  with q pos w show ?thesis by (simp add: quota_ok_def)
qed

lemma put_entry_id: "map_of d n = Some c \<Longrightarrow> put_entry n c d = d"
  by (induction d) (auto split: if_splits)

lemma recovery_put: "map_of d p = None \<Longrightarrow>
    sum_list (map (\<lambda>x. int (length (snd x))) (put_entry p c d)) = sum_list (map (\<lambda>x. int (length (snd x))) d) + int (length c)"
  by (subst put_entry_new) (auto simp: map_of_eq_None_iff)

lemma recovery_drop: "map_of d p = Some c \<Longrightarrow>
    sum_list (map (\<lambda>x. int (length (snd x))) (drop_entry p d)) + int (length c) \<le> sum_list (map (\<lambda>x. int (length (snd x))) d)"
proof (induction d)
  case (Cons x d)
  have "sum_list (map (\<lambda>x. int (length (snd x))) (drop_entry p d)) \<le> sum_list (map (\<lambda>x. int (length (snd x))) d)"
    by (induction d) (auto simp: drop_entry_def)
  with Cons show ?case by (cases x) (auto simp: drop_entry_def split: if_splits)
qed simp

lemma quota_published:
  assumes q: "quota_ok cap s us" and t: "published n s t" and d: "unique_files s"
    and n: "managed n" "n \<notin> (\<lambda>x. up_name (fst x)) ` set us"
  shows "quota_ok cap t us"
proof -
  obtain c p where c: "map_of (sg_files s) n = Some c" "map_of (recovery_files s) p = None"
      "sg_files t = drop_entry n (sg_files s)" "recovery_files t = put_entry p c (recovery_files s)"
    using t by (auto simp: published_def)
  have all: "bytes M (sg_files s) = bytes (insert n M) (sg_files s) + int (length c)" if "n \<notin> M" for M
  proof -
    have "put_entry n c (sg_files s) = sg_files s" by (rule put_entry_id [OF c(1)])
    then show ?thesis using bytes_put_entry [of "sg_files s" M n c] d n(1) that by (simp add: unique_files_def)
  qed
  have "bytes N (sg_files t) + recovery_bytes t + due N us \<le> cap" for N
    using quota_at [OF q, of "N - {n}"] all [of "N - {n}"] due_free [OF n(2), of "N - {n}"] due_free [OF n(2), of N]
    by (simp add: c(3,4) bytes_drop_entry recovery_bytes_files recovery_put [OF c(2)])
  then show ?thesis using q by (simp add: quota_ok_def)
qed

lemma quota_restored:
  assumes q: "quota_ok cap s us" and t: "restored s t" and d: "unique_files s"
  shows "quota_ok cap t us"
proof -
  obtain n c p where c: "map_of (recovery_files s) p = Some c" "map_of (sg_files s) n = None"
      "sg_files t = put_entry n c (sg_files s)" "recovery_files t = drop_entry p (recovery_files s)"
    using t by (auto simp: restored_def)
  have "bytes N (sg_files t) + recovery_bytes t + due N us \<le> cap" for N
  proof -
    have "bytes (insert n N) (sg_files s) = bytes N (sg_files s)" using c(2) by (intro bytes_free) (auto simp: map_of_eq_None_iff)
    then show ?thesis
      using quota_at [OF q, of N] recovery_drop [OF c(1)] d
      by (simp add: c(3,4) bytes_put_entry unique_files_def recovery_bytes_files)
  qed
  then show ?thesis using q by (simp add: quota_ok_def)
qed

section \<open>Every reachable state\<close>

definition initial_contents :: "staging \<Rightarrow> string set" where
  "initial_contents s = snd ` set (sg_files s) \<union> snd ` set (recovery_files s)"

definition staging_inv :: "staging_env \<Rightarrow> bool \<Rightarrow> staging \<Rightarrow> staging \<Rightarrow> (upload \<times> string) list \<Rightarrow> string list \<Rightarrow> bool" where
  "staging_inv e strict s0 s us bs \<longleftrightarrow> live_ok s us \<and> contents_ok (initial_contents s0 \<union> set bs) s \<and>
     (strict \<longrightarrow> quota_ok (se_capacity e) s us)"

lemma wp_result: "wp m (\<lambda>_. P) (\<lambda>_. P) s \<Longrightarrow> m s = (r, t) \<Longrightarrow> P t"
  by (cases r) (simp_all add: wp_def)

lemma files_live: "(\<And>n. fragment_name n \<Longrightarrow> map_of (sg_files t) n = map_of (sg_files s) n) \<Longrightarrow>
    live_ok s us \<Longrightarrow> unique_files t \<Longrightarrow> sg_uploads t = sg_uploads s \<Longrightarrow> live_ok t us"
  by (rule live_stay) simp_all

lemma inv_quiet: "staging_inv e strict s0 s us bs \<Longrightarrow> quiet s t \<Longrightarrow> staging_inv e strict s0 t us bs"
proof -
  assume i: "staging_inv e strict s0 s us bs" and q: "quiet s t"
  then have "live_ok s us" by (simp add: staging_inv_def)
  moreover from this have "unique_files t" using q by (simp add: live_ok_def unique_files_def quiet_def)
  ultimately have "live_ok t us" using q by (intro files_live [of t s]) (simp_all add: quiet_def)
  moreover have "strict \<longrightarrow> quota_ok (se_capacity e) t us"
    using i q by (auto simp: staging_inv_def quiet_def recovery_bytes_files elim!: quota_same)
  ultimately show ?thesis using i contents_quiet [OF _ q] by (simp add: staging_inv_def)
qed

lemma inv_leaves:
  assumes i: "staging_inv e strict s0 s (xs @ (u, got) # ys) bs" and t: "settled u s t" "on_fragment u s t \<or> placed u s t"
  shows "staging_inv e strict s0 t (xs @ ys) (bs @ [got])"
    and "on_fragment u s t \<Longrightarrow> staging_inv e strict s0 t (xs @ ys) bs"
proof -
  from i have live: "live_ok s (xs @ (u, got) # ys)" by (simp add: staging_inv_def)
  then obtain c where u: "unique_files s" "map_of (sg_files s) (fragment u) = Some c" "c @ up_buffer u = got"
    by (auto simp: live_ok_def live_upload_def)
  from i have k: "contents_ok (initial_contents s0 \<union> set bs) s" by (simp add: staging_inv_def)
  note rest = live_leaves [OF live t] quota_leaves [OF _ live t(2)]
  from contents_finished [OF k u(1,2) t(2) u(3)] show "staging_inv e strict s0 t (xs @ ys) (bs @ [got])"
    using i rest by (simp add: staging_inv_def Un_insert_right)
  assume "on_fragment u s t"
  from contents_off [OF k u(1) this] show "staging_inv e strict s0 t (xs @ ys) bs"
    using i rest by (simp add: staging_inv_def)
qed

lemma inv_begins:
  assumes i: "staging_inv e strict s0 s us bs" and fresh: "fresh_task e r s" and u: "accepted e r ow s u"
  shows "begun u s t \<Longrightarrow> (strict \<longrightarrow> 0 < up_expected u) \<Longrightarrow> staging_inv e strict s0 t (us @ [(u, [])]) bs"
    and "begin_failed u s t \<Longrightarrow> staging_inv e strict s0 t us bs"
proof -
  from i have live: "live_ok s us" by (simp add: staging_inv_def)
  then have d: "unique_files s" by (simp add: live_ok_def)
  {
    assume t: "begun u s t" and pos: "strict \<longrightarrow> 0 < up_expected u"
    then have on: "on_fragment u s t" by (auto simp: begun_def intro: on_fragment_put)
    then have "bytes N (sg_files t) = bytes N (sg_files s)" "recovery_bytes t = recovery_bytes s" for N
      using d by (simp_all add: on_fragment_def recovery_bytes_def)
    from quota_begins [OF _ live refl u _ this] have "strict \<longrightarrow> quota_ok (se_capacity e) t (us @ [(u, [])])"
      using i pos by (simp add: staging_inv_def)
    with i live_begins [OF live fresh u t] contents_off [OF _ d on] show "staging_inv e strict s0 t (us @ [(u, [])]) bs"
      by (simp add: staging_inv_def)
  next
    assume t: "begin_failed u s t"
    then have on: "on_fragment u s t" by (simp add: begin_failed_def)
    then have "strict \<longrightarrow> quota_ok (se_capacity e) t us"
      using i d by (auto simp: staging_inv_def on_fragment_def recovery_bytes_def elim!: quota_same)
    with i live_refused [OF live fresh u t] contents_off [OF _ d on] show "staging_inv e strict s0 t us bs"
      by (simp add: staging_inv_def)
  }
qed

lemma inv_chunk:
  assumes i: "staging_inv e strict s0 s (xs @ (u, got) # ys) bs" and t: "chunk_taken u c v s t"
    and fits: "strict \<longrightarrow> int (up_written v) \<le> up_expected v"
  shows "staging_inv e strict s0 t (xs @ (v, got @ c) # ys) bs"
proof -
  from i have live: "live_ok s (xs @ (u, got) # ys)" by (simp add: staging_inv_def)
  then have d: "unique_files s" by (simp add: live_ok_def)
  from t obtain x b where v: "v = u\<lparr>up_written := up_written u + length c, up_buffer := b\<rparr>" and on: "on_fragment u s t"
    by (auto elim!: chunk_taken_parts intro: on_fragment_change)
  have "quota_ok (se_capacity e) t (xs @ (v, got @ c) # ys)" if "strict"
  proof -
    have "quota_ok (se_capacity e) s (xs @ (u, got) # ys)" using i that by (simp add: staging_inv_def)
    then have "quota_ok (se_capacity e) t (xs @ (u, got) # ys)"
      using on d by (auto simp: on_fragment_def recovery_bytes_def elim!: quota_same)
    moreover have "due N (xs @ (v, got @ c) # ys) = due N (xs @ (u, got) # ys)" for N by (simp add: due_simps v)
    ultimately show ?thesis using fits that by (simp add: quota_ok_def v)
  qed
  with i live_chunk [OF live t] contents_off [OF _ d on] show ?thesis by (simp add: staging_inv_def)
qed

lemma inv_cancel: "staging_inv e strict s0 s us bs \<Longrightarrow> cancel_upload_task i s = (z, t) \<Longrightarrow> staging_inv e strict s0 t us bs"
proof -
  assume i: "staging_inv e strict s0 s us bs" and t: "cancel_upload_task i s = (z, t)"
  have "wp (cancel_upload_task i) (\<lambda>_ t. t = s \<or> t = s\<lparr>sg_uploads := change_entry i cancel_task (sg_uploads s)\<rparr>) 
      (\<lambda>_ t. t = s \<or> t = s\<lparr>sg_uploads := change_entry i cancel_task (sg_uploads s)\<rparr>) s"
    by (simp add: cancel_upload_task_def set_uploads_def wp_simps split: option.split)
  from wp_result [OF this t] show ?thesis
  proof
    assume t: "t = s\<lparr>sg_uploads := change_entry i cancel_task (sg_uploads s)\<rparr>"
    have "live_ok t us" using i by (intro live_stay [of s us t]) (simp_all add: t staging_inv_def active_cancel live_ok_def unique_files_def)
    with i show ?thesis
      by (simp add: staging_inv_def t contents_ok_def quota_ok_def recovery_files_def recovery_bytes_def)
  qed (use i in simp)
qed

lemma inv_delete: "staging_inv e strict s0 s us bs \<Longrightarrow> delete_staged_file e f s = (w, t) \<Longrightarrow> staging_inv e strict s0 t us bs"
proof -
  assume i: "staging_inv e strict s0 s us bs" and t: "delete_staged_file e f s = (w, t)"
  from i have live: "live_ok s us" by (simp add: staging_inv_def)
  then have d: "unique_files s" by (simp add: live_ok_def)
  have "wp (delete_staged_file e f) (\<lambda>_ t. same s t \<or> (\<exists>n. good_name n \<and> sg_files t = drop_entry n (sg_files s) \<and>
      sg_recovery t = sg_recovery s \<and> sg_uploads t = sg_uploads s)) (\<lambda>_ t. same s t \<or> (\<exists>n. good_name n \<and>
      sg_files t = drop_entry n (sg_files s) \<and> sg_recovery t = sg_recovery s \<and> sg_uploads t = sg_uploads s)) s"
    by (rule wp_mono [OF wp_delete]) auto
  from wp_result [OF this t] show ?thesis
  proof (elim disjE exE conjE)
    fix n assume n: "good_name n" "sg_files t = drop_entry n (sg_files s)" "sg_recovery t = sg_recovery s" "sg_uploads t = sg_uploads s"
    have "live_ok t us" using live n d good_no_fragment [OF n(1)]
      by (intro files_live [of t s]) (auto simp: map_of_drop_entry unique_files_def distinct_drop_entry)
    moreover have "strict \<longrightarrow> quota_ok (se_capacity e) t us"
      using i n by (auto simp: staging_inv_def bytes_drop_entry recovery_bytes_def intro!: bytes_mono elim!: quota_same)
    ultimately show ?thesis using i contents_drop [OF _ n(2,3)] by (simp add: staging_inv_def)
  qed (use inv_quiet [OF i] same_quiet in blast)
qed

text \<open>A move that stops half-way leaves the file under both names.\<close>

lemma inv_half:
  assumes i: "staging_inv e strict s0 s us bs" and t: "half_published s t \<or> half_restored s t" and strict: "\<not> strict"
  shows "staging_inv e strict s0 t us bs"
proof -
  from i have live: "live_ok s us" by (simp add: staging_inv_def)
  have "live_ok t us" using live t
    by (intro files_live [of t s])
      (auto simp: live_ok_def half_published_def half_restored_def unique_files_def distinct_put_entry map_of_put_entry
        dest: good_no_fragment)
  with i contents_half [OF _ t] strict show ?thesis by (simp add: staging_inv_def)
qed

lemma inv_publish:
  assumes i: "staging_inv e strict s0 s us bs" and t: "publish_file e f d s = (q, t)"
    and ok: "strict \<longrightarrow> managed (strip is_blank f) \<and> strip is_blank f \<notin> up_name ` fst ` set us \<and> (isl q \<longrightarrow> quiet s t)"
  shows "staging_inv e strict s0 t us bs"
proof (cases q)
  case (Inl x)
  with wp_Inl [OF wp_publish] t have "quiet s t \<or> half_published s t" by blast
  with inv_quiet [OF i] inv_half [OF i] ok Inl show ?thesis by auto
next
  case (Inr a)
  let ?n = "strip is_blank f"
  from i have live: "live_ok s us" by (simp add: staging_inv_def)
  then have u: "unique_files s" by (simp add: live_ok_def)
  from wp_Inr [OF wp_publish] t Inr have p: "published ?n s t" by blast
  then have n: "good_name ?n" "sg_files t = drop_entry ?n (sg_files s)" "sg_uploads t = sg_uploads s"
    by (auto simp: published_def)
  have "live_ok t us" using live n(2,3) u good_no_fragment [OF n(1)]
    by (intro files_live [of t s]) (auto simp: map_of_drop_entry unique_files_def distinct_drop_entry)
  with i contents_published [OF _ p] quota_published [OF _ p u] ok show ?thesis
    by (auto simp: staging_inv_def image_image)
qed

lemma inv_restore:
  assumes i: "staging_inv e strict s0 s us bs" and t: "restore_file e f s = (q, t)" and q: "strict \<longrightarrow> isl q \<longrightarrow> quiet s t"
  shows "staging_inv e strict s0 t us bs"
proof (cases q)
  case (Inl x)
  with wp_Inl [OF wp_restore] t have "quiet s t \<or> half_restored s t" by blast
  with inv_quiet [OF i] inv_half [OF i] q Inl show ?thesis by auto
next
  case (Inr a)
  from i have live: "live_ok s us" by (simp add: staging_inv_def)
  then have u: "unique_files s" by (simp add: live_ok_def)
  from wp_Inr [OF wp_restore] t Inr have p: "restored s t" by blast
  then obtain n c where n: "good_name n" "sg_files t = put_entry n c (sg_files s)" "sg_uploads t = sg_uploads s"
    by (auto simp: restored_def)
  have "live_ok t us" using live n(2,3) u good_no_fragment [OF n(1)]
    by (intro files_live [of t s]) (auto simp: map_of_put_entry unique_files_def distinct_put_entry)
  with i contents_restored [OF _ p] quota_restored [OF _ p u] show ?thesis by (simp add: staging_inv_def)
qed

text \<open>The storage when the program starts: no upload is in its table.\<close>

definition staging_start :: "staging \<Rightarrow> bool" where
  "staging_start s \<longleftrightarrow> unique_files s \<and> sg_uploads s = []"

lemma inv_start:
  assumes "staging_start s0" and "strict \<longrightarrow> managed_bytes None s0 \<le> se_capacity e"
  shows "staging_inv e strict s0 s0 [] []"
proof -
  have "live_ok s0 []" using assms(1) by (simp add: staging_start_def live_ok_def)
  moreover have "contents_ok (initial_contents s0) s0"
    by (auto simp: contents_ok_def initial_contents_def dest!: map_of_SomeD) force+
  moreover have "bytes N (sg_files s0) \<le> bytes {} (sg_files s0)" for N by (rule bytes_mono) simp
  then have "strict \<longrightarrow> quota_ok (se_capacity e) s0 []"
    using assms(2) unfolding managed_bytes_bytes quota_ok_def by (auto simp: due_simps intro: order_trans add_right_mono)
  ultimately show ?thesis by (simp add: staging_inv_def)
qed

lemma run_inv:
  assumes "staging_run e strict s0 x" and "staging_start s0" and "strict \<longrightarrow> managed_bytes None s0 \<le> se_capacity e"
  shows "staging_inv e strict s0 (fst x) (fst (snd x)) (snd (snd x))"
  using assms
proof (induction rule: staging_run.induct)
  case start
  then show ?case by (simp add: inv_start)
next
  case (begins s us bs r f h ow u t)
  then show ?case using wp_Inr [OF wp_begin begins.hyps(3)] by (auto intro: inv_begins)
next
  case (refused s us bs r f h ow x t)
  then show ?case using wp_Inl [OF wp_begin refused.hyps(3)] by (auto intro: inv_begins inv_quiet same_quiet)
next
  case (chunk s xs u got ys bs c v t)
  then show ?case using wp_Inr [OF wp_receive_chunk chunk.hyps(2)] by (auto intro: inv_chunk)
next
  case (chunk_fails s xs u got ys bs c x t)
  then show ?case using wp_Inl [OF wp_receive_chunk chunk_fails.hyps(2)] by (auto intro: inv_leaves(2))
next
  case (ends s xs u got ys bs r' t)
  then have i: "staging_inv e strict s0 s (xs @ (u, got) # ys) bs" by simp
  then have "good_name (up_name u)" by (auto simp: staging_inv_def live_ok_def live_upload_def)
  from wp_result [OF wp_finish [OF good_not_fragment [OF this]] ends.hyps(2)] inv_leaves(1) [OF i] show ?case
    by (simp add: finished_def)
next
  case (aborts s xs u got ys bs y t)
  then show ?case using wp_result [OF wp_abort aborts.hyps(2)] by (auto intro: inv_leaves(2))
next
  case (cancels s us bs i z t)
  then show ?case by (auto intro: inv_cancel)
next
  case (deletes s us bs f w t)
  then show ?case by (auto intro: inv_delete)
next
  case (publishes s us bs f d q t)
  then show ?case by (auto intro: inv_publish)
next
  case (restores s us bs f q t)
  then show ?case by (auto intro: inv_restore)
next
  case (others s us bs t)
  then show ?case by (auto intro: inv_quiet same_quiet)
qed

section \<open>The properties\<close>



text \<open>
  C14: an upload that ends leaves an ended task and no reservation: the uploads that the table counts as
  running or being cancelled are exactly those in progress, one to a name, so that a name is free again and
  its bytes are no longer reserved as soon as its upload has succeeded, failed or been given up. As above,
  no upload begins under the task identifier of one in progress, which would take the place of the other's
  task; the end of the server's process, which ends the table with it, is outside.
\<close>

theorem only_uploads_in_progress_reserve:
  assumes "staging_run e False s0 (s, us, bs)" and "staging_start s0"
  shows "(uploading_now n s \<longleftrightarrow> n \<in> up_name ` fst ` set us) \<and> distinct (map (\<lambda>x. up_name (fst x)) us) \<and>
    fst (reservations s) = sum_list (map (\<lambda>x. up_expected (fst x)) us)"
proof -
  have live: "live_ok s us" using run_inv [OF assms] by (simp add: staging_inv_def)
  then have "distinct (map (\<lambda>x. up_name (fst x)) us)" by (simp add: live_ok_def)
  with live_names [OF live] live_reserved [OF live] show ?thesis by (simp add: image_image due_def)
qed

section \<open>A run\<close>

text \<open>Counting bits by sixteens.\<close>

declare bit_count.simps [simp del]

lemma bit_count_half: "n \<noteq> 0 \<Longrightarrow> bit_count n = 1 + bit_count (n div 2)"
  by (subst bit_count.simps) simp

lemma bit_count_four: "16 \<le> n \<Longrightarrow> bit_count n = 4 + bit_count (n div 16)"
  using bit_count_half [of n] bit_count_half [of "n div 2"] bit_count_half [of "n div 4"] bit_count_half [of "n div 8"]
  by (simp add: div_mult2_eq [symmetric])

lemma bit_count_sixteen: "65536 \<le> n \<Longrightarrow> bit_count n = 16 + bit_count (n div 65536)"
  using bit_count_four [of n] bit_count_four [of "n div 16"] bit_count_four [of "n div 256"] bit_count_four [of "n div 4096"]
  by (simp add: div_mult2_eq [symmetric])

lemma bit_count_code [code]:
  "bit_count n = (if 65536 \<le> n then 16 + bit_count (n div 65536) else if 16 \<le> n then 4 + bit_count (n div 16)
     else if n = 0 then 0 else 1 + bit_count (n div 2))"
  using bit_count_half [of n] bit_count_four [of n] bit_count_sixteen [of n] bit_count.simps [of 0]
  by (cases "n = 0") (simp_all split: if_split)

text \<open>A new file and the replacement of an old one are uploaded side by side; the replacement comes to its end.\<close>

definition staging_demo :: staging_env where
  "staging_demo = \<lparr>ks_now = (\<lambda>n. ''2026-01-01T00:00:0'' @ nat_dec n), ks_uuid = (\<lambda>n. ''00000000-0000-4000-8000-00000000000'' @ nat_dec n),
     se_max_upload = 100, se_capacity = 10, se_reserve = 5, se_require_marker = True, se_root = (\<lambda>_. True),
     se_marker = (\<lambda>_. True), se_free = (\<lambda>_. 100), se_disk = (\<lambda>_. True), se_flush = (\<lambda>_. 1), se_partial = (\<lambda>_. 0), se_media = (\<lambda>_. No_media)\<rparr>"

definition stage_0 :: staging where
  "stage_0 = \<lparr>tb_tasks = [], tb_steps = 0, tb_audit = [], sg_files = [(''old.iso'', ''abc'')],
     sg_recovery = Some [(''kept'', ''d'')], sg_uploads = []\<rparr>"

definition new_id :: string where
  "new_id = ''0f0e0d0c-0000-4000-8000-000000000001''"

definition old_id :: string where
  "old_id = ''0f0e0d0c-0000-4000-8000-000000000002''"

definition stage_1 :: "(failure + upload) \<times> staging" where
  "stage_1 = begin_upload staging_demo ''new.iso'' (Some ''4'') (Some new_id) False stage_0"

definition stage_2 :: "(failure + upload) \<times> staging" where
  "stage_2 = begin_upload staging_demo ''old.iso'' (Some ''2'') (Some old_id) True (snd stage_1)"

definition stage_3 :: "(failure + upload) \<times> staging" where
  "stage_3 = receive_chunk staging_demo (projr (fst stage_1)) ''ab'' (snd stage_2)"

definition stage_4 :: "(failure + upload) \<times> staging" where
  "stage_4 = receive_chunk staging_demo (projr (fst stage_2)) ''xy'' (snd stage_3)"

definition stage_5 :: "(failure + string \<times> nat) \<times> staging" where
  "stage_5 = finish_upload staging_demo (projr (fst stage_4)) (snd stage_4)"

lemma right_result: "\<not> isl (fst m) \<Longrightarrow> m = (Inr (projr (fst m)), snd m)"
  by (cases m) (auto simp: isl_def)

text \<open>The states of the run; each is computed from the one before.\<close>

definition stamp :: "nat \<Rightarrow> string" where
  "stamp n = ''2026-01-01T00:00:0'' @ nat_dec n"

definition stage :: "nat \<Rightarrow> (string \<times> string) list \<Rightarrow> (string \<times> upload_task) list \<Rightarrow> staging" where
  "stage n files tasks = \<lparr>tb_tasks = [], tb_steps = n, tb_audit = [], sg_files = (''old.iso'', ''abc'') # files,
     sg_recovery = Some [(''kept'', ''d'')], sg_uploads = tasks\<rparr>"

lemma stage_1_value [code]:
  "stage_1 = (Inr \<lparr>up_task = new_id, up_name = ''new.iso'', up_expected = 4, up_available = 6, up_overwrite = False, up_written = 0, up_buffer = []\<rparr>,
    stage 4 [(''.new.iso.'' @ new_id @ uploading, [])]
      [(new_id, \<lparr>ut_id = new_id, ut_name = ''new.iso'', ut_status = Running, ut_progress = 0, ut_done = 0, ut_total = 4, ut_created = stamp 2,
         ut_updated = stamp 2, ut_error = None, ut_cancel = False\<rparr>)])"
  by code_simp

lemma stage_2_value [code]:
  "stage_2 = (Inr \<lparr>up_task = old_id, up_name = ''old.iso'', up_expected = 2, up_available = 5, up_overwrite = True, up_written = 0, up_buffer = []\<rparr>,
    stage 9 [(''.new.iso.'' @ new_id @ uploading, []), (''.old.iso.'' @ old_id @ uploading, [])]
      [(new_id, \<lparr>ut_id = new_id, ut_name = ''new.iso'', ut_status = Running, ut_progress = 0, ut_done = 0, ut_total = 4, ut_created = stamp 2,
         ut_updated = stamp 2, ut_error = None, ut_cancel = False\<rparr>),
       (old_id, \<lparr>ut_id = old_id, ut_name = ''old.iso'', ut_status = Running, ut_progress = 0, ut_done = 0, ut_total = 2, ut_created = stamp 7,
         ut_updated = stamp 7, ut_error = None, ut_cancel = False\<rparr>)])"
  by code_simp

lemma stage_3_value [code]:
  "stage_3 = (Inr \<lparr>up_task = new_id, up_name = ''new.iso'', up_expected = 4, up_available = 6, up_overwrite = False, up_written = 2, up_buffer = ''b''\<rparr>,
    stage 11 [(''.new.iso.'' @ new_id @ uploading, ''a''), (''.old.iso.'' @ old_id @ uploading, [])]
      [(new_id, \<lparr>ut_id = new_id, ut_name = ''new.iso'', ut_status = Running, ut_progress = 50, ut_done = 2, ut_total = 4, ut_created = stamp 2,
         ut_updated = stamp 10, ut_error = None, ut_cancel = False\<rparr>),
       (old_id, \<lparr>ut_id = old_id, ut_name = ''old.iso'', ut_status = Running, ut_progress = 0, ut_done = 0, ut_total = 2, ut_created = stamp 7,
         ut_updated = stamp 7, ut_error = None, ut_cancel = False\<rparr>)])"
  by code_simp

lemma stage_4_value [code]:
  "stage_4 = (Inr \<lparr>up_task = old_id, up_name = ''old.iso'', up_expected = 2, up_available = 5, up_overwrite = True, up_written = 2, up_buffer = ''y''\<rparr>,
    stage 13 [(''.new.iso.'' @ new_id @ uploading, ''a''), (''.old.iso.'' @ old_id @ uploading, ''x'')]
      [(new_id, \<lparr>ut_id = new_id, ut_name = ''new.iso'', ut_status = Running, ut_progress = 50, ut_done = 2, ut_total = 4, ut_created = stamp 2,
         ut_updated = stamp 10, ut_error = None, ut_cancel = False\<rparr>),
       (old_id, \<lparr>ut_id = old_id, ut_name = ''old.iso'', ut_status = Running, ut_progress = 99, ut_done = 2, ut_total = 2, ut_created = stamp 7,
         ut_updated = stamp 12, ut_error = None, ut_cancel = False\<rparr>)])"
  by code_simp

lemma stage_right:
  "\<not> isl (fst stage_1)" "\<not> isl (fst stage_2)" "\<not> isl (fst stage_3)" "\<not> isl (fst stage_4)"
  by (simp_all add: stage_1_value stage_2_value stage_3_value stage_4_value)

lemma fresh_asked:
  assumes "uuid_of i = Some i" and "length i = 36" and "\<not> list_ex (\<lambda>x. fst x = i \<and> active (snd x)) (sg_uploads s)"
  shows "fresh_task e (Some i) s"
  using assms by (cases i) (simp_all add: fresh_task_def requested_task_def)

lemma stage_fresh: "fresh_task staging_demo (Some new_id) stage_0" "fresh_task staging_demo (Some old_id) (snd stage_1)"
  by (rule fresh_asked; code_simp)+

lemma stage_declared: "0 < up_expected (projr (fst stage_1))" "0 < up_expected (projr (fst stage_2))"
  "int (up_written (projr (fst stage_3))) \<le> up_expected (projr (fst stage_3))"
  "int (up_written (projr (fst stage_4))) \<le> up_expected (projr (fst stage_4))"
  by code_simp+

lemma stage_run: "staging_run staging_demo strict stage_0 (snd stage_5, [(projr (fst stage_3), ''ab'')], [''xy''])"
proof -
  let ?a = "projr (fst stage_1)" and ?b = "projr (fst stage_2)" and ?c = "projr (fst stage_3)" and ?d = "projr (fst stage_4)"
  let ?run = "staging_run staging_demo strict stage_0"
  have steps: "begin_upload staging_demo ''new.iso'' (Some ''4'') (Some new_id) False stage_0 = (Inr ?a, snd stage_1)"
    "begin_upload staging_demo ''old.iso'' (Some ''2'') (Some old_id) True (snd stage_1) = (Inr ?b, snd stage_2)"
    "receive_chunk staging_demo ?a ''ab'' (snd stage_2) = (Inr ?c, snd stage_3)"
    "receive_chunk staging_demo ?b ''xy'' (snd stage_3) = (Inr ?d, snd stage_4)"
    "finish_upload staging_demo ?d (snd stage_4) = (fst stage_5, snd stage_5)"
    using stage_right [THEN right_result] by (simp_all only: stage_1_def stage_2_def stage_3_def stage_4_def stage_5_def prod.collapse)
  have "?run (stage_0, [], [])" by (rule staging_run.start)
  from staging_run.begins [OF this stage_fresh(1) steps(1)] stage_declared
  have "?run (snd stage_1, [(?a, [])], [])" by simp
  from staging_run.begins [OF this stage_fresh(2) steps(2)] stage_declared
  have "?run (snd stage_2, [] @ (?a, []) # [(?b, [])], [])" by simp
  from staging_run.chunk [OF this steps(3)] stage_declared
  have "?run (snd stage_3, [(?c, ''ab'')] @ (?b, []) # [], [])" by simp
  from staging_run.chunk [OF this steps(4)] stage_declared
  have "?run (snd stage_4, [(?c, ''ab'')] @ (?d, ''xy'') # [], [])" by simp
  from staging_run.ends [OF this steps(5)] show ?thesis by simp
qed

lemma stage_ready: "staging_start stage_0" "managed_bytes None stage_0 \<le> se_capacity staging_demo"
  by code_simp+



lemma only_uploads_in_progress_reserve_witness:
  "\<not> uploading_now ''old.iso'' (snd stage_5) \<and> fst (reservations (snd stage_5)) = 4"
proof -
  have n: "up_name (projr (fst stage_3)) = ''new.iso''" "up_expected (projr (fst stage_3)) = 4" by code_simp+
  then show ?thesis using only_uploads_in_progress_reserve [OF stage_run stage_ready(1), of "''old.iso''"] by simp
qed

section \<open>Outside the assumptions\<close>

text \<open>
  Two uploads that declare no length reserve nothing, and each may fill what was free when it began: here
  they end with 16 bytes in a storage for 10.
\<close>

definition two_undeclared :: "staging_env \<Rightarrow> (string \<times> nat) staging_prog" where
  "two_undeclared e =
     andThen (begin_upload e ''a.iso'' None (Some new_id) False) (\<lambda>u.
     andThen (begin_upload e ''b.iso'' None (Some old_id) False) (\<lambda>v.
     andThen (receive_chunk e u ''123456'') (\<lambda>u.
     andThen (receive_chunk e v ''123456'') (\<lambda>v.
     andThen (finish_upload e u) (\<lambda>_. finish_upload e v)))))"

lemma undeclared_uploads_exceed_quota:
  "managed_bytes None (snd (two_undeclared staging_demo stage_0)) = 16" "se_capacity staging_demo = 10"
  by code_simp+

text \<open>A file whose name ends like a fragment's is stored, but not counted.\<close>

definition uncounted_upload :: "staging_env \<Rightarrow> (string \<times> nat) staging_prog" where
  "uncounted_upload e =
     andThen (begin_upload e ''disk.uploading'' (Some ''3'') (Some new_id) False) (\<lambda>u.
     andThen (receive_chunk e u ''123'') (finish_upload e))"

lemma uncounted_file_stored:
  "map_of (sg_files (snd (uncounted_upload staging_demo stage_0))) ''disk.uploading'' = Some ''123''"
  "managed_bytes None (snd (uncounted_upload staging_demo stage_0)) = managed_bytes None stage_0"
  by code_simp+

text \<open>
  A file is published while an upload of fewer bytes replaces it: the old content is counted in the recovery
  directory again, next to the new one. Here 18 bytes are in a storage for 10.
\<close>

definition replaced_and_published :: "staging_env \<Rightarrow> (string \<times> nat) staging_prog" where
  "replaced_and_published e =
     andThen (begin_upload e ''old.iso'' (Some ''8'') (Some new_id) True) (\<lambda>u.
     andThen (publish_file e ''old.iso'' []) (\<lambda>_.
     andThen (receive_chunk e u ''12345678'') (finish_upload e)))"

lemma published_replacement_exceeds_quota:
  "managed_bytes None (snd (replaced_and_published staging_demo (stage_0\<lparr>sg_files := [(''old.iso'', ''0123456789'')], sg_recovery := None\<rparr>))) = 18"
  "\<not> isl (fst (replaced_and_published staging_demo (stage_0\<lparr>sg_files := [(''old.iso'', ''0123456789'')], sg_recovery := None\<rparr>)))"
  by code_simp+

text \<open>
  A second upload takes the task identifier of a running one: nothing is known of the first any more, its name
  is free for a third upload and its bytes are not reserved.
\<close>

definition reused_identifier :: "staging_env \<Rightarrow> upload staging_prog" where
  "reused_identifier e =
     andThen (begin_upload e ''a.iso'' (Some ''4'') (Some new_id) False) (\<lambda>_.
     begin_upload e ''b.iso'' (Some ''1'') (Some new_id) False)"

lemma reused_identifier_forgets:
  "\<not> uploading_now ''a.iso'' (snd (reused_identifier staging_demo stage_0))"
  "fst (reservations (snd (reused_identifier staging_demo stage_0))) = 1"
  by code_simp+

end
