(* ===== verification/Spec2Isabelle.thy ===== *)
theory Spec2Isabelle
  imports Registry_Safety Registry_Requests Registry_Guard Client_Guarantees Wg_Guarantees Lcd_Guarantees Auth_Guarantees Assist_Guarantees Assist_Enrol
    Gateway_Guarantees Staging_Guarantees
begin

text \<open>
  A verification development for kronosKVM: the appliance (src/backend, src/scripts), the agent that
  registers it (src/device-registration) and the server it registers with (src/registration-server).

  \<^bold>\<open>The program.\<close> An administrator registers customers, licenses and devices at the registration server.
  A device enrols with a key of its own, proves that it holds the key by signing challenges, is
  activated against a license with a limited number of devices, and gets signed authorizations that its
  agent stores and checks. A second server gives devices their peer in a WireGuard network; the device
  asks for it, checks the answer and installs it for remote assistance. On the appliance a web backend
  signs its users in, lets them stage files and keeps a table of tasks, and relays remote desktops
  through a gateway; four keys, a power button and a display drive menus that call the same services.

  \<^bold>\<open>How it is modelled.\<close> A program is a function of its state to a result and the next state, where the
  result is a value or the exception that ends it (type \<open>prog\<close> of Prelude, with \<open>andThen\<close>, \<open>require\<close>,
  \<open>need\<close> and \<open>handling\<close> for the code's sequence, guards, lookups and except clauses, and a calculus of
  weakest preconditions). Every \<open>raise\<close>, early return and status code of the source is a branch. The
  outside is a record of functions that the operations take: the clock, random identifiers and secrets,
  the disk, the network, host tools, the hash, signature and password functions. A reading of the clock,
  a drawn identifier or a write to the disk is numbered by a counter in the state, so that two readings
  may differ. Integers of Python are \<open>int\<close> or \<open>nat\<close>; no machine integer occurs. Times are integers in the unit the
  theory names.

  \<^bold>\<open>The theories.\<close>

  \<^item> Prelude (programs, rows of a table, JSON values, the collections \<open>wp_simps\<close>, \<open>safe_rules\<close> and
    others), Text (Python's strings), Encoding (base64, the canonical JSON that is signed; crypto.py),
    Values (Python's truth, equality and numbers of JSON values), Addresses (\<open>ipaddress\<close>), Windows (sliding windows of
    times, as a locale of a width and a limit) serve all components.

  \<^item> The registration server (registration-server/app): Registry_Model (models.py: a record per table, the
    constraints, and a locale for the session's \<open>get\<close>, \<open>add\<close> and attribute writes, interpreted for
    every table), Registry_Core (the request transaction, audit trail, authentication, challenges and signed
    authorizations of main.py), Registry_Device and Registry_Admin (its routes, in the code's order).
    Registry_Spec is the abstract specification: a transition system over the tables that carry policy, with the
    invariant \<open>policy\<close>; Registry_Simulation shows that every handler is a sequence of its steps (a
    small program logic, one lemma per route), Registry_Worlds adds manage.py and the reachable worlds,
    Registry_Demo a concrete run, Registry_Safety the consequences (capacity of licenses, identities,
    entitlement, closed customers, the refinement itself). Registry_Schema and Registry_Rows relate the
    migrations, the mapped classes and the model's constraints; Registry_Requests is schemas.py;
    Registry_Guard the middleware with its limits.

  \<^item> The registration agent (device-registration/client.py): Client, with Client_Safety (what each
    check accepts, what each step keeps) and Client_Guarantees (authorized only by a signed document,
    denials that last, the grace period offline, what the key signs, the ways a run ends).

  \<^item> The VPN server (scripts/kdx-wg-server.py): Wg_Config (the configuration's text, its parser and
    printer), Wg_Server (requests, settings, allocation, the transaction with its rollback), Wg_Safety and
    Wg_Guarantees (the registry's invariant over any runs and failures, a failed run changes nothing,
    addresses, adding and removing as inverses).

  \<^item> Remote assistance on the device: Assist_Profile (remote_assist_config.py,
    wireguard_provisioning.py, device_identity.py), Assist_Host (scripts/remote-assist-host.py with
    wireguard_auto.py), Assist_Safety, Assist_Keyfile and Assist_Guarantees (undoing a failed request,
    routes kept apart from the appliance's networks, no injected lines, no keys in the status), and
    Assist_Enrol, where both ends meet: what the VPN server answers passes the device's checks unchanged.

  \<^item> The enclosure: Keypad (hardware/keypad.py's scanner, hardware/power_button.py), Lcd_Menu (the menus
    of hardware/keypad.py, the rows of hardware/lcd_panel.py), Lcd_Safety and Lcd_Guarantees (the keys and
    gestures are those of the history of samples, actions need their confirmation, no index out of range).

  \<^item> Sign-in (security/auth.py, security/lcd_access.py, api/auth.py): Auth, Auth_Safety, Auth_Guarantees
    (rate of the password checks, accepted sessions, changed passwords, the gate in front of the routes,
    the sockets). The queues of attempts interpret the locale of Windows, once per limit.

  \<^item> The task table (services/tasks.py, request_context of main.py): Tasks, Tasks_Guarantees. Its record
    is extended by the state of the two services below, which update tasks by its operations.

  \<^item> Remote desktops (services/guacamole.py, api/remote.py): Gateway (UTF-8, framing, reader, handshake),
    Gateway_Remote (a session with its relay and filter), Gateway_Safety and Gateway_Guarantees.

  \<^item> The staging storage (services/storage.py, with the moves of api/recovery.py and the status of
    services/virtual_media.py): Staging, Staging_Upload, Staging_Safety (what each step does, as weakest
    preconditions) and Staging_Guarantees (a transition system over interleaved uploads and the other
    operations with its invariants: what files hold, what is reserved, the quota).

  \<^bold>\<open>Loops and fuel.\<close> Loops over data are structural recursion or have a termination proof by a measure.
  The loops that the code writes as endless ones - the gateway's parser, its reader and the filter's
  loop - are \<open>partial_function (option)\<close>; that they return is a theorem. No definition
  runs on fuel. The endless loops of services (the panel, the power button) are modelled one turn at a time, and runs as
  lists of turns or events.

  \<^bold>\<open>Bounds.\<close> The code's own limits are definitions with its values (sessions, attempts, windows, buffer
  sizes, table sizes). A staging run assumes identifiers of 36 characters, as a UUID's text has, and that no
  upload begins under the identifier of one in progress; its quota theorem assumes declared lengths that are
  kept, that no file is published while it is replaced or under an uncounted name, and that no move stops
  half-way. Lemmas at the end of Staging_Guarantees show what happens otherwise. Instructions survive the
  gateway's stream when they are a read shorter than the limit. The agent's own files are writable.

  \<^bold>\<open>Not modelled.\<close> Characters above U+00FF, except in Gateway, where a text is a list of code points;
  floating point in JSON; file modes, owners and symbolic links; log lines, and the audit log of the
  sign-in; the cancellation of tasks when a process shuts down; threads that interleave inside a
  step (steps are as fine as the code's waits, locks and writes make them). pydantic's parsing of JSON, UUIDs, times
  and integers, TLS, cryptography and the host's tools are parameters. The rest of the appliance talks
  to hardware or host tools and keeps little state of its own: the probes, the video, serial and SSH
  consoles, the HID reports, the network forms, external storage, the helpers in src/scripts that drive
  NetworkManager or install files, and the dashboard, which proxies the registration server.
\<close>

end
